(* ===== verification/Prelude.thy ===== *)
theory Prelude
  imports Main "HOL-Library.Word" "HOL-Library.AList" "HOL-Library.Char_ord"
    "HOL-Library.List_Lexorder"
begin

section \<open>Prelude: machine data, UTF-8 strings, maps and results\<close>

text \<open>
  What the components of the local chat engine share: the widths of Rust's integers, big-endian
  byte fields, Rust's \<open>str\<close> as its UTF-8 bytes, the two map types of the standard library the
  code uses (\<open>HashMap\<close> as an association list in the map's unspecified iteration order and
  \<open>BTreeMap\<close> as an association list sorted by key), and errors as the left side of a sum.
  The generic lemmas the component proofs lean on are declared here, many of them as simp rules;
  the collection \<open>map_laws\<close> gathers what a lookup returns after an update.
\<close>

named_theorems map_laws \<open>lookups after map updates\<close>
named_theorems bytes_simps \<open>lengths and values of byte fields\<close>

type_synonym byte = "8 word"
type_synonym u8 = "8 word"
type_synonym u16 = "16 word"
type_synonym u64 = "64 word"

subsection \<open>Integers\<close>

definition sat_sub :: "u64 \<Rightarrow> u64 \<Rightarrow> u64" where
  "sat_sub a b = (if b \<le> a then a - b else 0)"

lemma unat_sat_sub [simp]: "unat (sat_sub a b) = unat a - unat b"
  by (auto simp: sat_sub_def unat_sub word_le_nat_alt)

lemma unat_Suc_less: "(a :: u64) < b \<Longrightarrow> unat (a + 1) = Suc (unat a)"
  by unat_arith

lemma word_next_eq: "\<not> s \<le> h \<Longrightarrow> \<not> h + 1 < s \<Longrightarrow> (s :: u64) = h + 1"
  using inc_le by (metis linorder_not_le order_antisym_conv)

lemma word_max_add_one: "(x :: u64) \<le> m \<Longrightarrow> m \<noteq> -1 \<Longrightarrow> x < m + 1"
  by (meson inc_less_eq_triv_imp linorder_not_le order.trans)

subsection \<open>Big-endian byte fields\<close>

fun be_bytes :: "nat \<Rightarrow> nat \<Rightarrow> byte list" where
  "be_bytes 0 x = []"
| "be_bytes (Suc n) x = be_bytes n (x div 256) @ [of_nat x]"

definition be_val :: "byte list \<Rightarrow> nat" where
  "be_val bs = foldl (\<lambda>a b. a * 256 + unat b) 0 bs"

lemma length_be_bytes [simp, bytes_simps]: "length (be_bytes n x) = n"
  by (induction n arbitrary: x) auto

lemma be_val_snoc [simp]: "be_val (bs @ [b]) = be_val bs * 256 + unat b"
  by (simp add: be_val_def)

lemma be_val_Nil [simp]: "be_val [] = 0"
  by (simp add: be_val_def)

lemma unat_byte_of_nat [simp]: "unat (of_nat x :: byte) = x mod 256"
  by (simp add: unat_of_nat)

lemma be_val_be_bytes [bytes_simps]: "be_val (be_bytes n x) = x mod 256 ^ n"
proof (induction n arbitrary: x)
  case (Suc n)
  have "x mod 256 ^ Suc n = 256 * (x div 256 mod 256 ^ n) + x mod 256"
    by (simp add: mod_mult2_eq)
  with Suc show ?case by simp
qed simp

lemma be_bytes_be_val [bytes_simps]: "be_bytes (length bs) (be_val bs) = bs"
proof (induction bs rule: rev_induct)
  case (snoc b bs)
  have "(be_val bs * 256 + unat b) div 256 = be_val bs"
    using unsigned_less [of b, where 'a = nat] by simp
  moreover have "(of_nat (be_val bs * 256 + unat b) :: byte) = b"
  proof -
    have "(of_nat (be_val bs * 256) :: byte) = of_nat (be_val bs) * of_nat 256"
      by (simp only: of_nat_mult)
    also have "(of_nat 256 :: byte) = 0" by simp
    finally show ?thesis by (simp add: of_nat_add)
  qed
  ultimately show ?case using snoc by simp
qed simp

lemma be_word [simp, bytes_simps]:
  fixes w :: "'a::len word"
  assumes "8 * n = LENGTH('a)"
  shows "of_nat (be_val (be_bytes n (unat w))) = w"
proof -
  have "(256 :: nat) ^ n = 2 ^ LENGTH('a)"
    by (simp add: power_mult flip: assms)
  then show ?thesis
    using unsigned_less [of w, where 'a = nat] by (simp add: be_val_be_bytes)
qed

lemma be_bytes_inj:
  assumes "be_bytes n x = be_bytes n y" "x < 256 ^ n" "y < 256 ^ n"
  shows "x = y"
proof -
  have "x mod 256 ^ n = y mod 256 ^ n"
    using arg_cong [OF assms(1), of be_val] by (simp add: be_val_be_bytes)
  with assms(2,3) show ?thesis by simp
qed

text \<open>The bytes of a string, \<open>as_bytes\<close>.\<close>

definition str_bytes :: "string \<Rightarrow> byte list" where
  "str_bytes s = map of_char s"

lemma unat_of_char_byte: "unat (of_char c :: byte) = of_char c"
proof -
  have "(of_char c :: byte) = of_nat (of_char c)"
    by (simp add: of_char_def of_bool_def horner_sum_eq_sum)
  moreover have "(of_char c :: nat) < 256" by (rule nat_of_char_less_256)
  ultimately show ?thesis by simp
qed

lemma of_char_byte_inj: "(of_char c :: byte) = of_char d \<Longrightarrow> c = d"
  by (metis unat_of_char_byte of_char_eq_iff)

lemma length_str_bytes [simp, bytes_simps]: "length (str_bytes s) = length s"
  by (simp add: str_bytes_def)

lemma str_bytes_inj [simp]: "str_bytes s = str_bytes t \<longleftrightarrow> s = t"
  unfolding str_bytes_def
  by (simp add: inj_def inj_map_eq_map of_char_byte_inj)

subsection \<open>Rust strings\<close>

text \<open>
  A \<open>str\<close> is the list of its UTF-8 bytes, so \<open>len()\<close> is \<^const>\<open>length\<close>. Its characters are
  the maximal runs of one leading byte and the continuation bytes (\<open>10xxxxxx\<close>) after it.
\<close>

definition is_cont :: "char \<Rightarrow> bool" where
  "is_cont c \<longleftrightarrow> (of_char c :: nat) div 64 = 2"

function chars :: "string \<Rightarrow> string list" where
  "chars [] = []"
| "chars (c # cs) = (c # takeWhile is_cont cs) # chars (dropWhile is_cont cs)"
  by pat_completeness auto
termination
  by (relation "measure length") (auto simp: length_dropWhile_le less_Suc_eq_le)

definition char_count :: "string \<Rightarrow> nat" where
  "char_count s = length (chars s)"

lemma concat_chars [simp]: "concat (chars s) = s"
  by (induction s rule: chars.induct) auto

lemma chars_ascii: "(\<And>c. c \<in> set s \<Longrightarrow> \<not> is_cont c) \<Longrightarrow> chars s = map (\<lambda>c. [c]) s"
proof (induction s)
  case (Cons c cs)
  then have "takeWhile is_cont cs = []" "dropWhile is_cont cs = cs"
    by (cases cs; simp)+
  with Cons show ?case by simp
qed simp

text \<open>The well-formed UTF-8 byte sequences, which is what a \<open>str\<close> consists of.\<close>

definition utf8_char :: "string \<Rightarrow> bool" where
  "utf8_char x = (case map (of_char :: char \<Rightarrow> nat) x of
     [a] \<Rightarrow> a < 128
   | [a, b] \<Rightarrow> 194 \<le> a \<and> a \<le> 223 \<and> b div 64 = 2
   | [a, b, c] \<Rightarrow> 224 \<le> a \<and> a \<le> 239 \<and> b div 64 = 2 \<and> c div 64 = 2
       \<and> (a = 224 \<longrightarrow> 160 \<le> b) \<and> (a = 237 \<longrightarrow> b \<le> 159)
   | [a, b, c, d] \<Rightarrow> 240 \<le> a \<and> a \<le> 244 \<and> b div 64 = 2 \<and> c div 64 = 2 \<and> d div 64 = 2
       \<and> (a = 240 \<longrightarrow> 144 \<le> b) \<and> (a = 244 \<longrightarrow> b \<le> 143)
   | _ \<Rightarrow> False)"

definition utf8_ok :: "string \<Rightarrow> bool" where
  "utf8_ok s = list_all utf8_char (chars s)"

lemma utf8_char_lead: "utf8_char (c # cs) \<Longrightarrow> \<not> is_cont c"
  by (auto simp: utf8_char_def is_cont_def split: list.splits)

lemma utf8_char_multi: "utf8_char (c # d # cs) \<Longrightarrow> 194 \<le> (of_char c :: nat)"
  by (auto simp: utf8_char_def split: list.splits)

lemma chars_append:
  "t = [] \<or> \<not> is_cont (hd t) \<Longrightarrow> chars (s @ t) = chars s @ chars t"
proof (induction s rule: chars.induct)
  case (2 c cs)
  have tw: "takeWhile is_cont (cs @ t) = takeWhile is_cont cs"
    using "2.prems" by (cases t) (auto simp: takeWhile_append intro: takeWhile_eq_all_conv [THEN iffD2, symmetric])
  have dw: "dropWhile is_cont (cs @ t) = dropWhile is_cont cs @ t"
    using "2.prems" by (cases t) (auto simp: dropWhile_append dropWhile_eq_Nil_conv)
  show ?case using 2 by (simp add: tw dw)
qed simp

lemma utf8_ok_hd: "utf8_ok t \<Longrightarrow> t = [] \<or> \<not> is_cont (hd t)"
  by (cases t) (auto simp: utf8_ok_def dest: utf8_char_lead)

lemma utf8_ok_append: "utf8_ok s \<Longrightarrow> utf8_ok t \<Longrightarrow> utf8_ok (s @ t)"
  using chars_append [OF utf8_ok_hd] by (simp add: utf8_ok_def)

text \<open>The characters of \<open>char::is_whitespace\<close> (the Unicode property White\_Space).\<close>

definition whitespace :: "string list" where
  "whitespace = [[CHR 0x09], [CHR 0x0A], [CHR 0x0B], [CHR 0x0C], [CHR 0x0D], [CHR 0x20],
     [CHR 0xC2, CHR 0x85], [CHR 0xC2, CHR 0xA0], [CHR 0xE1, CHR 0x9A, CHR 0x80],
     [CHR 0xE2, CHR 0x80, CHR 0x80], [CHR 0xE2, CHR 0x80, CHR 0x81],
     [CHR 0xE2, CHR 0x80, CHR 0x82], [CHR 0xE2, CHR 0x80, CHR 0x83],
     [CHR 0xE2, CHR 0x80, CHR 0x84], [CHR 0xE2, CHR 0x80, CHR 0x85],
     [CHR 0xE2, CHR 0x80, CHR 0x86], [CHR 0xE2, CHR 0x80, CHR 0x87],
     [CHR 0xE2, CHR 0x80, CHR 0x88], [CHR 0xE2, CHR 0x80, CHR 0x89],
     [CHR 0xE2, CHR 0x80, CHR 0x8A], [CHR 0xE2, CHR 0x80, CHR 0xA8],
     [CHR 0xE2, CHR 0x80, CHR 0xA9], [CHR 0xE2, CHR 0x80, CHR 0xAF],
     [CHR 0xE2, CHR 0x81, CHR 0x9F], [CHR 0xE3, CHR 0x80, CHR 0x80]]"

definition is_ws :: "string \<Rightarrow> bool" where
  "is_ws c \<longleftrightarrow> c \<in> set whitespace"

definition trim_chars :: "string list \<Rightarrow> string list" where
  "trim_chars cs = rev (dropWhile is_ws (rev (dropWhile is_ws cs)))"

definition trim :: "string \<Rightarrow> string" where
  "trim s = concat (trim_chars (chars s))"

lemma set_trim_chars: "set (trim_chars cs) \<subseteq> set cs"
  unfolding trim_chars_def by (metis set_dropWhileD set_rev subsetI)

lemma trim_chars_id:
  assumes "cs \<noteq> []" "\<not> is_ws (hd cs)" "\<not> is_ws (last cs)"
  shows "trim_chars cs = cs"
proof -
  have "dropWhile is_ws cs = cs" using assms by (cases cs) auto
  moreover have "dropWhile is_ws (rev cs) = rev cs"
    using assms by (cases "rev cs") (auto simp: last_rev hd_rev[symmetric] split: if_splits)
  ultimately show ?thesis by (simp add: trim_chars_def)
qed

definition ascii_alnum :: "char \<Rightarrow> bool" where
  "ascii_alnum c \<longleftrightarrow> CHR ''0'' \<le> c \<and> c \<le> CHR ''9'' \<or> CHR ''A'' \<le> c \<and> c \<le> CHR ''Z''
     \<or> CHR ''a'' \<le> c \<and> c \<le> CHR ''z''"

definition is_ascii :: "char \<Rightarrow> bool" where
  "is_ascii c \<longleftrightarrow> (of_char c :: nat) < 128"

definition ascii_upper :: "char \<Rightarrow> char" where
  "ascii_upper c = (if CHR ''a'' \<le> c \<and> c \<le> CHR ''z'' then char_of ((of_char c :: nat) - 32) else c)"

definition ascii_lower :: "char \<Rightarrow> char" where
  "ascii_lower c = (if CHR ''A'' \<le> c \<and> c \<le> CHR ''Z'' then char_of ((of_char c :: nat) + 32) else c)"

definition strip_prefix :: "string \<Rightarrow> string \<Rightarrow> string option" where
  "strip_prefix p s = (if take (length p) s = p then Some (drop (length p) s) else None)"

lemma strip_prefix_append [simp]: "strip_prefix p (p @ s) = Some s"
  by (simp add: strip_prefix_def)

text \<open>\<open>str::lines\<close>: the pieces between line feeds, without a carriage return before the line feed.\<close>

abbreviation lf :: char where "lf \<equiv> CHR 0x0A"

definition strip_cr :: "string \<Rightarrow> string" where
  "strip_cr l = (if l \<noteq> [] \<and> last l = CHR 0x0D then butlast l else l)"

function str_lines :: "string \<Rightarrow> string list" where
  "str_lines s =
     (if s = [] then []
      else let l = takeWhile (\<lambda>c. c \<noteq> lf) s in
        if length l < length s then strip_cr l # str_lines (drop (Suc (length l)) s) else [l])"
  by pat_completeness auto
termination
  by (relation "measure length") (auto simp: Let_def)

declare str_lines.simps [simp del]

lemma str_lines_Nil [simp]: "str_lines [] = []"
  by (simp add: str_lines.simps)

lemma takeWhile_lf [simp]: "lf \<notin> set l \<Longrightarrow> takeWhile (\<lambda>c. c \<noteq> lf) (l @ lf # r) = l"
  by (induction l) auto

lemma str_lines_Cons: "lf \<notin> set l \<Longrightarrow> str_lines (l @ lf # r) = strip_cr l # str_lines r"
  by (subst str_lines.simps) (simp add: Let_def)

lemma str_lines_last: "lf \<notin> set l \<Longrightarrow> l \<noteq> [] \<Longrightarrow> str_lines l = [l]"
proof -
  assume "lf \<notin> set l" "l \<noteq> []"
  then have tw: "takeWhile (\<lambda>c. c \<noteq> lf) l = l" by (induction l) auto
  show ?thesis unfolding str_lines.simps [of l] Let_def tw using \<open>l \<noteq> []\<close> by simp
qed

text \<open>A text of complete lines splits line by line.\<close>

definition complete_lines :: "string \<Rightarrow> bool" where
  "complete_lines s \<longleftrightarrow> s = [] \<or> last s = lf"

lemma str_lines_append: "complete_lines s \<Longrightarrow> str_lines (s @ t) = str_lines s @ str_lines t"
proof (induction s rule: length_induct)
  case (1 s)
  show ?case
  proof (cases "s = []")
    case False
    with "1.prems" have "lf \<in> set s" by (metis complete_lines_def last_in_set)
    then obtain l r where s: "s = l @ lf # r" "lf \<notin> set l" by (metis split_list_first)
    then have "complete_lines r" using "1.prems" by (auto simp: complete_lines_def split: if_splits)
    with 1 s have "str_lines (r @ t) = str_lines r @ str_lines t" by simp
    then show ?thesis using s by (simp add: str_lines_Cons)
  qed simp
qed

text \<open>Decimal \<open>Display\<close> of integers.\<close>

fun show_nat :: "nat \<Rightarrow> string" where
  "show_nat n = (if n < 10 then [char_of (48 + n)] else show_nat (n div 10) @ [char_of (48 + n mod 10)])"

declare show_nat.simps [simp del]

lemma show_nat_digits: "c \<in> set (show_nat n) \<Longrightarrow> CHR ''0'' \<le> c \<and> c \<le> CHR ''9''"
proof (induction n rule: show_nat.induct)
  case (1 n)
  then show ?case
    by (subst (asm) show_nat.simps)
      (auto simp: less_eq_char_def of_char_of split: if_splits)
qed

subsection \<open>Results\<close>

text \<open>\<open>Result<T, E>\<close>: an error is \<^const>\<open>Inl\<close>; \<open>r_bind\<close> is the \<open>?\<close> operator.\<close>

fun r_bind :: "'e + 'a \<Rightarrow> ('a \<Rightarrow> 'e + 'b) \<Rightarrow> 'e + 'b" where
  "r_bind (Inl e) f = Inl e"
| "r_bind (Inr x) f = f x"

lemma r_bind_Inr: "r_bind r f = Inr y \<longleftrightarrow> (\<exists>x. r = Inr x \<and> f x = Inr y)"
  by (cases r) auto

lemma r_bind_Inl: "r_bind r f = Inl e \<longleftrightarrow> r = Inl e \<or> (\<exists>x. r = Inr x \<and> f x = Inl e)"
  by (cases r) auto

end
