(* ===== verification/Maps.thy ===== *)
theory Maps
  imports Prelude
begin

section \<open>The standard library's maps\<close>

text \<open>
  The engine keeps its state in \<open>HashMap\<close>s and \<open>BTreeMap\<close>s. Both are association lists with one
  entry per key here, which is what iteration over them yields: a \<open>HashMap\<close> in an unspecified order
  (a new key goes last), a \<open>BTreeMap\<close> in the order of its keys. The locale \<open>map_impl\<close> is the
  contract the engine relies on (what \<open>get\<close> returns after \<open>insert\<close>, \<open>remove\<close> and \<open>retain\<close>, and that
  iteration visits exactly the stored entries); both maps are interpretations of it.
\<close>

type_synonym ('k, 'v) hmap = "('k \<times> 'v) list"
type_synonym ('k, 'v) btmap = "('k \<times> 'v) list"

abbreviation hm_put :: "'k \<Rightarrow> 'v \<Rightarrow> ('k, 'v) hmap \<Rightarrow> ('k, 'v) hmap" where
  "hm_put \<equiv> AList.update"

abbreviation hm_del :: "'k \<Rightarrow> ('k, 'v) hmap \<Rightarrow> ('k, 'v) hmap" where
  "hm_del \<equiv> AList.delete"

definition retain :: "('k \<Rightarrow> 'v \<Rightarrow> bool) \<Rightarrow> ('k \<times> 'v) list \<Rightarrow> ('k \<times> 'v) list" where
  "retain P m = filter (\<lambda>(k, v). P k v) m"

fun bt_put :: "'k::linorder \<Rightarrow> 'v \<Rightarrow> ('k, 'v) btmap \<Rightarrow> ('k, 'v) btmap" where
  "bt_put k v [] = [(k, v)]"
| "bt_put k v ((a, b) # m) =
     (if k < a then (k, v) # (a, b) # m
      else if k = a then (k, v) # m
      else (a, b) # bt_put k v m)"

abbreviation hm_ok :: "('k \<times> 'v) list \<Rightarrow> bool" where
  "hm_ok m \<equiv> distinct (map fst m)"

abbreviation bt_ok :: "('k::linorder \<times> 'v) list \<Rightarrow> bool" where
  "bt_ok m \<equiv> sorted_wrt (<) (map fst m)"

lemma hm_get_put [simp, map_laws]: "map_of (hm_put k v m) = (map_of m)(k \<mapsto> v)"
  by (rule update_conv')

lemma hm_get_del [simp, map_laws]: "map_of (hm_del k m) = (map_of m)(k := None)"
  by (rule delete_conv')

lemma bt_get_put [simp, map_laws]: "map_of (bt_put k v m) = (map_of m)(k \<mapsto> v)"
  by (induction k v m rule: bt_put.induct) (auto simp: fun_eq_iff)

lemma get_retain [map_laws]:
  "hm_ok m \<Longrightarrow> map_of (retain P m) k = (case map_of m k of Some v \<Rightarrow> if P k v then Some v else None | None \<Rightarrow> None)"
  unfolding retain_def
proof (induction m)
  case (Cons e m)
  obtain a b where e: "e = (a, b)" by (cases e)
  have "a \<notin> fst ` set m \<Longrightarrow> map_of (filter (\<lambda>(k, v). P k v) m) a = None"
    by (auto simp: map_of_eq_None_iff image_iff)
  with Cons e show ?case by (auto split: option.splits)
qed simp

lemma get_retain_key [simp, map_laws]:
  "map_of (retain (\<lambda>k _. P k) m) k = (if P k then map_of m k else None)"
  unfolding retain_def by (induction m) auto

lemma get_retain_Some: "map_of (retain P m) k = Some v \<Longrightarrow> hm_ok m \<Longrightarrow> map_of m k = Some v \<and> P k v"
  by (auto simp: get_retain split: option.splits if_splits)

lemma set_retain [simp]: "(k, v) \<in> set (retain P m) \<longleftrightarrow> (k, v) \<in> set m \<and> P k v"
  by (auto simp: retain_def)

lemma hm_ok_put [simp]: "hm_ok m \<Longrightarrow> hm_ok (hm_put k v m)"
  by (rule distinct_update)

lemma hm_ok_del [simp]: "hm_ok m \<Longrightarrow> hm_ok (hm_del k m)"
  by (rule distinct_delete)

lemma hm_ok_retain [simp]: "hm_ok m \<Longrightarrow> hm_ok (retain P m)"
  unfolding retain_def by (induction m) (auto simp: image_iff)

lemma bt_keys_put: "fst ` set (bt_put k v m) = insert k (fst ` set m)"
  by (induction k v m rule: bt_put.induct) auto

lemma bt_ok_put [simp]: "bt_ok m \<Longrightarrow> bt_ok (bt_put k v m)"
proof (induction k v m rule: bt_put.induct)
  case (2 k v a b m)
  have "\<forall>x\<in>fst ` set (bt_put k v m). x = k \<or> x \<in> fst ` set m"
    by (simp add: bt_keys_put)
  with 2 show ?case by (fastforce split: if_splits)
qed simp

lemma bt_ok_retain [simp]: "bt_ok m \<Longrightarrow> bt_ok (retain P m)"
  unfolding retain_def by (induction m) auto

lemma bt_ok_distinct [simp]: "bt_ok m \<Longrightarrow> hm_ok m"
  using strict_sorted_iff by blast

lemma del_retain: "hm_del k m = retain (\<lambda>k' _. k' \<noteq> k) m"
  by (auto simp: AList.delete_eq retain_def intro: filter_cong)

lemma bt_ok_del [simp]: "bt_ok m \<Longrightarrow> bt_ok (hm_del k m)"
  by (simp add: del_retain)

subsection \<open>The contract of a map\<close>

locale map_impl =
  fixes get :: "'m \<Rightarrow> 'k \<Rightarrow> 'v option"
    and put :: "'k \<Rightarrow> 'v \<Rightarrow> 'm \<Rightarrow> 'm"
    and del :: "'k \<Rightarrow> 'm \<Rightarrow> 'm"
    and keep :: "('k \<Rightarrow> 'v \<Rightarrow> bool) \<Rightarrow> 'm \<Rightarrow> 'm"
    and entries :: "'m \<Rightarrow> ('k \<times> 'v) list"
    and inv :: "'m \<Rightarrow> bool"
  assumes law_put: "inv m \<Longrightarrow> get (put k v m) = (get m)(k \<mapsto> v)"
    and law_del: "inv m \<Longrightarrow> get (del k m) = (get m)(k := None)"
    and law_keep: "inv m \<Longrightarrow> get (keep P m) k =
           (case get m k of Some v \<Rightarrow> if P k v then Some v else None | None \<Rightarrow> None)"
    and law_entries: "inv m \<Longrightarrow> (k, v) \<in> set (entries m) \<longleftrightarrow> get m k = Some v"
    and law_distinct: "inv m \<Longrightarrow> distinct (map fst (entries m))"
    and inv_put: "inv m \<Longrightarrow> inv (put k v m)"
    and inv_del: "inv m \<Longrightarrow> inv (del k m)"
    and inv_keep: "inv m \<Longrightarrow> inv (keep P m)"
begin

text \<open>A property of every entry: the shape of most of the engine's invariants.\<close>

lemma all_put:
  assumes "inv m" "\<forall>k v. get m k = Some v \<longrightarrow> Q k v" "Q k v"
  shows "\<forall>k' v'. get (put k v m) k' = Some v' \<longrightarrow> Q k' v'"
  using assms by (auto simp: law_put)

lemma all_del:
  assumes "inv m" "\<forall>k v. get m k = Some v \<longrightarrow> Q k v"
  shows "\<forall>k' v'. get (del k m) k' = Some v' \<longrightarrow> Q k' v'"
  using assms by (auto simp: law_del)

lemma all_keep:
  assumes "inv m" "\<forall>k v. get m k = Some v \<longrightarrow> Q k v"
  shows "\<forall>k' v'. get (keep P m) k' = Some v' \<longrightarrow> Q k' v' \<and> P k' v'"
  using assms by (auto simp: law_keep split: option.splits if_splits)

lemma entries_keep:
  assumes "inv m"
  shows "set (entries (keep P m)) = {(k, v) \<in> set (entries m). P k v}"
  using assms by (auto simp: law_entries law_keep inv_keep split: option.splits if_splits)

lemma entries_set_conv:
  assumes "inv m"
  shows "set (entries m) = {(k, v). get m k = Some v}"
  using assms by (auto simp: law_entries)

lemma size_entries:
  assumes "inv m"
  shows "length (entries m) = card (dom (get m))"
proof -
  have "dom (get m) = set (map fst (entries m))"
    using law_entries [OF assms] by (force simp: dom_def)
  then show ?thesis
    using law_distinct [OF assms] by (simp add: distinct_card del: set_map)
qed

lemma size_put:
  assumes "inv m"
  shows "length (entries (put k v m)) = (if get m k = None then Suc (length (entries m)) else length (entries m))"
proof -
  have fin: "finite (dom (get m))"
  proof -
    have "dom (get m) = fst ` set (entries m)"
      using law_entries [OF assms] by (force simp: dom_def)
    then show ?thesis by simp
  qed
  then show ?thesis
    using assms by (auto simp: size_entries inv_put law_put card_insert_if insert_absorb domIff)
qed

end

interpretation hm: map_impl map_of hm_put hm_del retain "\<lambda>m. m" hm_ok
  by unfold_locales (auto simp: get_retain)

interpretation bt: map_impl map_of bt_put hm_del retain "\<lambda>m. m" bt_ok
  by unfold_locales (auto simp: get_retain)

text \<open>Counting the entries a predicate selects, before and after an insert of a new key.\<close>

lemma count_put_new:
  "map_of m k = None \<Longrightarrow>
   length (filter P (hm_put k v m)) = length (filter P m) + (if P (k, v) then 1 else 0)"
  by (induction m) (auto split: if_splits)

lemma count_put_le:
  "hm_ok m \<Longrightarrow> length (filter P (hm_put k v m)) \<le> Suc (length (filter P (hm_del k m)))"
proof (induction m)
  case (Cons e m)
  have "hm_del k m = m" if "fst e = k"
  proof -
    have "k \<notin> fst ` set m" using Cons.prems that by auto
    then show ?thesis by (induction m) auto
  qed
  with Cons show ?case by (cases e) auto
qed simp

lemma count_retain_le: "length (filter P (retain Q m)) \<le> length (filter P m)"
  by (induction m) (auto simp: retain_def)

lemma length_retain_le: "length (retain Q m) \<le> length m"
  by (simp add: retain_def)

end
