(* ===== verification/Ext.thy ===== *)
theory Ext
  imports Maps
begin

section \<open>Third-party code the engine calls\<close>

text \<open>
  The sources call crates that are not part of the repository: \<open>iroh\<close> (node ids, ed25519 keys),
  \<open>data_encoding\<close> (hex, base32, base64) and, through \<open>serde_json\<close>, JSON. Their functions are the
  fields of the record \<open>ext\<close>, which every definition that uses them takes as an argument; the
  textual forms of \<open>std::net::SocketAddr\<close> and Unicode's alphanumeric table are fields too. What the
  code relies on about them is stated as the named predicates below, and \<open>ref_ext\<close> is a concrete
  instance that satisfies all of them.
\<close>

datatype node_id = NodeId (nid_bytes: "byte list")
datatype secret_key = SecretKey "byte list"
datatype ip_addr = IpV4 "32 word" | IpV6 "128 word"
datatype sock_addr = SocketAddr (sa_ip: ip_addr) (sa_port: u16)

record ext =
  nid_parse :: "string \<Rightarrow> node_id option"        \<comment> \<open>\<open>NodeId::from_str\<close>\<close>
  nid_show :: "node_id \<Rightarrow> string"                \<comment> \<open>\<open>NodeId::to_string\<close>\<close>
  nid_from_bytes :: "byte list \<Rightarrow> node_id option" \<comment> \<open>\<open>NodeId::from_bytes\<close>\<close>
  public_key :: "secret_key \<Rightarrow> node_id"          \<comment> \<open>\<open>SecretKey::public\<close>\<close>
  sk_sign :: "secret_key \<Rightarrow> byte list \<Rightarrow> byte list" \<comment> \<open>\<open>SecretKey::sign(..).to_bytes()\<close>\<close>
  nid_verify :: "node_id \<Rightarrow> byte list \<Rightarrow> byte list \<Rightarrow> bool" \<comment> \<open>\<open>NodeId::verify(..).is_ok()\<close>\<close>
  hex_enc :: "byte list \<Rightarrow> string"               \<comment> \<open>\<open>HEXLOWER.encode\<close>\<close>
  hex_dec :: "string \<Rightarrow> byte list option"
  b32_enc :: "byte list \<Rightarrow> string"               \<comment> \<open>\<open>BASE32_NOPAD.encode\<close>\<close>
  b32_dec :: "string \<Rightarrow> byte list option"
  b64_enc :: "byte list \<Rightarrow> string"               \<comment> \<open>\<open>BASE64.encode\<close>\<close>
  b64_dec :: "string \<Rightarrow> byte list option"
  b64url_dec :: "string \<Rightarrow> byte list option"     \<comment> \<open>\<open>BASE64URL_NOPAD.decode\<close>\<close>
  sock_parse :: "string \<Rightarrow> sock_addr option"     \<comment> \<open>\<open>str::parse::<SocketAddr>\<close>\<close>
  sock_show :: "sock_addr \<Rightarrow> string"             \<comment> \<open>\<open>SocketAddr::to_string\<close>\<close>
  uni_alnum :: "string \<Rightarrow> bool"                  \<comment> \<open>\<open>char::is_alphanumeric\<close> beyond ASCII\<close>

subsection \<open>What the code relies on\<close>

definition hex_alphabet :: string where "hex_alphabet = ''0123456789abcdef''"

definition hex_laws :: "'a ext_scheme \<Rightarrow> bool" where
  "hex_laws E \<longleftrightarrow> (\<forall>b. hex_dec E (hex_enc E b) = Some b)
     \<and> (\<forall>s b. hex_dec E s = Some b \<longrightarrow> hex_enc E b = s)
     \<and> (\<forall>b. length (hex_enc E b) = 2 * length b)
     \<and> (\<forall>b. set (hex_enc E b) \<subseteq> set hex_alphabet)"

text \<open>A parsed node id is a 32-byte key and prints back to a string that parses to it.\<close>

definition node_laws :: "'a ext_scheme \<Rightarrow> bool" where
  "node_laws E \<longleftrightarrow> (\<forall>s n. nid_parse E s = Some n \<longrightarrow> length (nid_bytes n) = 32
       \<and> nid_parse E (nid_show E n) = Some n \<and> nid_from_bytes E (nid_bytes n) = Some n)
     \<and> (\<forall>b n. nid_from_bytes E b = Some n \<longrightarrow> nid_bytes n = b)"

definition sig_laws :: "'a ext_scheme \<Rightarrow> bool" where
  "sig_laws E \<longleftrightarrow> (\<forall>sk m. nid_verify E (public_key E sk) m (sk_sign E sk m))
     \<and> (\<forall>sk m. length (sk_sign E sk m) = 64)"

definition b32_alphabet :: string where
  "b32_alphabet = ''ABCDEFGHIJKLMNOPQRSTUVWXYZ234567''"

definition b32_laws :: "'a ext_scheme \<Rightarrow> bool" where
  "b32_laws E \<longleftrightarrow> (\<forall>b. b32_dec E (b32_enc E b) = Some b)
     \<and> (\<forall>b. set (b32_enc E b) \<subseteq> set b32_alphabet) \<and> (\<forall>b. b \<noteq> [] \<longrightarrow> b32_enc E b \<noteq> [])"

definition b64_laws :: "'a ext_scheme \<Rightarrow> bool" where
  "b64_laws E \<longleftrightarrow> (\<forall>b. b64_dec E (b64_enc E b) = Some b)"

definition sock_laws :: "'a ext_scheme \<Rightarrow> bool" where
  "sock_laws E \<longleftrightarrow> (\<forall>a. sock_parse E (sock_show E a) = Some a)"

subsection \<open>A concrete instance\<close>

text \<open>Two characters of a sixteen-letter alphabet per byte: hexadecimal, and what stands in for the
  other encodings in \<open>ref_ext\<close>.\<close>

fun index_of :: "string \<Rightarrow> char \<Rightarrow> nat option" where
  "index_of [] c = None"
| "index_of (a # al) c = (if a = c then Some 0 else map_option Suc (index_of al c))"

definition nib_enc :: "string \<Rightarrow> byte list \<Rightarrow> string" where
  "nib_enc al bs = concat (map (\<lambda>b. [al ! (unat b div 16), al ! (unat b mod 16)]) bs)"

fun nib_dec :: "string \<Rightarrow> string \<Rightarrow> byte list option" where
  "nib_dec al [] = Some []"
| "nib_dec al [c] = None"
| "nib_dec al (c # d # s) =
     (case (index_of al c, index_of al d, nib_dec al s) of
        (Some i, Some j, Some bs) \<Rightarrow> Some (of_nat (16 * i + j) # bs)
      | _ \<Rightarrow> None)"

lemma index_of_nth: "distinct al \<Longrightarrow> i < length al \<Longrightarrow> index_of al (al ! i) = Some i"
  by (induction al arbitrary: i) (auto simp: nth_Cons split: nat.splits)

lemma index_of_Some: "index_of al c = Some i \<Longrightarrow> i < length al \<and> al ! i = c"
  by (induction al arbitrary: i) (auto split: if_splits)

lemma nib_dec_enc:
  assumes "distinct al" "length al = 16"
  shows "nib_dec al (nib_enc al bs) = Some bs"
proof (induction bs)
  case (Cons b bs)
  have "unat b < 256" using unsigned_less [of b, where 'a = nat] by simp
  with assms Cons show ?case
    by (simp add: nib_enc_def index_of_nth less_mult_imp_div_less)
qed (simp add: nib_enc_def)

lemma nib_enc_dec:
  assumes "nib_dec al s = Some bs" "length al = 16"
  shows "nib_enc al bs = s"
  using assms
proof (induction al s arbitrary: bs rule: nib_dec.induct)
  case (3 al c d s)
  then obtain i j bs' where ij: "index_of al c = Some i" "index_of al d = Some j"
    and bs': "nib_dec al s = Some bs'" and bs: "bs = of_nat (16 * i + j) # bs'"
    by (auto split: option.splits)
  from ij 3 have "i < 16" "j < 16" "al ! i = c" "al ! j = d"
    by (auto dest: index_of_Some)
  moreover have "nib_enc al bs' = s" using 3 ij bs' by auto
  moreover have "unat (of_nat (16 * i + j) :: byte) = 16 * i + j"
    using \<open>i < 16\<close> \<open>j < 16\<close> by (simp only: unat_byte_of_nat mod_less)
  ultimately show ?case using bs by (simp add: nib_enc_def del: of_nat_add of_nat_mult)
qed (auto simp: nib_enc_def)

lemma length_nib_enc: "length (nib_enc al bs) = 2 * length bs"
  by (induction bs) (auto simp: nib_enc_def)

lemma set_nib_enc: "length al = 16 \<Longrightarrow> set (nib_enc al bs) \<subseteq> set al"
proof (induction bs)
  case (Cons b bs)
  have "unat b < 256" using unsigned_less [of b, where 'a = nat] by simp
  then have "unat b div 16 < length al" "unat b mod 16 < length al"
    using Cons.prems by (auto simp: less_mult_imp_div_less)
  then show ?case using Cons by (auto simp: nib_enc_def)
qed (simp add: nib_enc_def)

definition half_b32 :: string where "half_b32 = ''ABCDEFGHIJKLMNOP''"

lemma alphabets_ok [simp]:
  "distinct hex_alphabet" "length hex_alphabet = 16" "distinct half_b32" "length half_b32 = 16"
  by (simp_all add: hex_alphabet_def half_b32_def)

definition ref_sock_bytes :: "sock_addr \<Rightarrow> byte list" where
  "ref_sock_bytes a = (case sa_ip a of IpV4 w \<Rightarrow> be_bytes 4 (unat w) | IpV6 w \<Rightarrow> be_bytes 16 (unat w))
     @ be_bytes 2 (unat (sa_port a))"

definition ref_sock_of_bytes :: "byte list \<Rightarrow> sock_addr option" where
  "ref_sock_of_bytes b =
     (if length b = 6 then Some (SocketAddr (IpV4 (of_nat (be_val (take 4 b)))) (of_nat (be_val (drop 4 b))))
      else if length b = 18 then Some (SocketAddr (IpV6 (of_nat (be_val (take 16 b)))) (of_nat (be_val (drop 16 b))))
      else None)"

definition ref_ext :: ext where
  "ref_ext = \<lparr>
     nid_parse = (\<lambda>s. case nib_dec hex_alphabet s of
        Some b \<Rightarrow> if length b = 32 then Some (NodeId b) else None | None \<Rightarrow> None),
     nid_show = (\<lambda>n. nib_enc hex_alphabet (nid_bytes n)),
     nid_from_bytes = (\<lambda>b. if length b = 32 then Some (NodeId b) else None),
     public_key = (\<lambda>k. case k of SecretKey b \<Rightarrow> NodeId b),
     sk_sign = (\<lambda>k m. case k of SecretKey b \<Rightarrow> be_bytes 64 (be_val (b @ m))),
     nid_verify = (\<lambda>n m sig. sig = be_bytes 64 (be_val (nid_bytes n @ m))),
     hex_enc = nib_enc hex_alphabet, hex_dec = nib_dec hex_alphabet,
     b32_enc = nib_enc half_b32, b32_dec = nib_dec half_b32,
     b64_enc = nib_enc hex_alphabet, b64_dec = nib_dec hex_alphabet, b64url_dec = nib_dec hex_alphabet,
     sock_parse = (\<lambda>s. case nib_dec hex_alphabet s of Some b \<Rightarrow> ref_sock_of_bytes b | None \<Rightarrow> None),
     sock_show = (\<lambda>a. nib_enc hex_alphabet (ref_sock_bytes a)),
     uni_alnum = (\<lambda>_. False) \<rparr>"

lemma ref_hex_laws [simp]: "hex_laws ref_ext"
  using set_nib_enc [of hex_alphabet]
  by (auto simp: hex_laws_def ref_ext_def nib_dec_enc length_nib_enc intro: nib_enc_dec)

lemma ref_node_laws [simp]: "node_laws ref_ext"
  by (auto simp: node_laws_def ref_ext_def nib_dec_enc split: option.splits if_splits)

lemma ref_sig_laws [simp]: "sig_laws ref_ext"
  by (simp add: sig_laws_def ref_ext_def split: secret_key.splits)

lemma ref_b32_laws [simp]: "b32_laws ref_ext"
proof -
  have "set (nib_enc half_b32 b) \<subseteq> set b32_alphabet" for b
    by (rule order_trans [OF set_nib_enc]) (simp, simp add: b32_alphabet_def half_b32_def)
  moreover have "b \<noteq> [] \<Longrightarrow> nib_enc half_b32 b \<noteq> []" for b
    by (cases b) (auto simp: nib_enc_def)
  ultimately show ?thesis
    by (simp add: b32_laws_def ref_ext_def nib_dec_enc)
qed

lemma ref_b64_laws [simp]: "b64_laws ref_ext"
  by (simp add: b64_laws_def ref_ext_def nib_dec_enc)

lemma ref_sock_laws [simp]: "sock_laws ref_ext"
proof -
  have "ref_sock_of_bytes (ref_sock_bytes a) = Some a" for a
    by (cases a; cases "sa_ip a")
      (simp_all add: ref_sock_bytes_def ref_sock_of_bytes_def)
  then show ?thesis
    by (simp add: sock_laws_def ref_ext_def nib_dec_enc)
qed

lemmas ref_laws = ref_hex_laws ref_node_laws ref_sig_laws ref_b32_laws ref_b64_laws ref_sock_laws

end
