(* ===== verification/Names.thy ===== *)
theory Names
  imports Ext
begin

section \<open>File names and transfer ids received from a peer\<close>

text \<open>
  The helpers of \<open>velta-app/src-tauri/src/p2p.rs\<close> that turn peer-supplied text into file names:
  \<open>sanitize_name\<close>, \<open>is_safe_transfer_id\<close>, \<open>mime_for\<close> and \<open>unique_path\<close>, with the two functions of
  \<open>std::path::Path\<close> the last one calls. The lemmas show that what they return names a file inside
  the directory it is joined to and, for \<open>unique_path\<close>, one that does not exist yet.
\<close>

definition sep :: "char \<Rightarrow> bool" where
  "sep c \<longleftrightarrow> c = CHR ''/'' \<or> c = CHR 0x5C"

definition last_seg :: "(char \<Rightarrow> bool) \<Rightarrow> string \<Rightarrow> string" where
  "last_seg P s = rev (takeWhile (\<lambda>c. \<not> P c) (rev s))"

definition is_alphanumeric :: "'a ext_scheme \<Rightarrow> string \<Rightarrow> bool" where
  "is_alphanumeric E x = (case x of [c] \<Rightarrow> if is_ascii c then ascii_alnum c else uni_alnum E x | _ \<Rightarrow> uni_alnum E x)"

definition keep_char :: "'a ext_scheme \<Rightarrow> string \<Rightarrow> bool" where
  "keep_char E x \<longleftrightarrow> is_alphanumeric E x \<or> x \<in> {''.'', ''_'', ''-'', '' ''}"

definition sanitize_name :: "'a ext_scheme \<Rightarrow> string \<Rightarrow> string" where
  "sanitize_name E name =
     (let base = trim (concat (filter (keep_char E) (chars (last_seg sep name))));
          out = (if length base > 80 then concat (take 80 (chars base)) else base)
      in if out = [] then ''file.bin'' else out)"

definition is_safe_transfer_id :: "string \<Rightarrow> bool" where
  "is_safe_transfer_id i \<longleftrightarrow> i \<noteq> [] \<and> length i \<le> 64
     \<and> list_all (\<lambda>b. ascii_alnum b \<or> b = CHR ''-'' \<or> b = CHR ''_'') i"

definition mime_for :: "string \<Rightarrow> string" where
  "mime_for name =
     (let e = map ascii_lower (last_seg (\<lambda>c. c = CHR ''.'') name) in
      if e = ''png'' then ''image/png''
      else if e = ''jpg'' \<or> e = ''jpeg'' then ''image/jpeg''
      else if e = ''gif'' then ''image/gif''
      else if e = ''webp'' then ''image/webp''
      else if e = ''bmp'' then ''image/bmp''
      else if e = ''mp4'' \<or> e = ''m4v'' \<or> e = ''mov'' then ''video/mp4''
      else if e = ''webm'' then ''video/webm''
      else if e = ''mp3'' then ''audio/mpeg''
      else if e = ''m4a'' then ''audio/mp4''
      else if e = ''ogg'' \<or> e = ''opus'' then ''audio/ogg''
      else if e = ''wav'' then ''audio/wav''
      else if e = ''pdf'' then ''application/pdf''
      else if e = ''txt'' then ''text/plain''
      else ''application/octet-stream'')"

text \<open>\<open>Path::file_name\<close>, \<open>file_stem\<close> and \<open>extension\<close> of a single path component.\<close>

definition file_name :: "string \<Rightarrow> string option" where
  "file_name n = (if n = [] \<or> n = ''.'' \<or> n = ''..'' then None else Some n)"

definition rsplit_dot :: "string \<Rightarrow> string option \<times> string option" where
  "rsplit_dot f =
     (if CHR ''.'' \<notin> set f then (None, Some f)
      else let after = last_seg (\<lambda>c. c = CHR ''.'') f;
               before = take (length f - length after - 1) f
           in if before = [] then (Some f, None) else (Some before, Some after))"

definition file_stem :: "string \<Rightarrow> string option" where
  "file_stem n = Option.bind (file_name n) (\<lambda>f. case rsplit_dot f of
     (Some b, _) \<Rightarrow> Some b | (None, a) \<Rightarrow> a)"

definition extension :: "string \<Rightarrow> string option" where
  "extension n = Option.bind (file_name n) (\<lambda>f. case rsplit_dot f of
     (Some b, a) \<Rightarrow> a | (None, _) \<Rightarrow> None)"

definition join :: "string \<Rightarrow> string \<Rightarrow> string" where
  "join d f = d @ ''/'' @ f"

definition up_stem :: "string \<Rightarrow> string" where
  "up_stem name = (case file_stem name of Some s \<Rightarrow> s | None \<Rightarrow> ''file'')"

definition up_ext :: "string \<Rightarrow> string" where
  "up_ext name = (case extension name of Some s \<Rightarrow> ''.'' @ s | None \<Rightarrow> [])"

definition up_candidate :: "string \<Rightarrow> nat \<Rightarrow> string" where
  "up_candidate name i =
     (if i = 0 then up_stem name @ up_ext name
      else up_stem name @ '' ('' @ show_nat i @ '')'' @ up_ext name)"

text \<open>\<open>exists\<close> is the file system's answer to \<open>Path::exists\<close>, \<open>stamp\<close> the result of \<open>now_ms()\<close>.\<close>

definition unique_name :: "(string \<Rightarrow> bool) \<Rightarrow> nat \<Rightarrow> string \<Rightarrow> string \<Rightarrow> string" where
  "unique_name exists stamp dir name =
     (case List.find (\<lambda>i. \<not> exists (join dir (up_candidate name i))) [0..<1000] of
        Some i \<Rightarrow> up_candidate name i
      | None \<Rightarrow> up_stem name @ ''-'' @ show_nat stamp @ up_ext name)"

definition unique_path :: "(string \<Rightarrow> bool) \<Rightarrow> nat \<Rightarrow> string \<Rightarrow> string \<Rightarrow> string" where
  "unique_path exists stamp dir name = join dir (unique_name exists stamp dir name)"

subsection \<open>Sanitized names\<close>

definition plain_byte :: "char \<Rightarrow> bool" where
  "plain_byte c \<longleftrightarrow> \<not> is_ascii c \<or> ascii_alnum c \<or> c \<in> set ''._- ''"

lemma chars_cont_tail: "x \<in> set (chars s) \<Longrightarrow> c \<in> set (tl x) \<Longrightarrow> is_cont c"
  by (induction s rule: chars.induct) (auto dest: set_takeWhileD)

lemma keep_char_plain:
  assumes "utf8_char x" "\<And>c. c \<in> set (tl x) \<Longrightarrow> is_cont c" "keep_char E x" "c \<in> set x"
  shows "plain_byte c"
proof -
  obtain d ds where x: "x = d # ds" using assms(1) by (cases x) (auto simp: utf8_char_def)
  show ?thesis
  proof (cases ds)
    case Nil
    with assms x show ?thesis
      by (auto simp: utf8_char_def plain_byte_def keep_char_def is_alphanumeric_def)
  next
    case (Cons e es)
    have "\<not> is_ascii c" if "is_cont c" for c
      using that by (simp add: is_ascii_def is_cont_def)
    with Cons have "\<not> is_ascii d" "\<forall>c\<in>set ds. \<not> is_ascii c"
      using assms(1,2) x by (auto simp: is_ascii_def dest: utf8_char_multi)
    with assms(4) x show ?thesis by (auto simp: plain_byte_def)
  qed
qed

lemma set_trim: "set (trim s) \<subseteq> set s"
proof -
  have "\<Union> (set ` set (trim_chars (chars s))) \<subseteq> \<Union> (set ` set (chars s))"
    using set_trim_chars by blast
  also have "\<dots> = set s" by (metis concat_chars set_concat)
  finally show ?thesis by (simp add: trim_def)
qed

lemma chars_take: "chars (concat (take n (chars s))) = take n (chars s)"
proof (induction s arbitrary: n rule: chars.induct)
  case (2 c cs)
  show ?case
  proof (cases n)
    case (Suc m)
    let ?r = "concat (take m (chars (dropWhile is_cont cs)))"
    have hd_nc: "?r = [] \<or> \<not> is_cont (hd ?r)"
    proof (cases "dropWhile is_cont cs")
      case (Cons d ds)
      then have "\<not> is_cont d" by (metis dropWhile_eq_Cons_conv)
      with Cons show ?thesis by (cases m) auto
    next
      case Nil
      show ?thesis unfolding Nil by simp
    qed
    have "takeWhile is_cont (takeWhile is_cont cs @ ?r) = takeWhile is_cont cs"
      using hd_nc by (subst takeWhile_append2) (auto dest: set_takeWhileD simp: takeWhile_eq_Nil_iff)
    moreover have "dropWhile is_cont (takeWhile is_cont cs @ ?r) = ?r"
      using hd_nc by (subst dropWhile_append2) (auto dest: set_takeWhileD simp: dropWhile_eq_self_iff)
    ultimately show ?thesis using Suc 2 by simp
  qed simp
qed simp

lemma length_chars_le: "length (chars s) \<le> length s"
proof (induction s rule: chars.induct)
  case (2 c cs)
  then show ?case using length_dropWhile_le [of is_cont cs] by simp
qed simp

lemma last_seg_subset: "set (last_seg P s) \<subseteq> {c \<in> set s. \<not> P c}"
  unfolding last_seg_def using set_takeWhileD by fastforce

lemma plain_not_sep: "plain_byte c \<Longrightarrow> \<not> sep c"
  by (auto simp: plain_byte_def sep_def is_ascii_def ascii_alnum_def less_eq_char_def)

lemma plain_fallback: "list_all plain_byte ''file.bin''"
  by code_simp

lemma utf8_ok_Cons_ascii:
  assumes "utf8_ok (c # s)" "is_ascii c"
  shows "utf8_ok s"
proof -
  have "takeWhile is_cont s = []"
    using assms by (cases "takeWhile is_cont s") (auto simp: utf8_ok_def is_ascii_def dest: utf8_char_multi)
  then have "dropWhile is_cont s = s" by (metis append_Nil takeWhile_dropWhile_id)
  with assms show ?thesis by (simp add: utf8_ok_def)
qed

lemma utf8_ok_after_ascii:
  "utf8_ok (a @ c # s) \<Longrightarrow> is_ascii c \<Longrightarrow> utf8_ok s"
proof (induction a rule: length_induct)
  case (1 a)
  have nc: "\<not> is_cont c" using "1.prems" by (simp add: is_ascii_def is_cont_def)
  show ?case
  proof (cases a)
    case (Cons x a')
    have "dropWhile is_cont (a' @ c # s) = dropWhile is_cont a' @ c # s"
      using nc by (simp add: dropWhile_append3 dropWhile_append)
    then have "utf8_ok (dropWhile is_cont a' @ c # s)"
      using "1.prems" Cons by (simp add: utf8_ok_def)
    moreover have "length (dropWhile is_cont a') < length a"
      using Cons length_dropWhile_le [of is_cont a'] by simp
    ultimately show ?thesis using 1 by blast
  qed (use "1.prems" utf8_ok_Cons_ascii in auto)
qed

lemma last_seg_split: "\<exists>c\<in>set s. P c \<Longrightarrow>
  take (length s - length (last_seg P s) - 1) s @ [s ! (length s - length (last_seg P s) - 1)] @ last_seg P s = s
  \<and> P (s ! (length s - length (last_seg P s) - 1))"
proof (induction s rule: rev_induct)
  case (snoc c s)
  show ?case
  proof (cases "P c")
    case True
    then show ?thesis by (simp add: last_seg_def nth_append)
  next
    case False
    then have ex: "\<exists>c\<in>set s. P c" using snoc.prems by auto
    have ls: "last_seg P (s @ [c]) = last_seg P s @ [c]"
      using False by (simp add: last_seg_def)
    have "length (last_seg P s) < length s"
      using snoc.IH [OF ex] by (metis append_Nil length_append_singleton length_append
          add_Suc_right le_add2 less_Suc_eq_le length_Cons append_Cons)
    then show ?thesis using snoc.IH [OF ex] ls
      by (auto simp: nth_append)
  qed
qed simp

lemma utf8_ok_last_seg:
  assumes "utf8_ok s"
  shows "utf8_ok (last_seg sep s)"
proof (cases "\<exists>c\<in>set s. sep c")
  case True
  from last_seg_split [OF this] obtain a c where s: "s = a @ c # last_seg sep s" "sep c"
    by (metis append_Cons append_Nil)
  then have "is_ascii c" by (auto simp: sep_def is_ascii_def)
  with assms s(1) show ?thesis by (metis utf8_ok_after_ascii)
next
  case False
  then have "last_seg sep s = s"
    unfolding last_seg_def by (metis rev_rev_ident set_rev takeWhile_eq_all_conv)
  with assms show ?thesis by simp
qed

lemma sanitize_plain:
  assumes "utf8_ok name" "c \<in> set (sanitize_name E name)"
  shows "plain_byte c"
proof -
  let ?kept = "concat (filter (keep_char E) (chars (last_seg sep name)))"
  have kept: "plain_byte d" if "d \<in> set ?kept" for d
  proof -
    from that obtain x where x: "x \<in> set (chars (last_seg sep name))" "keep_char E x" "d \<in> set x"
      by auto
    have "utf8_ok (last_seg sep name)" using assms(1) by (rule utf8_ok_last_seg)
    with x have "utf8_char x" by (auto simp: utf8_ok_def list_all_iff)
    then show ?thesis using x chars_cont_tail keep_char_plain by blast
  qed
  have "set (concat (take n (chars s))) \<subseteq> set s" for n s
    by (metis concat_chars set_concat set_take_subset Union_mono image_mono)
  then have "c \<in> set ?kept \<or> c \<in> set ''file.bin''"
    using assms(2) set_trim [of ?kept]
    by (auto simp: sanitize_name_def Let_def split: if_splits simp del: concat_chars set_concat)
  then show ?thesis using kept plain_fallback by (auto simp: list_all_iff)
qed

lemma sanitize_chars: "length (chars (sanitize_name E name)) \<le> 80"
proof -
  let ?base = "trim (concat (filter (keep_char E) (chars (last_seg sep name))))"
  have "length (chars (concat (take 80 (chars ?base)))) \<le> 80"
    by (simp add: chars_take)
  moreover have "length ?base \<le> 80 \<Longrightarrow> length (chars ?base) \<le> 80"
    using length_chars_le order_trans by blast
  moreover have "length (chars ''file.bin'') \<le> 80"
    by (rule order_trans [OF length_chars_le]) simp
  ultimately show ?thesis
    unfolding sanitize_name_def Let_def by (simp del: concat_chars)
qed

lemma sanitize_nonempty: "sanitize_name E name \<noteq> []"
  unfolding sanitize_name_def by (simp add: Let_def)

subsection \<open>Unique paths\<close>

lemma stem_ext:
  assumes "file_name n = Some f"
  shows "up_stem n @ up_ext n = n"
proof (cases "CHR ''.'' \<in> set n")
  case False
  with assms show ?thesis
    by (simp add: up_stem_def up_ext_def file_stem_def extension_def rsplit_dot_def file_name_def split: if_splits)
next
  case True
  then have "take (length n - length (last_seg (\<lambda>c. c = CHR ''.'') n) - 1) n @ ''.'' @ last_seg (\<lambda>c. c = CHR ''.'') n = n"
    using last_seg_split [of n "\<lambda>c. c = CHR ''.''"] by auto
  with True assms show ?thesis
    by (auto simp: up_stem_def up_ext_def file_stem_def extension_def rsplit_dot_def file_name_def
        Let_def split: if_splits)
qed

lemma up_parts_subset:
  "set (up_stem n) \<subseteq> set n \<union> set ''file''" "set (up_ext n) \<subseteq> set n"
proof -
  have "set (up_stem n @ up_ext n) \<subseteq> set n \<union> set ''file''"
    using stem_ext [of n]
    by (cases "file_name n") (auto simp: up_stem_def up_ext_def file_stem_def extension_def)
  then show "set (up_stem n) \<subseteq> set n \<union> set ''file''" by simp
  show "set (up_ext n) \<subseteq> set n"
  proof (cases "file_name n")
    case (Some f)
    then show ?thesis using stem_ext [of n] by (metis Un_upper2 set_append)
  qed (simp add: up_ext_def extension_def)
qed

lemma unique_name_no_sep:
  assumes "\<And>c. c \<in> set n \<Longrightarrow> plain_byte c" "c \<in> set (unique_name ex stamp dir n)"
  shows "\<not> sep c"
proof -
  have lits: "list_all (\<lambda>c. \<not> sep c) '' (-)file''" by code_simp
  have dig: "\<not> sep d" if "d \<in> set (show_nat i)" for d i
    using show_nat_digits [OF that] by (auto simp: sep_def less_eq_char_def)
  have "c \<in> set n \<or> c \<in> set '' (-)file'' \<or> (\<exists>i. c \<in> set (show_nat i))"
    using assms(2) up_parts_subset [of n]
    by (auto simp: unique_name_def up_candidate_def split: option.splits if_splits)
  then show ?thesis using assms(1) lits dig plain_not_sep by (auto simp: list_all_iff)
qed

lemma unique_name_not_dots:
  assumes "n \<noteq> []"
  shows "unique_name ex stamp dir n \<notin> {[], ''.'', ''..''}"
proof -
  have "up_stem n @ up_ext n \<notin> {[], ''.'', ''..''}"
  proof (cases "file_name n")
    case None
    then show ?thesis by (simp add: up_stem_def up_ext_def file_stem_def extension_def)
  next
    case (Some f)
    with stem_ext [OF Some] show ?thesis by (auto simp: file_name_def split: if_splits)
  qed
  moreover have "up_stem n @ '' ('' @ s @ '')'' @ up_ext n \<notin> {[], ''.'', ''..''}" for s
    by (auto simp: append_eq_Cons_conv)
  moreover have "up_stem n @ ''-'' @ s @ up_ext n \<notin> {[], ''.'', ''..''}" for s
    by (auto simp: append_eq_Cons_conv)
  ultimately show ?thesis
    by (auto simp: unique_name_def up_candidate_def split: option.splits)
qed

text \<open>whatever name a peer sends, the file \<open>unique_path\<close> chooses for its sanitized form lies
  directly inside the given directory: the name joined to it is not empty, is not \<open>.\<close> or \<open>..\<close> and has no
  path separator; and it names no existing file as long as one of the 1000 candidates is free.\<close>

theorem received_file_stays_in_dir:
  fixes E :: "'a ext_scheme"
  assumes "utf8_ok name"
  defines "n \<equiv> sanitize_name E name"
  shows "\<exists>f. unique_path ex stamp dir n = join dir f \<and> f \<notin> {[], ''.'', ''..''}
           \<and> (\<forall>c\<in>set f. \<not> sep c) \<and> length (chars n) \<le> 80
           \<and> ((\<exists>i<1000. \<not> ex (join dir (up_candidate n i))) \<longrightarrow> \<not> ex (unique_path ex stamp dir n))"
proof -
  let ?f = "unique_name ex stamp dir n"
  have "\<forall>c\<in>set ?f. \<not> sep c"
    using unique_name_no_sep sanitize_plain [OF assms(1)] unfolding n_def by blast
  moreover have "?f \<notin> {[], ''.'', ''..''}"
    using unique_name_not_dots sanitize_nonempty unfolding n_def by blast
  moreover have "length (chars n) \<le> 80" unfolding n_def by (rule sanitize_chars)
  moreover have "\<not> ex (unique_path ex stamp dir n)" if "\<exists>i<1000. \<not> ex (join dir (up_candidate n i))"
  proof -
    let ?free = "\<lambda>i. \<not> ex (join dir (up_candidate n i))"
    from that obtain i where i: "List.find ?free [0..<1000] = Some i"
      using find_None_iff [of ?free "[0..<1000]"] by (cases "List.find ?free [0..<1000]") auto
    then have "?free i" by (metis find_Some_iff)
    with i show ?thesis by (simp add: unique_path_def unique_name_def)
  qed
  ultimately show ?thesis unfolding unique_path_def by blast
qed

theorem received_file_stays_in_dir_witness:
  "\<exists>f. unique_path (\<lambda>_. False) 7 ''blobs'' (sanitize_name ref_ext ''../../etc/a b.txt'') = join ''blobs'' f
     \<and> f \<notin> {[], ''.'', ''..''} \<and> (\<forall>c\<in>set f. \<not> sep c)"
proof -
  have "utf8_ok ''../../etc/a b.txt''" by code_simp
  from received_file_stays_in_dir [OF this, of "\<lambda>_. False" 7 "''blobs''" ref_ext]
  show ?thesis by blast
qed

end
