(* ===== verification/Roster.thy ===== *)
theory Roster
  imports Names
begin

section \<open>Group membership states\<close>

text \<open>
  \<open>velta-app/src-tauri/src/p2p/groups.rs\<close>, the signed roster of a local group: the bytes a creator
  signs, the structural limits, the acceptance decision for a received state, the records kept in
  \<open>groups.json\<close> and the differences between two rosters. The main results: the signed bytes determine
  everything a roster says except the advisory addresses, the limits are exactly the declarative
  predicate \<open>group_state_wf\<close>, and whatever \<open>groups.json\<close> holds, what is loaded from it passes the full
  check.
\<close>

definition MAX_GROUP_MEMBERS :: nat where "MAX_GROUP_MEMBERS = 5"
definition LEGACY_MAX_GROUP_MEMBERS :: nat where "LEGACY_MAX_GROUP_MEMBERS = 4"
definition MAX_GROUPS :: nat where "MAX_GROUPS = 16"
definition MAX_NAME_CHARS :: nat where "MAX_NAME_CHARS = 64"
definition MAX_MEMBER_ADDRS :: nat where "MAX_MEMBER_ADDRS = 3"
definition STATE_DOMAIN :: "byte list" where
  "STATE_DOMAIN = str_bytes ''velta-group-state-v1'' @ [0]"

record group_member =
  gm_node_id :: string
  gm_name :: string
  gm_addrs :: "string list"

record group_state =
  gs_gid :: string
  gs_creator :: string
  gs_epoch :: u64
  gs_name :: string
  gs_closed :: bool
  gs_members :: "group_member list"
  gs_sig :: string

datatype group_error = BadMemberId | NotCanonical | EmptyName | NameTooLong | BadGid | GidLength
  | TooManyMembers | OnlyCreatorSigns | BadSigEncoding | SigLength | SigMismatch | EpochZero
  | MemberCount | DuplicateMember | TooManyAddrs | BadAddr | CreatorNotFirst | ClosedWithMembers
  | ClosedUnknown | NotIncluded | CreatorMismatch

definition canonical_node :: "'a ext_scheme \<Rightarrow> string \<Rightarrow> group_error + node_id" where
  "canonical_node E s = (case nid_parse E s of
     None \<Rightarrow> Inl BadMemberId
   | Some i \<Rightarrow> if nid_show E i \<noteq> s then Inl NotCanonical else Inr i)"

definition check_name :: "string \<Rightarrow> bool \<Rightarrow> group_error + unit" where
  "check_name name allow_empty =
     (if name = [] \<and> \<not> allow_empty then Inl EmptyName
      else if char_count name > MAX_NAME_CHARS then Inl NameTooLong
      else Inr ())"

definition check_group_name :: "string \<Rightarrow> group_error + unit" where
  "check_group_name name = check_name name False"

text \<open>\<open>random_bytes\<close> is the argument \<open>rnd\<close>.\<close>

definition new_gid :: "'a ext_scheme \<Rightarrow> byte list \<Rightarrow> string" where
  "new_gid E rnd = hex_enc E rnd"

subsection \<open>Signing\<close>

definition push_str :: "string \<Rightarrow> group_error + byte list" where
  "push_str s = (if length s < 65536 then Inr (be_bytes 2 (length s) @ str_bytes s) else Inl NameTooLong)"

fun sign_members :: "'a ext_scheme \<Rightarrow> group_member list \<Rightarrow> group_error + byte list" where
  "sign_members E [] = Inr []"
| "sign_members E (m # ms) =
     r_bind (canonical_node E (gm_node_id m)) (\<lambda>i.
     r_bind (push_str (gm_name m)) (\<lambda>n.
     r_bind (sign_members E ms) (\<lambda>rest. Inr (nid_bytes i @ n @ rest))))"

definition sign_bytes :: "'a ext_scheme \<Rightarrow> group_state \<Rightarrow> group_error + byte list" where
  "sign_bytes E st =
     (case hex_dec E (gs_gid st) of
        None \<Rightarrow> Inl BadGid
      | Some gid \<Rightarrow>
          if length gid \<noteq> 16 then Inl GidLength
          else r_bind (push_str (gs_name st)) (\<lambda>name.
            if length (gs_members st) \<ge> 256 then Inl TooManyMembers
            else r_bind (sign_members E (gs_members st)) (\<lambda>ms.
              Inr (STATE_DOMAIN @ gid @ be_bytes 8 (unat (gs_epoch st))
                   @ [if gs_closed st then 1 else 0] @ name
                   @ [of_nat (length (gs_members st))] @ ms))))"

definition sign :: "'a ext_scheme \<Rightarrow> secret_key \<Rightarrow> group_state \<Rightarrow> group_error + group_state" where
  "sign E sk st =
     (if nid_show E (public_key E sk) \<noteq> gs_creator st then Inl OnlyCreatorSigns
      else r_bind (sign_bytes E st) (\<lambda>b. Inr (st\<lparr>gs_sig := hex_enc E (sk_sign E sk b)\<rparr>)))"

definition verify_signature :: "'a ext_scheme \<Rightarrow> group_state \<Rightarrow> group_error + unit" where
  "verify_signature E st =
     r_bind (canonical_node E (gs_creator st)) (\<lambda>creator.
       case hex_dec E (gs_sig st) of
         None \<Rightarrow> Inl BadSigEncoding
       | Some raw \<Rightarrow>
           if length raw \<noteq> 64 then Inl SigLength
           else r_bind (sign_bytes E st) (\<lambda>b.
             if nid_verify E creator b raw then Inr () else Inl SigMismatch))"

subsection \<open>Structural limits\<close>

fun check_addrs :: "'a ext_scheme \<Rightarrow> string list \<Rightarrow> group_error + unit" where
  "check_addrs E [] = Inr ()"
| "check_addrs E (a # as) = (case sock_parse E a of None \<Rightarrow> Inl BadAddr | Some _ \<Rightarrow> check_addrs E as)"

fun check_members :: "'a ext_scheme \<Rightarrow> group_member list \<Rightarrow> node_id list \<Rightarrow> group_error + node_id list" where
  "check_members E [] seen = Inr seen"
| "check_members E (m # ms) seen =
     r_bind (canonical_node E (gm_node_id m)) (\<lambda>i.
       if i \<in> set seen then Inl DuplicateMember
       else r_bind (check_name (gm_name m) True) (\<lambda>_.
         if length (gm_addrs m) > MAX_MEMBER_ADDRS then Inl TooManyAddrs
         else r_bind (check_addrs E (gm_addrs m)) (\<lambda>_. check_members E ms (seen @ [i]))))"

definition validate :: "'a ext_scheme \<Rightarrow> group_state \<Rightarrow> group_error + unit" where
  "validate E st =
     (case hex_dec E (gs_gid st) of
        None \<Rightarrow> Inl BadGid
      | Some gid \<Rightarrow>
          if length gid \<noteq> 16 \<or> \<not> is_safe_transfer_id (gs_gid st) then Inl BadGid
          else r_bind (canonical_node E (gs_creator st)) (\<lambda>creator.
            if gs_epoch st = 0 then Inl EpochZero
            else r_bind (check_name (gs_name st) False) (\<lambda>_.
              if gs_members st = [] \<or> length (gs_members st) > MAX_GROUP_MEMBERS then Inl MemberCount
              else r_bind (check_members E (gs_members st) []) (\<lambda>seen.
                if hd seen \<noteq> creator then Inl CreatorNotFirst
                else if gs_closed st \<and> length (gs_members st) \<noteq> 1 then Inl ClosedWithMembers
                else Inr ()))))"

definition check :: "'a ext_scheme \<Rightarrow> group_state \<Rightarrow> group_error + unit" where
  "check E st = r_bind (validate E st) (\<lambda>_. verify_signature E st)"

definition contains :: "'a ext_scheme \<Rightarrow> group_state \<Rightarrow> node_id \<Rightarrow> bool" where
  "contains E st n = list_ex (\<lambda>m. gm_node_id m = nid_show E n) (gs_members st)"

definition accepted :: "'a ext_scheme \<Rightarrow> group_state \<Rightarrow> bool" where
  "accepted E st \<longleftrightarrow> check E st = Inr ()"

subsection \<open>Local records and the acceptance decision\<close>

record group_rec =
  gr_state :: group_state
  gr_removed :: bool
  gr_next_seq :: u64
  gr_sent_cursor :: "(string, u64) hmap"
  gr_have :: "(string, u64) hmap"
  gr_state_cursor :: "(string, u64) hmap"
  gr_pending_leave :: bool
  gr_hidden :: bool

definition new_rec :: "group_state \<Rightarrow> group_rec" where
  "new_rec st = \<lparr>gr_state = st, gr_removed = False, gr_next_seq = 1, gr_sent_cursor = [],
     gr_have = [], gr_state_cursor = [], gr_pending_leave = False, gr_hidden = False\<rparr>"

datatype evaluation = Stale | Create | Update bool

definition evaluate_incoming :: "'a ext_scheme \<Rightarrow> group_rec option \<Rightarrow> group_state \<Rightarrow> node_id \<Rightarrow> group_error + evaluation" where
  "evaluate_incoming E local incoming me =
     r_bind (check E incoming) (\<lambda>_.
       case local of
         None \<Rightarrow>
           if gs_closed incoming then Inl ClosedUnknown
           else if \<not> contains E incoming me then Inl NotIncluded
           else Inr Create
       | Some rec \<Rightarrow>
           if gs_creator (gr_state rec) \<noteq> gs_creator incoming then Inl CreatorMismatch
           else if gs_epoch incoming \<le> gs_epoch (gr_state rec) then Inr Stale
           else Inr (Update (gs_closed incoming \<or> \<not> contains E incoming me)))"

subsection \<open>\<open>groups.json\<close>\<close>

text \<open>
  \<open>load_groups\<close> reads the file (\<open>None\<close>: not readable); \<open>de\<close> is \<open>serde_json::from_slice\<close>. The second
  component of the result tells whether the file was moved to \<open>groups.json.corrupt\<close>.
\<close>

fun load_recs :: "'a ext_scheme \<Rightarrow> group_rec list \<Rightarrow> (string, group_rec) btmap \<Rightarrow> (string, group_rec) btmap" where
  "load_recs E [] out = out"
| "load_recs E (rec # recs) out =
     (if length out \<ge> MAX_GROUPS \<or> map_of out (gs_gid (gr_state rec)) \<noteq> None \<or> \<not> accepted E (gr_state rec)
      then load_recs E recs out
      else load_recs E recs (bt_put (gs_gid (gr_state rec)) rec out))"

definition load_groups :: "'a ext_scheme \<Rightarrow> (string \<Rightarrow> group_rec list option) \<Rightarrow> string option \<Rightarrow>
    (string, group_rec) btmap \<times> bool" where
  "load_groups E de file =
     (case file of
        None \<Rightarrow> ([], False)
      | Some data \<Rightarrow> (case de data of None \<Rightarrow> ([], True) | Some recs \<Rightarrow> (load_recs E recs [], False)))"

text \<open>The file operations of \<open>save_groups\<close>, and their effect on the directory. A crash can stop them
  after any operation and can leave the last \<open>write\<close> cut short.\<close>

datatype fs_op = FsWrite string string | FsRename string string

type_synonym dir_content = "string \<Rightarrow> string option"

fun fs_apply :: "fs_op \<Rightarrow> dir_content \<Rightarrow> dir_content" where
  "fs_apply (FsWrite p c) d = d(p \<mapsto> c)"
| "fs_apply (FsRename p q) d = (case d p of None \<Rightarrow> d | Some c \<Rightarrow> d(q \<mapsto> c, p := None))"

definition save_groups :: "(group_rec list \<Rightarrow> string) \<Rightarrow> (string, group_rec) btmap \<Rightarrow> fs_op list" where
  "save_groups ser groups =
     [FsWrite ''groups.json.tmp'' (ser (map snd groups)), FsRename ''groups.json.tmp'' ''groups.json'']"

inductive crash_after :: "fs_op list \<Rightarrow> dir_content \<Rightarrow> dir_content \<Rightarrow> bool" where
  crash_before: "crash_after ops d d"
| crash_torn: "crash_after (FsWrite p c # ops) d (d(p \<mapsto> take n c))"
| crash_later: "crash_after ops (fs_apply op d) d' \<Longrightarrow> crash_after (op # ops) d d'"

subsection \<open>Roster differences\<close>

datatype roster_event = Added string | Removed string | Renamed string | Disbanded

definition has_member :: "group_state \<Rightarrow> string \<Rightarrow> bool" where
  "has_member st i = list_ex (\<lambda>m. gm_node_id m = i) (gs_members st)"

definition roster_events :: "group_state \<Rightarrow> group_state \<Rightarrow> roster_event list" where
  "roster_events old new =
     (if gs_closed new \<and> \<not> gs_closed old then [Disbanded]
      else (if gs_name new \<noteq> gs_name old then [Renamed (gs_name new)] else [])
           @ map (\<lambda>m. Added (gm_node_id m)) (filter (\<lambda>m. \<not> has_member old (gm_node_id m)) (gs_members new))
           @ map (\<lambda>m. Removed (gm_node_id m)) (filter (\<lambda>m. \<not> has_member new (gm_node_id m)) (gs_members old)))"

subsection \<open>The signed bytes determine the roster\<close>

lemma canonical_node_Inr [simp]:
  "canonical_node E s = Inr i \<longleftrightarrow> nid_parse E s = Some i \<and> nid_show E i = s"
  by (auto simp: canonical_node_def split: option.splits)

lemma push_str_Inr: "push_str s = Inr x \<longleftrightarrow> length s < 65536 \<and> x = be_bytes 2 (length s) @ str_bytes s"
  by (auto simp: push_str_def)

lemma push_str_prefix:
  assumes "push_str s = Inr x" "push_str t = Inr y" "x @ r = y @ r'"
  shows "s = t \<and> r = r'"
proof -
  have eq: "be_bytes 2 (length s) @ str_bytes s @ r = be_bytes 2 (length t) @ str_bytes t @ r'"
    and len: "length s < 65536" "length t < 65536"
    using assms by (auto simp: push_str_Inr)
  then have "be_bytes 2 (length s) = be_bytes 2 (length t)" "str_bytes s @ r = str_bytes t @ r'"
    by auto
  moreover from this(1) len have "length s = length t"
    by (intro be_bytes_inj [of 2]) auto
  ultimately show ?thesis by (auto simp: append_eq_append_conv)
qed

definition signed_view :: "group_state \<Rightarrow> string \<times> u64 \<times> bool \<times> string \<times> (string \<times> string) list" where
  "signed_view st = (gs_gid st, gs_epoch st, gs_closed st, gs_name st,
     map (\<lambda>m. (gm_node_id m, gm_name m)) (gs_members st))"

lemma sign_members_inj:
  assumes "node_laws E" "length ms = length ms'"
    and "sign_members E ms = Inr x" "sign_members E ms' = Inr y" "x @ r = y @ r'"
  shows "map (\<lambda>m. (gm_node_id m, gm_name m)) ms = map (\<lambda>m. (gm_node_id m, gm_name m)) ms'"
  using assms(2-5)
proof (induction ms ms' arbitrary: x y rule: list_induct2)
  case (Cons m ms m' ms')
  then obtain i n rx i' n' ry where
    i: "nid_parse E (gm_node_id m) = Some i" "nid_show E i = gm_node_id m"
      "nid_parse E (gm_node_id m') = Some i'" "nid_show E i' = gm_node_id m'" and
    n: "push_str (gm_name m) = Inr n" "push_str (gm_name m') = Inr n'" and
    rest: "sign_members E ms = Inr rx" "sign_members E ms' = Inr ry" and
    xy: "x = nid_bytes i @ n @ rx" "y = nid_bytes i' @ n' @ ry"
    by (auto simp: r_bind_Inr)
  have "length (nid_bytes i) = 32" "length (nid_bytes i') = 32"
    using assms(1) i by (auto simp: node_laws_def)
  with Cons.prems xy have "nid_bytes i = nid_bytes i'" and nr: "n @ rx @ r = n' @ ry @ r'"
    by auto
  then have "i = i'" by (simp add: node_id.expand)
  with i have "gm_node_id m = gm_node_id m'" by simp
  moreover have "gm_name m = gm_name m'" "rx @ r = ry @ r'"
    using push_str_prefix [OF n nr] by auto
  ultimately show ?case using Cons.IH [OF rest] by simp
qed simp

lemma sign_bytes_Inr:
  "sign_bytes E st = Inr b \<longleftrightarrow>
   (\<exists>gid name ms. hex_dec E (gs_gid st) = Some gid \<and> length gid = 16 \<and> push_str (gs_name st) = Inr name
      \<and> length (gs_members st) < 256 \<and> sign_members E (gs_members st) = Inr ms
      \<and> b = STATE_DOMAIN @ gid @ be_bytes 8 (unat (gs_epoch st)) @ [if gs_closed st then 1 else 0] @ name
             @ [of_nat (length (gs_members st))] @ ms)"
  by (auto simp: sign_bytes_def r_bind_Inr split: option.splits)

lemma u64_be_inj: "be_bytes 8 (unat (a :: u64)) = be_bytes 8 (unat b) \<Longrightarrow> a = b"
proof -
  assume "be_bytes 8 (unat a) = be_bytes 8 (unat b)"
  then have "(of_nat (be_val (be_bytes 8 (unat a))) :: u64) = of_nat (be_val (be_bytes 8 (unat b)))"
    by (simp only:)
  moreover have "8 * 8 = LENGTH(64)" by simp
  ultimately show "a = b" using be_word [of 8 a] be_word [of 8 b] by (simp only:)
qed

lemma sign_bytes_view:
  assumes "node_laws E" "hex_laws E" "sign_bytes E a = Inr s" "sign_bytes E b = Inr s"
  shows "signed_view a = signed_view b"
proof -
  obtain g n ms g' n' ms' where
    a: "hex_dec E (gs_gid a) = Some g" "length g = 16" "push_str (gs_name a) = Inr n"
      "length (gs_members a) < 256" "sign_members E (gs_members a) = Inr ms" and
    b: "hex_dec E (gs_gid b) = Some g'" "length g' = 16" "push_str (gs_name b) = Inr n'"
      "length (gs_members b) < 256" "sign_members E (gs_members b) = Inr ms'" and
    eq: "g @ be_bytes 8 (unat (gs_epoch a)) @ [if gs_closed a then 1 else 0] @ n @ [of_nat (length (gs_members a))] @ ms
       = g' @ be_bytes 8 (unat (gs_epoch b)) @ [if gs_closed b then 1 else 0] @ n' @ [of_nat (length (gs_members b))] @ ms'"
    using assms(3,4) unfolding sign_bytes_Inr by auto
  have 1: "g = g'" and 2: "be_bytes 8 (unat (gs_epoch a)) = be_bytes 8 (unat (gs_epoch b))"
    and 3: "gs_closed a = gs_closed b"
    and 4: "n @ [of_nat (length (gs_members a))] @ ms = n' @ [of_nat (length (gs_members b))] @ ms'"
    using eq a(2) b(2) by (auto split: if_splits)
  have 5: "gs_name a = gs_name b" "(of_nat (length (gs_members a)) :: byte) = of_nat (length (gs_members b))" "ms = ms'"
    using push_str_prefix [OF a(3) b(3) 4] by auto
  from 5(2) have "unat (of_nat (length (gs_members a)) :: byte) = unat (of_nat (length (gs_members b)) :: byte)" by simp
  with a(4) b(4) have "length (gs_members a) = length (gs_members b)" by simp
  then have "map (\<lambda>m. (gm_node_id m, gm_name m)) (gs_members a) = map (\<lambda>m. (gm_node_id m, gm_name m)) (gs_members b)"
    using sign_members_inj [OF assms(1) _ a(5) b(5), of "[]" "[]"] 5(3) by simp
  moreover have "gs_gid a = gs_gid b"
    using assms(2) a(1) b(1) 1 unfolding hex_laws_def by metis
  ultimately show ?thesis using 3 5(1) u64_be_inj [OF 2] by (simp add: signed_view_def)
qed

text \<open>the bytes a creator signs determine the group id, the epoch, the closed flag, the group's name and
  the ids and names of the members in order. Two states with the same signed bytes can differ only in
  the advisory member addresses, the creator field and the signature.\<close>

theorem sign_bytes_inj:
  assumes "node_laws E" "hex_laws E" "sign_bytes E a = Inr s" "sign_bytes E b = Inr s"
  shows "signed_view a = signed_view b"
  using assms by (rule sign_bytes_view)

text \<open>a state that passes the full check says exactly what its creator signed: if every message the
  creator's key verifies is one the creator signed, then some state the creator signed has the same
  group id, epoch, closed flag, name and members. A relaying member can neither add, drop, rename nor
  reorder members, nor reopen a group.\<close>

theorem accepted_state_is_creators:
  assumes "node_laws E" "hex_laws E" "accepted E st" "nid_parse E (gs_creator st) = Some c"
    and unforgeable: "\<And>m sig. nid_verify E c m sig \<Longrightarrow> (\<exists>s\<in>S. sign_bytes E s = Inr m)"
  shows "\<exists>s\<in>S. signed_view s = signed_view st"
proof -
  from assms(3,4) obtain raw m where "sign_bytes E st = Inr m" "nid_verify E c m raw"
    by (auto simp: accepted_def check_def verify_signature_def r_bind_Inr split: option.splits if_splits)
  with unforgeable sign_bytes_view [OF assms(1,2)] show ?thesis by metis
qed

lemma sign_bytes_sig [simp]: "sign_bytes E (st\<lparr>gs_sig := x\<rparr>) = sign_bytes E st"
  by (simp add: sign_bytes_def cong: if_cong option.case_cong)

lemma sign_then_verify:
  assumes "sig_laws E" "hex_laws E" "nid_parse E (gs_creator st) = Some (public_key E sk)" "sign E sk st = Inr st'"
  shows "verify_signature E st' = Inr ()"
proof -
  from assms(4) obtain b where b: "sign_bytes E st = Inr b" and c: "nid_show E (public_key E sk) = gs_creator st"
    and st': "st' = st\<lparr>gs_sig := hex_enc E (sk_sign E sk b)\<rparr>"
    by (auto simp: sign_def r_bind_Inr split: if_splits)
  have "sign_bytes E st' = Inr b" using b by (simp add: st')
  then show ?thesis
    using assms(1-3) c by (simp add: verify_signature_def st' hex_laws_def sig_laws_def canonical_node_def)
qed

subsection \<open>The structural limits, declaratively\<close>

definition canonical_id :: "'a ext_scheme \<Rightarrow> string \<Rightarrow> bool" where
  "canonical_id E s \<longleftrightarrow> (\<exists>n. nid_parse E s = Some n \<and> nid_show E n = s)"

definition member_ok :: "'a ext_scheme \<Rightarrow> group_member \<Rightarrow> bool" where
  "member_ok E m \<longleftrightarrow> canonical_id E (gm_node_id m) \<and> char_count (gm_name m) \<le> 64
     \<and> length (gm_addrs m) \<le> 3 \<and> (\<forall>a\<in>set (gm_addrs m). sock_parse E a \<noteq> None)"

definition group_state_wf :: "'a ext_scheme \<Rightarrow> group_state \<Rightarrow> bool" where
  "group_state_wf E st \<longleftrightarrow>
     (\<exists>b. hex_dec E (gs_gid st) = Some b \<and> length b = 16) \<and> is_safe_transfer_id (gs_gid st)
     \<and> gs_epoch st \<noteq> 0 \<and> gs_name st \<noteq> [] \<and> char_count (gs_name st) \<le> 64
     \<and> 1 \<le> length (gs_members st) \<and> length (gs_members st) \<le> 5
     \<and> (\<forall>m\<in>set (gs_members st). member_ok E m) \<and> distinct (map gm_node_id (gs_members st))
     \<and> gm_node_id (hd (gs_members st)) = gs_creator st
     \<and> (gs_closed st \<longrightarrow> length (gs_members st) = 1)"

lemma check_addrs_ok: "check_addrs E as = Inr () \<longleftrightarrow> (\<forall>a\<in>set as. sock_parse E a \<noteq> None)"
  by (induction as) (auto split: option.splits)

lemma check_name_ok: "check_name n e = Inr () \<longleftrightarrow> (n \<noteq> [] \<or> e) \<and> char_count n \<le> 64"
  by (auto simp: check_name_def MAX_NAME_CHARS_def)

definition nodes_of :: "'a ext_scheme \<Rightarrow> group_member list \<Rightarrow> node_id list" where
  "nodes_of E ms = map (\<lambda>m. the (nid_parse E (gm_node_id m))) ms"

lemma check_members_ok:
  "check_members E ms seen = Inr out \<longleftrightarrow>
   (\<forall>m\<in>set ms. member_ok E m) \<and> distinct (nodes_of E ms) \<and> set seen \<inter> set (nodes_of E ms) = {}
   \<and> out = seen @ nodes_of E ms"
proof (induction ms arbitrary: seen)
  case (Cons m ms)
  show ?case
    by (auto simp: r_bind_Inr Cons.IH check_name_ok check_addrs_ok nodes_of_def member_ok_def
        canonical_id_def MAX_MEMBER_ADDRS_def)
qed (auto simp: nodes_of_def)

lemma distinct_nodes_of:
  "(\<And>m. m \<in> set ms \<Longrightarrow> canonical_id E (gm_node_id m)) \<Longrightarrow>
   distinct (nodes_of E ms) \<longleftrightarrow> distinct (map gm_node_id ms)"
proof (induction ms)
  case (Cons m ms)
  have "the (nid_parse E (gm_node_id m)) \<in> set (nodes_of E ms) \<longleftrightarrow> gm_node_id m \<in> gm_node_id ` set ms"
    using Cons.prems unfolding nodes_of_def canonical_id_def image_iff set_map
    by (metis list.set_intros option.sel)
  with Cons show ?case by (simp add: nodes_of_def)
qed (simp add: nodes_of_def)

lemma validate_wf: "validate E st = Inr () \<longleftrightarrow> group_state_wf E st"
proof -
  let ?ms = "gs_members st"
  have "validate E st = Inr () \<longleftrightarrow>
      (\<exists>b. hex_dec E (gs_gid st) = Some b \<and> length b = 16) \<and> is_safe_transfer_id (gs_gid st)
      \<and> gs_epoch st \<noteq> 0 \<and> gs_name st \<noteq> [] \<and> char_count (gs_name st) \<le> 64
      \<and> ?ms \<noteq> [] \<and> length ?ms \<le> 5
      \<and> (\<forall>m\<in>set ?ms. member_ok E m) \<and> distinct (nodes_of E ?ms)
      \<and> (\<exists>c. nid_parse E (gs_creator st) = Some c \<and> nid_show E c = gs_creator st \<and> hd (nodes_of E ?ms) = c)
      \<and> (gs_closed st \<longrightarrow> length ?ms = 1)"
    by (auto simp: validate_def r_bind_Inr check_name_ok check_members_ok MAX_GROUP_MEMBERS_def split: option.splits)
  also have "\<dots> \<longleftrightarrow> group_state_wf E st"
  proof (cases "?ms")
    case (Cons m ms)
    have mem: "(\<forall>m\<in>set ?ms. member_ok E m) \<Longrightarrow> distinct (nodes_of E ?ms) \<longleftrightarrow> distinct (map gm_node_id ?ms)"
      by (intro distinct_nodes_of) (simp add: member_ok_def)
    have "member_ok E m \<Longrightarrow>
      (\<exists>c. nid_parse E (gs_creator st) = Some c \<and> nid_show E c = gs_creator st \<and> the (nid_parse E (gm_node_id m)) = c)
        \<longleftrightarrow> gm_node_id m = gs_creator st"
      by (auto simp: member_ok_def canonical_id_def)
    then show ?thesis using mem Cons
      by (auto simp: group_state_wf_def nodes_of_def Suc_le_eq)
  qed (auto simp: group_state_wf_def)
  finally show ?thesis .
qed

text \<open>\<open>validate\<close> accepts a state exactly when it is well formed: a 16-byte hex id usable as a file
  name, a positive epoch, a name of 1 to 64 characters, 1 to 5 members with distinct canonical ids,
  names of at most 64 characters and at most 3 parsable addresses, the creator first, and only the
  creator once the group is closed.\<close>

theorem validate_iff_wf: "validate E st = Inr () \<longleftrightarrow> group_state_wf E st"
  by (rule validate_wf)

lemma accepted_wf: "accepted E st \<Longrightarrow> group_state_wf E st"
  by (auto simp: accepted_def check_def r_bind_Inr validate_wf)

lemma accepted_iff: "accepted E st \<longleftrightarrow> group_state_wf E st \<and> verify_signature E st = Inr ()"
  by (auto simp: accepted_def check_def r_bind_Inr validate_wf)

subsection \<open>Acceptance\<close>

lemma evaluate_incoming_Inr:
  "evaluate_incoming E l st me = Inr ev \<longleftrightarrow> accepted E st \<and>
   (case l of
      None \<Rightarrow> \<not> gs_closed st \<and> contains E st me \<and> ev = Create
    | Some rec \<Rightarrow> gs_creator (gr_state rec) = gs_creator st
        \<and> ev = (if gs_epoch st \<le> gs_epoch (gr_state rec) then Stale
                 else Update (gs_closed st \<or> \<not> contains E st me)))"
  by (auto simp: evaluate_incoming_def accepted_def r_bind_Inr split: option.splits)

subsection \<open>Loading and saving the groups\<close>

definition rec_ok :: "'a ext_scheme \<Rightarrow> string \<Rightarrow> group_rec \<Rightarrow> bool" where
  "rec_ok E g r \<longleftrightarrow> gs_gid (gr_state r) = g \<and> accepted E (gr_state r)"

definition groups_ok :: "'a ext_scheme \<Rightarrow> (string, group_rec) btmap \<Rightarrow> bool" where
  "groups_ok E gs \<longleftrightarrow> bt_ok gs \<and> (\<forall>g r. map_of gs g = Some r \<longrightarrow> rec_ok E g r)"

lemma groups_ok_put: "groups_ok E gs \<Longrightarrow> rec_ok E g r \<Longrightarrow> groups_ok E (bt_put g r gs)"
  by (simp add: groups_ok_def)

lemma groups_ok_del: "groups_ok E gs \<Longrightarrow> groups_ok E (hm_del g gs)"
  by (simp add: groups_ok_def)

lemma groups_ok_get: "groups_ok E gs \<Longrightarrow> map_of gs g = Some r \<Longrightarrow> rec_ok E g r"
  by (simp add: groups_ok_def)

lemma length_bt_put_new: "map_of m k = None \<Longrightarrow> length (bt_put k v m) = Suc (length m)"
  by (induction k v m rule: bt_put.induct) (auto split: if_splits)

lemma load_recs_ok:
  "groups_ok E out \<Longrightarrow> length out \<le> MAX_GROUPS \<Longrightarrow>
   groups_ok E (load_recs E recs out) \<and> length (load_recs E recs out) \<le> MAX_GROUPS"
proof (induction E recs out rule: load_recs.induct)
  case (2 E rec recs out)
  show ?case
  proof (cases "length out \<ge> MAX_GROUPS \<or> map_of out (gs_gid (gr_state rec)) \<noteq> None \<or> \<not> accepted E (gr_state rec)")
    case False
    then have "rec_ok E (gs_gid (gr_state rec)) rec" by (simp add: rec_ok_def)
    then show ?thesis using 2 False by (simp add: groups_ok_put length_bt_put_new)
  qed (use 2 in simp)
qed simp

text \<open>whatever bytes \<open>groups.json\<close> holds (edited by hand, truncated, forged), at most 16 groups are
  loaded, each under its own id, and every loaded state passes the limits and its creator's signature.\<close>

theorem load_groups_ok:
  "groups_ok E (fst (load_groups E de file)) \<and> length (fst (load_groups E de file)) \<le> MAX_GROUPS"
proof -
  have "groups_ok E []" by (simp add: groups_ok_def)
  then show ?thesis
    using load_recs_ok [of E "[]"] by (auto simp: load_groups_def MAX_GROUPS_def split: option.splits)
qed

lemma bt_put_last: "bt_ok m \<Longrightarrow> \<forall>x\<in>fst ` set m. x < k \<Longrightarrow> bt_put k v m = m @ [(k, v)]"
  by (induction m) auto

lemma load_recs_saved:
  assumes "bt_ok (out @ gs)" "length (out @ gs) \<le> MAX_GROUPS"
    and "\<forall>(g, r)\<in>set gs. rec_ok E g r"
  shows "load_recs E (map snd gs) out = out @ gs"
  using assms
proof (induction gs arbitrary: out)
  case (Cons e gs)
  obtain g r where e: "e = (g, r)" by (cases e)
  from Cons.prems(1) e have lt: "\<forall>x\<in>fst ` set out. x < g" and bo: "bt_ok out"
    by (auto simp: sorted_wrt_append)
  then have "bt_put g r out = out @ [(g, r)]" by (intro bt_put_last)
  moreover have "map_of out g = None" using lt by (force simp: map_of_eq_None_iff)
  moreover have "gs_gid (gr_state r) = g" "accepted E (gr_state r)"
    using Cons.prems(3) e by (auto simp: rec_ok_def)
  moreover have "load_recs E (map snd gs) ((out @ [(g, r)])) = (out @ [(g, r)]) @ gs"
    using Cons.prems e by (intro Cons.IH) auto
  ultimately show ?case using Cons.prems(2) e by (simp add: not_le)
qed simp

text \<open>what is saved is what is loaded: a well-formed set of at most 16 groups comes back unchanged,
  counters included.\<close>

theorem save_load_groups:
  assumes "groups_ok E gs" "length gs \<le> MAX_GROUPS"
    and "de (ser (map snd gs)) = Some (map snd gs)"
  shows "load_groups E de (fold fs_apply (save_groups ser gs) d0 ''groups.json'') = (gs, False)"
proof -
  have "load_recs E (map snd gs) [] = [] @ gs"
    using assms(1,2) by (intro load_recs_saved) (auto simp: groups_ok_def)
  moreover have "fold fs_apply (save_groups ser gs) d0 ''groups.json'' = Some (ser (map snd gs))"
    by (simp add: save_groups_def)
  ultimately show ?thesis using assms(3) by (simp add: load_groups_def)
qed

inductive_cases crash_ConsE: "crash_after (op # ops) d d'"
inductive_cases crash_NilE: "crash_after [] d d'"

text \<open>a crash at any point of saving (also in the middle of the write) leaves \<open>groups.json\<close> with
  either its old or its complete new content.\<close>

theorem save_groups_crash_safe:
  assumes "crash_after (save_groups ser gs) d d'"
  shows "d' ''groups.json'' = d ''groups.json'' \<or> d' ''groups.json'' = Some (ser (map snd gs))"
proof -
  have "''groups.json'' \<noteq> ''groups.json.tmp''" by simp
  with assms show ?thesis unfolding save_groups_def
    by (elim crash_ConsE crash_NilE) (auto simp del: list.inject char.inject)
qed

subsection \<open>Roster differences are complete\<close>

definition apply_event :: "string set \<times> string \<Rightarrow> roster_event \<Rightarrow> string set \<times> string" where
  "apply_event s e = (case e of
     Added i \<Rightarrow> (insert i (fst s), snd s)
   | Removed i \<Rightarrow> (fst s - {i}, snd s)
   | Renamed n \<Rightarrow> (fst s, n)
   | Disbanded \<Rightarrow> s)"

definition member_ids :: "group_state \<Rightarrow> string set" where
  "member_ids st = gm_node_id ` set (gs_members st)"

lemma has_member_iff [simp]: "has_member st i \<longleftrightarrow> i \<in> member_ids st"
  by (auto simp: has_member_def member_ids_def list_ex_iff)

lemma fold_added: "foldl apply_event s (map (\<lambda>m. Added (f m)) ms) = (fst s \<union> f ` set ms, snd s)"
  by (induction ms arbitrary: s) (auto simp: apply_event_def)

lemma fold_removed: "foldl apply_event s (map (\<lambda>m. Removed (f m)) ms) = (fst s - f ` set ms, snd s)"
  by (induction ms arbitrary: s) (auto simp: apply_event_def)

text \<open>applied to the old roster, the reported events give the members and the name of the new one, and
  no event is reported when nothing changed. A disband is reported as that one event.\<close>

theorem roster_events_complete:
  "(if gs_closed new \<and> \<not> gs_closed old then roster_events old new = [Disbanded]
    else foldl apply_event (member_ids old, gs_name old) (roster_events old new) = (member_ids new, gs_name new))
   \<and> (roster_events old new = [] \<longleftrightarrow>
        \<not> (gs_closed new \<and> \<not> gs_closed old) \<and> gs_name new = gs_name old \<and> member_ids new = member_ids old)"
proof (intro conjI)
  let ?add = "filter (\<lambda>m. \<not> has_member old (gm_node_id m)) (gs_members new)"
  let ?del = "filter (\<lambda>m. \<not> has_member new (gm_node_id m)) (gs_members old)"
  have add: "gm_node_id ` set ?add = member_ids new - member_ids old"
    and del: "gm_node_id ` set ?del = member_ids old - member_ids new"
    by (auto simp: member_ids_def)
  have "foldl apply_event (member_ids old, gs_name old) (roster_events old new) = (member_ids new, gs_name new)"
    if "\<not> (gs_closed new \<and> \<not> gs_closed old)"
    unfolding roster_events_def if_not_P [OF that] foldl_append fold_added fold_removed add del
    by (auto simp: apply_event_def)
  then show "if gs_closed new \<and> \<not> gs_closed old then roster_events old new = [Disbanded]
    else foldl apply_event (member_ids old, gs_name old) (roster_events old new) = (member_ids new, gs_name new)"
    by (simp add: roster_events_def)
  have "?add = [] \<and> ?del = [] \<longleftrightarrow> member_ids new = member_ids old"
    by (auto simp: filter_empty_conv member_ids_def)
  then show "roster_events old new = [] \<longleftrightarrow>
        \<not> (gs_closed new \<and> \<not> gs_closed old) \<and> gs_name new = gs_name old \<and> member_ids new = member_ids old"
    by (simp add: roster_events_def)
qed

subsection \<open>A signed group\<close>

text \<open>A group of three devices, signed by its creator, over the concrete \<open>ref_ext\<close>.\<close>

definition dev :: "byte \<Rightarrow> node_id" where "dev i = NodeId (replicate 32 i)"
definition dev_id :: "byte \<Rightarrow> string" where "dev_id i = nid_show ref_ext (dev i)"

definition trio :: group_state where
  "trio = \<lparr>gs_gid = ''07070707070707070707070707070707'', gs_creator = dev_id 1, gs_epoch = 1, gs_name = ''trio'',
     gs_closed = False,
     gs_members = [\<lparr>gm_node_id = dev_id 1, gm_name = ''A'', gm_addrs = []\<rparr>,
                   \<lparr>gm_node_id = dev_id 2, gm_name = ''B'', gm_addrs = []\<rparr>,
                   \<lparr>gm_node_id = dev_id 3, gm_name = ''C'', gm_addrs = []\<rparr>],
     gs_sig = []\<rparr>"

definition trio_signed :: group_state where
  "trio_signed = projr (sign ref_ext (SecretKey (replicate 32 1)) trio)"

lemma dev_parse [simp]: "nid_parse ref_ext (dev_id i) = Some (dev i)" "nid_show ref_ext (dev i) = dev_id i"
  by (simp_all add: dev_id_def dev_def ref_ext_def nib_dec_enc)

lemma dev_inj [simp]: "dev i = dev j \<longleftrightarrow> i = j" "dev_id i = dev_id j \<longleftrightarrow> i = j"
proof -
  show *: "dev i = dev j \<longleftrightarrow> i = j" by (simp add: dev_def replicate_eq_replicate)
  show "dev_id i = dev_id j \<longleftrightarrow> i = j" using dev_parse(1) * by (metis option.inject)
qed

lemma trio_gid: "hex_dec ref_ext ''07070707070707070707070707070707'' = Some (replicate 16 7)"
proof -
  have "''07070707070707070707070707070707'' = nib_enc hex_alphabet (replicate 16 7)" by code_simp
  then show ?thesis by (simp add: ref_ext_def nib_dec_enc)
qed

lemma trio_sign_bytes: "\<exists>b. sign_bytes ref_ext trio = Inr b"
  by (simp add: sign_bytes_def trio_def trio_gid push_str_def canonical_node_def)

lemma trio_signs: "\<exists>x. sign ref_ext (SecretKey (replicate 32 1)) trio = Inr (trio\<lparr>gs_sig := x\<rparr>)"
  using trio_sign_bytes
  by (auto simp: sign_def trio_def ref_ext_def dev_id_def dev_def)

lemma trio_wf: "group_state_wf ref_ext (trio\<lparr>gs_sig := x\<rparr>)"
proof -
  have "is_safe_transfer_id ''07070707070707070707070707070707''" by code_simp
  moreover have "char_count ''trio'' \<le> 64" "char_count ''A'' \<le> 64" "char_count ''B'' \<le> 64" "char_count ''C'' \<le> 64"
    by code_simp+
  ultimately show ?thesis
    by (simp add: group_state_wf_def trio_def trio_gid member_ok_def canonical_id_def)
qed

lemma trio_accepted: "accepted ref_ext trio_signed" "signed_view trio_signed = signed_view trio"
proof -
  obtain x where x: "sign ref_ext (SecretKey (replicate 32 1)) trio = Inr (trio\<lparr>gs_sig := x\<rparr>)"
    using trio_signs by blast
  then have t: "trio_signed = trio\<lparr>gs_sig := x\<rparr>" by (simp add: trio_signed_def)
  have "nid_parse ref_ext (gs_creator trio) = Some (public_key ref_ext (SecretKey (replicate 32 1)))"
    by (simp add: trio_def) (simp add: ref_ext_def dev_def)
  from sign_then_verify [OF ref_sig_laws ref_hex_laws this x] trio_wf [of x]
  show "accepted ref_ext trio_signed" by (simp add: accepted_iff t)
  show "signed_view trio_signed = signed_view trio" by (simp add: signed_view_def t)
qed

theorem sign_bytes_inj_witness:
  "signed_view (trio\<lparr>gs_sig := ''00''\<rparr>) = signed_view trio"
proof -
  from trio_sign_bytes obtain b where b: "sign_bytes ref_ext trio = Inr b" by blast
  then have "sign_bytes ref_ext (trio\<lparr>gs_sig := ''00''\<rparr>) = Inr b" by simp
  from sign_bytes_inj [OF ref_node_laws ref_hex_laws this b] show ?thesis .
qed

lemma sign_bytes_verify [simp]: "sign_bytes (E\<lparr>nid_verify := f\<rparr>) st = sign_bytes E st"
proof -
  have "sign_members (E\<lparr>nid_verify := f\<rparr>) ms = sign_members E ms" for ms
    by (induction ms) (simp_all add: canonical_node_def cong: option.case_cong)
  then show ?thesis by (simp add: sign_bytes_def cong: option.case_cong if_cong)
qed

theorem accepted_state_is_creators_witness:
  "\<exists>s\<in>{trio}. signed_view s = signed_view (trio\<lparr>gs_sig := hex_enc ref_ext (replicate 64 0)\<rparr>)"
proof -
  from trio_sign_bytes obtain b where b: "sign_bytes ref_ext trio = Inr b" by blast
  define E where "E = ref_ext\<lparr>nid_verify := (\<lambda>n m sig. m = b)\<rparr>"
  have laws: "node_laws E" "hex_laws E"
    using ref_node_laws ref_hex_laws by (simp_all add: E_def node_laws_def hex_laws_def)
  let ?st = "trio\<lparr>gs_sig := hex_enc ref_ext (replicate 64 0)\<rparr>"
  have creator: "nid_parse E (gs_creator ?st) = Some (dev 1)" by (simp add: E_def trio_def)
  have "group_state_wf E ?st"
    using trio_wf [of "hex_enc ref_ext (replicate 64 0)"]
    by (simp add: E_def group_state_wf_def member_ok_def canonical_id_def)
  moreover have "hex_dec E (gs_sig ?st) = Some (replicate 64 0)" "nid_show E (dev 1) = gs_creator ?st"
    using ref_hex_laws by (simp_all add: E_def hex_laws_def trio_def)
  ultimately have acc: "accepted E ?st"
    using creator b by (simp add: accepted_iff verify_signature_def canonical_node_def E_def)
  show ?thesis
    by (rule accepted_state_is_creators [OF laws acc creator]) (use b in \<open>simp add: E_def\<close>)
qed

theorem save_load_groups_witness:
  "load_groups ref_ext (\<lambda>s. if s = ''x'' then Some [new_rec trio_signed] else None)
     (fold fs_apply (save_groups (\<lambda>_. ''x'') [(gs_gid trio_signed, new_rec trio_signed)]) Map.empty ''groups.json'')
   = ([(gs_gid trio_signed, new_rec trio_signed)], False)"
  by (rule save_load_groups)
    (simp_all add: groups_ok_def rec_ok_def new_rec_def trio_accepted MAX_GROUPS_def)

theorem save_groups_crash_safe_witness:
  "\<exists>d'. crash_after (save_groups (\<lambda>_. ''new'') []) [''groups.json'' \<mapsto> ''old''] d'
     \<and> (d' ''groups.json'' = Some ''old'' \<or> d' ''groups.json'' = Some ''new'')"
proof -
  let ?d = "[''groups.json'' \<mapsto> ''old'', ''groups.json.tmp'' \<mapsto> take 1 ''new'']"
  have "crash_after (save_groups (\<lambda>_. ''new'') []) [''groups.json'' \<mapsto> ''old''] ?d"
    unfolding save_groups_def by (rule crash_torn)
  from this save_groups_crash_safe [OF this] show ?thesis by (intro exI [of _ ?d]) simp
qed

end
