(* ===== verification/GroupLog.thy ===== *)
theory GroupLog
  imports Roster
begin

section \<open>The message log of a group\<close>

text \<open>
  The second half of \<open>velta-app/src-tauri/src/p2p/groups.rs\<close>: the append-only file
  \<open>messages-g-<gid>.jsonl\<close>, system lines, display timestamps, and the scan that repairs the counters of
  \<open>groups.json\<close> after a crash (used by \<open>P2p::start_with_alpns\<close> in \<open>p2p.rs\<close>). The file is its content,
  a list of bytes (\<open>None\<close>: no file); \<open>ser\<close> and \<open>de\<close> are \<open>serde_json\<close> on one record. The lemmas give the
  exact effect of an append on what is read back, and show where a line cut short by a crash breaks it.
\<close>

definition MAX_GROUP_TEXT :: nat where "MAX_GROUP_TEXT = 64 * 1024"

record group_file_rec =
  gf_name :: string
  gf_size :: u64
  gf_mime :: string
  gf_path :: string

record group_log_rec =
  gl_seq :: u64
  gl_from :: string
  gl_id :: string
  gl_ts :: u64
  gl_ts_eff :: u64
  gl_dir :: string
  gl_text :: string
  gl_reply_to :: "string option"
  gl_reply_text :: "string option"
  gl_file :: "group_file_rec option"

definition SYS_DIR :: string where "SYS_DIR = ''sys''"

definition sys_rec :: "string \<Rightarrow> u64 \<Rightarrow> nat \<Rightarrow> string \<Rightarrow> u64 \<Rightarrow> group_log_rec" where
  "sys_rec kind epoch index txt ts_eff =
     \<lparr>gl_seq = 0, gl_from = [], gl_id = ''sys:'' @ kind @ '':'' @ show_nat (unat epoch) @ '':'' @ show_nat index,
      gl_ts = ts_eff, gl_ts_eff = ts_eff, gl_dir = SYS_DIR, gl_text = txt,
      gl_reply_to = None, gl_reply_text = None, gl_file = None\<rparr>"

definition sys_kind :: "string \<Rightarrow> string option" where
  "sys_kind i = map_option (takeWhile (\<lambda>c. c \<noteq> CHR '':'')) (strip_prefix ''sys:'' i)"

definition eff_ts :: "u64 \<Rightarrow> u64 \<Rightarrow> u64 \<Rightarrow> u64" where
  "eff_ts prev author_ts now = max prev (min author_ts now)"

definition log_path :: "string \<Rightarrow> string \<Rightarrow> string" where
  "log_path dir gid = join dir (''messages-g-'' @ gid @ ''.jsonl'')"

type_synonym log_file = "string option"

definition content :: "log_file \<Rightarrow> string" where
  "content f = (case f of None \<Rightarrow> [] | Some s \<Rightarrow> s)"

definition append_log :: "(group_log_rec \<Rightarrow> string) \<Rightarrow> log_file \<Rightarrow> group_log_rec \<Rightarrow> log_file" where
  "append_log ser f rec = Some (content f @ ser rec @ [lf])"

definition delete_log :: "log_file \<Rightarrow> log_file" where
  "delete_log f = None"

text \<open>\<open>read_to_string\<close> fails on a file that is not UTF-8; then there are no records.\<close>

definition read_log :: "(string \<Rightarrow> group_log_rec option) \<Rightarrow> log_file \<Rightarrow> group_log_rec list" where
  "read_log de f = (case f of
     None \<Rightarrow> []
   | Some s \<Rightarrow> if utf8_ok s then List.map_filter de (str_lines s) else [])"

definition load_group_log :: "(string \<Rightarrow> group_log_rec option) \<Rightarrow> log_file \<Rightarrow> nat \<Rightarrow> group_log_rec list" where
  "load_group_log de f limit = (let all = read_log de f in drop (length all - limit) all)"

record log_scan =
  ls_own_max :: u64
  ls_in_max :: "(string, u64) hmap"
  ls_last_ts_eff :: u64

definition log_scan_default :: log_scan where
  "log_scan_default = \<lparr>ls_own_max = 0, ls_in_max = [], ls_last_ts_eff = 0\<rparr>"

definition get0 :: "('k, u64) hmap \<Rightarrow> 'k \<Rightarrow> u64" where
  "get0 m k = (case map_of m k of Some v \<Rightarrow> v | None \<Rightarrow> 0)"

definition scan_step :: "string \<Rightarrow> log_scan \<Rightarrow> group_log_rec \<Rightarrow> log_scan" where
  "scan_step me scan r =
     (let scan1 =
        (if gl_from r = me \<and> gl_dir r = ''out'' then scan\<lparr>ls_own_max := max (ls_own_max scan) (gl_seq r)\<rparr>
         else if gl_dir r = ''in'' then
           scan\<lparr>ls_in_max := hm_put (gl_from r) (max (get0 (ls_in_max scan) (gl_from r)) (gl_seq r)) (ls_in_max scan)\<rparr>
         else scan)
      in scan1\<lparr>ls_last_ts_eff := max (ls_last_ts_eff scan1) (gl_ts_eff r)\<rparr>)"

definition scan_recs :: "string \<Rightarrow> group_log_rec list \<Rightarrow> log_scan" where
  "scan_recs me rs = foldl (scan_step me) log_scan_default rs"

definition scan_log :: "(string \<Rightarrow> group_log_rec option) \<Rightarrow> log_file \<Rightarrow> string \<Rightarrow> log_scan" where
  "scan_log de f me = scan_recs me (read_log de f)"

text \<open>What \<open>P2p::start_with_alpns\<close> does to each loaded record.\<close>

definition merge_have :: "(string, u64) hmap \<Rightarrow> (string, u64) hmap \<Rightarrow> (string, u64) hmap" where
  "merge_have in_max have = foldl (\<lambda>h (author, seq). hm_put author (max (get0 h author) seq) h) have in_max"

definition repair_rec :: "log_scan \<Rightarrow> group_rec \<Rightarrow> group_rec" where
  "repair_rec scan rec = rec\<lparr>gr_next_seq := max (gr_next_seq rec) (ls_own_max scan + 1),
     gr_have := merge_have (ls_in_max scan) (gr_have rec)\<rparr>"

subsection \<open>System lines\<close>

lemma takeWhile_colon: "CHR '':'' \<notin> set k \<Longrightarrow> takeWhile (\<lambda>c. c \<noteq> CHR '':'') (k @ CHR '':'' # r) = k"
  by (induction k) auto

lemma sys_kind_sys_rec: "CHR '':'' \<notin> set kind \<Longrightarrow> sys_kind (gl_id (sys_rec kind e i t ts)) = Some kind"
  using strip_prefix_append [of "''sys:''"] takeWhile_colon [of kind]
  by (simp add: sys_kind_def sys_rec_def)

subsection \<open>Appending and reading\<close>

text \<open>A JSON line: UTF-8 text without line feeds that does not end in a carriage return.\<close>

definition line_ok :: "string \<Rightarrow> bool" where
  "line_ok l \<longleftrightarrow> utf8_ok l \<and> lf \<notin> set l \<and> l \<noteq> [] \<and> last l \<noteq> CHR 0x0D"

lemma utf8_lf [simp]: "utf8_ok [lf]"
  by code_simp

lemma str_lines_line: "line_ok l \<Longrightarrow> str_lines (l @ [lf]) = [l]"
  using str_lines_Cons [of l "[]"] by (simp add: line_ok_def strip_cr_def)

lemma map_filter_append: "List.map_filter f (xs @ ys) = List.map_filter f xs @ List.map_filter f ys"
  by (simp add: List.map_filter_def)

definition log_ok :: "log_file \<Rightarrow> bool" where
  "log_ok f \<longleftrightarrow> complete_lines (content f) \<and> utf8_ok (content f)"

lemma log_ok_append: "log_ok f \<Longrightarrow> line_ok (ser r) \<Longrightarrow> log_ok (append_log ser f r)"
  by (simp add: log_ok_def append_log_def content_def complete_lines_def line_ok_def utf8_ok_append)

lemma read_content: "read_log de f = (if utf8_ok (content f) then List.map_filter de (str_lines (content f)) else [])"
  by (simp add: read_log_def content_def List.map_filter_def split: option.splits)

lemma read_append:
  assumes "log_ok f" "line_ok (ser r)" "de (ser r) = Some r"
  shows "read_log de (append_log ser f r) = read_log de f @ [r]"
proof -
  have "utf8_ok (content f @ ser r @ [lf])"
    using assms by (simp add: log_ok_def line_ok_def utf8_ok_append)
  moreover have "str_lines (content f @ ser r @ [lf]) = str_lines (content f) @ [ser r]"
    using assms by (simp add: log_ok_def str_lines_append str_lines_line)
  ultimately show ?thesis
    using assms by (simp add: read_content append_log_def map_filter_append log_ok_def content_def)
qed


text \<open>one append adds exactly the appended record at the end of what is read back, and keeps the file a
  sequence of complete UTF-8 lines; so a log written by appends alone reads back as the appended records.\<close>

theorem appended_log_reads_back:
  assumes "\<forall>r\<in>set rs. line_ok (ser r) \<and> de (ser r) = Some r"
  shows "read_log de (foldl (append_log ser) None rs) = rs"
proof -
  have "log_ok (foldl (append_log ser) None rs) \<and> read_log de (foldl (append_log ser) None rs) = rs"
    using assms
  proof (induction rs rule: rev_induct)
    case Nil
    show ?case by (simp add: log_ok_def content_def complete_lines_def utf8_ok_def read_log_def)
  next
    case (snoc r rs)
    then show ?case by (simp add: log_ok_append read_append)
  qed
  then show ?thesis ..
qed

subsection \<open>A line cut short by a crash\<close>

lemma log_ok_Some: "log_ok (Some s) \<longleftrightarrow> complete_lines s \<and> utf8_ok s"
  by (simp add: log_ok_def content_def)

lemma read_torn:
  assumes "log_ok (Some pre)" "lf \<notin> set l" "l \<noteq> []" "utf8_ok l"
  shows "read_log de (Some (pre @ l)) = read_log de (Some pre) @ (case de l of None \<Rightarrow> [] | Some r \<Rightarrow> [r])"
  using assms
  by (simp add: read_log_def log_ok_Some utf8_ok_append str_lines_append str_lines_last map_filter_append)
    (simp add: List.map_filter_def split: option.splits)

text \<open>a torn last line does not cost the records before it, but the next append is glued to it: as long as
  the glued line does not parse, the record that \<open>append_log\<close> reported as written is not in the log.\<close>

theorem append_after_torn_line_is_lost:
  assumes "log_ok (Some pre)" "torn \<noteq> []" "lf \<notin> set torn" "utf8_ok torn" "line_ok (ser r)"
    and "de torn = None" "de (torn @ ser r) = None"
  shows "read_log de (Some (pre @ torn)) = read_log de (Some pre)
    \<and> read_log de (append_log ser (Some (pre @ torn)) r) = read_log de (Some pre)"
proof
  show "read_log de (Some (pre @ torn)) = read_log de (Some pre)"
    using read_torn [OF assms(1,3,2,4), of de] assms(6) by simp
  have "utf8_ok (torn @ ser r)" "utf8_ok ((torn @ ser r) @ [lf])"
    using assms(4,5) by (auto simp: line_ok_def utf8_ok_append)
  moreover have "str_lines ((torn @ ser r) @ [lf]) = [torn @ ser r]"
    using assms(3,5) str_lines_Cons [of "torn @ ser r" "[]"] by (simp add: line_ok_def strip_cr_def)
  ultimately show "read_log de (append_log ser (Some (pre @ torn)) r) = read_log de (Some pre)"
    using assms(1,7) unfolding append_log_def read_log_def content_def
    by (simp add: log_ok_Some utf8_ok_append str_lines_append map_filter_append)
qed

lemma chars_split: "chars l = xs @ y # ys \<Longrightarrow> l = concat xs @ y @ concat ys"
  using concat_chars [of l] by simp

lemma not_utf8_lead:
  assumes "\<not> is_cont c" "128 \<le> (of_char c :: nat)"
  shows "\<not> utf8_ok (s @ [c])"
  using assms chars_append [of "[c]" s] by (simp add: utf8_ok_def utf8_char_def)

text \<open>a line that holds a character outside ASCII has a cut that makes the whole file unreadable as
  UTF-8, and then no record of it is read, not even the complete ones before the cut.\<close>

theorem torn_multibyte_line_hides_log:
  assumes "utf8_ok l" "\<exists>x\<in>set (chars l). 1 < length x"
  shows "\<exists>k < length l. \<forall>pre. read_log de (Some (pre @ take k l)) = []"
proof -
  from assms(2) obtain x xs ys where x: "chars l = xs @ x # ys" "1 < length x"
    by (auto simp: in_set_conv_decomp)
  then obtain c d e where cde: "x = c # d # e" by (cases x; cases "tl x") auto
  have "utf8_char x" using assms(1) x by (simp add: utf8_ok_def)
  then have c: "\<not> is_cont c" "128 \<le> (of_char c :: nat)"
    using cde utf8_char_lead utf8_char_multi by (fastforce, fastforce)
  let ?k = "length (concat xs @ [c])"
  have l: "l = (concat xs @ [c]) @ (d # e @ concat ys)"
    using chars_split [OF x(1)] cde by simp
  then have k: "?k < length l" "take ?k l = concat xs @ [c]"
    by (metis append_Cons length_append less_add_same_cancel1 list.size(3) length_greater_0_conv list.discI,
        metis append_eq_conv_conj)
  have "\<not> utf8_ok ((pre @ concat xs) @ [c])" for pre by (rule not_utf8_lead [OF c])
  then have "read_log de (Some (pre @ take ?k l)) = []" for pre
    unfolding k(2) by (simp add: read_log_def)
  with k(1) show ?thesis by blast
qed

subsection \<open>Counters after a crash\<close>

definition own_seqs :: "string \<Rightarrow> group_log_rec list \<Rightarrow> u64 list" where
  "own_seqs me rs = map gl_seq (filter (\<lambda>r. gl_from r = me \<and> gl_dir r = ''out'') rs)"

definition in_seqs :: "string \<Rightarrow> group_log_rec list \<Rightarrow> u64 list" where
  "in_seqs a rs = map gl_seq (filter (\<lambda>r. gl_from r = a \<and> gl_dir r = ''in'') rs)"

lemma foldl_max_ge: "(m :: 'a::linorder) \<le> foldl max m xs \<and> (\<forall>x\<in>set xs. x \<le> foldl max m xs)"
proof (induction xs rule: rev_induct)
  case (snoc x xs)
  then show ?case by (auto simp: le_max_iff_disj)
qed simp

lemma foldl_max_mem: "foldl max (m :: 'a::linorder) xs \<in> insert m (set xs)"
  by (induction xs arbitrary: m) (auto simp: max_def split: if_splits)

lemma scan_own: "ls_own_max (foldl (scan_step me) s rs) = foldl max (ls_own_max s) (own_seqs me rs)"
  by (induction rs arbitrary: s) (auto simp: own_seqs_def scan_step_def Let_def)

lemma get0_put [simp]: "get0 (hm_put k v m) a = (if a = k then v else get0 m a)"
  by (simp add: get0_def)

lemma scan_in: "get0 (ls_in_max (foldl (scan_step me) s rs)) a = foldl max (get0 (ls_in_max s) a) (in_seqs a rs)"
  by (induction rs arbitrary: s) (auto simp: in_seqs_def scan_step_def Let_def)

lemma scan_in_ok: "hm_ok (ls_in_max s) \<Longrightarrow> hm_ok (ls_in_max (foldl (scan_step me) s rs))"
  by (induction rs arbitrary: s) (auto simp: scan_step_def Let_def)

lemma get0_Cons: "get0 ((k, v) # m) a = (if a = k then v else get0 m a)"
  by (simp add: get0_def)

lemma get0_Nil [simp]: "get0 [] a = 0"
  by (simp add: get0_def)

lemma get0_none: "a \<notin> fst ` set m \<Longrightarrow> get0 m a = 0"
  by (simp add: get0_def map_of_eq_None_iff [THEN iffD2])

lemma merge_have_get:
  "hm_ok im \<Longrightarrow> get0 (merge_have im h) a = max (get0 h a) (get0 im a)"
proof (induction im arbitrary: h)
  case (Cons e im)
  then show ?case
    by (cases e) (auto simp: merge_have_def get0_Cons get0_none)
qed (simp add: merge_have_def get0_def)

lemmas scan_defs = scan_log_def scan_recs_def log_scan_default_def

text \<open>what the start-up repair does to the counters of a group, from the records of its log: the next own
  sequence number is above every own record's and every author's position is at least that of every
  stored record, so no number is used twice and no stored message is asked for again; no counter goes
  down, and each one is its old value or comes from a record.\<close>

theorem restart_repairs_counters:
  assumes "rs = read_log de f" "rec' = repair_rec (scan_log de f me) rec" "(-1 :: u64) \<notin> set (own_seqs me rs)"
  shows "(\<forall>s\<in>set (own_seqs me rs). s < gr_next_seq rec') \<and> gr_next_seq rec \<le> gr_next_seq rec'
    \<and> gr_next_seq rec' \<in> insert (gr_next_seq rec) (insert 1 ((\<lambda>s. s + 1) ` set (own_seqs me rs)))
    \<and> (\<forall>a. (\<forall>s\<in>set (in_seqs a rs). s \<le> get0 (gr_have rec') a) \<and> get0 (gr_have rec) a \<le> get0 (gr_have rec') a
         \<and> get0 (gr_have rec') a \<in> insert (get0 (gr_have rec) a) (set (in_seqs a rs)))"
proof (intro conjI allI)
  define m where "m = foldl max 0 (own_seqs me rs)"
  have own: "ls_own_max (scan_log de f me) = m" by (simp add: scan_defs scan_own m_def assms(1))
  have next': "gr_next_seq rec' = max (gr_next_seq rec) (m + 1)" by (simp add: assms(2) repair_rec_def own)
  have m: "\<forall>s\<in>set (own_seqs me rs). s \<le> m" "m \<in> insert 0 (set (own_seqs me rs))"
    using foldl_max_ge [of 0 "own_seqs me rs"] foldl_max_mem [of 0 "own_seqs me rs"] by (simp_all add: m_def)
  with assms(3) have "m \<noteq> -1" by auto
  then have "s < m + 1" if "s \<in> set (own_seqs me rs)" for s
    using m that by (intro word_max_add_one) auto
  then show "\<forall>s\<in>set (own_seqs me rs). s < gr_next_seq rec'" by (auto simp: next' less_max_iff_disj)
  show "gr_next_seq rec \<le> gr_next_seq rec'" by (simp add: next')
  show "gr_next_seq rec' \<in> insert (gr_next_seq rec) (insert 1 ((\<lambda>s. s + 1) ` set (own_seqs me rs)))"
    using m(2) by (auto simp: next' max_def)
next
  fix a
  have "hm_ok (ls_in_max (scan_log de f me))" by (simp add: scan_defs scan_in_ok)
  then have h: "get0 (gr_have rec') a = max (get0 (gr_have rec) a) (foldl max 0 (in_seqs a rs))"
    by (simp add: assms(1,2) repair_rec_def merge_have_get) (simp add: scan_defs scan_in)
  have ge: "\<forall>s\<in>set (in_seqs a rs). s \<le> foldl max 0 (in_seqs a rs)" using foldl_max_ge by blast
  then show "\<forall>s\<in>set (in_seqs a rs). s \<le> get0 (gr_have rec') a" by (auto simp: h le_max_iff_disj)
  show "get0 (gr_have rec) a \<le> get0 (gr_have rec') a" by (simp add: h)
  have "foldl max 0 (in_seqs a rs) \<in> insert 0 (set (in_seqs a rs))" by (rule foldl_max_mem)
  then show "get0 (gr_have rec') a \<in> insert (get0 (gr_have rec) a) (set (in_seqs a rs))"
    by (auto simp: h max_def)
qed

subsection \<open>Concrete logs\<close>

definition line_r :: group_log_rec where "line_r = sys_rec ''created'' 1 0 ''x'' 5"

definition out_r :: "u64 \<Rightarrow> group_log_rec" where
  "out_r s = \<lparr>gl_seq = s, gl_from = ''me'', gl_id = ''i'', gl_ts = 1, gl_ts_eff = 1, gl_dir = ''out'', gl_text = ''t'',
     gl_reply_to = None, gl_reply_text = None, gl_file = None\<rparr>"

definition ser1 :: "group_log_rec \<Rightarrow> string" where
  "ser1 r = (if r = line_r then ''{l}'' else if r = out_r 7 then ''{7}'' else ''{}'')"

definition de1 :: "string \<Rightarrow> group_log_rec option" where
  "de1 s = (if s = ''{l}'' then Some line_r else if s = ''{7}'' then Some (out_r 7) else None)"

lemma line_out [simp]: "line_r \<noteq> out_r s"
  by (simp add: line_r_def out_r_def sys_rec_def SYS_DIR_def)

lemma line_ok_samples: "line_ok ''{l}''" "line_ok ''{7}''" "utf8_ok ''{l''" "utf8_ok []"
  by code_simp+

theorem appended_log_reads_back_witness:
  "read_log de1 (foldl (append_log ser1) None [line_r, out_r 7]) = [line_r, out_r 7]"
  by (rule appended_log_reads_back)
    (simp add: ser1_def de1_def line_ok_samples line_out [symmetric])

theorem append_after_torn_line_is_lost_witness:
  "read_log de1 (Some ([] @ ''{l'')) = read_log de1 (Some [])
   \<and> read_log de1 (append_log ser1 (Some ([] @ ''{l'')) (out_r 7)) = read_log de1 (Some [])"
  by (rule append_after_torn_line_is_lost)
    (simp_all add: log_ok_Some complete_lines_def ser1_def de1_def line_ok_samples line_out [symmetric])

theorem torn_multibyte_line_hides_log_witness:
  "\<exists>k < length [CHR 0x22, CHR 0xC3, CHR 0xA9, CHR 0x22].
     \<forall>pre. read_log de1 (Some (pre @ take k [CHR 0x22, CHR 0xC3, CHR 0xA9, CHR 0x22])) = []"
proof -
  have "utf8_ok [CHR 0x22, CHR 0xC3, CHR 0xA9, CHR 0x22]"
    "\<exists>x\<in>set (chars [CHR 0x22, CHR 0xC3, CHR 0xA9, CHR 0x22]). 1 < length x"
    by code_simp+
  then show ?thesis by (rule torn_multibyte_line_hides_log)
qed

theorem restart_repairs_counters_witness:
  "gr_next_seq (new_rec trio) = 1
   \<and> 7 < gr_next_seq (repair_rec (scan_log de1 (append_log ser1 None (out_r 7)) ''me'') (new_rec trio))"
proof -
  let ?f = "append_log ser1 None (out_r 7)"
  have rs: "read_log de1 ?f = [out_r 7]"
    using read_append [of None ser1 "out_r 7" de1] line_ok_samples
    by (simp add: log_ok_def content_def complete_lines_def ser1_def de1_def line_out [symmetric] read_log_def)
  then have "own_seqs ''me'' (read_log de1 ?f) = [7]" by (simp add: own_seqs_def out_r_def)
  with restart_repairs_counters [of "read_log de1 ?f" de1 ?f "repair_rec (scan_log de1 ?f ''me'') (new_rec trio)" "''me''" "new_rec trio"]
  show ?thesis by (simp add: new_rec_def)
qed

end
