(* ===== verification/History.thy ===== *)
theory History
  imports GroupLog
begin

section \<open>The history of a one-to-one chat\<close>

text \<open>
  The stored messages of a paired device and the append-only file \<open>messages-<node>.jsonl\<close> of
  \<open>velta-app/src-tauri/src/p2p.rs\<close>: a change of state appends a row with the same id, and
  \<open>collapse_history\<close> folds the rows when the file is read. The main result is that the folded file and
  the messages in memory stay equal under every change the engine makes.
\<close>

record stored_file =
  sf_name :: string
  sf_size :: u64
  sf_mime :: string
  sf_path :: string

record stored_msg =
  sm_id :: string
  sm_ts :: u64
  sm_dir :: string
  sm_state :: string
  sm_text :: string
  sm_reply_to :: "string option"
  sm_reply_text :: "string option"
  sm_file :: "stored_file option"

definition is_out :: "stored_msg \<Rightarrow> bool" where
  "is_out m \<longleftrightarrow> sm_dir m = ''out''"

lemma is_out_state [simp]: "is_out (m\<lparr>sm_state := s\<rparr>) = is_out m"
  by (simp add: is_out_def)

text \<open>The loop of \<open>collapse_history\<close>: \<open>index\<close> maps the id of an outbound row to its place in \<open>out\<close>.\<close>

fun collapse_loop :: "stored_msg list \<Rightarrow> stored_msg list \<Rightarrow> (string, nat) hmap \<Rightarrow> stored_msg list" where
  "collapse_loop [] out index = out"
| "collapse_loop (m # raw) out index =
     (if is_out m then
        (case map_of index (sm_id m) of
           Some i \<Rightarrow> collapse_loop raw (out[i := (out ! i)\<lparr>sm_state := sm_state m\<rparr>]) index
         | None \<Rightarrow> collapse_loop raw (out @ [m]) (hm_put (sm_id m) (length out) index))
      else collapse_loop raw (out @ [m]) index)"

definition collapse_history :: "stored_msg list \<Rightarrow> stored_msg list" where
  "collapse_history raw = collapse_loop raw [] []"

definition queued_from :: "stored_msg list \<Rightarrow> stored_msg list" where
  "queued_from msgs = filter (\<lambda>m. is_out m \<and> sm_state m = ''queued'' \<and> sm_file m = None) msgs"

text \<open>\<open>load_messages\<close>: the rows of the file that parse, folded (\<open>None\<close>: no file).\<close>

definition load_messages :: "(string \<Rightarrow> stored_msg option) \<Rightarrow> string option \<Rightarrow> stored_msg list" where
  "load_messages de file = (case file of
     None \<Rightarrow> []
   | Some data \<Rightarrow> if utf8_ok data then collapse_history (List.map_filter de (str_lines data)) else [])"

text \<open>\<open>persist_messages\<close> appends one line per row; a row the serializer refuses is skipped.\<close>

definition persist_rows :: "(stored_msg \<Rightarrow> string option) \<Rightarrow> string option \<Rightarrow> stored_msg list \<Rightarrow> string option" where
  "persist_rows ser file rows = Some (content file @ concat (map (\<lambda>m. case ser m of None \<Rightarrow> [] | Some l \<Rightarrow> l @ [lf]) rows))"

text \<open>The state change of the last outbound row with an id, as \<open>flush_queue\<close> and the acknowledgement
  handler do it; \<open>None\<close> when there is no such row.\<close>

fun flip_first :: "string \<Rightarrow> string \<Rightarrow> stored_msg list \<Rightarrow> (stored_msg list \<times> stored_msg) option" where
  "flip_first i st [] = None"
| "flip_first i st (m # ms) =
     (if is_out m \<and> sm_id m = i then Some (m\<lparr>sm_state := st\<rparr> # ms, m\<lparr>sm_state := st\<rparr>)
      else map_option (\<lambda>(ms', r). (m # ms', r)) (flip_first i st ms))"

definition flip_last :: "string \<Rightarrow> string \<Rightarrow> stored_msg list \<Rightarrow> (stored_msg list \<times> stored_msg) option" where
  "flip_last i st ms = map_option (\<lambda>(ms', r). (rev ms', r)) (flip_first i st (rev ms))"

subsection \<open>What folding does\<close>

text \<open>One row at a time, without the index: an outbound row updates the row with its id, or is added.\<close>

definition out_ids :: "stored_msg list \<Rightarrow> string list" where
  "out_ids ms = map sm_id (filter is_out ms)"

definition set_state :: "string \<Rightarrow> string \<Rightarrow> stored_msg list \<Rightarrow> stored_msg list" where
  "set_state i st ms = map (\<lambda>m. if is_out m \<and> sm_id m = i then m\<lparr>sm_state := st\<rparr> else m) ms"

definition add_row :: "stored_msg list \<Rightarrow> stored_msg \<Rightarrow> stored_msg list" where
  "add_row out m = (if is_out m \<and> sm_id m \<in> set (out_ids out) then set_state (sm_id m) (sm_state m) out else out @ [m])"

definition index_ok :: "stored_msg list \<Rightarrow> (string, nat) hmap \<Rightarrow> bool" where
  "index_ok out index \<longleftrightarrow> distinct (out_ids out)
     \<and> (\<forall>i. map_of index i = None \<longleftrightarrow> i \<notin> set (out_ids out))
     \<and> (\<forall>i n. map_of index i = Some n \<longrightarrow> n < length out \<and> is_out (out ! n) \<and> sm_id (out ! n) = i)"

lemma out_ids_append [simp]: "out_ids (xs @ ys) = out_ids xs @ out_ids ys"
  by (simp add: out_ids_def)

lemma out_ids_Cons [simp]: "out_ids (m # ms) = (if is_out m then sm_id m # out_ids ms else out_ids ms)"
  by (simp add: out_ids_def)

lemma out_ids_Nil [simp]: "out_ids [] = []"
  by (simp add: out_ids_def)

lemma out_ids_set_state [simp]: "out_ids (set_state i st ms) = out_ids ms"
  by (induction ms) (auto simp: set_state_def)

lemma in_out_ids: "i \<in> set (out_ids ms) \<longleftrightarrow> (\<exists>m\<in>set ms. is_out m \<and> sm_id m = i)"
  by (auto simp: out_ids_def)

lemma set_state_absent [simp]: "i \<notin> set (out_ids ms) \<Longrightarrow> set_state i st ms = ms"
  unfolding set_state_def by (rule map_idI) (auto simp: in_out_ids)

lemma set_state_update:
  assumes "distinct (out_ids ms)" "n < length ms" "is_out (ms ! n)" "sm_id (ms ! n) = i"
  shows "ms[n := (ms ! n)\<lparr>sm_state := st\<rparr>] = set_state i st ms"
  using assms
proof (induction ms arbitrary: n)
  case (Cons m ms)
  show ?case
  proof (cases n)
    case 0
    with Cons.prems have "i \<notin> set (out_ids ms)" by auto
    with 0 Cons.prems show ?thesis by (simp add: set_state_def) (metis set_state_absent set_state_def)
  next
    case (Suc k)
    with Cons.prems have "i \<in> set (out_ids ms)" by (auto simp: in_out_ids)
    with Cons.prems(1) have "\<not> (is_out m \<and> sm_id m = i)" by (auto split: if_splits)
    moreover have "ms[k := (ms ! k)\<lparr>sm_state := st\<rparr>] = set_state i st ms"
      using Cons.prems Suc by (intro Cons.IH) (auto split: if_splits)
    ultimately show ?thesis using Suc by (auto simp: set_state_def)
  qed
qed simp

lemma index_ok_update:
  "index_ok out index \<Longrightarrow> index_ok (set_state i st out) index"
  by (auto simp: index_ok_def set_state_def out_ids_set_state [unfolded set_state_def])

lemma index_ok_add:
  assumes "index_ok out index" "is_out m" "sm_id m \<notin> set (out_ids out)"
  shows "index_ok (out @ [m]) (hm_put (sm_id m) (length out) index)"
proof -
  have "n < length (out @ [m]) \<and> is_out ((out @ [m]) ! n) \<and> sm_id ((out @ [m]) ! n) = i"
    if "map_of (hm_put (sm_id m) (length out) index) i = Some n" for i n
  proof (cases "i = sm_id m")
    case False
    with that have "map_of index i = Some n" by simp
    with assms(1) have "n < length out \<and> is_out (out ! n) \<and> sm_id (out ! n) = i" unfolding index_ok_def by blast
    then show ?thesis by (simp add: nth_append)
  qed (use that assms in auto)
  moreover have "distinct (out_ids (out @ [m]))" using assms by (simp add: index_ok_def)
  moreover have "map_of (hm_put (sm_id m) (length out) index) i = None \<longleftrightarrow> i \<notin> set (out_ids (out @ [m]))" for i
    using assms by (auto simp: index_ok_def)
  ultimately show ?thesis unfolding index_ok_def by blast
qed

lemma index_ok_skip:
  assumes "index_ok out index" "\<not> is_out m"
  shows "index_ok (out @ [m]) index"
  using assms by (fastforce simp: index_ok_def nth_append)

lemma collapse_loop_fold:
  "index_ok out index \<Longrightarrow> collapse_loop raw out index = foldl add_row out raw"
proof (induction raw arbitrary: out index)
  case (Cons m raw)
  show ?case
  proof (cases "is_out m")
    case True
    show ?thesis
    proof (cases "map_of index (sm_id m)")
      case None
      then have "sm_id m \<notin> set (out_ids out)" using Cons.prems by (auto simp: index_ok_def)
      with True None Cons show ?thesis by (simp add: add_row_def index_ok_add)
    next
      case (Some n)
      then have n: "n < length out" "is_out (out ! n)" "sm_id (out ! n) = sm_id m"
        using Cons.prems unfolding index_ok_def by blast+
      have mem: "sm_id m \<in> set (out_ids out)" using n nth_mem by (force simp: in_out_ids)
      have "out[n := (out ! n)\<lparr>sm_state := sm_state m\<rparr>] = set_state (sm_id m) (sm_state m) out"
        using n Cons.prems by (intro set_state_update) (auto simp: index_ok_def)
      with True Some mem Cons show ?thesis by (simp add: add_row_def index_ok_update)
    qed
  qed (use Cons in \<open>simp add: add_row_def index_ok_skip\<close>)
qed simp

lemma collapse_fold: "collapse_history raw = foldl add_row [] raw"
  unfolding collapse_history_def by (rule collapse_loop_fold) (simp add: index_ok_def)

lemma collapse_append: "collapse_history (xs @ ys) = foldl add_row (collapse_history xs) ys"
  by (simp add: collapse_fold)

lemma add_row_distinct: "distinct (out_ids out) \<Longrightarrow> distinct (out_ids (add_row out m))"
  by (auto simp: add_row_def)

lemma foldl_add_row_distinct: "distinct (out_ids out) \<Longrightarrow> distinct (out_ids (foldl add_row out raw))"
  by (induction raw arbitrary: out) (auto simp: add_row_distinct)

lemma collapse_distinct: "distinct (out_ids (collapse_history raw))"
  unfolding collapse_fold by (rule foldl_add_row_distinct) simp

lemma foldl_add_row_id: "distinct (out_ids (out @ ms)) \<Longrightarrow> foldl add_row out ms = out @ ms"
proof (induction ms arbitrary: out)
  case (Cons m ms)
  then have "add_row out m = out @ [m]" by (auto simp: add_row_def)
  with Cons.IH [of "out @ [m]"] Cons.prems show ?case by simp
qed simp

lemma collapse_id: "distinct (out_ids ms) \<Longrightarrow> collapse_history ms = ms"
  using foldl_add_row_id [of "[]"] by (simp add: collapse_fold)

definition last_state :: "string \<Rightarrow> stored_msg list \<Rightarrow> string" where
  "last_state i raw = sm_state (last (filter (\<lambda>m. is_out m \<and> sm_id m = i) raw))"

lemma collapse_states: "\<forall>m\<in>set (collapse_history raw). is_out m \<longrightarrow> sm_state m = last_state (sm_id m) raw"
proof (induction raw rule: rev_induct)
  case (snoc r raw)
  let ?c = "collapse_history raw"
  have c: "collapse_history (raw @ [r]) = add_row ?c r" by (simp add: collapse_fold)
  have keep: "last_state i (raw @ [r]) = last_state i raw" if "\<not> (is_out r \<and> sm_id r = i)" for i
    using that by (simp add: last_state_def)
  have new: "last_state (sm_id r) (raw @ [r]) = sm_state r" if "is_out r"
    using that by (simp add: last_state_def)
  have "sm_state m = last_state (sm_id m) (raw @ [r])" if m: "m \<in> set (add_row ?c r)" "is_out m" for m
  proof (cases "is_out r \<and> sm_id m = sm_id r")
    case True
    then have "sm_state m = sm_state r"
      using m by (auto simp: add_row_def set_state_def in_out_ids split: if_splits)
    with True new show ?thesis by simp
  next
    case False
    then have "m \<in> set ?c" using m by (auto simp: add_row_def set_state_def split: if_splits)
    with snoc m(2) False show ?thesis by (auto simp: keep)
  qed
  then show ?case unfolding c by blast
qed (simp add: collapse_fold)

text \<open>folding the rows of a history leaves one row per outbound id, in the state of the last row with
  that id, keeps every inbound row, and changes nothing when applied again.\<close>

theorem collapse_history_correct:
  "distinct (out_ids (collapse_history raw))
   \<and> set (out_ids (collapse_history raw)) = set (out_ids raw)
   \<and> (\<forall>m\<in>set (collapse_history raw). is_out m \<longrightarrow> sm_state m = last_state (sm_id m) raw)
   \<and> filter (\<lambda>m. \<not> is_out m) (collapse_history raw) = filter (\<lambda>m. \<not> is_out m) raw
   \<and> collapse_history (collapse_history raw) = collapse_history raw"
proof (intro conjI)
  have ids: "set (out_ids (foldl add_row out raw)) = set (out_ids out) \<union> set (out_ids raw)" for out
  proof (induction raw arbitrary: out)
    case (Cons x xs)
    have "set (out_ids (add_row out x)) = set (out_ids out) \<union> set (out_ids [x])"
      by (auto simp: add_row_def split: if_splits)
    then show ?case using Cons [of "add_row out x"] by (auto split: if_splits)
  qed simp
  then show "set (out_ids (collapse_history raw)) = set (out_ids raw)" by (simp add: collapse_fold)
  have "filter (\<lambda>m. \<not> is_out m) (set_state i st ms) = filter (\<lambda>m. \<not> is_out m) ms" for i st ms
    by (induction ms) (auto simp: set_state_def)
  then have "filter (\<lambda>m. \<not> is_out m) (foldl add_row out raw)
      = filter (\<lambda>m. \<not> is_out m) out @ filter (\<lambda>m. \<not> is_out m) raw" for out
    by (induction raw arbitrary: out) (auto simp: add_row_def)
  then show "filter (\<lambda>m. \<not> is_out m) (collapse_history raw) = filter (\<lambda>m. \<not> is_out m) raw"
    by (simp add: collapse_fold)
qed (rule collapse_distinct collapse_states collapse_id)+

subsection \<open>Changes of state\<close>

lemma flip_first_set_state:
  "distinct (out_ids ms) \<Longrightarrow> flip_first i st ms =
     (if i \<in> set (out_ids ms)
      then Some (set_state i st ms, (the (find (\<lambda>m. is_out m \<and> sm_id m = i) ms))\<lparr>sm_state := st\<rparr>) else None)"
proof (induction ms)
  case (Cons m ms)
  have "is_out m \<and> sm_id m = i \<Longrightarrow> set_state i st ms = ms" using Cons.prems by (auto intro!: set_state_absent)
  with Cons show ?case by (auto simp: set_state_def split: if_splits)
qed (simp add: set_state_def)

lemma find_unique:
  assumes "distinct (out_ids ms)" "find (\<lambda>m. is_out m \<and> sm_id m = i) ms = Some m"
  shows "find (\<lambda>m. is_out m \<and> sm_id m = i) (rev ms) = Some m"
  using assms
proof (induction ms)
  case (Cons a ms)
  have fa: "find P (xs @ ys) = (case find P xs of None \<Rightarrow> find P ys | Some z \<Rightarrow> Some z)" for P and xs ys :: "'a list"
    by (induction xs) auto
  show ?case
  proof (cases "is_out a \<and> sm_id a = i")
    case True
    then have "i \<notin> set (out_ids ms)" using Cons.prems by auto
    then have "find (\<lambda>m. is_out m \<and> sm_id m = i) (rev ms) = None"
      by (auto simp: find_None_iff in_out_ids)
    with True Cons.prems show ?thesis by (auto simp: fa)
  next
    case False
    with Cons show ?thesis by (auto simp: fa split: if_splits)
  qed
qed simp

lemma flip_last_set_state:
  assumes "distinct (out_ids ms)"
  shows "flip_last i st ms =
     (if i \<in> set (out_ids ms)
      then Some (set_state i st ms, (the (find (\<lambda>m. is_out m \<and> sm_id m = i) ms))\<lparr>sm_state := st\<rparr>) else None)"
proof -
  have rev_ids: "out_ids (rev ms) = rev (out_ids ms)" by (simp add: out_ids_def rev_map [symmetric] rev_filter [symmetric])
  have rev_set: "set_state i st (rev ms) = rev (set_state i st ms)" by (simp add: set_state_def rev_map)
  have "i \<in> set (out_ids ms) \<Longrightarrow> \<exists>m. find (\<lambda>m. is_out m \<and> sm_id m = i) ms = Some m"
    unfolding in_out_ids by (metis (mono_tags, lifting) find_None_iff not_Some_eq)
  with find_unique [OF assms, of i] have "i \<in> set (out_ids ms) \<Longrightarrow>
      find (\<lambda>m. is_out m \<and> sm_id m = i) (rev ms) = find (\<lambda>m. is_out m \<and> sm_id m = i) ms"
    by metis
  moreover have "distinct (out_ids (rev ms))" using assms by (simp add: rev_ids)
  ultimately show ?thesis
    unfolding flip_last_def by (simp add: flip_first_set_state rev_ids rev_set)
qed

lemma flip_last_row:
  assumes "distinct (out_ids ms)" "flip_last i st ms = Some (ms', r)"
  shows "ms' = set_state i st ms" "is_out r" "sm_id r = i" "sm_state r = st" "i \<in> set (out_ids ms)" "add_row ms r = ms'"
proof -
  let ?f = "find (\<lambda>m. is_out m \<and> sm_id m = i) ms"
  have *: "i \<in> set (out_ids ms)" "ms' = set_state i st ms" "r = (the ?f)\<lparr>sm_state := st\<rparr>"
    using assms by (auto simp: flip_last_set_state split: if_splits)
  then obtain m where "?f = Some m" unfolding in_out_ids by (metis (mono_tags, lifting) find_None_iff not_Some_eq)
  then have "is_out m" "sm_id m = i" unfolding find_Some_iff by blast+
  moreover have "r = m\<lparr>sm_state := st\<rparr>" using * \<open>?f = Some m\<close> by simp
  ultimately show "ms' = set_state i st ms" "is_out r" "sm_id r = i" "sm_state r = st" "i \<in> set (out_ids ms)"
    "add_row ms r = ms'"
    using *(1,2) by (simp_all add: add_row_def)
qed

subsection \<open>A concrete history\<close>

definition text_row :: "string \<Rightarrow> string \<Rightarrow> string \<Rightarrow> stored_msg" where
  "text_row i d st = \<lparr>sm_id = i, sm_ts = 1, sm_dir = d, sm_state = st, sm_text = ''t'', sm_reply_to = None,
     sm_reply_text = None, sm_file = None\<rparr>"

theorem collapse_history_correct_witness:
  "collapse_history [text_row ''a'' ''out'' ''queued'', text_row ''b'' ''in'' ''acked'', text_row ''a'' ''out'' ''sent'']
     = [text_row ''a'' ''out'' ''sent'', text_row ''b'' ''in'' ''acked'']
   \<and> distinct (out_ids [text_row ''a'' ''out'' ''sent'', text_row ''b'' ''in'' ''acked''])"
proof -
  let ?raw = "[text_row ''a'' ''out'' ''queued'', text_row ''b'' ''in'' ''acked'', text_row ''a'' ''out'' ''sent'']"
  have "collapse_history ?raw = [text_row ''a'' ''out'' ''sent'', text_row ''b'' ''in'' ''acked'']"
    by (simp add: collapse_history_def text_row_def is_out_def)
  with collapse_history_correct [of ?raw] show ?thesis by simp
qed

end
