(* ===== verification/Ticket.thy ===== *)
theory Ticket
  imports Ext
begin

section \<open>Invite tickets\<close>

text \<open>
  \<open>encode_ticket\<close>, \<open>parse_ticket\<close> and \<open>parse_ticket_bin\<close> of \<open>velta-app/src-tauri/src/p2p.rs\<close>: the
  out-of-band invite carries a node id, a pairing token and up to three addresses. Byte accesses of
  the parser go through \<open>idx\<close> and \<open>slice\<close>, which yield \<open>Panic\<close> out of range, so that the absence of
  panics on arbitrary input is a theorem. JSON of the legacy ticket is the parameter \<open>de\<close>.
\<close>

datatype ticket_error = NotVeltaInvite | TicketTooShort | BadNodeId | TruncatedAddress | BadFamily
  | BadEncoding | BadJson | UnsupportedVersion u8 | Panic

record ticket =
  t_v :: u8
  t_node_id :: string
  t_addrs :: "string list"
  t_token :: string
  t_name :: string

definition TICKET_PREFIX :: string where "TICKET_PREFIX = ''VELTAP2P1:''"
definition TICKET_FMT_BIN :: byte where "TICKET_FMT_BIN = 2"

definition idx :: "byte list \<Rightarrow> nat \<Rightarrow> ticket_error + byte" where
  "idx xs i = (if i < length xs then Inr (xs ! i) else Inl Panic)"

definition slice :: "byte list \<Rightarrow> nat \<Rightarrow> nat \<Rightarrow> ticket_error + byte list" where
  "slice xs a b = (if a \<le> b \<and> b \<le> length xs then Inr (take (b - a) (drop a xs)) else Inl Panic)"

definition mk_ip :: "byte list \<Rightarrow> ip_addr" where
  "mk_ip o' = (if length o' = 4 then IpV4 (of_nat (be_val o')) else IpV6 (of_nat (be_val o')))"

definition ip_len :: "byte \<Rightarrow> nat" where
  "ip_len family = (if family = 4 then 4 else 16)"

text \<open>One round of the address loop: the printed address and the position after it.\<close>

definition parse_addr :: "'a ext_scheme \<Rightarrow> byte list \<Rightarrow> nat \<Rightarrow> ticket_error + (string \<times> nat)" where
  "parse_addr E bytes pos =
     (if pos + 1 > length bytes then Inl TruncatedAddress
      else r_bind (idx bytes pos) (\<lambda>family.
        if family \<noteq> 4 \<and> family \<noteq> 6 then Inl BadFamily
        else if pos + 1 + ip_len family + 2 > length bytes then Inl TruncatedAddress
        else r_bind (slice bytes (pos + 1) (pos + 1 + ip_len family)) (\<lambda>ip.
             r_bind (slice bytes (pos + 1 + ip_len family) (pos + 1 + ip_len family + 2)) (\<lambda>port.
               Inr (sock_show E (SocketAddr (mk_ip ip) (of_nat (be_val port))), pos + 1 + ip_len family + 2)))))"

fun parse_addrs :: "'a ext_scheme \<Rightarrow> byte list \<Rightarrow> nat \<Rightarrow> nat \<Rightarrow> string list \<Rightarrow> ticket_error + string list" where
  "parse_addrs E bytes 0 pos acc = Inr acc"
| "parse_addrs E bytes (Suc n) pos acc =
     r_bind (parse_addr E bytes pos) (\<lambda>(a, pos'). parse_addrs E bytes n pos' (acc @ [a]))"

definition parse_ticket_bin :: "'a ext_scheme \<Rightarrow> byte list \<Rightarrow> ticket_error + ticket" where
  "parse_ticket_bin E bytes =
     (if length bytes < 46 then Inl TicketTooShort
      else r_bind (slice bytes 1 33) (\<lambda>node_bytes.
        case nid_from_bytes E node_bytes of
          None \<Rightarrow> Inl BadNodeId
        | Some node_id \<Rightarrow>
            r_bind (slice bytes 33 45) (\<lambda>tok.
            r_bind (idx bytes 45) (\<lambda>n.
            r_bind (parse_addrs E bytes (unat n) 46 []) (\<lambda>addrs.
              Inr \<lparr>t_v = 2, t_node_id = nid_show E node_id, t_addrs = addrs,
                   t_token = hex_enc E tok, t_name = []\<rparr>)))))"

definition parse_ticket :: "'a ext_scheme \<Rightarrow> (byte list \<Rightarrow> ticket option) \<Rightarrow> string \<Rightarrow> ticket_error + ticket" where
  "parse_ticket E de ticket =
     (case strip_prefix TICKET_PREFIX (trim ticket) of
        None \<Rightarrow> Inl NotVeltaInvite
      | Some encoded \<Rightarrow>
          (let legacy =
             (case b64url_dec E encoded of
                None \<Rightarrow> Inl BadEncoding
              | Some bytes \<Rightarrow>
                  (case de bytes of
                     None \<Rightarrow> Inl BadJson
                   | Some t \<Rightarrow> if t_v t \<noteq> 1 then Inl (UnsupportedVersion (t_v t)) else Inr t))
           in case b32_dec E (map ascii_upper encoded) of
                Some (b # bs) \<Rightarrow>
                  if b = TICKET_FMT_BIN then
                    (case parse_ticket_bin E (b # bs) of Inr t \<Rightarrow> Inr t | Inl _ \<Rightarrow> legacy)
                  else legacy
              | _ \<Rightarrow> legacy))"

definition octets :: "ip_addr \<Rightarrow> byte list" where
  "octets ip = (case ip of IpV4 w \<Rightarrow> be_bytes 4 (unat w) | IpV6 w \<Rightarrow> be_bytes 16 (unat w))"

definition is_private :: "32 word \<Rightarrow> bool" where
  "is_private w = (case octets (IpV4 w) of
     a # b # _ \<Rightarrow> a = 10 \<or> a = 172 \<and> 16 \<le> b \<and> b \<le> 31 \<or> a = 192 \<and> b = 168 | _ \<Rightarrow> False)"

definition addr_class :: "sock_addr \<Rightarrow> nat" where
  "addr_class sa = (case sa_ip sa of IpV4 w \<Rightarrow> if is_private w then 0 else 1 | IpV6 _ \<Rightarrow> 2)"

definition addr_bytes :: "sock_addr \<Rightarrow> byte list" where
  "addr_bytes sa = (case sa_ip sa of IpV4 _ \<Rightarrow> 4 | IpV6 _ \<Rightarrow> 6) # octets (sa_ip sa) @ be_bytes 2 (unat (sa_port sa))"

definition ticket_addrs :: "'a ext_scheme \<Rightarrow> string list \<Rightarrow> sock_addr list" where
  "ticket_addrs E addrs = take 3 (sort_key addr_class (List.map_filter (sock_parse E) addrs))"

definition ticket_bytes :: "'a ext_scheme \<Rightarrow> node_id \<Rightarrow> string list \<Rightarrow> string \<Rightarrow> byte list" where
  "ticket_bytes E node_id addrs token =
     (let parsed = ticket_addrs E addrs in
      [TICKET_FMT_BIN] @ nid_bytes node_id
        @ (case hex_dec E token of Some t \<Rightarrow> t | None \<Rightarrow> [])
        @ [of_nat (min (length parsed) 8)] @ concat (map addr_bytes parsed))"

definition encode_ticket :: "'a ext_scheme \<Rightarrow> node_id \<Rightarrow> string list \<Rightarrow> string \<Rightarrow> string" where
  "encode_ticket E node_id addrs token = TICKET_PREFIX @ b32_enc E (ticket_bytes E node_id addrs token)"

subsection \<open>No panic\<close>

lemma parse_addr_no_panic: "parse_addr E bytes pos \<noteq> Inl Panic"
  by (auto simp: parse_addr_def idx_def slice_def r_bind_Inl)

lemma parse_addrs_no_panic: "parse_addrs E bytes n pos acc \<noteq> Inl Panic"
  by (induction n arbitrary: pos acc) (auto simp: r_bind_Inl parse_addr_no_panic)

text \<open>parsing a binary ticket never indexes outside the received bytes, whatever they are, and a
  ticket that is accepted is at least 46 bytes long and names a node id the key library accepts.\<close>

theorem parse_ticket_bin_total:
  "parse_ticket_bin E bytes \<noteq> Inl Panic
   \<and> (\<forall>t. parse_ticket_bin E bytes = Inr t \<longrightarrow>
        46 \<le> length bytes \<and> t_v t = 2 \<and> length (t_addrs t) = unat (bytes ! 45)
        \<and> (\<exists>n. nid_from_bytes E (take 32 (drop 1 bytes)) = Some n \<and> t_node_id t = nid_show E n))"
proof -
  have len: "parse_addrs E bytes n pos acc = Inr as \<Longrightarrow> length as = length acc + n" for n pos acc as
    by (induction n arbitrary: pos acc) (auto simp: r_bind_Inr)
  have "parse_ticket_bin E bytes \<noteq> Inl Panic"
    using parse_addrs_no_panic [of E bytes]
    by (auto simp: parse_ticket_bin_def r_bind_Inl idx_def slice_def split: option.splits)
  then show ?thesis
    by (auto simp: parse_ticket_bin_def r_bind_Inr idx_def slice_def
        split: option.splits if_splits dest: len)
qed

theorem parse_ticket_bin_total_witness:
  "\<exists>t. parse_ticket_bin ref_ext (2 # replicate 32 1 @ replicate 12 5 @ [0]) = Inr t \<and> length (t_addrs t) = 0"
proof -
  let ?b = "2 # replicate 32 1 @ replicate 12 5 @ [0 :: byte]"
  have z: "?b ! 45 = 0" by (simp add: nth_append)
  have "\<exists>t. parse_ticket_bin ref_ext ?b = Inr t"
    by (simp add: parse_ticket_bin_def idx_def slice_def TICKET_FMT_BIN_def ref_ext_def nth_append)
  with parse_ticket_bin_total [of ref_ext ?b] show ?thesis using z by auto
qed

subsection \<open>Round trip\<close>

lemma length_octets: "length (octets ip) = (case ip of IpV4 _ \<Rightarrow> 4 | IpV6 _ \<Rightarrow> 16)"
  by (simp add: octets_def split: ip_addr.splits)

lemma mk_ip_octets [simp]: "mk_ip (octets ip) = ip"
  by (cases ip) (simp_all add: mk_ip_def octets_def)

lemma parse_addr_encoded:
  "parse_addr E (pre @ addr_bytes a @ rest) (length pre) = Inr (sock_show E a, length (pre @ addr_bytes a))"
proof -
  let ?b = "pre @ addr_bytes a @ rest"
  define fam :: byte where "fam = (case sa_ip a of IpV4 _ \<Rightarrow> 4 | IpV6 _ \<Rightarrow> 6)"
  have fam: "fam = 4 \<or> fam = 6" "ip_len fam = length (octets (sa_ip a))"
    by (simp_all add: fam_def ip_len_def length_octets split: ip_addr.splits)
  have ab: "addr_bytes a = fam # octets (sa_ip a) @ be_bytes 2 (unat (sa_port a))"
    by (simp add: addr_bytes_def fam_def)
  have i: "idx ?b (length pre) = Inr fam" by (simp add: idx_def ab)
  have s1: "slice ?b (length pre + 1) (length pre + 1 + ip_len fam) = Inr (octets (sa_ip a))"
    by (simp add: slice_def ab fam)
  have s2: "slice ?b (length pre + 1 + ip_len fam) (length pre + 1 + ip_len fam + 2)
      = Inr (be_bytes 2 (unat (sa_port a)))"
    by (simp add: slice_def ab fam)
  have a: "SocketAddr (mk_ip (octets (sa_ip a))) (of_nat (be_val (be_bytes 2 (unat (sa_port a))))) = a"
    by (cases a) simp
  have len: "length ?b \<ge> length pre + 1 + ip_len fam + 2"
    "length (pre @ addr_bytes a) = length pre + 1 + ip_len fam + 2"
    by (simp_all add: ab fam)
  show ?thesis
    unfolding parse_addr_def i r_bind.simps s1 s2 a using fam(1) len by auto
qed

lemma parse_addrs_encoded:
  "parse_addrs E (pre @ concat (map addr_bytes as)) (length as) (length pre) acc = Inr (acc @ map (sock_show E) as)"
proof (induction as arbitrary: pre acc)
  case (Cons a as)
  show ?case
    using Cons [of "pre @ addr_bytes a" "acc @ [sock_show E a]"]
      parse_addr_encoded [of E pre a "concat (map addr_bytes as)"]
    by simp
qed simp

lemma b32_chars:
  assumes "c \<in> set b32_alphabet"
  shows "ascii_upper c = c \<and> \<not> is_cont c \<and> \<not> is_ws [c]"
proof -
  have "list_all (\<lambda>c. ascii_upper c = c \<and> \<not> is_cont c \<and> \<not> is_ws [c]) b32_alphabet"
    by code_simp
  with assms show ?thesis by (auto simp: list_all_iff)
qed

lemma trim_ticket:
  assumes "b32_laws E"
  shows "trim (TICKET_PREFIX @ b32_enc E b) = TICKET_PREFIX @ b32_enc E b"
proof -
  let ?s = "TICKET_PREFIX @ b32_enc E b"
  have pre: "list_all (\<lambda>c. \<not> is_cont c \<and> \<not> is_ws [c]) TICKET_PREFIX" by code_simp
  have sub: "set (b32_enc E b) \<subseteq> set b32_alphabet" using assms by (simp add: b32_laws_def)
  have all: "\<not> is_cont c \<and> \<not> is_ws [c]" if "c \<in> set ?s" for c
    using that pre sub b32_chars by (auto simp: list_all_iff)
  then have ch: "chars ?s = map (\<lambda>c. [c]) ?s" by (intro chars_ascii) blast
  have ne: "?s \<noteq> []" by (simp add: TICKET_PREFIX_def)
  have "trim_chars (chars ?s) = chars ?s"
  proof (rule trim_chars_id)
    show "chars ?s \<noteq> []" using ch ne by (metis map_is_Nil_conv)
    show "\<not> is_ws (hd (chars ?s))" "\<not> is_ws (last (chars ?s))"
      using ch ne all by (metis hd_map hd_in_set, metis last_map last_in_set)
  qed
  then show ?thesis unfolding trim_def by simp
qed

text \<open>a ticket this device hands out is read back by the other device as exactly the node id, the
  token and the first three of the addresses in the order private IPv4, other IPv4, IPv6.\<close>

theorem ticket_round_trip:
  assumes "b32_laws E" "hex_laws E"
    and "nid_from_bytes E (nid_bytes n) = Some n" "length (nid_bytes n) = 32"
    and "hex_dec E token = Some tok" "length tok = 12"
  shows "parse_ticket E de (encode_ticket E n addrs token) =
    Inr \<lparr>t_v = 2, t_node_id = nid_show E n, t_addrs = map (sock_show E) (ticket_addrs E addrs),
         t_token = token, t_name = []\<rparr>"
proof -
  define as where "as = ticket_addrs E addrs"
  define pre where "pre = [TICKET_FMT_BIN] @ nid_bytes n @ tok @ [of_nat (min (length as) 8)]"
  have len_as: "length as \<le> 3" by (simp add: as_def ticket_addrs_def)
  have tb: "ticket_bytes E n addrs token = pre @ concat (map addr_bytes as)"
    using assms(5) by (simp add: ticket_bytes_def pre_def as_def Let_def)
  have lp: "length pre = 46" using assms by (simp add: pre_def)
  have pa: "parse_addrs E (pre @ concat (map addr_bytes as)) (length as) 46 [] = Inr (map (sock_show E) as)"
    using parse_addrs_encoded [of E pre as "[]"] lp by simp
  have p45: "(pre @ concat (map addr_bytes as)) ! 45 = of_nat (length as)"
    using lp assms len_as by (simp add: pre_def nth_append min_def)
  have bin: "parse_ticket_bin E (pre @ concat (map addr_bytes as)) =
      Inr \<lparr>t_v = 2, t_node_id = nid_show E n, t_addrs = map (sock_show E) as, t_token = token, t_name = []\<rparr>"
  proof -
    have s1: "slice (pre @ concat (map addr_bytes as)) 1 33 = Inr (nid_bytes n)"
      using assms by (simp add: slice_def pre_def)
    have s2: "slice (pre @ concat (map addr_bytes as)) 33 45 = Inr tok"
      using assms by (simp add: slice_def pre_def)
    have i: "idx (pre @ concat (map addr_bytes as)) 45 = Inr (of_nat (length as))"
      using p45 lp by (simp add: idx_def)
    have u: "unat (of_nat (length as) :: byte) = length as" using len_as by simp
    show ?thesis
      unfolding parse_ticket_bin_def s1 s2 i using assms lp pa u
      by (simp add: hex_laws_def)
  qed
  have up: "map ascii_upper (b32_enc E b) = b32_enc E b" for b
    using assms(1) b32_chars by (intro map_idI) (auto simp: b32_laws_def)
  obtain bs where bs: "pre @ concat (map addr_bytes as) = TICKET_FMT_BIN # bs"
    by (simp add: pre_def)
  show ?thesis
    using assms(1) bin
    by (simp add: parse_ticket_def encode_ticket_def trim_ticket up tb b32_laws_def Let_def
        as_def [symmetric]) (simp add: bs)
qed

definition demo_node :: node_id where
  "demo_node = NodeId (replicate 32 7)"

theorem ticket_round_trip_witness:
  "parse_ticket ref_ext (\<lambda>_. None) (encode_ticket ref_ext demo_node [] ''00112233445566778899aabb'')
     = Inr \<lparr>t_v = 2, t_node_id = nid_show ref_ext demo_node, t_addrs = [],
            t_token = ''00112233445566778899aabb'', t_name = []\<rparr>"
proof -
  have tok: "hex_dec ref_ext ''00112233445566778899aabb''
     = Some [0x00, 0x11, 0x22, 0x33, 0x44, 0x55, 0x66, 0x77, 0x88, 0x99, 0xaa, 0xbb]"
    by (simp add: ref_ext_def hex_alphabet_def)
  have n: "nid_from_bytes ref_ext (nid_bytes demo_node) = Some demo_node" "length (nid_bytes demo_node) = 32"
    by (simp_all add: ref_ext_def demo_node_def)
  show ?thesis
    using ticket_round_trip [OF ref_b32_laws ref_hex_laws n tok, of "\<lambda>_. None" "[]"]
    by (simp add: ticket_addrs_def List.map_filter_def)
qed

end
