(* ===== verification/Framing.thy ===== *)
theory Framing
  imports Prelude
begin

section \<open>Newline-delimited frames\<close>

text \<open>
  \<open>Framer::read_json_frame\<close> and \<open>write_json\<close> of \<open>velta-app/src-tauri/src/p2p.rs\<close>. The receive half of
  a QUIC stream is the list of the results its \<open>read\<close> calls yield (a chunk of at most 4096 bytes or a
  transport error; the end of the list is the end of the stream), so the loop is a recursion on it.
  \<open>serde_json\<close> is the pair of parameters \<open>ser\<close> and \<open>de\<close>. The lemmas show that frames survive any
  segmentation of the stream and that the buffer is bounded.
\<close>

datatype frame_error = FrameTooLarge | StreamEnded | ReadFailed | BadFrame

datatype read_result = Chunk "byte list" | ReadErr

definition MAX_FRAME :: nat where "MAX_FRAME = 256 * 1024"
definition READ_CHUNK :: nat where "READ_CHUNK = 4096"

abbreviation newline :: byte where "newline \<equiv> 10"

definition cut_line :: "byte list \<Rightarrow> (byte list \<times> byte list) option" where
  "cut_line buf = (let line = takeWhile (\<lambda>b. b \<noteq> newline) buf in
     if length line < length buf then Some (line, drop (Suc (length line)) buf) else None)"

definition decode :: "(byte list \<Rightarrow> 'f option) \<Rightarrow> byte list \<Rightarrow> frame_error + 'f" where
  "decode de line = (case de line of Some f \<Rightarrow> Inr f | None \<Rightarrow> Inl BadFrame)"

fun read_json_frame :: "(byte list \<Rightarrow> 'f option) \<Rightarrow> byte list \<Rightarrow> read_result list \<Rightarrow>
    (frame_error + 'f) \<times> byte list \<times> read_result list" where
  "read_json_frame de buf rs =
     (case cut_line buf of
        Some (line, rest) \<Rightarrow> (decode de line, rest, rs)
      | None \<Rightarrow>
          if length buf > MAX_FRAME then (Inl FrameTooLarge, buf, rs)
          else (case rs of
                  [] \<Rightarrow> (Inl StreamEnded, buf, [])
                | ReadErr # rs' \<Rightarrow> (Inl ReadFailed, buf, rs')
                | Chunk c # rs' \<Rightarrow> read_json_frame de (buf @ c) rs'))"

declare read_json_frame.simps [simp del]

definition write_json :: "('f \<Rightarrow> byte list) \<Rightarrow> 'f \<Rightarrow> byte list" where
  "write_json ser f = ser f @ [newline]"

text \<open>The session's reader calls \<open>read_frame\<close> again and again on the same buffer.\<close>

fun read_frames :: "(byte list \<Rightarrow> 'f option) \<Rightarrow> nat \<Rightarrow> byte list \<Rightarrow> read_result list \<Rightarrow> frame_error + 'f list" where
  "read_frames de 0 buf rs = Inr []"
| "read_frames de (Suc n) buf rs =
     (case read_json_frame de buf rs of
        (Inl e, _, _) \<Rightarrow> Inl e
      | (Inr f, buf', rs') \<Rightarrow> r_bind (read_frames de n buf' rs') (\<lambda>fs. Inr (f # fs)))"

lemma takeWhile_line [simp]:
  "newline \<notin> set l \<Longrightarrow> takeWhile (\<lambda>b. b \<noteq> newline) (l @ newline # r) = l"
  by (induction l) auto

lemma cut_line_Some [simp]: "newline \<notin> set l \<Longrightarrow> cut_line (l @ newline # rest) = Some (l, rest)"
  by (simp add: cut_line_def)

lemma cut_line_None [simp]: "newline \<notin> set buf \<Longrightarrow> cut_line buf = None"
  by (induction buf) (auto simp: cut_line_def Let_def)

lemma line_unique:
  assumes "l @ newline # r = l' @ newline # r'" "newline \<notin> set l" "newline \<notin> set l'"
  shows "l = l' \<and> r = r'"
proof -
  have "l = l'"
    using takeWhile_line [OF assms(2), of r] takeWhile_line [OF assms(3), of r'] assms(1) by metis
  with assms(1) show ?thesis by simp
qed

lemma prefix_of_line:
  assumes "buf @ more = l @ newline # r" "newline \<notin> set buf"
  shows "length buf \<le> length l"
proof (rule ccontr)
  assume "\<not> length buf \<le> length l"
  then have "buf ! length l = (buf @ more) ! length l" by (simp add: nth_append)
  also have "\<dots> = newline" using assms(1) by simp
  finally show False using assms(2) \<open>\<not> length buf \<le> length l\<close> by (metis nth_mem not_le)
qed

lemma cut_line_length: "cut_line buf = Some (line, rest) \<Longrightarrow> length rest < length buf"
  by (auto simp: cut_line_def Let_def split: if_splits)

lemma read_one:
  assumes "buf @ concat cs = line @ newline # rest" "newline \<notin> set line" "length line \<le> MAX_FRAME"
  shows "\<exists>buf' cs'. read_json_frame de buf (map Chunk cs) = (decode de line, buf', map Chunk cs')
           \<and> buf' @ concat cs' = rest"
  using assms(1)
proof (induction cs arbitrary: buf)
  case Nil
  then show ?case
    using assms(2) by (intro exI [of _ rest] exI [of _ "[]"])
      (simp add: read_json_frame.simps cut_line_Some)
next
  case (Cons c cs)
  show ?case
  proof (cases "newline \<in> set buf")
    case True
    then obtain l r where lr: "buf = l @ newline # r" "newline \<notin> set l"
      by (metis split_list_first)
    with Cons.prems assms(2) have "l = line" "r @ c @ concat cs = rest"
      using line_unique [of l "r @ c @ concat cs" line rest] by auto
    then show ?thesis using lr
      by (intro exI [of _ r] exI [of _ "c # cs"]) (simp add: read_json_frame.simps cut_line_Some)
  next
    case False
    then have "length buf \<le> length line"
      using Cons.prems by (rule prefix_of_line [rotated])
    with assms(3) have "\<not> MAX_FRAME < length buf" by simp
    with False Cons.IH [of "buf @ c"] Cons.prems show ?thesis
      by (simp add: read_json_frame.simps [of de buf] cut_line_None)
  qed
qed

text \<open>frames written one after the other are read back in order and complete, however the
  transport splits the bytes into reads (several frames in one read, a frame over many reads).\<close>

theorem frames_survive_segmentation:
  assumes "concat cs = concat (map (write_json ser) fs) @ rest"
    and "\<And>f. f \<in> set fs \<Longrightarrow> de (ser f) = Some f"
    and "\<And>f. f \<in> set fs \<Longrightarrow> newline \<notin> set (ser f) \<and> length (ser f) \<le> MAX_FRAME"
  shows "read_frames de (length fs) [] (map Chunk cs) = Inr fs"
proof -
  have "buf @ concat cs = concat (map (write_json ser) fs) @ rest \<Longrightarrow>
      read_frames de (length fs) buf (map Chunk cs) = Inr fs" for buf
    using assms(2,3)
  proof (induction fs arbitrary: buf cs)
    case (Cons f fs)
    then have "buf @ concat cs = ser f @ newline # (concat (map (write_json ser) fs) @ rest)"
      by (simp add: write_json_def [of ser f])
    from read_one [OF this, of de] Cons.prems obtain buf' cs' where
      r: "read_json_frame de buf (map Chunk cs) = (decode de (ser f), buf', map Chunk cs')"
      and "buf' @ concat cs' = concat (map (write_json ser) fs) @ rest"
      by (metis list.set_intros(1))
    then have "read_frames de (length fs) buf' (map Chunk cs') = Inr fs"
      using Cons by auto
    then show ?case using Cons.prems r by (simp add: decode_def)
  qed simp
  from this [of "[]"] assms(1) show ?thesis by simp
qed

theorem frames_survive_segmentation_witness:
  "read_frames (\<lambda>l. Some l) 2 [] (map Chunk [[1], [2, newline, 3], [newline]]) = Inr [[1, 2], [3]]"
proof -
  have "read_frames (\<lambda>l. Some l) (length [[1, 2], [3 :: byte]]) []
      (map Chunk [[1], [2, newline, 3], [newline]]) = Inr [[1, 2], [3]]"
    by (rule frames_survive_segmentation [where ser = "\<lambda>l. l" and rest = "[]"])
      (auto simp: write_json_def MAX_FRAME_def)
  then show ?thesis by (simp only: list.size numeral_2_eq_2 add_0 add_0_right add_Suc_right One_nat_def)
qed

text \<open>the receive buffer of a session never holds more than one maximal frame plus one read, however
  much the peer sends without a line end.\<close>

theorem framer_buffer_bounded:
  assumes "read_json_frame de buf rs = (r, buf', rs')"
    and "length buf \<le> MAX_FRAME + READ_CHUNK"
    and "\<And>c. Chunk c \<in> set rs \<Longrightarrow> length c \<le> READ_CHUNK"
  shows "length buf' \<le> MAX_FRAME + READ_CHUNK"
  using assms
proof (induction rs arbitrary: buf)
  case Nil
  then show ?case
    by (auto simp: read_json_frame.simps [of de buf] split: option.splits if_splits dest!: cut_line_length)
next
  case (Cons x rs)
  show ?case
  proof (cases "cut_line buf")
    case (Some lr)
    then show ?thesis using Cons.prems(1,2)
      by (cases lr) (auto simp: read_json_frame.simps [of de buf] dest!: cut_line_length)
  next
    case None
    show ?thesis
    proof (cases "length buf > MAX_FRAME \<or> x = ReadErr")
      case True
      then show ?thesis using Cons.prems(1,2) None
        by (auto simp: read_json_frame.simps [of de buf] split: if_splits)
    next
      case False
      then obtain c where c: "x = Chunk c" by (cases x) auto
      have "length c \<le> READ_CHUNK" using Cons.prems(3) c by simp
      then have "length (buf @ c) \<le> MAX_FRAME + READ_CHUNK" using False by simp
      moreover have "read_json_frame de (buf @ c) rs = (r, buf', rs')"
        using False c None Cons.prems(1) by (simp add: read_json_frame.simps [of de buf])
      ultimately show ?thesis using Cons.IH Cons.prems(3) by simp
    qed
  qed
qed

theorem framer_buffer_bounded_witness:
  "\<exists>buf'. read_json_frame (\<lambda>l. Some l) [] [Chunk [1, newline, 2]] = (Inr [1], buf', [])
     \<and> length buf' \<le> MAX_FRAME + READ_CHUNK"
proof -
  have r: "read_json_frame (\<lambda>l. Some l) [] [Chunk [1, newline, 2]] = (Inr [1], [2], [])"
    by (simp add: read_json_frame.simps cut_line_def decode_def MAX_FRAME_def)
  show ?thesis
    using framer_buffer_bounded [OF r] r by (auto simp: READ_CHUNK_def)
qed

end
