(* ===== verification/EngineState.thy ===== *)
theory EngineState
  imports History Ticket Framing
begin

section \<open>The state of the local chat engine\<close>

text \<open>
  The wire types, the live state and the effects of \<open>velta-app/src-tauri/src/p2p.rs\<close>. The record
  \<open>engine\<close> holds the fields of \<open>P2p\<close>, \<open>Inner\<close> and \<open>GroupRt\<close>, and what the code acts on outside memory:
  the frames put on each session's channel (\<open>e_out\<close>), the channels whose session task ended
  (\<open>e_closed\<close>), the notifications to the user interface (\<open>e_events\<close>), the connection attempts started
  (\<open>e_dials\<close>), the clocks and the files, each as the data read back from it (how the bytes of the group
  log and of \<open>groups.json\<close> give that data is the subject of the theories GroupLog and Roster).
  \<open>e_io\<close> scripts which of the next writes succeed and \<open>e_rm\<close> which of the next removals do (a failing
  operation leaves its file as it was), so every error branch of the code is a branch of the model.
\<close>

subsection \<open>Wire types\<close>

datatype frame =
    Msg string u64 string "string option" "string option"
  | Ack string
  | FileBegin string u64 string u64 string string
  | FileChunk string string
  | FileEnd string
  | Ping
  | GroupStateF group_state
  | GroupSync string u64 u64 string
  | GroupMsg string string u64 string u64 string "string option" "string option"
  | GroupAck string u64
  | GroupLeave string
  | GroupGone string
  | Typing "string option" bool
  | GroupFileBegin string string u64 string u64 string string
  | GroupFileChunk string string string
  | GroupFileEnd string string
  | GroupCaps u8
  | UnknownFrame

fun is_group :: "frame \<Rightarrow> bool" where
  "is_group (GroupStateF _) = True"
| "is_group (GroupSync _ _ _ _) = True"
| "is_group (GroupMsg _ _ _ _ _ _ _ _) = True"
| "is_group (GroupAck _ _) = True"
| "is_group (GroupLeave _) = True"
| "is_group (GroupGone _) = True"
| "is_group (GroupCaps _) = True"
| "is_group (Typing (Some _) _) = True"
| "is_group (GroupFileBegin _ _ _ _ _ _ _) = True"
| "is_group (GroupFileChunk _ _ _) = True"
| "is_group (GroupFileEnd _ _) = True"
| "is_group _ = False"

fun is_group_file :: "frame \<Rightarrow> bool" where
  "is_group_file (GroupFileBegin _ _ _ _ _ _ _) = True"
| "is_group_file (GroupFileChunk _ _ _) = True"
| "is_group_file (GroupFileEnd _ _) = True"
| "is_group_file _ = False"

text \<open>What a version 1 peer would not understand: the group frames and the typing hint.\<close>

definition needs_v2 :: "frame \<Rightarrow> bool" where
  "needs_v2 f \<longleftrightarrow> is_group f \<or> (\<exists>on. f = Typing None on)"

datatype hello = Hello string string "string list" | Welcome string | UnknownHello

definition ALPN_V1 :: string where "ALPN_V1 = ''/velta/p2p/1''"
definition ALPN_V2 :: string where "ALPN_V2 = ''/velta/p2p/2''"

definition default_alpns :: "string list" where
  "default_alpns = [ALPN_V2, ALPN_V1]"

definition proto_of :: "string option \<Rightarrow> u8" where
  "proto_of alpn = (if alpn = Some ALPN_V2 then 2 else 1)"

text \<open>The ALPN TLS settles on when one side dials with \<open>default_alpns\<close>: the first one offered that the
  other accepts.\<close>

definition negotiate :: "string list \<Rightarrow> string list \<Rightarrow> string option" where
  "negotiate offered accepted_alpns = find (\<lambda>a. a \<in> set accepted_alpns) offered"

definition MAX_FILE_BYTES :: u64 where "MAX_FILE_BYTES = 256 * 1024 * 1024"
definition MAX_INBOUND_FILES_PER_PEER :: nat where "MAX_INBOUND_FILES_PER_PEER = 3"
definition MAX_INBOUND_FILES_TOTAL :: nat where "MAX_INBOUND_FILES_TOTAL = 8"
definition MAX_GROUP_FILE_BYTES :: u64 where "MAX_GROUP_FILE_BYTES = 32 * 1024 * 1024"
definition GROUP_FILE_CHUNK :: nat where "GROUP_FILE_CHUNK = 96 * 1024"
definition GROUP_FILE_CREDITS :: nat where "GROUP_FILE_CREDITS = 4"
definition MAX_GROUP_XFERS :: nat where "MAX_GROUP_XFERS = 32"
definition GROUP_WINDOW :: u64 where "GROUP_WINDOW = 200"
definition GROUP_FRAMES_PER_SEC :: nat where "GROUP_FRAMES_PER_SEC = 500"
definition TYPING_MIN_GAP :: nat where "TYPING_MIN_GAP = 500"
definition NEIGHBOR_TTL :: nat where "NEIGHBOR_TTL = 10000"

lemmas limit_defs = MAX_FILE_BYTES_def MAX_INBOUND_FILES_PER_PEER_def MAX_INBOUND_FILES_TOTAL_def
  MAX_GROUP_FILE_BYTES_def MAX_GROUP_XFERS_def

subsection \<open>Live state\<close>

record live_handle =
  lh_id :: u64
  lh_tx :: nat
  lh_proto :: u8

datatype peer_kind = Paired | Introduced

record peer =
  p_kind :: peer_kind
  p_name :: string
  p_addrs :: "sock_addr list"
  p_proto :: u8
  p_live :: "live_handle list"
  p_connecting :: bool
  p_queued :: "stored_msg list"
  p_msgs :: "stored_msg list"

definition online :: "peer \<Rightarrow> bool" where
  "online p \<longleftrightarrow> p_live p \<noteq> []"

record persisted_peer =
  pp_node_id :: string
  pp_name :: string
  pp_addrs :: "string list"
  pp_proto :: u8

record file_rx =
  rx_partial :: string
  rx_dir :: string
  rx_name :: string
  rx_size :: u64
  rx_mime :: string
  rx_caption :: string
  rx_ts :: u64
  rx_got :: u64
  rx_gid :: "string option"

record group_link =
  gk_epoch :: u64
  gk_pushed :: u64

record member_xfer =
  mx_state :: string
  mx_sent :: u64
  mx_handle :: u64

record group_xfer =
  gx_gid :: string
  gx_path :: string
  gx_name :: string
  gx_size :: u64
  gx_mime :: string
  gx_caption :: string
  gx_ts :: u64
  gx_members :: "(string, member_xfer) btmap"

record nearby_dev =
  nb_name :: string
  nb_addrs :: "sock_addr list"
  nb_last_seen :: nat

text \<open>What \<open>group_json\<close> shows of a group and of each member.\<close>

record member_view =
  mv_id :: string
  mv_name :: string
  mv_self :: bool
  mv_online :: bool
  mv_introduced :: bool

record group_view =
  gv_gid :: string
  gv_name :: string
  gv_creator :: string
  gv_epoch :: u64
  gv_closed :: bool
  gv_removed :: bool
  gv_can_manage :: bool
  gv_members :: "member_view list"

subsection \<open>Errors and notifications\<close>

datatype p2p_error =
    BadPeerId | OwnInvite | NotNearbyAnyMore | UnknownNearby | BadName | BadMessage | UnknownPeer
  | SourceMissing | NotAFile | FileTooLarge | PeerOffline | Io | NoPairRequest | BadHandshake
  | WrongToken | PairDenied | PairTimeout | BadSession | BadTicket ticket_error | ConnectFailed | ConnectTimeout
  | UnexpectedHello | HandshakeFailed | HandshakeTimeout
  | UnknownGroup | NotCreator | GroupClosed | GroupReadOnly | CreatorCantLeave | CreatorCantBeRemoved
  | NotAMember | AlreadyMember | DuplicateInvitee | NoMembers | GroupFull | TooManyGroups | OnlyPaired
  | NotGroupCapable string | CapTooSmall string | LeaveFirst | NotFromCreator | SenderNotMember
  | Roster group_error | CaptionTooLong | NobodyOnline | UnknownTransfer | OriginalGone
  | AlreadySending | MemberOffline

datatype ui_event =
    EvPresence string bool
  | EvGroupPresence string bool "string list"
  | EvMsgState string string string
  | EvAck string string
  | EvMessage string string u64 string "string option" "string option" "stored_file option"
  | EvError "string option" string
  | EvGroupFileError string string string
  | EvFileProgress string string string u64 u64
  | EvFileDone string string
  | EvFileFailed string string
  | EvPairRequest string string
  | EvPairing string string
  | EvNearby string string
  | EvGroupSystem string string string u64 string
  | EvGroupState group_view
  | EvGroupRemoved string string
  | EvGroupDeleted string
  | EvGroupAck string string u64
  | EvTyping string bool
  | EvGroupTyping string string string bool
  | EvGroupMessage string string string string u64 u64 u64 string "string option" "string option" "group_file_rec option"
  | EvGroupFileRecv string string string u64 u64
  | EvGroupFileRecvFailed string string string
  | EvGroupFileSend string string string string u64 "u64 option"

subsection \<open>The engine\<close>

record engine =
  e_me :: node_id
  e_secret :: secret_key
  e_blobs :: string
  e_name :: string
  e_token :: string
  e_peers :: "(node_id, peer) hmap"
  e_nearby :: "(node_id, nearby_dev) hmap"
  e_pair_requests :: "(node_id, nat) hmap"
  e_decisions :: "(nat \<times> bool) list"
  e_groups :: "(string, group_rec) btmap"
  e_links :: "(string \<times> node_id, group_link) hmap"
  e_gone :: "(string \<times> node_id) list"
  e_gap_sent :: "(string \<times> node_id, u64) hmap"
  e_ts_eff :: "(string, u64) hmap"
  e_typing_seen :: "(string \<times> node_id, bool \<times> nat) hmap"
  e_caps :: "(node_id, u8) hmap"
  e_rx_files :: "(node_id \<times> string, file_rx) hmap"
  e_group_xfers :: "(string, group_xfer) hmap"
  e_handle_ids :: u64
  e_closed :: "nat list"
  e_out :: "(nat \<times> frame) list"
  e_events :: "ui_event list"
  e_dials :: "node_id list"
  e_now :: u64
  e_mono :: nat
  e_io :: "bool list"
  e_rm :: "bool list"
  d_peers :: "persisted_peer list option"
  d_profile :: "string option"
  d_groups :: "group_rec list option"
  d_logs :: "(string, group_log_rec list) hmap"
  d_msgs :: "(node_id, stored_msg list) hmap"
  d_files :: "(string, byte list) hmap"

subsection \<open>Effects\<close>

text \<open>Each effect is one record update, so what it leaves alone is visible to the simplifier.\<close>

definition emit :: "ui_event \<Rightarrow> engine \<Rightarrow> engine" where
  "emit ev e = e\<lparr>e_events := e_events e @ [ev]\<rparr>"

definition tx_ok :: "engine \<Rightarrow> nat \<Rightarrow> bool" where
  "tx_ok e ch \<longleftrightarrow> ch \<notin> set (e_closed e)"

text \<open>\<open>UnboundedSender::send\<close>: an error, and nothing queued, once the receiver is dropped.\<close>

definition tx_send :: "nat \<Rightarrow> frame \<Rightarrow> engine \<Rightarrow> engine" where
  "tx_send ch f e = e\<lparr>e_out := e_out e @ (if tx_ok e ch then [(ch, f)] else [])\<rparr>"

definition io_ok :: "engine \<Rightarrow> bool" where
  "io_ok e = (case e_io e of [] \<Rightarrow> True | b # _ \<Rightarrow> b)"

definition rm_ok :: "engine \<Rightarrow> bool" where
  "rm_ok e = (case e_rm e of [] \<Rightarrow> True | b # _ \<Rightarrow> b)"

definition upd_peer :: "node_id \<Rightarrow> (peer \<Rightarrow> peer) \<Rightarrow> engine \<Rightarrow> engine" where
  "upd_peer n f e = e\<lparr>e_peers := (case map_of (e_peers e) n of None \<Rightarrow> e_peers e | Some p \<Rightarrow> hm_put n (f p) (e_peers e))\<rparr>"

definition upd_group :: "string \<Rightarrow> (group_rec \<Rightarrow> group_rec) \<Rightarrow> engine \<Rightarrow> engine" where
  "upd_group g f e = e\<lparr>e_groups := (case map_of (e_groups e) g of None \<Rightarrow> e_groups e | Some r \<Rightarrow> bt_put g (f r) (e_groups e))\<rparr>"

definition remove_file :: "string \<Rightarrow> engine \<Rightarrow> engine" where
  "remove_file p e = e\<lparr>e_rm := tl (e_rm e), d_files := (if rm_ok e then hm_del p (d_files e) else d_files e)\<rparr>"

definition under :: "string \<Rightarrow> string \<Rightarrow> bool" where
  "under d p \<longleftrightarrow> take (Suc (length d)) p = d @ ''/''"

definition remove_dir_all :: "string \<Rightarrow> engine \<Rightarrow> engine" where
  "remove_dir_all d e = e\<lparr>e_rm := tl (e_rm e), d_files := (if rm_ok e then retain (\<lambda>p _. \<not> under d p) (d_files e) else d_files e)\<rparr>"

definition exists_file :: "engine \<Rightarrow> string \<Rightarrow> bool" where
  "exists_file e p \<longleftrightarrow> map_of (d_files e) p \<noteq> None"

lemmas effect_defs = emit_def tx_send_def upd_peer_def upd_group_def remove_file_def remove_dir_all_def

lemma get_upd_peer [simp, map_laws]:
  "map_of (e_peers (upd_peer n f e)) m = (if m = n then map_option f (map_of (e_peers e) n) else map_of (e_peers e) m)"
  by (simp add: upd_peer_def split: option.splits)

lemma get_upd_group [simp, map_laws]:
  "map_of (e_groups (upd_group g f e)) h = (if h = g then map_option f (map_of (e_groups e) g) else map_of (e_groups e) h)"
  by (simp add: upd_group_def split: option.splits)

subsection \<open>The group log and the chat history\<close>

definition log_of :: "engine \<Rightarrow> string \<Rightarrow> group_log_rec list" where
  "log_of e g = (case map_of (d_logs e) g of None \<Rightarrow> [] | Some l \<Rightarrow> l)"

text \<open>\<open>append_log\<close> and \<open>delete_log\<close> on the records of the file; an append fails when the write does.\<close>

definition e_append_log :: "string \<Rightarrow> group_log_rec \<Rightarrow> engine \<Rightarrow> engine" where
  "e_append_log g r e = e\<lparr>e_io := tl (e_io e), d_logs := (if io_ok e then hm_put g (log_of e g @ [r]) (d_logs e) else d_logs e)\<rparr>"

definition e_delete_log :: "string \<Rightarrow> engine \<Rightarrow> engine" where
  "e_delete_log g e = e\<lparr>e_rm := tl (e_rm e), d_logs := (if rm_ok e then hm_del g (d_logs e) else d_logs e)\<rparr>"

definition rows_of :: "engine \<Rightarrow> node_id \<Rightarrow> stored_msg list" where
  "rows_of e n = (case map_of (d_msgs e) n of None \<Rightarrow> [] | Some l \<Rightarrow> l)"

definition persist_messages :: "node_id \<Rightarrow> stored_msg list \<Rightarrow> engine \<Rightarrow> engine" where
  "persist_messages n rows e =
     e\<lparr>e_io := tl (e_io e), d_msgs := (if io_ok e then hm_put n (rows_of e n @ rows) (d_msgs e) else d_msgs e)\<rparr>"

definition e_load_messages :: "engine \<Rightarrow> node_id \<Rightarrow> stored_msg list" where
  "e_load_messages e n = collapse_history (rows_of e n)"

definition persist_groups :: "engine \<Rightarrow> engine" where
  "persist_groups e = e\<lparr>e_io := tl (e_io e), d_groups := (if io_ok e then Some (map snd (e_groups e)) else d_groups e)\<rparr>"

lemmas disk_defs = e_append_log_def e_delete_log_def persist_messages_def persist_groups_def

lemma log_of_append [simp]:
  "log_of (e_append_log g r e) h = (if h = g \<and> io_ok e then log_of e g @ [r] else log_of e h)"
  by (auto simp: log_of_def e_append_log_def)

lemma rows_of_persist [simp]:
  "rows_of (persist_messages n rows e) m = (if m = n \<and> io_ok e then rows_of e n @ rows else rows_of e m)"
  by (auto simp: rows_of_def persist_messages_def)

definition persisted :: "'a ext_scheme \<Rightarrow> (node_id, peer) hmap \<Rightarrow> persisted_peer list" where
  "persisted E ps = map (\<lambda>(i, p). \<lparr>pp_node_id = nid_show E i, pp_name = p_name p,
       pp_addrs = map (sock_show E) (p_addrs p), pp_proto = p_proto p\<rparr>)
     (filter (\<lambda>(i, p). p_kind p = Paired) ps)"

definition persist_peers :: "'a ext_scheme \<Rightarrow> engine \<Rightarrow> engine" where
  "persist_peers E e = e\<lparr>e_io := tl (e_io e), d_peers := (if io_ok e then Some (persisted E (e_peers e)) else d_peers e)\<rparr>"

subsection \<open>Sessions of a peer\<close>

definition v2_handle :: "engine \<Rightarrow> node_id \<Rightarrow> live_handle option" where
  "v2_handle e n = Option.bind (map_of (e_peers e) n) (\<lambda>p. find (\<lambda>h. lh_proto h \<ge> 2 \<and> tx_ok e (lh_tx h)) (p_live p))"

definition v2_tx :: "engine \<Rightarrow> node_id \<Rightarrow> nat option" where
  "v2_tx e n = map_option lh_tx (v2_handle e n)"

text \<open>The channel and the handle of a \<open>FileLink\<close>.\<close>

definition v2_link :: "engine \<Rightarrow> node_id \<Rightarrow> (nat \<times> u64) option" where
  "v2_link e n = map_option (\<lambda>h. (lh_tx h, lh_id h)) (v2_handle e n)"

definition session_proto :: "engine \<Rightarrow> node_id \<Rightarrow> nat \<Rightarrow> u8" where
  "session_proto e n ch = (case Option.bind (map_of (e_peers e) n) (\<lambda>p. find (\<lambda>h. lh_tx h = ch) (p_live p)) of
     None \<Rightarrow> 0 | Some h \<Rightarrow> lh_proto h)"

definition best_proto :: "peer \<Rightarrow> u8" where
  "best_proto p = (case p_live p of [] \<Rightarrow> p_proto p | h # hs \<Rightarrow> foldl max (lh_proto h) (map lh_proto hs))"

definition group_capable :: "peer \<Rightarrow> bool" where
  "group_capable p \<longleftrightarrow> best_proto p \<ge> 2"

definition fallback_name :: "'a ext_scheme \<Rightarrow> node_id \<Rightarrow> string" where
  "fallback_name E i = ''Device '' @ drop (length (nid_show E i) - 4) (nid_show E i)"

definition fresh :: "engine \<Rightarrow> nearby_dev \<Rightarrow> bool" where
  "fresh e nb \<longleftrightarrow> e_mono e - nb_last_seen nb < NEIGHBOR_TTL"

definition group_json :: "'a ext_scheme \<Rightarrow> engine \<Rightarrow> group_rec \<Rightarrow> group_view" where
  "group_json E e rec = (let st = gr_state rec in
     \<lparr>gv_gid = gs_gid st, gv_name = gs_name st, gv_creator = gs_creator st, gv_epoch = gs_epoch st,
      gv_closed = gs_closed st, gv_removed = gr_removed rec,
      gv_can_manage = (gs_creator st = nid_show E (e_me e) \<and> \<not> gr_removed rec),
      gv_members = map (\<lambda>m.
        let i = nid_parse E (gm_node_id m);
            peer = Option.bind i (map_of (e_peers e));
            is_me = (i = Some (e_me e))
        in \<lparr>mv_id = gm_node_id m,
            mv_name = (case peer of Some p \<Rightarrow> if p_name p \<noteq> [] then p_name p else gm_name m | None \<Rightarrow> gm_name m),
            mv_self = is_me,
            mv_online = (is_me \<or> (case peer of Some p \<Rightarrow> online p | None \<Rightarrow> False)),
            mv_introduced = (case peer of Some p \<Rightarrow> p_kind p = Introduced | None \<Rightarrow> False)\<rparr>) (gs_members st)\<rparr>)"

end
