(* ===== verification/Peers.thy ===== *)
theory Peers
  imports EngineState
begin

section \<open>Peers, pairing and one-to-one chat\<close>

text \<open>
  The operations of \<open>velta-app/src-tauri/src/p2p.rs\<close> on paired devices: the peer table and \<open>peers.json\<close>,
  registering and dropping sessions, sending and queueing texts, pairing by token or by approval, LAN
  beacons, presence, and the receive path of texts and acknowledgements. An operation the user
  interface calls returns the new state with its result; \<open>random_id()\<close> is the argument \<open>rid\<close>, a new
  \<open>mpsc\<close> channel the argument \<open>ch\<close>.
\<close>

subsection \<open>Snapshots\<close>

record peer_view =
  pv_id :: string
  pv_name :: string
  pv_online :: bool
  pv_queued :: nat
  pv_last_ts :: u64
  pv_proto :: u8

record status_view =
  sv_node_id :: string
  sv_name :: string
  sv_peers :: "peer_view list"
  sv_nearby :: "(string \<times> string) list"
  sv_groups :: "group_view list"

definition status :: "'a ext_scheme \<Rightarrow> engine \<Rightarrow> status_view" where
  "status E e =
     \<lparr>sv_node_id = nid_show E (e_me e), sv_name = e_name e,
      sv_peers = map (\<lambda>(i, p). \<lparr>pv_id = nid_show E i, pv_name = p_name p, pv_online = online p,
           pv_queued = length (p_queued p),
           pv_last_ts = (if p_msgs p = [] then 0 else sm_ts (last (p_msgs p))), pv_proto = best_proto p\<rparr>)
         (filter (\<lambda>(i, p). p_kind p = Paired) (e_peers e)),
      sv_nearby = map (\<lambda>(i, n). (nid_show E i, nb_name n))
         (filter (\<lambda>(i, n). fresh e n \<and> (case map_of (e_peers e) i of None \<Rightarrow> True | Some p \<Rightarrow> p_kind p \<noteq> Paired)) (e_nearby e)),
      sv_groups = map (\<lambda>(g, r). group_json E e r) (e_groups e)\<rparr>"

definition peer_json :: "'a ext_scheme \<Rightarrow> engine \<Rightarrow> node_id \<Rightarrow> (string \<times> string \<times> bool \<times> nat) option" where
  "peer_json E e n = map_option (\<lambda>p. (nid_show E n, p_name p, online p, length (p_queued p))) (map_of (e_peers e) n)"

definition set_name :: "string \<Rightarrow> engine \<Rightarrow> engine \<times> (p2p_error + unit)" where
  "set_name name e =
     (let name = trim name in
      if name = [] \<or> length name > 64 then (e, Inl BadName)
      else (e\<lparr>e_name := name, e_io := tl (e_io e), d_profile := (if io_ok e then Some name else d_profile e)\<rparr>,
            if io_ok e then Inr () else Inl Io))"

definition create_invite :: "'a ext_scheme \<Rightarrow> sock_addr list \<Rightarrow> string \<Rightarrow> engine \<Rightarrow> engine \<times> string" where
  "create_invite E addrs rid e =
     (e\<lparr>e_token := rid\<rparr>, encode_ticket E (e_me e) (map (sock_show E) addrs) rid)"

definition messages :: "'a ext_scheme \<Rightarrow> string \<Rightarrow> nat \<Rightarrow> engine \<Rightarrow> p2p_error + stored_msg list" where
  "messages E peer_str limit e =
     (case nid_parse E peer_str of None \<Rightarrow> Inl BadPeerId | Some n \<Rightarrow>
       (case map_of (e_peers e) n of
          Some p \<Rightarrow> if p_kind p = Paired then Inr (drop (length (p_msgs p) - limit) (p_msgs p)) else Inl UnknownPeer
        | None \<Rightarrow> Inl UnknownPeer))"

subsection \<open>The peer table\<close>

definition blank_peer :: "peer_kind \<Rightarrow> string \<Rightarrow> sock_addr list \<Rightarrow> stored_msg list \<Rightarrow> peer" where
  "blank_peer k name addrs ms = \<lparr>p_kind = k, p_name = name, p_addrs = addrs, p_proto = 0, p_live = [],
     p_connecting = False, p_queued = queued_from ms, p_msgs = ms\<rparr>"

definition add_peer :: "'a ext_scheme \<Rightarrow> node_id \<Rightarrow> string \<Rightarrow> sock_addr list \<Rightarrow> engine \<Rightarrow> engine \<times> (p2p_error + unit)" where
  "add_peer E n name addrs e =
     (let p0 = (case map_of (e_peers e) n of
            None \<Rightarrow> blank_peer Paired [] [] (e_load_messages e n)
          | Some p \<Rightarrow> p);
          p1 = (if p_kind p0 = Introduced
                then p0\<lparr>p_kind := Paired, p_msgs := e_load_messages e n, p_queued := queued_from (e_load_messages e n)\<rparr>
                else p0);
          p2 = p1\<lparr>p_name := (if name \<noteq> [] then name else p_name p1), p_addrs := (if addrs \<noteq> [] then addrs else p_addrs p1)\<rparr>;
          e1 = e\<lparr>e_peers := hm_put n p2 (e_peers e)\<rparr>
      in (persist_peers E e1, if io_ok e1 then Inr () else Inl Io))"

definition register_live :: "'a ext_scheme \<Rightarrow> node_id \<Rightarrow> nat \<Rightarrow> u8 \<Rightarrow> engine \<Rightarrow> engine" where
  "register_live E n ch proto e =
     (let i = e_handle_ids e;
          changed = (case map_of (e_peers e) n of None \<Rightarrow> False | Some p \<Rightarrow> p_proto p \<noteq> proto);
          e1 = upd_peer n (\<lambda>p. p\<lparr>p_live := p_live p @ [\<lparr>lh_id = i, lh_tx = ch, lh_proto = proto\<rparr>], p_proto := proto\<rparr>)
                 (e\<lparr>e_handle_ids := i + 1\<rparr>)
      in if changed then persist_peers E e1 else e1)"

definition introduced :: "engine \<Rightarrow> node_id \<Rightarrow> bool" where
  "introduced e n = (case map_of (e_peers e) n of None \<Rightarrow> False | Some p \<Rightarrow> p_kind p = Introduced)"

definition emit_presence :: "'a ext_scheme \<Rightarrow> node_id \<Rightarrow> bool \<Rightarrow> engine \<Rightarrow> engine" where
  "emit_presence E n on e =
     (let e1 = (if introduced e n then e else emit (EvPresence (nid_show E n) on) e);
          gids = map (\<lambda>(g, r). gs_gid (gr_state r)) (filter (\<lambda>(g, r). \<not> gr_removed r \<and> contains E (gr_state r) n) (e_groups e1))
      in if gids = [] then e1 else emit (EvGroupPresence (nid_show E n) on gids) e1)"

definition require_paired :: "node_id \<Rightarrow> engine \<Rightarrow> p2p_error + unit" where
  "require_paired n e = (case map_of (e_peers e) n of
     Some p \<Rightarrow> if p_kind p = Paired then Inr () else Inl UnknownPeer | None \<Rightarrow> Inl UnknownPeer)"

definition drop_group_inbound :: "(node_id \<Rightarrow> string \<Rightarrow> bool) \<Rightarrow> engine \<Rightarrow> engine" where
  "drop_group_inbound pred e =
     (let hit = (\<lambda>(n, i) t. rx_gid t \<noteq> None \<and> pred n i);
          dropped = filter (\<lambda>(k, t). hit k t) (e_rx_files e)
      in fold (\<lambda>(k, t). remove_file (rx_partial t)) dropped (e\<lparr>e_rx_files := retain (\<lambda>k t. \<not> hit k t) (e_rx_files e)\<rparr>))"

definition remove_live :: "'a ext_scheme \<Rightarrow> node_id \<Rightarrow> u64 \<Rightarrow> engine \<Rightarrow> engine" where
  "remove_live E n hid e =
     (let e1 = upd_peer n (\<lambda>p. p\<lparr>p_live := filter (\<lambda>h. lh_id h \<noteq> hid) (p_live p)\<rparr>) e;
          offline = (case map_of (e_peers e1) n of None \<Rightarrow> False | Some p \<Rightarrow> \<not> online p)
      in if offline then
           emit_presence E n False (drop_group_inbound (\<lambda>m i. m = n)
             (e1\<lparr>e_links := retain (\<lambda>(g, m) _. m \<noteq> n) (e_links e1), e_gap_sent := retain (\<lambda>(g, m) _. m \<noteq> n) (e_gap_sent e1)\<rparr>))
         else e1)"

definition prune_live :: "engine \<Rightarrow> peer \<Rightarrow> peer" where
  "prune_live e p = p\<lparr>p_live := filter (\<lambda>h. tx_ok e (lh_tx h)) (p_live p)\<rparr>"

definition trigger_connect :: "node_id \<Rightarrow> engine \<Rightarrow> engine" where
  "trigger_connect n e =
     (case map_of (e_peers e) n of
        None \<Rightarrow> e
      | Some p \<Rightarrow>
          let p' = prune_live e p in
          if p_connecting p' \<or> online p' then upd_peer n (\<lambda>_. p') e
          else (upd_peer n (\<lambda>_. p'\<lparr>p_connecting := True\<rparr>) e)\<lparr>e_dials := e_dials e @ [n]\<rparr>)"

definition retry :: "'a ext_scheme \<Rightarrow> string \<Rightarrow> engine \<Rightarrow> engine \<times> (p2p_error + unit)" where
  "retry E peer_str e = (case nid_parse E peer_str of
     None \<Rightarrow> (e, Inl BadPeerId) | Some n \<Rightarrow> (trigger_connect n e, Inr ()))"

definition maintenance_tick :: "engine \<Rightarrow> engine" where
  "maintenance_tick e = fold trigger_connect (map fst (filter (\<lambda>(i, p). \<not> online p) (e_peers e))) e"

definition set_connecting :: "node_id \<Rightarrow> bool \<Rightarrow> engine \<Rightarrow> engine" where
  "set_connecting n v e = upd_peer n (\<lambda>p. p\<lparr>p_connecting := v\<rparr>) e"

subsection \<open>Texts\<close>

definition msg_frame :: "stored_msg \<Rightarrow> frame" where
  "msg_frame m = Msg (sm_id m) (sm_ts m) (sm_text m) (sm_reply_to m) (sm_reply_text m)"

fun flush_rows :: "stored_msg list \<Rightarrow> stored_msg list \<Rightarrow> stored_msg list \<times> stored_msg list" where
  "flush_rows [] ms = (ms, [])"
| "flush_rows (m # q) ms =
     (case flip_last (sm_id m) ''sent'' ms of
        Some (ms', r) \<Rightarrow> (let (a, b) = flush_rows q ms' in (a, r # b))
      | None \<Rightarrow> (let s = m\<lparr>sm_state := ''sent''\<rparr>; (a, b) = flush_rows q (ms @ [s]) in (a, s # b)))"

definition flush_queue :: "'a ext_scheme \<Rightarrow> node_id \<Rightarrow> nat \<Rightarrow> engine \<Rightarrow> engine" where
  "flush_queue E n ch e =
     (case map_of (e_peers e) n of
        None \<Rightarrow> e
      | Some p \<Rightarrow>
          let (ms, flipped) = flush_rows (p_queued p) (p_msgs p);
              e1 = fold (\<lambda>m e. emit (EvMsgState (nid_show E n) (sm_id m) ''sent'') (tx_send ch (msg_frame m) e)) (p_queued p)
                     (upd_peer n (\<lambda>p. p\<lparr>p_queued := [], p_msgs := ms\<rparr>) e)
          in persist_messages n flipped e1)"

definition send :: "'a ext_scheme \<Rightarrow> string \<Rightarrow> string \<Rightarrow> string option \<Rightarrow> string option \<Rightarrow> string \<Rightarrow> engine \<Rightarrow>
    engine \<times> (p2p_error + string \<times> bool)" where
  "send E peer_str txt reply_to reply_text rid e =
     (case nid_parse E peer_str of None \<Rightarrow> (e, Inl BadPeerId) | Some n \<Rightarrow>
      if txt = [] \<or> length txt > 64 * 1024 then (e, Inl BadMessage)
      else (case map_of (e_peers e) n of
        None \<Rightarrow> (e, Inl UnknownPeer)
      | Some p0 \<Rightarrow>
          if p_kind p0 \<noteq> Paired then (e, Inl UnknownPeer)
          else
            let p = prune_live e p0;
                sent_now = (case p_live p of [] \<Rightarrow> False | h # _ \<Rightarrow> tx_ok e (lh_tx h));
                stored = \<lparr>sm_id = rid, sm_ts = e_now e, sm_dir = ''out'', sm_state = (if sent_now then ''sent'' else ''queued''),
                          sm_text = txt, sm_reply_to = reply_to, sm_reply_text = reply_text, sm_file = None\<rparr>;
                e1 = (if sent_now then tx_send (lh_tx (hd (p_live p))) (msg_frame stored) e else e);
                e2 = upd_peer n (\<lambda>_. p\<lparr>p_queued := (if sent_now then p_queued p else p_queued p @ [stored]),
                                     p_msgs := p_msgs p @ [stored]\<rparr>) e1;
                e3 = persist_messages n [stored] e2;
                e4 = (if sent_now then e3 else trigger_connect n e3)
            in (e4, Inr (rid, \<not> sent_now))))"

subsection \<open>Receiving texts and acknowledgements\<close>

definition on_ack :: "'a ext_scheme \<Rightarrow> node_id \<Rightarrow> string \<Rightarrow> engine \<Rightarrow> engine" where
  "on_ack E n i e =
     (let acked = Option.bind (map_of (e_peers e) n) (\<lambda>p. flip_last i ''acked'' (p_msgs p));
          e1 = (case acked of
                  None \<Rightarrow> e
                | Some (ms, row) \<Rightarrow> persist_messages n [row] (upd_peer n (\<lambda>p. p\<lparr>p_msgs := ms\<rparr>) e))
      in emit (EvAck (nid_show E n) i) e1)"

definition msg_dup :: "node_id \<Rightarrow> string \<Rightarrow> engine \<Rightarrow> bool" where
  "msg_dup n i e = (case map_of (e_peers e) n of
     None \<Rightarrow> True | Some p \<Rightarrow> list_ex (\<lambda>m. sm_dir m = ''in'' \<and> sm_id m = i) (p_msgs p))"

definition store_in :: "node_id \<Rightarrow> stored_msg \<Rightarrow> engine \<Rightarrow> engine" where
  "store_in n row e = (case map_of (e_peers e) n of
     None \<Rightarrow> e | Some _ \<Rightarrow> persist_messages n [row] (upd_peer n (\<lambda>p. p\<lparr>p_msgs := p_msgs p @ [row]\<rparr>) e))"

text \<open>The two critical sections of the \<open>Msg\<close> branch: the duplicate check, and the rest.\<close>

definition msg_accept :: "'a ext_scheme \<Rightarrow> node_id \<Rightarrow> nat \<Rightarrow> string \<Rightarrow> u64 \<Rightarrow> string \<Rightarrow> string option \<Rightarrow> string option \<Rightarrow> engine \<Rightarrow> engine" where
  "msg_accept E n ch i ts txt reply_to reply_text e =
     (let row = \<lparr>sm_id = i, sm_ts = ts, sm_dir = ''in'', sm_state = ''acked'', sm_text = txt, sm_reply_to = reply_to,
                 sm_reply_text = reply_text, sm_file = None\<rparr>
      in emit (EvMessage (nid_show E n) i ts txt reply_to reply_text None) (tx_send ch (Ack i) (store_in n row e)))"

definition on_msg :: "'a ext_scheme \<Rightarrow> node_id \<Rightarrow> nat \<Rightarrow> string \<Rightarrow> u64 \<Rightarrow> string \<Rightarrow> string option \<Rightarrow> string option \<Rightarrow> engine \<Rightarrow> engine" where
  "on_msg E n ch i ts txt reply_to reply_text e =
     (if msg_dup n i e then tx_send ch (Ack i) e else msg_accept E n ch i ts txt reply_to reply_text e)"

subsection \<open>Typing hints\<close>

text \<open>\<open>typing_gate\<close>: whether the hint is forwarded, and the table after it.\<close>

definition typing_fresh :: "string \<Rightarrow> node_id \<Rightarrow> bool \<Rightarrow> engine \<Rightarrow> bool" where
  "typing_fresh key n on e = (case map_of (e_typing_seen e) (key, n) of
     None \<Rightarrow> True | Some (b, t) \<Rightarrow> b \<noteq> on \<or> e_mono e - t \<ge> TYPING_MIN_GAP)"

definition typing_gate :: "string \<Rightarrow> node_id \<Rightarrow> bool \<Rightarrow> engine \<Rightarrow> engine" where
  "typing_gate key n on e = e\<lparr>e_typing_seen :=
     (if typing_fresh key n on e then hm_put (key, n) (on, e_mono e) (e_typing_seen e) else e_typing_seen e)\<rparr>"

definition on_typing :: "'a ext_scheme \<Rightarrow> node_id \<Rightarrow> bool \<Rightarrow> nat \<Rightarrow> engine \<Rightarrow> engine" where
  "on_typing E n on ch e =
     (let ok = (case map_of (e_peers e) n of None \<Rightarrow> False
          | Some p \<Rightarrow> p_kind p = Paired \<and> list_ex (\<lambda>h. lh_proto h \<ge> 2 \<and> lh_tx h = ch) (p_live p))
      in if \<not> ok then e
         else if typing_fresh [] n on e then emit (EvTyping (nid_show E n) on) (typing_gate [] n on e)
         else typing_gate [] n on e)"

definition typing_peer :: "'a ext_scheme \<Rightarrow> string \<Rightarrow> bool \<Rightarrow> engine \<Rightarrow> engine \<times> (p2p_error + bool)" where
  "typing_peer E peer_str on e =
     (case nid_parse E peer_str of None \<Rightarrow> (e, Inl BadPeerId) | Some n \<Rightarrow>
       if map_option p_kind (map_of (e_peers e) n) \<noteq> Some Paired then (e, Inl UnknownPeer)
       else (case v2_tx e n of
               None \<Rightarrow> (e, Inr False)
             | Some ch \<Rightarrow> (tx_send ch (Typing None on) e, Inr (tx_ok e ch))))"

subsection \<open>Pairing\<close>

text \<open>The dialing side after the other answered: the welcome's name counts when there is no hint.\<close>

definition pair_welcomed :: "'a ext_scheme \<Rightarrow> node_id \<Rightarrow> sock_addr list \<Rightarrow> string \<Rightarrow> u8 \<Rightarrow> nat \<Rightarrow> string \<Rightarrow> engine \<Rightarrow>
    engine \<times> (p2p_error + unit)" where
  "pair_welcomed E n addrs name_hint proto ch inviter_name e =
     (let (e1, r) = add_peer E n (if name_hint = [] then inviter_name else name_hint) addrs e in
      case r of
        Inl err \<Rightarrow> (e1, Inl err)
      | Inr _ \<Rightarrow> (emit (EvPresence (nid_show E n) True) (flush_queue E n ch (register_live E n ch proto e1)), Inr ()))"

text \<open>\<open>pair_connect\<close> with the outcome of dialing and of the handshake as its argument.\<close>

datatype pair_outcome = DialTimeout | DialFailed | Answer hello | AnswerError | AnswerTimeout

definition pair_connect :: "'a ext_scheme \<Rightarrow> node_id \<Rightarrow> sock_addr list \<Rightarrow> string \<Rightarrow> pair_outcome \<Rightarrow> u8 \<Rightarrow> nat \<Rightarrow> engine \<Rightarrow>
    engine \<times> (p2p_error + unit)" where
  "pair_connect E n addrs name_hint out proto ch e =
     (if n = e_me e then (e, Inl OwnInvite)
      else (case out of
        DialTimeout \<Rightarrow> (e, Inl ConnectTimeout)
      | DialFailed \<Rightarrow> (e, Inl ConnectFailed)
      | Answer (Welcome name) \<Rightarrow> pair_welcomed E n addrs name_hint proto ch name e
      | Answer _ \<Rightarrow> (e, Inl UnexpectedHello)
      | AnswerError \<Rightarrow> (e, Inl HandshakeFailed)
      | AnswerTimeout \<Rightarrow> (e, Inl HandshakeTimeout)))"

text \<open>What each side of an invite presents: \<open>accept_invite\<close> the ticket's token, \<open>pair_nearby\<close> none.\<close>

definition accept_invite :: "'a ext_scheme \<Rightarrow> (byte list \<Rightarrow> ticket option) \<Rightarrow> string \<Rightarrow> engine \<Rightarrow> p2p_error + (node_id \<times> string \<times> sock_addr list \<times> string)" where
  "accept_invite E de s e =
     (case parse_ticket E de s of
        Inl err \<Rightarrow> Inl (BadTicket err)
      | Inr t \<Rightarrow> (case nid_parse E (t_node_id t) of
          None \<Rightarrow> Inl BadPeerId
        | Some n \<Rightarrow> if n = e_me e then Inl OwnInvite
            else Inr (n, t_token t, List.map_filter (sock_parse E) (t_addrs t), t_name t)))"

definition pair_nearby :: "'a ext_scheme \<Rightarrow> string \<Rightarrow> engine \<Rightarrow> p2p_error + (node_id \<times> string \<times> sock_addr list \<times> string)" where
  "pair_nearby E peer_str e =
     (case nid_parse E peer_str of None \<Rightarrow> Inl BadPeerId | Some n \<Rightarrow>
       (case map_of (e_nearby e) n of
          Some nb \<Rightarrow> if fresh e nb then Inr (n, [], nb_addrs nb, nb_name nb) else Inl NotNearbyAnyMore
        | None \<Rightarrow> Inl UnknownNearby))"

text \<open>
  An inbound connection opens with one JSON value. \<open>OpFrame\<close> is a value that parses as a frame this build
  knows, \<open>OpHello\<close> one that parses as a handshake; anything else, and a timeout, is \<open>OpBad\<close>. What happens
  depends on how the remote node is known.
\<close>

datatype first_value = OpFrame frame | OpHello hello | OpBad

datatype route = Serve | ServeIntroduced | Pair string string "string list" | Refuse p2p_error

definition incoming_route :: "engine \<Rightarrow> node_id \<Rightarrow> first_value \<Rightarrow> route" where
  "incoming_route e n op =
     (case map_option p_kind (map_of (e_peers e) n) of
        Some Introduced \<Rightarrow>
          (case op of
             OpFrame Ping \<Rightarrow> ServeIntroduced
           | OpHello (Hello tok name addrs) \<Rightarrow> Pair tok name addrs
           | _ \<Rightarrow> Refuse BadSession)
      | Some Paired \<Rightarrow>
          (case op of
             OpFrame f \<Rightarrow> if f = UnknownFrame then Refuse BadSession else Serve
           | _ \<Rightarrow> Refuse BadSession)
      | None \<Rightarrow>
          (case op of
             OpHello (Hello tok name addrs) \<Rightarrow> Pair tok name addrs
           | _ \<Rightarrow> Refuse BadHandshake))"

datatype token_check = TokenGood | TokenWrong | NeedsApproval

definition check_token :: "string \<Rightarrow> string \<Rightarrow> token_check" where
  "check_token expected tok = (if tok = expected then TokenGood else if tok \<noteq> [] then TokenWrong else NeedsApproval)"

text \<open>A request replaces an older one of the same device, which is answered with a refusal; \<open>req\<close> is the
  new \<open>oneshot\<close> channel.\<close>

definition pair_request :: "'a ext_scheme \<Rightarrow> node_id \<Rightarrow> string \<Rightarrow> nat \<Rightarrow> engine \<Rightarrow> engine" where
  "pair_request E n name req e =
     (let old = (case map_of (e_pair_requests e) n of None \<Rightarrow> [] | Some q \<Rightarrow> [(q, False)])
      in emit (EvPairRequest (nid_show E n) name)
           (e\<lparr>e_pair_requests := hm_put n req (e_pair_requests e), e_decisions := e_decisions e @ old\<rparr>))"

definition approve_pair :: "'a ext_scheme \<Rightarrow> string \<Rightarrow> bool \<Rightarrow> engine \<Rightarrow> engine \<times> (p2p_error + unit)" where
  "approve_pair E s accept e =
     (case nid_parse E s of None \<Rightarrow> (e, Inl BadPeerId) | Some n \<Rightarrow>
       (case map_of (e_pair_requests e) n of
          None \<Rightarrow> (e, Inl NoPairRequest)
        | Some req \<Rightarrow> (e\<lparr>e_pair_requests := hm_del n (e_pair_requests e), e_decisions := e_decisions e @ [(req, accept)]\<rparr>, Inr ())))"

text \<open>The decision as the waiting connection sees it: \<open>None\<close> when it times out or the sender is gone.\<close>

definition await_decision :: "(nat \<times> bool) list \<Rightarrow> nat \<Rightarrow> p2p_error + unit" where
  "await_decision ds req = (case map_of ds req of
     Some True \<Rightarrow> Inr () | Some False \<Rightarrow> Inl PairDenied | None \<Rightarrow> Inl PairTimeout)"

definition pair_finish :: "'a ext_scheme \<Rightarrow> node_id \<Rightarrow> string \<Rightarrow> string list \<Rightarrow> u8 \<Rightarrow> nat \<Rightarrow> bool \<Rightarrow> engine \<Rightarrow>
    engine \<times> (p2p_error + unit)" where
  "pair_finish E n peer_name addr_strs proto ch welcome_ok e =
     (let (e1, r) = add_peer E n peer_name (List.map_filter (sock_parse E) addr_strs) e in
      case r of
        Inl err \<Rightarrow> (e1, Inl err)
      | Inr _ \<Rightarrow>
          if \<not> welcome_ok then (e1, Inl Io)
          else let e2 = flush_queue E n ch (register_live E n ch proto e1);
                   name = (case map_of (e_peers e2) n of None \<Rightarrow> [] | Some p \<Rightarrow> p_name p)
               in (emit (EvPresence (nid_show E n) True) (emit (EvPairing (nid_show E n) name) e2), Inr ()))"

text \<open>The whole of \<open>handle_incoming\<close> up to the session: \<open>expected\<close> is the invite token read when the
  connection came in, \<open>ds\<close> what has been decided about requests when the wait is over.\<close>

definition handle_incoming :: "'a ext_scheme \<Rightarrow> node_id \<Rightarrow> u8 \<Rightarrow> nat \<Rightarrow> first_value \<Rightarrow> string \<Rightarrow> nat \<Rightarrow> (nat \<times> bool) list \<Rightarrow> bool \<Rightarrow>
    engine \<Rightarrow> engine \<times> (p2p_error + unit)" where
  "handle_incoming E n proto ch op expected req ds welcome_ok e =
     (case incoming_route e n op of
        Refuse err \<Rightarrow> (e, Inl err)
      | ServeIntroduced \<Rightarrow> (register_live E n ch proto e, Inr ())
      | Serve \<Rightarrow> (emit_presence E n True (flush_queue E n ch (register_live E n ch proto e)), Inr ())
      | Pair tok name addrs \<Rightarrow>
          (case check_token expected tok of
             TokenWrong \<Rightarrow> (e, Inl WrongToken)
           | TokenGood \<Rightarrow> pair_finish E n name addrs proto ch welcome_ok e
           | NeedsApproval \<Rightarrow>
               (let e1 = pair_request E n name req e in
                case await_decision ds req of
                  Inl err \<Rightarrow> (e1, Inl err)
                | Inr _ \<Rightarrow> pair_finish E n name addrs proto ch welcome_ok e1)))"

subsection \<open>Dialing\<close>

text \<open>\<open>connect_and_serve\<close> with the outcome of the attempt: \<open>None\<close> for a failure or a timeout.\<close>

definition connect_and_serve :: "'a ext_scheme \<Rightarrow> node_id \<Rightarrow> (nat \<times> u8) option \<Rightarrow> string \<Rightarrow> engine \<Rightarrow> engine" where
  "connect_and_serve E n outcome err e =
     (case map_of (e_peers e) n of
        None \<Rightarrow> e
      | Some _ \<Rightarrow>
          (case outcome of
             None \<Rightarrow> emit (EvError (Some (nid_show E n)) err) (set_connecting n False e)
           | Some (ch, proto) \<Rightarrow>
               emit_presence E n True (flush_queue E n ch (set_connecting n False (register_live E n ch proto e)))))"

subsection \<open>Beacons\<close>

definition hear_beacon :: "'a ext_scheme \<Rightarrow> string \<Rightarrow> string \<Rightarrow> string list \<Rightarrow> sock_addr \<Rightarrow> engine \<Rightarrow> engine" where
  "hear_beacon E node_id_str name addr_strs from e =
     (case nid_parse E node_id_str of
        None \<Rightarrow> e
      | Some n \<Rightarrow>
          if n = e_me e then e
          else
            let addrs0 = List.map_filter (sock_parse E) addr_strs;
                addrs = (if from \<in> set addrs0 then addrs0 else addrs0 @ [from]);
                is_new = (map_of (e_nearby e) n = None);
                entry = (case map_of (e_nearby e) n of None \<Rightarrow> \<lparr>nb_name = [], nb_addrs = [], nb_last_seen = e_mono e\<rparr> | Some b \<Rightarrow> b);
                entry' = entry\<lparr>nb_last_seen := e_mono e, nb_name := (if name \<noteq> [] then name else nb_name entry),
                               nb_addrs := (if addrs \<noteq> [] then addrs else nb_addrs entry)\<rparr>;
                e1 = e\<lparr>e_nearby := hm_put n entry' (e_nearby e)\<rparr>;
                e2 = (if addrs = [] then e1
                      else (case map_of (e_peers e1) n of
                              None \<Rightarrow> e1
                            | Some p \<Rightarrow>
                                if p_addrs p = addrs then e1
                                else let e' = upd_peer n (\<lambda>p. p\<lparr>p_addrs := addrs\<rparr>) e1
                                     in if p_kind p = Paired then persist_peers E e' else e'));
                e3 = (if length (e_nearby e2) > 64 then e2\<lparr>e_nearby := retain (\<lambda>_ nb. fresh e2 nb) (e_nearby e2)\<rparr> else e2)
            in if is_new then emit (EvNearby (nid_show E n) name) e3 else e3)"

text \<open>Where a beacon is sent: the global broadcast and the /24 broadcast of each IPv4 address, without
  adjacent repetitions.\<close>

definition beacon_targets :: "sock_addr list \<Rightarrow> sock_addr list" where
  "beacon_targets addrs = remdups_adj (SocketAddr (IpV4 (-1)) 53717 #
     List.map_filter (\<lambda>a. case sa_ip a of
        IpV4 w \<Rightarrow> Some (SocketAddr (IpV4 (word_cat (ucast (drop_bit 8 w) :: 24 word) (255 :: 8 word))) 53717) | IpV6 _ \<Rightarrow> None) addrs)"

end
