(* ===== verification/GroupOps.thy ===== *)
theory GroupOps
  imports Peers
begin

section \<open>Groups: the user's operations\<close>

text \<open>
  The group operations of \<open>velta-app/src-tauri/src/p2p.rs\<close> that the user starts or that start with a signed
  state: the introduced members, system lines, creating, editing, leaving and deleting a group, unpairing a
  device, and announcing a state. Applying a received state and delivering messages are in theory GroupWire.
\<close>

subsection \<open>Introduced members\<close>

definition intro_member :: "'a ext_scheme \<Rightarrow> node_id \<Rightarrow> group_member \<Rightarrow> (node_id, peer) hmap \<Rightarrow> (node_id, peer) hmap" where
  "intro_member E me m peers =
     (case nid_parse E (gm_node_id m) of
        None \<Rightarrow> peers
      | Some i \<Rightarrow>
          if i = me then peers
          else let addrs = List.map_filter (sock_parse E) (gm_addrs m);
                   name = (if gm_name m = [] then fallback_name E i else gm_name m)
               in (case map_of peers i of
                     Some p \<Rightarrow>
                       if p_kind p = Paired then peers
                       else hm_put i (p\<lparr>p_name := (if p_name p = [] then name else p_name p),
                                        p_addrs := (if p_addrs p = [] then addrs else p_addrs p)\<rparr>) peers
                   | None \<Rightarrow> hm_put i (blank_peer Introduced name addrs []) peers))"

definition active_members :: "(string, group_rec) btmap \<Rightarrow> group_member list" where
  "active_members groups = concat (map (\<lambda>(g, r). gs_members (gr_state r)) (filter (\<lambda>(g, r). \<not> gr_removed r) groups))"

definition rebuild_introduced :: "'a ext_scheme \<Rightarrow> (string, group_rec) btmap \<Rightarrow> node_id \<Rightarrow> (node_id, peer) hmap \<Rightarrow> (node_id, peer) hmap" where
  "rebuild_introduced E groups me peers = fold (intro_member E me) (active_members groups) peers"

definition gc_introduced :: "'a ext_scheme \<Rightarrow> (string, group_rec) btmap \<Rightarrow> (node_id, peer) hmap \<Rightarrow> (node_id, peer) hmap" where
  "gc_introduced E groups peers =
     retain (\<lambda>i p. p_kind p = Paired \<or> nid_show E i \<in> set (map gm_node_id (active_members groups))) peers"

definition sync_introduced :: "'a ext_scheme \<Rightarrow> engine \<Rightarrow> engine" where
  "sync_introduced E e =
     e\<lparr>e_peers := gc_introduced E (e_groups e) (rebuild_introduced E (e_groups e) (e_me e) (e_peers e))\<rparr>"

text \<open>\<open>groups_changed\<close>: it fails when \<open>groups.json\<close> cannot be written, which is \<open>\<not> io_ok e\<close>.\<close>

definition groups_changed :: "'a ext_scheme \<Rightarrow> engine \<Rightarrow> engine" where
  "groups_changed E e = persist_groups (sync_introduced E e)"

subsection \<open>Timestamps and system lines\<close>

definition last_ts :: "'a ext_scheme \<Rightarrow> engine \<Rightarrow> string \<Rightarrow> u64" where
  "last_ts E e g = (case map_of (e_ts_eff e) g of
     Some v \<Rightarrow> v | None \<Rightarrow> ls_last_ts_eff (scan_recs (nid_show E (e_me e)) (log_of e g)))"

text \<open>\<open>group_last_ts\<close> caches the value it returns.\<close>

definition group_last_ts :: "'a ext_scheme \<Rightarrow> string \<Rightarrow> engine \<Rightarrow> engine" where
  "group_last_ts E g e = e\<lparr>e_ts_eff := (if map_of (e_ts_eff e) g = None then hm_put g (last_ts E e g) (e_ts_eff e) else e_ts_eff e)\<rparr>"

definition sys_name :: "'a ext_scheme \<Rightarrow> engine \<Rightarrow> group_state \<Rightarrow> string \<Rightarrow> string" where
  "sys_name E e st node_hex =
     (case nid_parse E node_hex of
        None \<Rightarrow> ''someone''
      | Some i \<Rightarrow>
          (case map_option p_name (map_of (e_peers e) i) of
             Some (c # n) \<Rightarrow> c # n
           | _ \<Rightarrow>
               (case map_option gm_name (find (\<lambda>m. gm_node_id m = node_hex) (gs_members st)) of
                  Some (c # n) \<Rightarrow> c # n
                | _ \<Rightarrow> fallback_name E i)))"

fun log_sys :: "'a ext_scheme \<Rightarrow> string \<Rightarrow> u64 \<Rightarrow> nat \<Rightarrow> (string \<times> string) list \<Rightarrow> engine \<Rightarrow> engine" where
  "log_sys E g epoch i [] e = e"
| "log_sys E g epoch i ((kind, txt) # lines) e =
     (let ts = eff_ts (last_ts E e g) (e_now e) (e_now e);
          r = sys_rec kind epoch i txt ts;
          e1 = e_append_log g r (group_last_ts E g e)
      in log_sys E g epoch (Suc i) lines
           (if io_ok e then emit (EvGroupSystem g (gl_id r) kind ts txt) (e1\<lparr>e_ts_eff := hm_put g ts (e_ts_eff e1)\<rparr>)
            else emit (EvError None ''could not store a group note'') e1))"

definition lquo :: string where "lquo = [CHR 0xE2, CHR 0x80, CHR 0x9C]"
definition rquo :: string where "rquo = [CHR 0xE2, CHR 0x80, CHR 0x9D]"

definition creator_lines :: "'a ext_scheme \<Rightarrow> engine \<Rightarrow> group_state \<Rightarrow> group_state \<Rightarrow> bool \<Rightarrow> (string \<times> string) list" where
  "creator_lines E e old new left =
     map (\<lambda>ev. case ev of
        Added i \<Rightarrow> (''added'', ''You added '' @ sys_name E e new i)
      | Removed i \<Rightarrow> if left then (''left'', sys_name E e old i @ '' left the group'')
                     else (''removed'', ''You removed '' @ sys_name E e old i)
      | Renamed n \<Rightarrow> (''renamed'', ''You renamed the group to '' @ lquo @ n @ rquo)
      | Disbanded \<Rightarrow> (''disbanded'', ''You disbanded the group'')) (roster_events old new)"

definition member_lines :: "'a ext_scheme \<Rightarrow> engine \<Rightarrow> group_state \<Rightarrow> group_state \<Rightarrow> (string \<times> string) list" where
  "member_lines E e old new =
     (let me = nid_show E (e_me e); actor = sys_name E e new (gs_creator new) in
      map (\<lambda>ev. case ev of
        Added i \<Rightarrow> if i = me then (''joined'', actor @ '' added you'') else (''added'', actor @ '' added '' @ sys_name E e new i)
      | Removed i \<Rightarrow> if i = me then (''removed-me'', ''You were removed from the group'')
                     else (''gone'', sys_name E e old i @ '' is no longer in the group'')
      | Renamed n \<Rightarrow> (''renamed'', actor @ '' renamed the group to '' @ lquo @ n @ rquo)
      | Disbanded \<Rightarrow> (''disbanded'', actor @ '' disbanded the group'')) (roster_events old new))"

subsection \<open>Announcing a state\<close>

definition my_name :: "'a ext_scheme \<Rightarrow> engine \<Rightarrow> string" where
  "my_name E e = (if e_name e = [] then fallback_name E (e_me e) else e_name e)"

definition sync_frame :: "'a ext_scheme \<Rightarrow> engine \<Rightarrow> group_rec \<Rightarrow> node_id \<Rightarrow> frame" where
  "sync_frame E e rec to = GroupSync (gs_gid (gr_state rec)) (gs_epoch (gr_state rec)) (get0 (gr_have rec) (nid_show E to)) (my_name E e)"

definition group_warn :: "'a ext_scheme \<Rightarrow> node_id \<Rightarrow> string \<Rightarrow> engine \<Rightarrow> engine" where
  "group_warn E n msg e = emit (EvError (Some (nid_show E n)) msg) e"

definition dedup_first :: "'b list \<Rightarrow> 'b list" where
  "dedup_first xs = foldl (\<lambda>acc x. if x \<in> set acc then acc else acc @ [x]) [] xs"

definition announce_targets :: "'a ext_scheme \<Rightarrow> engine \<Rightarrow> group_rec \<Rightarrow> string list \<Rightarrow> node_id list" where
  "announce_targets E e rec extra = dedup_first (filter (\<lambda>n. n \<noteq> e_me e)
     (List.map_filter (nid_parse E) (map gm_node_id (gs_members (gr_state rec)) @ extra)))"

definition announce_one :: "'a ext_scheme \<Rightarrow> group_rec \<Rightarrow> node_id \<Rightarrow> engine \<Rightarrow> engine" where
  "announce_one E rec n e =
     (case v2_tx e n of
        None \<Rightarrow> e
      | Some ch \<Rightarrow>
          let e1 = tx_send ch (GroupStateF (gr_state rec)) e in
          if \<not> gr_removed rec \<and> contains E (gr_state rec) n then tx_send ch (sync_frame E e1 rec n) e1 else e1)"

definition announce_state :: "'a ext_scheme \<Rightarrow> string \<Rightarrow> string list \<Rightarrow> engine \<Rightarrow> engine" where
  "announce_state E g extra e =
     (case map_of (e_groups e) g of
        None \<Rightarrow> e
      | Some rec \<Rightarrow> fold (announce_one E rec) (announce_targets E e rec extra) e)"

definition trigger_group_dials :: "'a ext_scheme \<Rightarrow> engine \<Rightarrow> engine" where
  "trigger_group_dials E e =
     fold trigger_connect
       (filter (\<lambda>n. n \<noteq> e_me e \<and> map_of (e_peers e) n \<noteq> None)
         (List.map_filter (nid_parse E) (map gm_node_id (concat (map (\<lambda>(g, r). gs_members (gr_state r))
            (filter (\<lambda>(g, r). \<not> gr_removed r \<or> gr_pending_leave r) (e_groups e))))))) e"

subsection \<open>Creating and editing\<close>

fun cap_check :: "'a ext_scheme \<Rightarrow> engine \<Rightarrow> nat \<Rightarrow> group_member list \<Rightarrow> p2p_error + unit" where
  "cap_check E e n [] = Inr ()"
| "cap_check E e n (m # ms) =
     (if gm_node_id m = nid_show E (e_me e) then cap_check E e n ms
      else (case nid_parse E (gm_node_id m) of
              None \<Rightarrow> cap_check E e n ms
            | Some i \<Rightarrow>
                if (case map_of (e_caps e) i of None \<Rightarrow> 0 | Some c \<Rightarrow> unat c) < n then Inl (CapTooSmall (gm_name m))
                else cap_check E e n ms))"

definition require_group_cap :: "'a ext_scheme \<Rightarrow> engine \<Rightarrow> group_member list \<Rightarrow> p2p_error + unit" where
  "require_group_cap E e ms =
     (if length ms \<le> LEGACY_MAX_GROUP_MEMBERS then Inr () else cap_check E e (length ms) ms)"

definition invitee_member :: "'a ext_scheme \<Rightarrow> engine \<Rightarrow> node_id \<Rightarrow> p2p_error + group_member" where
  "invitee_member E e i =
     (case map_of (e_peers e) i of
        None \<Rightarrow> Inl OnlyPaired
      | Some p \<Rightarrow>
          if p_kind p \<noteq> Paired then Inl OnlyPaired
          else let name = (if p_name p = [] then fallback_name E i else p_name p) in
            if \<not> group_capable p then Inl (NotGroupCapable name)
            else Inr \<lparr>gm_node_id = nid_show E i, gm_name = name, gm_addrs = map (sock_show E) (take MAX_MEMBER_ADDRS (p_addrs p))\<rparr>)"

fun collect_members :: "'a ext_scheme \<Rightarrow> engine \<Rightarrow> string list \<Rightarrow> group_member list \<Rightarrow> p2p_error + group_member list" where
  "collect_members E e [] ms = Inr ms"
| "collect_members E e (s # ids) ms =
     (case nid_parse E s of
        None \<Rightarrow> Inl BadPeerId
      | Some i \<Rightarrow>
          if i = e_me e \<or> list_ex (\<lambda>m. gm_node_id m = nid_show E i) ms then Inl DuplicateInvitee
          else r_bind (invitee_member E e i) (\<lambda>m. collect_members E e ids (ms @ [m])))"

definition visible_groups :: "engine \<Rightarrow> nat" where
  "visible_groups e = length (filter (\<lambda>(g, r). \<not> gr_hidden r) (e_groups e))"

text \<open>Sign and check: an error of either is an error of the edit.\<close>

definition seal :: "'a ext_scheme \<Rightarrow> engine \<Rightarrow> group_state \<Rightarrow> p2p_error + group_state" where
  "seal E e st =
     (case sign E (e_secret e) st of
        Inl err \<Rightarrow> Inl (Roster err)
      | Inr st' \<Rightarrow> (case check E st' of Inl err \<Rightarrow> Inl (Roster err) | Inr _ \<Rightarrow> Inr st'))"

definition group_create_state :: "'a ext_scheme \<Rightarrow> string \<Rightarrow> string list \<Rightarrow> byte list \<Rightarrow> engine \<Rightarrow> p2p_error + group_state" where
  "group_create_state E name0 ids rnd e =
     (let name = trim name0 in
      case check_group_name name of
        Inl err \<Rightarrow> Inl (Roster err)
      | Inr _ \<Rightarrow>
          if ids = [] then Inl NoMembers
          else if length ids > MAX_GROUP_MEMBERS - 1 then Inl GroupFull
          else if visible_groups e \<ge> MAX_GROUPS then Inl TooManyGroups
          else r_bind (collect_members E e ids [\<lparr>gm_node_id = nid_show E (e_me e), gm_name = my_name E e, gm_addrs = []\<rparr>]) (\<lambda>ms.
            r_bind (require_group_cap E e ms) (\<lambda>_.
              seal E e \<lparr>gs_gid = new_gid E rnd, gs_creator = nid_show E (e_me e), gs_epoch = 1, gs_name = name,
                        gs_closed = False, gs_members = ms, gs_sig = []\<rparr>)))"

definition put_group :: "string \<Rightarrow> group_rec \<Rightarrow> engine \<Rightarrow> engine" where
  "put_group g r e = e\<lparr>e_groups := bt_put g r (e_groups e)\<rparr>"

definition group_create :: "'a ext_scheme \<Rightarrow> string \<Rightarrow> string list \<Rightarrow> byte list \<Rightarrow> engine \<Rightarrow> engine \<times> (p2p_error + group_view)" where
  "group_create E name ids rnd e =
     (case group_create_state E name ids rnd e of
        Inl err \<Rightarrow> (e, Inl err)
      | Inr st \<Rightarrow>
          let g = gs_gid st; e1 = groups_changed E (put_group g (new_rec st) e) in
          if \<not> io_ok e then (e1, Inl Io)
          else let e2 = announce_state E g [] (log_sys E g 1 0 [(''created'', ''You created the group'')] e1)
               in (e2, Inr (group_json E e2 (the (map_of (e_groups e2) g)))))"

definition edit_rec :: "group_state \<Rightarrow> group_rec \<Rightarrow> group_rec" where
  "edit_rec st r = r\<lparr>gr_removed := gs_closed st, gr_state := st\<rparr>"

definition edit_group_locked :: "'a ext_scheme \<Rightarrow> string \<Rightarrow> bool \<Rightarrow> (engine \<Rightarrow> group_state \<Rightarrow> p2p_error + group_state) \<Rightarrow> engine \<Rightarrow>
    engine \<times> (p2p_error + group_view)" where
  "edit_group_locked E g left edit e =
     (case map_of (e_groups e) g of
        None \<Rightarrow> (e, Inl UnknownGroup)
      | Some rec \<Rightarrow>
          if gs_creator (gr_state rec) \<noteq> nid_show E (e_me e) then (e, Inl NotCreator)
          else if gr_removed rec then (e, Inl GroupClosed)
          else (case edit e (gr_state rec) of
            Inl err \<Rightarrow> (e, Inl err)
          | Inr st0 \<Rightarrow>
              (case seal E e (st0\<lparr>gs_epoch := gs_epoch st0 + 1\<rparr>) of
                 Inl err \<Rightarrow> (e, Inl err)
               | Inr st \<Rightarrow>
                   let before = map gm_node_id (gs_members (gr_state rec));
                       lines = creator_lines E e (gr_state rec) st left;
                       e1 = groups_changed E (upd_group g (edit_rec st) e)
                   in if \<not> io_ok e then (e1, Inl Io)
                      else
                        let e2 = log_sys E g (gs_epoch st) 0 lines e1;
                            e3 = e2\<lparr>e_gone := filter (\<lambda>(h, _). h \<noteq> g) (e_gone e2)\<rparr>;
                            e4 = (if gs_closed st then e3\<lparr>e_links := retain (\<lambda>(h, _) _. h \<noteq> g) (e_links e3)\<rparr> else e3);
                            e5 = announce_state E g before e4;
                            view = group_json E e5 (the (map_of (e_groups e5) g))
                        in (emit (EvGroupState view) e5, Inr view))))"

definition edit_add :: "'a ext_scheme \<Rightarrow> node_id \<Rightarrow> engine \<Rightarrow> group_state \<Rightarrow> p2p_error + group_state" where
  "edit_add E i e st =
     (if length (gs_members st) \<ge> MAX_GROUP_MEMBERS then Inl GroupFull
      else if contains E st i then Inl AlreadyMember
      else r_bind (invitee_member E e i) (\<lambda>m.
        r_bind (require_group_cap E e (gs_members st @ [m])) (\<lambda>_. Inr (st\<lparr>gs_members := gs_members st @ [m]\<rparr>))))"

definition drop_member :: "string \<Rightarrow> group_state \<Rightarrow> group_state" where
  "drop_member i st = st\<lparr>gs_members := filter (\<lambda>m. gm_node_id m \<noteq> i) (gs_members st)\<rparr>"

definition edit_remove :: "'a ext_scheme \<Rightarrow> node_id \<Rightarrow> engine \<Rightarrow> group_state \<Rightarrow> p2p_error + group_state" where
  "edit_remove E i e st =
     (if nid_show E i = gs_creator st then Inl CreatorCantBeRemoved
      else if \<not> contains E st i then Inl NotAMember
      else Inr (drop_member (nid_show E i) st))"

definition edit_close :: "engine \<Rightarrow> group_state \<Rightarrow> p2p_error + group_state" where
  "edit_close e st = Inr (st\<lparr>gs_closed := True, gs_members := take 1 (gs_members st)\<rparr>)"

definition group_add :: "'a ext_scheme \<Rightarrow> string \<Rightarrow> string \<Rightarrow> engine \<Rightarrow> engine \<times> (p2p_error + group_view)" where
  "group_add E g s e = (case nid_parse E s of
     None \<Rightarrow> (e, Inl BadPeerId) | Some i \<Rightarrow> edit_group_locked E g False (edit_add E i) e)"

definition group_remove :: "'a ext_scheme \<Rightarrow> string \<Rightarrow> string \<Rightarrow> engine \<Rightarrow> engine \<times> (p2p_error + group_view)" where
  "group_remove E g s e = (case nid_parse E s of
     None \<Rightarrow> (e, Inl BadPeerId) | Some i \<Rightarrow> edit_group_locked E g False (edit_remove E i) e)"

definition group_rename :: "'a ext_scheme \<Rightarrow> string \<Rightarrow> string \<Rightarrow> engine \<Rightarrow> engine \<times> (p2p_error + group_view)" where
  "group_rename E g name0 e =
     (let name = trim name0 in
      case check_group_name name of
        Inl err \<Rightarrow> (e, Inl (Roster err))
      | Inr _ \<Rightarrow> edit_group_locked E g False (\<lambda>_ st. Inr (st\<lparr>gs_name := name\<rparr>)) e)"

definition group_disband :: "'a ext_scheme \<Rightarrow> string \<Rightarrow> engine \<Rightarrow> engine \<times> (p2p_error + group_view)" where
  "group_disband E g e = edit_group_locked E g False edit_close e"

definition group_leave :: "'a ext_scheme \<Rightarrow> string \<Rightarrow> engine \<Rightarrow> engine \<times> (p2p_error + group_view)" where
  "group_leave E g e =
     (case map_of (e_groups e) g of
        None \<Rightarrow> (e, Inl UnknownGroup)
      | Some rec \<Rightarrow>
          if gs_creator (gr_state rec) = nid_show E (e_me e) then (e, Inl CreatorCantLeave)
          else
            let e1 = groups_changed E (upd_group g (\<lambda>r. r\<lparr>gr_removed := True, gr_pending_leave := True\<rparr>) e) in
            if \<not> io_ok e then (e1, Inl Io)
            else
              let e2 = log_sys E g (gs_epoch (gr_state rec)) 0 [(''left-me'', ''You left the group'')] e1;
                  e3 = e2\<lparr>e_links := retain (\<lambda>(h, _) _. h \<noteq> g) (e_links e2)\<rparr>;
                  e4 = (case Option.bind (nid_parse E (gs_creator (gr_state rec))) (v2_tx e3) of
                          None \<Rightarrow> e3 | Some ch \<Rightarrow> tx_send ch (GroupLeave g) e3)
              in (e4, Inr (group_json E e4 (the (map_of (e_groups e4) g)))))"

subsection \<open>Deleting\<close>

definition delete_group_blobs :: "string \<Rightarrow> engine \<Rightarrow> engine" where
  "delete_group_blobs g e =
     (let ids = map fst (filter (\<lambda>(k, t). rx_gid t = Some g) (e_rx_files e));
          e1 = drop_group_inbound (\<lambda>n i. (n, i) \<in> set ids) e
      in remove_dir_all (join (e_blobs e1) (''g-'' @ g))
           (e1\<lparr>e_group_xfers := retain (\<lambda>_ t. gx_gid t \<noteq> g) (e_group_xfers e1)\<rparr>))"

definition purge_group :: "'a ext_scheme \<Rightarrow> string \<Rightarrow> engine \<Rightarrow> engine" where
  "purge_group E g e =
     (let e1 = delete_group_blobs g (e_delete_log g (e\<lparr>e_groups := hm_del g (e_groups e)\<rparr>));
          e2 = sync_introduced E (e1\<lparr>e_links := retain (\<lambda>(h, _) _. h \<noteq> g) (e_links e1),
                 e_gone := filter (\<lambda>(h, _). h \<noteq> g) (e_gone e1),
                 e_gap_sent := retain (\<lambda>(h, _) _. h \<noteq> g) (e_gap_sent e1),
                 e_ts_eff := hm_del g (e_ts_eff e1)\<rparr>);
          e3 = persist_groups e2;
          e4 = (if io_ok e2 then e3 else emit (EvError None ''could not save groups'') e3)
      in emit (EvGroupDeleted g) e4)"

definition group_delete :: "'a ext_scheme \<Rightarrow> string \<Rightarrow> engine \<Rightarrow> engine \<times> (p2p_error + unit)" where
  "group_delete E g e =
     (case map_of (e_groups e) g of
        None \<Rightarrow> (e, Inl UnknownGroup)
      | Some rec \<Rightarrow>
          if \<not> gr_removed rec then (e, Inl LeaveFirst)
          else if gr_pending_leave rec then
            let e1 = delete_group_blobs g (e_delete_log g (upd_group g (\<lambda>r. r\<lparr>gr_hidden := True\<rparr>) e));
                e2 = e1\<lparr>e_ts_eff := hm_del g (e_ts_eff e1)\<rparr>;
                e3 = persist_groups e2
            in if io_ok e2 then (emit (EvGroupDeleted g) e3, Inr ()) else (e3, Inl Io)
          else (purge_group E g e, Inr ()))"

definition remove_peer :: "'a ext_scheme \<Rightarrow> string \<Rightarrow> engine \<Rightarrow> engine \<times> (p2p_error + unit)" where
  "remove_peer E s e =
     (case nid_parse E s of None \<Rightarrow> (e, Inl BadPeerId) | Some n \<Rightarrow>
      if map_option p_kind (map_of (e_peers e) n) \<noteq> Some Paired then (e, Inl UnknownPeer)
      else
        let e1 = persist_peers E (e\<lparr>e_peers := hm_del n (e_peers e), e_pair_requests := hm_del n (e_pair_requests e)\<rparr>) in
        if \<not> io_ok e then (e1, Inl Io)
        else
          let theirs = map (\<lambda>(g, r). gs_gid (gr_state r))
                (filter (\<lambda>(g, r). gs_creator (gr_state r) = nid_show E n \<and> gs_creator (gr_state r) \<noteq> nid_show E (e_me e)) (e_groups e1));
              e2 = sync_introduced E (fold (purge_group E) theirs e1);
              e3 = e2\<lparr>e_rm := tl (e_rm e2), d_msgs := (if rm_ok e2 then hm_del n (d_msgs e2) else d_msgs e2)\<rparr>;
              e4 = remove_dir_all (join (e_blobs e3) (nid_show E n)) e3
          in (emit (EvPresence (nid_show E n) False) e4, Inr ()))"

definition peer_group_impact :: "'a ext_scheme \<Rightarrow> string \<Rightarrow> engine \<Rightarrow>
    p2p_error + ((string \<times> string \<times> bool) list \<times> (string \<times> string \<times> bool) list)" where
  "peer_group_impact E s e =
     (case nid_parse E s of None \<Rightarrow> Inl BadPeerId | Some n \<Rightarrow>
       let entry = (\<lambda>(g, r). (gs_gid (gr_state r), gs_name (gr_state r), gr_removed r));
           vis = filter (\<lambda>(g, r). \<not> gr_hidden r) (e_groups e);
           mine = (\<lambda>(g, r). gs_creator (gr_state r) = nid_show E n \<and> gs_creator (gr_state r) \<noteq> nid_show E (e_me e))
       in Inr (map entry (filter mine vis),
               map entry (filter (\<lambda>(g, r). \<not> mine (g, r) \<and> \<not> gr_removed r \<and> contains E (gr_state r) n) vis)))"

end
