(* ===== verification/GroupWire.thy ===== *)
theory GroupWire
  imports GroupOps
begin

section \<open>Groups: the wire protocol\<close>

text \<open>
  How \<open>velta-app/src-tauri/src/p2p.rs\<close> reacts to group frames and delivers group messages: applying a
  signed state, the synchronisation of epochs and positions, the in-order acceptance of messages, the
  cumulative acknowledgements, the send window, leave requests and typing hints.
\<close>

subsection \<open>Delivering own messages\<close>

definition other_members :: "'a ext_scheme \<Rightarrow> engine \<Rightarrow> group_rec \<Rightarrow> node_id list" where
  "other_members E e rec = filter (\<lambda>n. n \<noteq> e_me e) (List.map_filter (nid_parse E) (map gm_node_id (gs_members (gr_state rec))))"

definition group_msg_frame :: "string \<Rightarrow> string \<Rightarrow> group_log_rec \<Rightarrow> frame" where
  "group_msg_frame g me r = GroupMsg g me (gl_seq r) (gl_id r) (gl_ts r) (gl_text r) (gl_reply_to r) (gl_reply_text r)"

text \<open>The member is ready: live on protocol 2, in the roster, not gone, and on our epoch.\<close>

definition pump_link :: "'a ext_scheme \<Rightarrow> engine \<Rightarrow> string \<Rightarrow> node_id \<Rightarrow> (group_rec \<times> nat \<times> group_link) option" where
  "pump_link E e g n =
     (case map_of (e_groups e) g of
        None \<Rightarrow> None
      | Some rec \<Rightarrow>
          if gr_removed rec \<or> \<not> contains E (gr_state rec) n then None
          else if (g, n) \<in> set (e_gone e) then None
          else (case v2_tx e n of
            None \<Rightarrow> None
          | Some ch \<Rightarrow> (case map_of (e_links e) (g, n) of
              None \<Rightarrow> None
            | Some link \<Rightarrow> if gk_epoch link \<noteq> gs_epoch (gr_state rec) then None else Some (rec, ch, link))))"

definition pump_recs :: "'a ext_scheme \<Rightarrow> engine \<Rightarrow> string \<Rightarrow> group_log_rec option \<Rightarrow> u64 \<Rightarrow> u64 \<Rightarrow> group_log_rec list" where
  "pump_recs E e g hint lo hi =
     (if (case hint of None \<Rightarrow> False | Some h \<Rightarrow> gl_seq h = lo \<and> lo = hi) then [the hint]
      else filter (\<lambda>r. gl_dir r = ''out'' \<and> gl_from r = nid_show E (e_me e) \<and> lo \<le> gl_seq r \<and> gl_seq r \<le> hi) (log_of e g))"

definition pump_range :: "'a ext_scheme \<Rightarrow> group_rec \<Rightarrow> group_link \<Rightarrow> node_id \<Rightarrow> u64 \<times> u64" where
  "pump_range E rec link n =
     (let cursor = get0 (gr_sent_cursor rec) (nid_show E n);
          last_seq = sat_sub (gr_next_seq rec) 1
      in (max (gk_pushed link) cursor + 1, min last_seq (cursor + GROUP_WINDOW)))"

definition pump :: "'a ext_scheme \<Rightarrow> string \<Rightarrow> node_id \<Rightarrow> group_log_rec option \<Rightarrow> engine \<Rightarrow> engine" where
  "pump E g n hint e =
     (case pump_link E e g n of
        None \<Rightarrow> e
      | Some (rec, ch, link) \<Rightarrow>
          let (lo, hi) = pump_range E rec link n in
          if lo > hi then e
          else
            let recs = (if tx_ok e ch then pump_recs E e g hint lo hi else []);
                e1 = fold (\<lambda>r. tx_send ch (group_msg_frame g (nid_show E (e_me e)) r)) recs e
            in e1\<lparr>e_links := hm_put (g, n) (link\<lparr>gk_pushed := foldl max (gk_pushed link) (map gl_seq recs)\<rparr>) (e_links e1)\<rparr>)"

definition pump_ready :: "'a ext_scheme \<Rightarrow> engine \<Rightarrow> string \<Rightarrow> node_id \<Rightarrow> bool" where
  "pump_ready E e g n \<longleftrightarrow> pump_link E e g n \<noteq> None"

fun pump_all :: "'a ext_scheme \<Rightarrow> string \<Rightarrow> node_id list \<Rightarrow> group_log_rec option \<Rightarrow> engine \<Rightarrow> engine \<times> nat" where
  "pump_all E g [] hint e = (e, 0)"
| "pump_all E g (n # ns) hint e =
     (let (e', k) = pump_all E g ns hint (pump E g n hint e) in (e', if pump_ready E e g n then Suc k else k))"

definition group_line :: "'a ext_scheme \<Rightarrow> string \<Rightarrow> u64 \<Rightarrow> string \<Rightarrow> string \<Rightarrow> string option \<Rightarrow> string option \<Rightarrow> engine \<Rightarrow> group_log_rec" where
  "group_line E g seq rid txt reply_to reply_text e =
     \<lparr>gl_seq = seq, gl_from = nid_show E (e_me e), gl_id = rid, gl_ts = e_now e,
      gl_ts_eff = eff_ts (last_ts E e g) (e_now e) (e_now e), gl_dir = ''out'', gl_text = txt,
      gl_reply_to = reply_to, gl_reply_text = reply_text, gl_file = None\<rparr>"

definition group_send :: "'a ext_scheme \<Rightarrow> string \<Rightarrow> string \<Rightarrow> string option \<Rightarrow> string option \<Rightarrow> string \<Rightarrow> engine \<Rightarrow>
    engine \<times> (p2p_error + string \<times> u64 \<times> u64 \<times> u64 \<times> bool)" where
  "group_send E g txt reply_to reply_text rid e =
     (if trim txt = [] \<or> length txt > MAX_GROUP_TEXT then (e, Inl BadMessage)
      else (case map_of (e_groups e) g of
        None \<Rightarrow> (e, Inl UnknownGroup)
      | Some rec \<Rightarrow>
          if gr_removed rec then (e, Inl GroupReadOnly)
          else
            let seq = gr_next_seq rec;
                members = other_members E e rec;
                line = group_line E g seq rid txt reply_to reply_text e;
                e1 = e_append_log g line (group_last_ts E g e)
            in if \<not> io_ok e then (e1, Inl Io)
               else
                 let e2 = upd_group g (\<lambda>r. r\<lparr>gr_next_seq := seq + 1\<rparr>) (e1\<lparr>e_ts_eff := hm_put g (gl_ts_eff line) (e_ts_eff e1)\<rparr>);
                     e3 = persist_groups e2;
                     e4 = (if io_ok e2 then e3 else emit (EvError None ''could not save group state'') e3);
                     (e5, reached) = pump_all E g members (Some line) e4
                 in (fold trigger_connect members e5, Inr (rid, seq, gl_ts line, gl_ts_eff line, reached = 0))))"

subsection \<open>Applying a received state\<close>

definition send_sync :: "'a ext_scheme \<Rightarrow> group_rec \<Rightarrow> node_id \<Rightarrow> engine \<Rightarrow> engine" where
  "send_sync E rec n e = (case v2_tx e n of None \<Rightarrow> e | Some ch \<Rightarrow> tx_send ch (sync_frame E e rec n) e)"

definition after_state_applied :: "'a ext_scheme \<Rightarrow> string \<Rightarrow> engine \<Rightarrow> engine" where
  "after_state_applied E g e =
     (let e1 = e\<lparr>e_gone := filter (\<lambda>(h, _). h \<noteq> g) (e_gone e)\<rparr> in
      case map_of (e_groups e1) g of
        None \<Rightarrow> e1
      | Some rec \<Rightarrow>
          let e2 = emit (EvGroupState (group_json E e1 rec)) e1 in
          if gr_removed rec then e2\<lparr>e_links := retain (\<lambda>(h, _) _. h \<noteq> g) (e_links e2)\<rparr>
          else
            let members = other_members E e2 rec;
                e3 = fold (send_sync E rec) members e2;
                e4 = e3\<lparr>e_links := retain (\<lambda>(h, n) _. h \<noteq> g \<or> n \<in> set members) (e_links e3)\<rparr>
            in fold (\<lambda>n. pump E g n None) members e4)"

datatype applied = AppliedStale | AppliedCreated | AppliedUpdated

definition apply_tail :: "'a ext_scheme \<Rightarrow> string \<Rightarrow> u64 \<Rightarrow> (string \<times> string) list \<Rightarrow> string option \<Rightarrow> applied \<Rightarrow> engine \<Rightarrow>
    engine \<times> (p2p_error + applied)" where
  "apply_tail E g epoch sys newly_removed res e =
     (let e1 = groups_changed E e in
      if \<not> io_ok e then (e1, Inl Io)
      else
        let e2 = log_sys E g epoch 0 sys e1 in
        if (case map_of (e_groups e2) g of None \<Rightarrow> False | Some r \<Rightarrow> gr_hidden r \<and> \<not> gr_pending_leave r)
        then (purge_group E g e2, Inr res)
        else let e3 = (case newly_removed of None \<Rightarrow> e2 | Some reason \<Rightarrow> emit (EvGroupRemoved g reason) e2)
             in (after_state_applied E g e3, Inr res))"

definition update_rec :: "group_state \<Rightarrow> bool \<Rightarrow> group_rec \<Rightarrow> group_rec" where
  "update_rec st removed_me r = r\<lparr>gr_state := st, gr_removed := (gr_pending_leave r \<or> removed_me),
     gr_pending_leave := (if removed_me then False else gr_pending_leave r)\<rparr>"

definition apply_state_locked :: "'a ext_scheme \<Rightarrow> group_state \<Rightarrow> node_id \<Rightarrow> engine \<Rightarrow> engine \<times> (p2p_error + applied)" where
  "apply_state_locked E st from e =
     (let g = gs_gid st in
      case evaluate_incoming E (map_of (e_groups e) g) st (e_me e) of
        Inl err \<Rightarrow> (e, Inl (Roster err))
      | Inr Stale \<Rightarrow> (e, Inr AppliedStale)
      | Inr Create \<Rightarrow>
          if \<not> (nid_show E from = gs_creator st \<and> map_option p_kind (map_of (e_peers e) from) = Some Paired)
          then (e, Inl NotFromCreator)
          else if visible_groups e \<ge> MAX_GROUPS then (e, Inl TooManyGroups)
          else apply_tail E g (gs_epoch st) [(''joined'', sys_name E e st (gs_creator st) @ '' added you'')] None AppliedCreated
                 (put_group g (new_rec st) e)
      | Inr (Update removed_me) \<Rightarrow>
          (case map_of (e_groups e) g of
             None \<Rightarrow> (e, Inl UnknownGroup)
           | Some rec \<Rightarrow>
               if \<not> contains E (gr_state rec) from then (e, Inl SenderNotMember)
               else
                 let rec' = update_rec st removed_me rec;
                     newly = (if gr_removed rec' \<and> \<not> gr_removed rec then Some (if gs_closed st then ''closed'' else ''removed'') else None);
                     e1 = upd_group g (\<lambda>_. rec') e;
                     sys = (if gr_removed rec then [] else member_lines E e1 (gr_state rec) st)
                 in apply_tail E g (gs_epoch st) sys newly AppliedUpdated e1))"

subsection \<open>Session opening\<close>

definition open_group :: "'a ext_scheme \<Rightarrow> node_id \<Rightarrow> nat \<Rightarrow> group_rec \<Rightarrow> engine \<Rightarrow> engine" where
  "open_group E n ch rec e =
     (let st = gr_state rec; key = nid_show E n in
      if gr_removed rec then
        (if gr_pending_leave rec \<and> gs_creator st = key then tx_send ch (GroupLeave (gs_gid st)) e else e)
      else if \<not> contains E st n then e
      else tx_send ch (sync_frame E e rec n)
             (if gs_creator st = nid_show E (e_me e) \<and> get0 (gr_state_cursor rec) key < gs_epoch st
              then tx_send ch (GroupStateF st) e else e))"

definition group_session_open :: "'a ext_scheme \<Rightarrow> node_id \<Rightarrow> nat \<Rightarrow> engine \<Rightarrow> engine" where
  "group_session_open E n ch e =
     (if session_proto e n ch < 2 then e
      else fold (\<lambda>(g, rec). open_group E n ch rec) (e_groups e) (tx_send ch (GroupCaps (of_nat MAX_GROUP_MEMBERS)) e))"

subsection \<open>Frames\<close>

text \<open>What a \<open>GroupSync\<close> changes in the record: the epoch the creator knows the member to hold, and the
  acknowledged position of our own messages.\<close>

definition sync_confirm :: "'a ext_scheme \<Rightarrow> engine \<Rightarrow> node_id \<Rightarrow> u64 \<Rightarrow> group_rec \<Rightarrow> bool" where
  "sync_confirm E e from epoch rec \<longleftrightarrow> gs_creator (gr_state rec) = nid_show E (e_me e)
     \<and> get0 (gr_state_cursor rec) (nid_show E from) < min epoch (gs_epoch (gr_state rec))"

definition sync_acked :: "u64 \<Rightarrow> group_rec \<Rightarrow> u64" where
  "sync_acked have_seq rec = min have_seq (sat_sub (gr_next_seq rec) 1)"

definition sync_advance :: "'a ext_scheme \<Rightarrow> node_id \<Rightarrow> u64 \<Rightarrow> group_rec \<Rightarrow> bool" where
  "sync_advance E from have_seq rec \<longleftrightarrow> sync_acked have_seq rec > get0 (gr_sent_cursor rec) (nid_show E from)"

definition sync_rec :: "'a ext_scheme \<Rightarrow> engine \<Rightarrow> node_id \<Rightarrow> u64 \<Rightarrow> u64 \<Rightarrow> group_rec \<Rightarrow> group_rec" where
  "sync_rec E e from epoch have_seq rec =
     rec\<lparr>gr_state_cursor := (if sync_confirm E e from epoch rec
            then hm_put (nid_show E from) (min epoch (gs_epoch (gr_state rec))) (gr_state_cursor rec) else gr_state_cursor rec),
         gr_sent_cursor := (if sync_advance E from have_seq rec
            then hm_put (nid_show E from) (sync_acked have_seq rec) (gr_sent_cursor rec) else gr_sent_cursor rec)\<rparr>"

definition on_group_sync :: "'a ext_scheme \<Rightarrow> node_id \<Rightarrow> nat \<Rightarrow> string \<Rightarrow> u64 \<Rightarrow> u64 \<Rightarrow> string \<Rightarrow> engine \<Rightarrow> engine" where
  "on_group_sync E from ch g epoch have_seq name e =
     (let key = nid_show E from in
      case map_of (e_groups e) g of
        None \<Rightarrow> tx_send ch (GroupGone g) e
      | Some rec \<Rightarrow>
          let st = gr_state rec in
          if gr_removed rec then
            tx_send ch (if epoch < gs_epoch st then GroupStateF st else GroupGone g) e
          else if \<not> contains E st from then
            (if epoch < gs_epoch st then tx_send ch (GroupStateF st) e else e)
          else
            let my_epoch = gs_epoch st;
                e1 = (if name \<noteq> [] \<and> char_count name \<le> 64
                      then upd_peer from (\<lambda>p. if p_kind p = Introduced then p\<lparr>p_name := name\<rparr> else p) e else e);
                e2 = e1\<lparr>e_gone := removeAll (g, from) (e_gone e1)\<rparr>;
                rec' = sync_rec E e from epoch have_seq rec;
                advance = sync_advance E from have_seq rec;
                e3 = upd_group g (\<lambda>_. rec') e2;
                e4 = (if sync_confirm E e from epoch rec \<or> advance then
                        (if io_ok e3 then persist_groups e3 else group_warn E from ''could not save group state'' (persist_groups e3))
                      else e3);
                e5 = (if advance then emit (EvGroupAck g key (sync_acked have_seq rec)) e4 else e4);
                e6 = e5\<lparr>e_links := hm_put (g, from) \<lparr>gk_epoch = epoch, gk_pushed = get0 (gr_sent_cursor rec') key\<rparr> (e_links e5)\<rparr>
            in if epoch < my_epoch then tx_send ch (GroupStateF st) e6
               else if epoch > my_epoch then tx_send ch (sync_frame E e6 rec' from) e6
               else pump E g from None e6)"

definition group_name_of :: "'a ext_scheme \<Rightarrow> engine \<Rightarrow> node_id \<Rightarrow> string" where
  "group_name_of E e n = (case map_option p_name (map_of (e_peers e) n) of Some (c # s) \<Rightarrow> c # s | _ \<Rightarrow> fallback_name E n)"

definition in_line :: "'a ext_scheme \<Rightarrow> node_id \<Rightarrow> string \<Rightarrow> u64 \<Rightarrow> string \<Rightarrow> u64 \<Rightarrow> string \<Rightarrow> string option \<Rightarrow> string option \<Rightarrow> engine \<Rightarrow> group_log_rec" where
  "in_line E from g seq i ts txt reply_to reply_text e =
     \<lparr>gl_seq = seq, gl_from = nid_show E from, gl_id = i, gl_ts = ts, gl_ts_eff = eff_ts (last_ts E e g) ts (e_now e),
      gl_dir = ''in'', gl_text = txt, gl_reply_to = reply_to, gl_reply_text = reply_text, gl_file = None\<rparr>"

definition on_group_msg :: "'a ext_scheme \<Rightarrow> node_id \<Rightarrow> nat \<Rightarrow> string \<Rightarrow> string \<Rightarrow> u64 \<Rightarrow> string \<Rightarrow> u64 \<Rightarrow> string \<Rightarrow>
    string option \<Rightarrow> string option \<Rightarrow> engine \<Rightarrow> engine" where
  "on_group_msg E from ch g claimed seq i ts txt reply_to reply_text e =
     (let key = nid_show E from in
      if claimed \<noteq> key then group_warn E from ''group message with a forged sender dropped'' e
      else (case map_of (e_groups e) g of
        None \<Rightarrow> tx_send ch (GroupGone g) e
      | Some rec \<Rightarrow>
          if gr_removed rec then tx_send ch (GroupGone g) e
          else if \<not> contains E (gr_state rec) from then e
          else if seq = 0 \<or> txt = [] \<or> length txt > MAX_GROUP_TEXT \<or> \<not> is_safe_transfer_id i then e
          else
            let have_seq = get0 (gr_have rec) key in
            if seq \<le> have_seq then tx_send ch (GroupAck g have_seq) e
            else if seq > have_seq + 1 then
              (if map_of (e_gap_sent e) (g, from) \<noteq> Some have_seq
               then tx_send ch (sync_frame E e rec from) (e\<lparr>e_gap_sent := hm_put (g, from) have_seq (e_gap_sent e)\<rparr>)
               else e)
            else
              let line = in_line E from g seq i ts txt reply_to reply_text e;
                  e1 = e_append_log g line (group_last_ts E g e)
              in if \<not> io_ok e then group_warn E from ''could not store a group message'' e1
                 else
                   let e2 = upd_group g (\<lambda>r. r\<lparr>gr_have := hm_put key seq (gr_have r)\<rparr>)
                              (e1\<lparr>e_ts_eff := hm_put g (gl_ts_eff line) (e_ts_eff e1), e_gap_sent := hm_del (g, from) (e_gap_sent e1)\<rparr>);
                       e3 = persist_groups e2;
                       e4 = (if io_ok e2 then e3 else group_warn E from ''could not save group state'' e3)
                   in tx_send ch (GroupAck g seq)
                        (emit (EvGroupMessage g key (group_name_of E e4 from) i seq ts (gl_ts_eff line) txt reply_to reply_text None) e4)))"

definition on_group_ack :: "'a ext_scheme \<Rightarrow> node_id \<Rightarrow> string \<Rightarrow> u64 \<Rightarrow> engine \<Rightarrow> engine" where
  "on_group_ack E from g have_seq e =
     (let key = nid_show E from in
      case map_of (e_groups e) g of
        None \<Rightarrow> e
      | Some rec \<Rightarrow>
          if gr_removed rec \<or> \<not> contains E (gr_state rec) from then e
          else
            let acked = sync_acked have_seq rec in
            if acked \<le> get0 (gr_sent_cursor rec) key then e
            else
              let e1 = upd_group g (\<lambda>r. r\<lparr>gr_sent_cursor := hm_put key acked (gr_sent_cursor r)\<rparr>) e;
                  e2 = (if io_ok e1 then persist_groups e1 else group_warn E from ''could not save group state'' (persist_groups e1))
              in pump E g from None (emit (EvGroupAck g key acked) e2))"

definition on_group_leave :: "'a ext_scheme \<Rightarrow> node_id \<Rightarrow> string \<Rightarrow> engine \<Rightarrow> engine" where
  "on_group_leave E from g e =
     (if (case map_of (e_groups e) g of None \<Rightarrow> False
          | Some r \<Rightarrow> gs_creator (gr_state r) = nid_show E (e_me e) \<and> \<not> gr_removed r \<and> contains E (gr_state r) from
                       \<and> nid_show E from \<noteq> nid_show E (e_me e))
      then (let (e', r) = edit_group_locked E g True (\<lambda>_ st. Inr (drop_member (nid_show E from) st)) e
            in case r of Inr _ \<Rightarrow> e' | Inl _ \<Rightarrow> group_warn E from ''could not process a leave request'' e')
      else e)"

definition is_active_member :: "'a ext_scheme \<Rightarrow> engine \<Rightarrow> string \<Rightarrow> node_id \<Rightarrow> bool" where
  "is_active_member E e g n = (case map_of (e_groups e) g of None \<Rightarrow> False | Some r \<Rightarrow> \<not> gr_removed r \<and> contains E (gr_state r) n)"

definition handle_group_frame :: "'a ext_scheme \<Rightarrow> node_id \<Rightarrow> frame \<Rightarrow> nat \<Rightarrow> engine \<Rightarrow> engine" where
  "handle_group_frame E from f ch e =
     (if session_proto e from ch < 2 then e
      else (case f of
        GroupStateF st \<Rightarrow>
          (let (e', r) = apply_state_locked E st from e
           in case r of Inr _ \<Rightarrow> e' | Inl _ \<Rightarrow> group_warn E from ''group state ignored'' e')
      | GroupSync g epoch have_seq name \<Rightarrow> on_group_sync E from ch g epoch have_seq name e
      | GroupMsg g claimed seq i ts txt rt rx \<Rightarrow> on_group_msg E from ch g claimed seq i ts txt rt rx e
      | GroupAck g have_seq \<Rightarrow> on_group_ack E from g have_seq e
      | GroupCaps mx \<Rightarrow> e\<lparr>e_caps := hm_put from mx (e_caps e)\<rparr>
      | GroupLeave g \<Rightarrow> on_group_leave E from g e
      | Typing (Some g) on \<Rightarrow>
          if is_active_member E e g from then
            (if typing_fresh g from on e
             then emit (EvGroupTyping g (nid_show E from) (group_name_of E e from) on) (typing_gate g from on e)
             else typing_gate g from on e)
          else e
      | GroupGone g \<Rightarrow>
          if is_active_member E e g from
          then e\<lparr>e_links := hm_del (g, from) (e_links e), e_gone := List.insert (g, from) (e_gone e)\<rparr>
          else e
      | _ \<Rightarrow> e))"

fun typing_members :: "'a ext_scheme \<Rightarrow> string \<Rightarrow> bool \<Rightarrow> node_id list \<Rightarrow> engine \<Rightarrow> engine \<times> nat" where
  "typing_members E g on [] e = (e, 0)"
| "typing_members E g on (n # ns) e =
     (case v2_tx e n of
        None \<Rightarrow> typing_members E g on ns e
      | Some ch \<Rightarrow>
          (let (e', k) = typing_members E g on ns (tx_send ch (Typing (Some g) on) e)
           in (e', if tx_ok e ch then Suc k else k)))"

definition typing_group :: "'a ext_scheme \<Rightarrow> string \<Rightarrow> bool \<Rightarrow> engine \<Rightarrow> engine \<times> (p2p_error + nat)" where
  "typing_group E g on e =
     (case map_of (e_groups e) g of
        None \<Rightarrow> (e, Inl UnknownGroup)
      | Some rec \<Rightarrow>
          if gr_removed rec then (e, Inr 0)
          else (let (e', k) = typing_members E g on (other_members E e rec) e in (e', Inr k)))"

record message_view =
  ms_rec :: group_log_rec
  ms_delivered :: "string list"
  ms_sys_kind :: "string option"
  ms_file_members :: "(string \<times> string \<times> u64) list option"

definition xfer_members_json :: "group_xfer \<Rightarrow> (string \<times> string \<times> u64) list" where
  "xfer_members_json x = map (\<lambda>(i, m). (i, mx_state m, mx_sent m)) (gx_members x)"

definition group_messages :: "'a ext_scheme \<Rightarrow> string \<Rightarrow> nat \<Rightarrow> engine \<Rightarrow> p2p_error + message_view list" where
  "group_messages E g limit e =
     (case map_of (e_groups e) g of
        None \<Rightarrow> Inl UnknownGroup
      | Some rec \<Rightarrow>
          let others = filter (\<lambda>i. i \<noteq> nid_show E (e_me e)) (map gm_node_id (gs_members (gr_state rec)));
              all = log_of e g
          in Inr (map (\<lambda>r.
               \<lparr>ms_rec = r,
                ms_delivered = (if gl_dir r = ''out'' then filter (\<lambda>i. get0 (gr_sent_cursor rec) i \<ge> gl_seq r) others else []),
                ms_sys_kind = (if gl_dir r = SYS_DIR then sys_kind (gl_id r) else None),
                ms_file_members = (if gl_file r \<noteq> None
                   then (case map_of (e_group_xfers e) (gl_id r) of
                           Some x \<Rightarrow> if gx_gid x = g then Some (xfer_members_json x) else None | None \<Rightarrow> None)
                   else None)\<rparr>) (drop (length all - limit) all)))"

end
