(* ===== verification/Files.thy ===== *)
theory Files
  imports GroupWire
begin

section \<open>Media transfers\<close>

text \<open>
  Sending and receiving files in \<open>velta-app/src-tauri/src/p2p.rs\<close>: the one-to-one transfer, the group
  transfer with its per-member states, and the receive paths with their limits. A file system object is its
  path and content in \<open>d_files\<close>; the content of a source file is the argument \<open>src\<close> (\<open>None\<close>: missing or not
  a file).
\<close>

subsection \<open>File operations\<close>

definition file_create :: "string \<Rightarrow> engine \<Rightarrow> engine" where
  "file_create p e = e\<lparr>e_io := tl (e_io e), d_files := (if io_ok e then hm_put p [] (d_files e) else d_files e)\<rparr>"

definition file_content :: "engine \<Rightarrow> string \<Rightarrow> byte list" where
  "file_content e p = (case map_of (d_files e) p of None \<Rightarrow> [] | Some c \<Rightarrow> c)"

text \<open>Opening for append fails when the file is missing.\<close>

definition append_ok :: "string \<Rightarrow> engine \<Rightarrow> bool" where
  "append_ok p e \<longleftrightarrow> exists_file e p \<and> io_ok e"

definition file_append :: "string \<Rightarrow> byte list \<Rightarrow> engine \<Rightarrow> engine" where
  "file_append p bs e = e\<lparr>e_io := tl (e_io e), d_files := (if append_ok p e then hm_put p (file_content e p @ bs) (d_files e) else d_files e)\<rparr>"

definition rename_ok :: "string \<Rightarrow> engine \<Rightarrow> bool" where
  "rename_ok p e \<longleftrightarrow> exists_file e p \<and> io_ok e"

definition file_rename :: "string \<Rightarrow> string \<Rightarrow> engine \<Rightarrow> engine" where
  "file_rename p q e = e\<lparr>e_io := tl (e_io e), d_files := (if rename_ok p e then hm_put q (file_content e p) (hm_del p (d_files e)) else d_files e)\<rparr>"

definition e_unique_path :: "engine \<Rightarrow> string \<Rightarrow> string \<Rightarrow> string" where
  "e_unique_path e dir name = unique_path (exists_file e) (unat (e_now e)) dir name"

definition e_unique_name :: "engine \<Rightarrow> string \<Rightarrow> string \<Rightarrow> string" where
  "e_unique_name e dir name = unique_name (exists_file e) (unat (e_now e)) dir name"

fun chunks :: "nat \<Rightarrow> 'b list \<Rightarrow> 'b list list" where
  "chunks n xs = (if xs = [] \<or> n = 0 then [] else take n xs # chunks n (drop n xs))"

declare chunks.simps [simp del]

subsection \<open>One-to-one media: sending\<close>

definition file_frames :: "'a ext_scheme \<Rightarrow> string \<Rightarrow> u64 \<Rightarrow> string \<Rightarrow> string \<Rightarrow> string \<Rightarrow> byte list \<Rightarrow> frame list" where
  "file_frames E i ts name mime caption data =
     FileBegin i ts name (of_nat (length data)) mime caption
       # map (\<lambda>c. FileChunk i (b64_enc E c)) (chunks (96 * 1024) data) @ [FileEnd i]"

definition send_file :: "'a ext_scheme \<Rightarrow> string \<Rightarrow> byte list option \<Rightarrow> string \<Rightarrow> string \<Rightarrow> string \<Rightarrow> engine \<Rightarrow>
    engine \<times> (p2p_error + string \<times> string)" where
  "send_file E peer_str src name caption rid e =
     (case nid_parse E peer_str of None \<Rightarrow> (e, Inl BadPeerId) | Some n \<Rightarrow>
      (case require_paired n e of Inl err \<Rightarrow> (e, Inl err) | Inr _ \<Rightarrow>
       (case src of
          None \<Rightarrow> (e, Inl SourceMissing)
        | Some data \<Rightarrow>
            if length data > 256 * 1024 * 1024 then (e, Inl FileTooLarge)
            else
              let safe = sanitize_name E name;
                  mime = mime_for safe;
                  dest = join (join (e_blobs e) ''self'') (rid @ ''_'' @ safe);
                  e1 = file_create dest e
              in if \<not> io_ok e then (e1, Inl Io)
                 else
                   let e2 = e1\<lparr>d_files := hm_put dest data (d_files e1)\<rparr>;
                       frames = file_frames E rid (e_now e) safe mime caption data
                   in (case map_of (e_peers e2) n of
                         None \<Rightarrow> (e2, Inl UnknownPeer)
                       | Some p0 \<Rightarrow>
                           let p = prune_live e2 p0;
                               sent_now = (case p_live p of [] \<Rightarrow> False | h # _ \<Rightarrow> tx_ok e2 (lh_tx h));
                               e3 = (if sent_now then fold (tx_send (lh_tx (hd (p_live p)))) frames e2 else e2);
                               stored = \<lparr>sm_id = rid, sm_ts = e_now e, sm_dir = ''out'', sm_state = (if sent_now then ''sent'' else ''queued''),
                                         sm_text = caption, sm_reply_to = None, sm_reply_text = None,
                                         sm_file = Some \<lparr>sf_name = safe, sf_size = of_nat (length data), sf_mime = mime, sf_path = dest\<rparr>\<rparr>
                           in if \<not> sent_now then (upd_peer n (\<lambda>_. p) e3, Inl PeerOffline)
                              else (persist_messages n [stored] (upd_peer n (\<lambda>_. p\<lparr>p_msgs := p_msgs p @ [stored]\<rparr>) e3), Inr (rid, dest))))))"

subsection \<open>One-to-one media: receiving\<close>

definition err_ev :: "'a ext_scheme \<Rightarrow> node_id \<Rightarrow> string \<Rightarrow> engine \<Rightarrow> engine" where
  "err_ev E n msg e = emit (EvError (Some (nid_show E n)) msg) e"

definition rx_for_peer :: "node_id \<Rightarrow> engine \<Rightarrow> nat" where
  "rx_for_peer n e = length (filter (\<lambda>((m, i), t). m = n) (e_rx_files e))"

definition put_rx :: "node_id \<times> string \<Rightarrow> file_rx \<Rightarrow> engine \<Rightarrow> engine" where
  "put_rx k t e = e\<lparr>e_rx_files := hm_put k t (e_rx_files e)\<rparr>"

definition del_rx :: "node_id \<times> string \<Rightarrow> engine \<Rightarrow> engine" where
  "del_rx k e = e\<lparr>e_rx_files := hm_del k (e_rx_files e)\<rparr>"

definition is_group_rx :: "engine \<Rightarrow> node_id \<times> string \<Rightarrow> bool" where
  "is_group_rx e k = (case map_of (e_rx_files e) k of None \<Rightarrow> False | Some t \<Rightarrow> rx_gid t \<noteq> None)"

definition on_file_begin :: "'a ext_scheme \<Rightarrow> node_id \<Rightarrow> string \<Rightarrow> u64 \<Rightarrow> string \<Rightarrow> u64 \<Rightarrow> string \<Rightarrow> string \<Rightarrow> engine \<Rightarrow> engine" where
  "on_file_begin E n i ts name sz mime caption e =
     (if \<not> is_safe_transfer_id i then err_ev E n ''rejected file: malformed transfer id'' e
      else if sz > MAX_FILE_BYTES then err_ev E n ''rejected file: bytes over the cap'' e
      else if is_group_rx e (n, i) then e
      else if rx_for_peer n e \<ge> MAX_INBOUND_FILES_PER_PEER \<or> length (e_rx_files e) \<ge> MAX_INBOUND_FILES_TOTAL
      then err_ev E n ''rejected file: too many concurrent transfers'' e
      else
        let dir = join (e_blobs e) (nid_show E n);
            partial = join dir (''partial-'' @ i);
            e1 = file_create partial e
        in if io_ok e
           then put_rx (n, i) \<lparr>rx_partial = partial, rx_dir = dir, rx_name = sanitize_name E name, rx_size = sz,
                  rx_mime = mime, rx_caption = caption, rx_ts = ts, rx_got = 0, rx_gid = None\<rparr> e1
           else err_ev E n ''cannot receive file'' e1)"

definition on_file_chunk :: "'a ext_scheme \<Rightarrow> node_id \<Rightarrow> string \<Rightarrow> string \<Rightarrow> engine \<Rightarrow> engine" where
  "on_file_chunk E n i data e =
     (case map_of (e_rx_files e) (n, i) of
        None \<Rightarrow> e
      | Some t \<Rightarrow>
          if rx_gid t \<noteq> None then e
          else (case b64_dec E data of
            None \<Rightarrow> del_rx (n, i) e
          | Some bs \<Rightarrow>
              if rx_got t + of_nat (length bs) > rx_size t then del_rx (n, i) e
              else
                let e1 = emit (EvFileProgress (nid_show E n) i ''recv'' (rx_got t) (rx_size t)) e;
                    e2 = (if exists_file e1 (rx_partial t) then file_append (rx_partial t) bs e1 else e1)
                in put_rx (n, i) (t\<lparr>rx_got := rx_got t + of_nat (length bs)\<rparr>) e2))"

definition on_file_end :: "'a ext_scheme \<Rightarrow> node_id \<Rightarrow> nat \<Rightarrow> string \<Rightarrow> engine \<Rightarrow> engine" where
  "on_file_end E n ch i e =
     (case map_of (e_rx_files e) (n, i) of
        None \<Rightarrow> e
      | Some t \<Rightarrow>
          if rx_gid t \<noteq> None then e
          else
            let e1 = del_rx (n, i) e in
            if rx_got t \<noteq> rx_size t then remove_file (rx_partial t) e1
            else
              let final_path = e_unique_path e1 (rx_dir t) (rx_name t);
                  display = e_unique_name e1 (rx_dir t) (rx_name t);
                  e2 = file_rename (rx_partial t) final_path e1
              in if \<not> rename_ok (rx_partial t) e1 then e2
                 else
                   let sf = \<lparr>sf_name = display, sf_size = rx_got t, sf_mime = rx_mime t, sf_path = final_path\<rparr>;
                       row = \<lparr>sm_id = i, sm_ts = rx_ts t, sm_dir = ''in'', sm_state = ''acked'', sm_text = rx_caption t,
                              sm_reply_to = None, sm_reply_text = None, sm_file = Some sf\<rparr>
                   in emit (EvMessage (nid_show E n) i (rx_ts t) (rx_caption t) None None (Some sf))
                        (tx_send ch (Ack i) (store_in n row e2)))"

subsection \<open>Group media: the states of a transfer\<close>

definition emit_group_file :: "string \<Rightarrow> string \<Rightarrow> string \<Rightarrow> string \<Rightarrow> u64 \<Rightarrow> u64 option \<Rightarrow> engine \<Rightarrow> engine" where
  "emit_group_file g i mem st got sz e = emit (EvGroupFileSend g i mem st got sz) e"

definition upd_member :: "string \<Rightarrow> string \<Rightarrow> member_xfer \<Rightarrow> engine \<Rightarrow> engine" where
  "upd_member i mem m e = e\<lparr>e_group_xfers := (case map_of (e_group_xfers e) i of
     None \<Rightarrow> e_group_xfers e | Some t \<Rightarrow> hm_put i (t\<lparr>gx_members := bt_put mem m (gx_members t)\<rparr>) (e_group_xfers e))\<rparr>"

definition member_of :: "engine \<Rightarrow> string \<Rightarrow> string \<Rightarrow> (group_xfer \<times> member_xfer) option" where
  "member_of e i mem = Option.bind (map_of (e_group_xfers e) i) (\<lambda>t. map_option (\<lambda>m. (t, m)) (map_of (gx_members t) mem))"

definition group_file_set :: "string \<Rightarrow> string \<Rightarrow> string \<Rightarrow> u64 option \<Rightarrow> engine \<Rightarrow> engine" where
  "group_file_set i mem st sent e =
     (case member_of e i mem of
        None \<Rightarrow> e
      | Some (t, m) \<Rightarrow>
          if mx_state m = ''done'' then e
          else let m' = m\<lparr>mx_state := st, mx_sent := (case sent of None \<Rightarrow> mx_sent m | Some s \<Rightarrow> min s (gx_size t))\<rparr>
               in emit_group_file (gx_gid t) i mem st (mx_sent m') (Some (gx_size t)) (upd_member i mem m' e))"

definition group_file_wrote :: "'a ext_scheme \<Rightarrow> node_id \<Rightarrow> string \<Rightarrow> u64 \<Rightarrow> engine \<Rightarrow> engine" where
  "group_file_wrote E n i k e =
     (let key = nid_show E n in
      case member_of e i key of
        None \<Rightarrow> e
      | Some (t, m) \<Rightarrow>
          if mx_state m \<noteq> ''sending'' then e
          else let m' = m\<lparr>mx_sent := min (mx_sent m + k) (gx_size t)\<rparr>
               in emit_group_file (gx_gid t) i key ''sending'' (mx_sent m') (Some (gx_size t)) (upd_member i key m' e))"

definition group_file_done :: "'a ext_scheme \<Rightarrow> node_id \<Rightarrow> string \<Rightarrow> engine \<Rightarrow> engine" where
  "group_file_done E n i e =
     (let key = nid_show E n in
      case member_of e i key of
        None \<Rightarrow> e
      | Some (t, m) \<Rightarrow> if mx_state m = ''sending'' then group_file_set i key ''done'' (Some (gx_size t)) e else e)"

definition group_files_failed :: "'a ext_scheme \<Rightarrow> node_id \<Rightarrow> u64 \<Rightarrow> engine \<Rightarrow> engine" where
  "group_files_failed E n hid e =
     (let key = nid_show E n;
          hit = map fst (filter (\<lambda>(i, t). case map_of (gx_members t) key of
                  None \<Rightarrow> False | Some m \<Rightarrow> mx_state m = ''sending'' \<and> mx_handle m = hid) (e_group_xfers e))
      in fold (\<lambda>i. group_file_set i key ''failed'' None) hit e)"

subsection \<open>Group media: sending\<close>

definition group_file_targets :: "'a ext_scheme \<Rightarrow> engine \<Rightarrow> string \<Rightarrow> p2p_error + ((node_id \<times> nat \<times> u64) list \<times> node_id list)" where
  "group_file_targets E e g =
     (case map_of (e_groups e) g of
        None \<Rightarrow> Inl UnknownGroup
      | Some rec \<Rightarrow>
          if gr_removed rec then Inl GroupReadOnly
          else
            let ns = other_members E e rec;
                on = (\<lambda>n. v2_link e n \<noteq> None \<and> (g, n) \<notin> set (e_gone e))
            in Inr (map (\<lambda>n. (n, the (v2_link e n))) (filter on ns), filter (\<lambda>n. \<not> on n) ns))"

text \<open>The oldest transfer that is not running makes room for a new one.\<close>

definition oldest_idle :: "(string, group_xfer) hmap \<Rightarrow> string option" where
  "oldest_idle xs =
     (case filter (\<lambda>(k, t). list_all (\<lambda>(i, m). mx_state m \<noteq> ''sending'') (gx_members t)) xs of
        [] \<Rightarrow> None
      | y # ys \<Rightarrow> Some (fst (foldl (\<lambda>a b. if gx_ts (snd b) < gx_ts (snd a) then b else a) y ys)))"

definition remember_xfer :: "string \<Rightarrow> group_xfer \<Rightarrow> (string, group_xfer) hmap \<Rightarrow> (string, group_xfer) hmap" where
  "remember_xfer i x xs =
     (let xs' = (if length xs \<ge> MAX_GROUP_XFERS then (case oldest_idle xs of None \<Rightarrow> xs | Some k \<Rightarrow> hm_del k xs) else xs)
      in hm_put i x xs')"

definition group_send_file :: "'a ext_scheme \<Rightarrow> string \<Rightarrow> byte list option \<Rightarrow> string \<Rightarrow> string \<Rightarrow> string \<Rightarrow> engine \<Rightarrow>
    engine \<times> (p2p_error + string \<times> (node_id \<times> nat \<times> u64) list)" where
  "group_send_file E g src name caption rid e =
     (if length caption > MAX_GROUP_TEXT then (e, Inl CaptionTooLong)
      else (case group_file_targets E e g of
        Inl err \<Rightarrow> (e, Inl err)
      | Inr (links, off) \<Rightarrow>
          if links = [] then (e, Inl NobodyOnline)
          else (case src of
            None \<Rightarrow> (e, Inl SourceMissing)
          | Some data \<Rightarrow>
              if length data > unat MAX_GROUP_FILE_BYTES then (e, Inl FileTooLarge)
              else
                let safe = sanitize_name E name;
                    mime = mime_for safe;
                    dest = join (join (e_blobs e) (''g-'' @ g)) (''out-'' @ rid @ ''_'' @ safe);
                    e1 = file_create dest e
                in if \<not> io_ok e then (e1, Inl Io)
                   else
                     let e2 = group_last_ts E g (e1\<lparr>d_files := hm_put dest data (d_files e1)\<rparr>);
                         ts_eff = eff_ts (last_ts E e2 g) (e_now e2) (e_now e2);
                         line = \<lparr>gl_seq = 0, gl_from = nid_show E (e_me e), gl_id = rid, gl_ts = e_now e2, gl_ts_eff = ts_eff,
                                 gl_dir = ''out'', gl_text = caption, gl_reply_to = None, gl_reply_text = None,
                                 gl_file = Some \<lparr>gf_name = safe, gf_size = of_nat (length data), gf_mime = mime, gf_path = dest\<rparr>\<rparr>;
                         e3 = e_append_log g line e2
                     in if \<not> io_ok e2 then (remove_file dest e3, Inl Io)
                        else
                          let sending = map (\<lambda>(n, ch, h). (nid_show E n, \<lparr>mx_state = ''sending'', mx_sent = 0, mx_handle = h\<rparr>)) links;
                              missing = map (\<lambda>n. (nid_show E n, \<lparr>mx_state = ''offline'', mx_sent = 0, mx_handle = 0\<rparr>)) off;
                              x = \<lparr>gx_gid = g, gx_path = dest, gx_name = safe, gx_size = of_nat (length data), gx_mime = mime,
                                   gx_caption = caption, gx_ts = gl_ts line,
                                   gx_members = fold (\<lambda>(k, m). bt_put k m) (sending @ missing) []\<rparr>
                          in (e3\<lparr>e_ts_eff := hm_put g ts_eff (e_ts_eff e3), e_group_xfers := remember_xfer rid x (e_group_xfers e3)\<rparr>,
                              Inr (rid, links)))))"

definition group_file_retry :: "'a ext_scheme \<Rightarrow> string \<Rightarrow> string \<Rightarrow> string \<Rightarrow> engine \<Rightarrow> engine \<times> (p2p_error + node_id \<times> nat \<times> u64)" where
  "group_file_retry E g i mem e =
     (case nid_parse E mem of None \<Rightarrow> (e, Inl BadPeerId) | Some n \<Rightarrow>
      (case map_of (e_groups e) g of
         None \<Rightarrow> (e, Inl UnknownGroup)
       | Some rec \<Rightarrow>
           if gr_removed rec then (e, Inl GroupReadOnly)
           else if \<not> contains E (gr_state rec) n then (e, Inl NotAMember)
           else (case v2_link e n of
             None \<Rightarrow> (e, Inl MemberOffline)
           | Some (ch, h) \<Rightarrow>
               let key = nid_show E n;
                   row = find (\<lambda>r. gl_dir r = ''out'' \<and> gl_id r = i \<and> gl_file r \<noteq> None) (log_of e g);
                   e1 = (if map_of (e_group_xfers e) i \<noteq> None then e
                         else (case row of
                           None \<Rightarrow> e
                         | Some r \<Rightarrow> let f = the (gl_file r) in
                             e\<lparr>e_group_xfers := hm_put i \<lparr>gx_gid = g, gx_path = gf_path f, gx_name = gf_name f, gx_size = gf_size f,
                                gx_mime = gf_mime f, gx_caption = gl_text r, gx_ts = gl_ts r, gx_members = []\<rparr> (e_group_xfers e)\<rparr>))
               in (case map_of (e_group_xfers e1) i of
                     None \<Rightarrow> (e1, Inl UnknownTransfer)
                   | Some t \<Rightarrow>
                       if gx_gid t \<noteq> g then (e1, Inl UnknownTransfer)
                       else if \<not> exists_file e1 (gx_path t) then (e1, Inl OriginalGone)
                       else if (case map_of (gx_members t) key of None \<Rightarrow> False
                                | Some m \<Rightarrow> mx_state m = ''sending'' \<or> mx_state m = ''done'') then (e1, Inl AlreadySending)
                       else (emit_group_file g i key ''sending'' 0 None
                               (upd_member i key \<lparr>mx_state = ''sending'', mx_sent = 0, mx_handle = h\<rparr> e1), Inr (n, ch, h))))))"

subsection \<open>Group media: receiving\<close>

definition group_file_err :: "'a ext_scheme \<Rightarrow> node_id \<Rightarrow> string \<Rightarrow> string \<Rightarrow> engine \<Rightarrow> engine" where
  "group_file_err E n g msg e = emit (EvGroupFileError g (nid_show E n) msg) e"

definition on_group_file_begin :: "'a ext_scheme \<Rightarrow> node_id \<Rightarrow> string \<Rightarrow> string \<Rightarrow> u64 \<Rightarrow> string \<Rightarrow> u64 \<Rightarrow> string \<Rightarrow> string \<Rightarrow> engine \<Rightarrow> engine" where
  "on_group_file_begin E n g i ts name sz mime caption e =
     (if \<not> is_safe_transfer_id i then group_file_err E n g ''rejected file: malformed transfer id'' e
      else if sz > MAX_GROUP_FILE_BYTES then group_file_err E n g ''rejected file: bytes over the group cap'' e
      else if (case map_of (e_rx_files e) (n, i) of None \<Rightarrow> False | Some t \<Rightarrow> rx_gid t = None) then e
      else
        let replacing = (if map_of (e_rx_files e) (n, i) = None then 0 else 1) in
        if rx_for_peer n e - replacing \<ge> MAX_INBOUND_FILES_PER_PEER \<or> length (e_rx_files e) - replacing \<ge> MAX_INBOUND_FILES_TOTAL
        then group_file_err E n g ''rejected file: too many concurrent transfers'' e
        else if list_ex (\<lambda>r. gl_from r = nid_show E n \<and> gl_id r = i \<and> gl_file r \<noteq> None) (log_of e g) then e
        else
          let dir = join (e_blobs e) (''g-'' @ g);
              partial = join dir (''partial-'' @ nid_show E n @ ''-'' @ i);
              e1 = file_create partial e
          in if io_ok e
             then put_rx (n, i) \<lparr>rx_partial = partial, rx_dir = dir, rx_name = sanitize_name E name, rx_size = sz,
                    rx_mime = mime, rx_caption = caption, rx_ts = ts, rx_got = 0, rx_gid = Some g\<rparr> e1
             else group_file_err E n g ''cannot receive file'' e1)"

definition on_group_file_chunk :: "'a ext_scheme \<Rightarrow> node_id \<Rightarrow> string \<Rightarrow> string \<Rightarrow> string \<Rightarrow> engine \<Rightarrow> engine" where
  "on_group_file_chunk E n g i data e =
     (case map_of (e_rx_files e) (n, i) of
        None \<Rightarrow> e
      | Some t \<Rightarrow>
          if rx_gid t \<noteq> Some g then e
          else (case b64_dec E data of
            None \<Rightarrow> remove_file (rx_partial t) (del_rx (n, i) e)
          | Some bs \<Rightarrow>
              if rx_got t + of_nat (length bs) > rx_size t then remove_file (rx_partial t) (del_rx (n, i) e)
              else
                let e1 = file_append (rx_partial t) bs e in
                if \<not> append_ok (rx_partial t) e then remove_file (rx_partial t) (del_rx (n, i) e1)
                else emit (EvGroupFileRecv g (nid_show E n) i (rx_got t + of_nat (length bs)) (rx_size t))
                       (put_rx (n, i) (t\<lparr>rx_got := rx_got t + of_nat (length bs)\<rparr>) e1)))"

definition on_group_file_end :: "'a ext_scheme \<Rightarrow> node_id \<Rightarrow> string \<Rightarrow> string \<Rightarrow> engine \<Rightarrow> engine" where
  "on_group_file_end E n g i e =
     (case map_of (e_rx_files e) (n, i) of
        None \<Rightarrow> e
      | Some t \<Rightarrow>
          if rx_gid t \<noteq> Some g then e
          else
            let e1 = del_rx (n, i) e in
            if rx_got t \<noteq> rx_size t then emit (EvGroupFileRecvFailed g (nid_show E n) i) (remove_file (rx_partial t) e1)
            else
              let final_path = e_unique_path e1 (rx_dir t) (rx_name t);
                  display = e_unique_name e1 (rx_dir t) (rx_name t);
                  e2 = file_rename (rx_partial t) final_path e1
              in if \<not> rename_ok (rx_partial t) e1 then remove_file (rx_partial t) e2
                 else if \<not> is_active_member E e2 g n then remove_file final_path e2
                 else
                   let ts_eff = eff_ts (last_ts E e2 g) (rx_ts t) (e_now e2);
                       gf = \<lparr>gf_name = display, gf_size = rx_got t, gf_mime = rx_mime t, gf_path = final_path\<rparr>;
                       line = \<lparr>gl_seq = 0, gl_from = nid_show E n, gl_id = i, gl_ts = rx_ts t, gl_ts_eff = ts_eff, gl_dir = ''in'',
                               gl_text = rx_caption t, gl_reply_to = None, gl_reply_text = None, gl_file = Some gf\<rparr>;
                       e3 = e_append_log g line (group_last_ts E g e2)
                   in if \<not> io_ok e2 then group_warn E n ''could not store a group file'' (remove_file final_path e3)
                      else emit (EvGroupMessage g (nid_show E n) (group_name_of E e3 n) i 0 (rx_ts t) ts_eff (rx_caption t) None None (Some gf))
                             (e3\<lparr>e_ts_eff := hm_put g ts_eff (e_ts_eff e3)\<rparr>))"

definition on_group_file :: "'a ext_scheme \<Rightarrow> node_id \<Rightarrow> frame \<Rightarrow> nat \<Rightarrow> engine \<Rightarrow> engine" where
  "on_group_file E n f ch e =
     (let allowed = (\<lambda>g. session_proto e n ch \<ge> 2 \<and> is_active_member E e g n);
          refuse = (\<lambda>i. drop_group_inbound (\<lambda>m j. m = n \<and> j = i) e)
      in case f of
        GroupFileBegin g i ts name sz mime caption \<Rightarrow>
          if allowed g then on_group_file_begin E n g i ts name sz mime caption e else refuse i
      | GroupFileChunk g i data \<Rightarrow> if allowed g then on_group_file_chunk E n g i data e else refuse i
      | GroupFileEnd g i \<Rightarrow> if allowed g then on_group_file_end E n g i e else refuse i
      | _ \<Rightarrow> e)"

subsection \<open>The frame handler\<close>

definition handle_frame :: "'a ext_scheme \<Rightarrow> node_id \<Rightarrow> frame \<Rightarrow> nat \<Rightarrow> engine \<Rightarrow> engine" where
  "handle_frame E n f ch e =
     (if introduced e n \<and> \<not> is_group f then e
      else if is_group_file f then on_group_file E n f ch e
      else if is_group f then handle_group_frame E n f ch e
      else (case f of
        Typing None on \<Rightarrow> on_typing E n on ch e
      | Ack i \<Rightarrow> on_ack E n i e
      | Msg i ts txt rt rx \<Rightarrow> on_msg E n ch i ts txt rt rx e
      | FileBegin i ts name sz mime caption \<Rightarrow> on_file_begin E n i ts name sz mime caption e
      | FileChunk i data \<Rightarrow> on_file_chunk E n i data e
      | FileEnd i \<Rightarrow> on_file_end E n ch i e
      | _ \<Rightarrow> e))"

end
