(* ===== verification/Sessions.thy ===== *)
theory Sessions
  imports Files
begin

section \<open>Sessions, start-up and the engine as a state machine\<close>

text \<open>
  The branches of \<open>session_task\<close> (opening, a frame written, a frame read, the end), the start of the engine
  from its files, and \<open>action\<close>/\<open>exec\<close>: one action for every call the user interface, a session task, the
  accept loop or a timer makes under the engine's lock. A run of the engine is a list of actions; the
  properties that span operations are invariants of \<open>exec\<close>.
\<close>

subsection \<open>A session\<close>

record session =
  ss_node :: node_id
  ss_ch :: nat
  ss_handle :: u64
  ss_progress :: "(string, u64 \<times> u64) hmap"
  ss_window_start :: nat
  ss_window_count :: nat

definition session_open :: "'a ext_scheme \<Rightarrow> node_id \<Rightarrow> nat \<Rightarrow> engine \<Rightarrow> engine \<times> session" where
  "session_open E n ch e =
     (let hid = (case Option.bind (map_of (e_peers e) n) (\<lambda>p. find (\<lambda>h. lh_tx h = ch) (p_live p)) of None \<Rightarrow> 0 | Some h \<Rightarrow> lh_id h)
      in (group_session_open E n ch e,
          \<lparr>ss_node = n, ss_ch = ch, ss_handle = hid, ss_progress = [], ss_window_start = e_mono e, ss_window_count = 0\<rparr>))"

text \<open>\<open>data.len() * 3 / 4\<close>: the bytes a base64 chunk stands for, up to its padding.\<close>

definition decoded_len :: "string \<Rightarrow> u64" where
  "decoded_len data = of_nat (length data * 3 div 4)"

definition progress_before :: "'a ext_scheme \<Rightarrow> frame \<Rightarrow> engine \<times> session \<Rightarrow> engine \<times> session" where
  "progress_before E f es =
     (let (e, s) = es; key = nid_show E (ss_node s) in
      case f of
        FileBegin i ts name sz mime caption \<Rightarrow> (e, s\<lparr>ss_progress := hm_put i (0, sz) (ss_progress s)\<rparr>)
      | FileChunk i data \<Rightarrow>
          let (got, sz) = (case map_of (ss_progress s) i of None \<Rightarrow> (0, 0) | Some x \<Rightarrow> x);
              got' = got + decoded_len data
          in (emit (EvFileProgress key i ''send'' got' sz) e, s\<lparr>ss_progress := hm_put i (got', sz) (ss_progress s)\<rparr>)
      | FileEnd i \<Rightarrow> (emit (EvFileDone key i) e, s\<lparr>ss_progress := hm_del i (ss_progress s)\<rparr>)
      | _ \<Rightarrow> (e, s))"

definition progress_after :: "'a ext_scheme \<Rightarrow> node_id \<Rightarrow> frame \<Rightarrow> engine \<Rightarrow> engine" where
  "progress_after E n f e =
     (case f of
        GroupFileChunk g i data \<Rightarrow> group_file_wrote E n i (decoded_len data) e
      | GroupFileEnd g i \<Rightarrow> group_file_done E n i e
      | _ \<Rightarrow> e)"

text \<open>A frame taken from the channel; \<open>ok\<close> tells whether the write succeeded (a failure ends the session).\<close>

definition session_write :: "'a ext_scheme \<Rightarrow> frame \<Rightarrow> bool \<Rightarrow> engine \<times> session \<Rightarrow> engine \<times> session" where
  "session_write E f ok es =
     (let (e, s) = progress_before E f es in (if ok then progress_after E (ss_node s) f e else e, s))"

definition rate_limited :: "frame \<Rightarrow> bool" where
  "rate_limited f \<longleftrightarrow> is_group f \<and> \<not> is_group_file f \<or> (case f of Typing _ _ \<Rightarrow> True | _ \<Rightarrow> False)"

definition session_read :: "'a ext_scheme \<Rightarrow> frame \<Rightarrow> engine \<times> session \<Rightarrow> engine \<times> session" where
  "session_read E f es =
     (let (e, s) = es;
          s1 = (if rate_limited f \<and> e_mono e - ss_window_start s \<ge> 1000
                then s\<lparr>ss_window_start := e_mono e, ss_window_count := 0\<rparr> else s);
          s2 = (if rate_limited f then s1\<lparr>ss_window_count := ss_window_count s1 + 1\<rparr> else s1)
      in if rate_limited f \<and> ss_window_count s2 > GROUP_FRAMES_PER_SEC then (e, s2)
         else let e1 = handle_frame E (ss_node s) f (ss_ch s) e
              in (case f of GroupStateF _ \<Rightarrow> trigger_group_dials E e1 | _ \<Rightarrow> e1, s2))"

definition session_end :: "'a ext_scheme \<Rightarrow> engine \<times> session \<Rightarrow> engine" where
  "session_end E es =
     (let (e, s) = es; n = ss_node s;
          e1 = fold (\<lambda>(i, _). emit (EvFileFailed (nid_show E n) i)) (ss_progress s) e;
          e2 = remove_live E n (ss_handle s) (group_files_failed E n (ss_handle s) e1)
      in e2\<lparr>e_closed := ss_ch s # e_closed e2\<rparr>)"

subsection \<open>Start-up\<close>

text \<open>The identity: the stored key, or a new one of the 32 bytes \<open>rnd\<close> that is written to the file.\<close>

definition load_or_create_identity :: "'a ext_scheme \<Rightarrow> string option \<Rightarrow> byte list \<Rightarrow> bool \<Rightarrow> string option \<times> (p2p_error + secret_key)" where
  "load_or_create_identity E file rnd ok =
     (case file of
        Some hex \<Rightarrow>
          (case hex_dec E (trim hex) of
             None \<Rightarrow> (file, Inl BadPeerId)
           | Some bs \<Rightarrow> if length bs = 32 then (file, Inr (SecretKey bs)) else (file, Inl BadPeerId))
      | None \<Rightarrow> if ok then (Some (hex_enc E rnd), Inr (SecretKey rnd)) else (None, Inl Io))"

definition load_profile :: "(string \<Rightarrow> string option) \<Rightarrow> string option \<Rightarrow> string option" where
  "load_profile de file = Option.bind file de"

definition load_peer :: "'a ext_scheme \<Rightarrow> engine \<Rightarrow> persisted_peer \<Rightarrow> (node_id, peer) hmap \<Rightarrow> (node_id, peer) hmap" where
  "load_peer E e pp ps =
     (case nid_parse E (pp_node_id pp) of
        None \<Rightarrow> ps
      | Some n \<Rightarrow>
          let ms = e_load_messages e n in
          hm_put n ((blank_peer Paired (pp_name pp) (List.map_filter (sock_parse E) (pp_addrs pp)) ms)\<lparr>p_proto := pp_proto pp\<rparr>) ps)"

definition load_peers :: "engine \<Rightarrow> persisted_peer list" where
  "load_peers e = (case d_peers e of None \<Rightarrow> [] | Some ps \<Rightarrow> ps)"

definition repaired_groups :: "'a ext_scheme \<Rightarrow> engine \<Rightarrow> (string, group_rec) btmap" where
  "repaired_groups E e =
     map (\<lambda>(g, rec). (g, repair_rec (scan_recs (nid_show E (e_me e)) (log_of e g)) rec))
       (load_recs E (case d_groups e of None \<Rightarrow> [] | Some rs \<Rightarrow> rs) [])"

definition start :: "'a ext_scheme \<Rightarrow> string \<Rightarrow> engine \<Rightarrow> engine" where
  "start E tok e =
     (let groups = repaired_groups E e;
          peers = rebuild_introduced E groups (e_me e) (fold (load_peer E e) (load_peers e) []);
          e1 = e\<lparr>e_name := (case d_profile e of None \<Rightarrow> [] | Some n \<Rightarrow> n), e_token := tok, e_peers := peers, e_nearby := [],
                 e_pair_requests := [], e_decisions := [], e_groups := groups, e_links := [], e_gone := [],
                 e_gap_sent := [], e_ts_eff := [], e_typing_seen := [], e_caps := [], e_rx_files := [],
                 e_group_xfers := [], e_handle_ids := 1, e_out := [], e_events := [], e_dials := []\<rparr>;
          pending = map fst (filter (\<lambda>(i, p). p_queued p \<noteq> []) peers)
      in trigger_group_dials E (fold trigger_connect pending e1))"

subsection \<open>Streaming a group file\<close>

text \<open>\<open>stream_group_file\<close> as the frames it puts on the session, given the stored copy's content; \<open>Inl\<close> when
  the copy no longer has the announced size. The credits that pace it are in the theory Streaming.\<close>

definition group_file_frames :: "'a ext_scheme \<Rightarrow> string \<Rightarrow> string \<Rightarrow> group_xfer \<Rightarrow> byte list \<Rightarrow> frame list" where
  "group_file_frames E g i t data =
     GroupFileBegin g i (gx_ts t) (gx_name t) (gx_size t) (gx_mime t) (gx_caption t)
       # map (\<lambda>c. GroupFileChunk g i (b64_enc E c)) (chunks GROUP_FILE_CHUNK data) @ [GroupFileEnd g i]"

definition stream_failed :: "string \<Rightarrow> string \<Rightarrow> u64 \<Rightarrow> engine \<Rightarrow> engine" where
  "stream_failed i key h e =
     (case member_of e i key of
        None \<Rightarrow> e
      | Some (t, m) \<Rightarrow> if mx_handle m = h then group_file_set i key ''failed'' None e else e)"

subsection \<open>Actions\<close>

datatype action =
    ATime u64 nat
  | AIo "bool list" "bool list"
  | ARestart string
  | ASetName string
  | AInvite "sock_addr list" string
  | ASend string string "string option" "string option" string
  | ASendFile string "byte list option" string string string
  | ARemovePeer string
  | ARetry string
  | AMaintenance
  | APairConnect node_id "sock_addr list" string pair_outcome u8 nat
  | AIncoming node_id u8 nat first_value string nat "(nat \<times> bool) list" bool
  | AApprove string bool
  | AConnect node_id "(nat \<times> u8) option" string
  | ABeacon string string "string list" sock_addr
  | ATypingPeer string bool
  | AGroupCreate string "string list" "byte list"
  | AGroupAdd string string
  | AGroupRemove string string
  | AGroupRename string string
  | AGroupDisband string
  | AGroupLeave string
  | AGroupDelete string
  | AGroupSend string string "string option" "string option" string
  | ATypingGroup string bool
  | AGroupSendFile string "byte list option" string string string
  | AGroupFileRetry string string string
  | AGroupDials
  | AStream nat frame
  | AStreamFailed string string u64
  | ASessionOpen node_id nat
  | ARead node_id frame nat
  | AWrote node_id frame
  | ASessionEnd node_id nat u64

fun exec :: "'a ext_scheme \<Rightarrow> action \<Rightarrow> engine \<Rightarrow> engine" where
  "exec E (ATime now ticks) e = e\<lparr>e_now := now, e_mono := ticks\<rparr>"
| "exec E (AIo io rm) e = e\<lparr>e_io := io, e_rm := rm\<rparr>"
| "exec E (ARestart tok) e = start E tok e"
| "exec E (ASetName s) e = fst (set_name s e)"
| "exec E (AInvite addrs rid) e = fst (create_invite E addrs rid e)"
| "exec E (ASend s txt rt rx rid) e = fst (send E s txt rt rx rid e)"
| "exec E (ASendFile s src name cap rid) e = fst (send_file E s src name cap rid e)"
| "exec E (ARemovePeer s) e = fst (remove_peer E s e)"
| "exec E (ARetry s) e = fst (retry E s e)"
| "exec E AMaintenance e = maintenance_tick e"
| "exec E (APairConnect n addrs hint out proto ch) e = fst (pair_connect E n addrs hint out proto ch e)"
| "exec E (AIncoming n proto ch op expected req ds ok) e = fst (handle_incoming E n proto ch op expected req ds ok e)"
| "exec E (AApprove s b) e = fst (approve_pair E s b e)"
| "exec E (AConnect n out err) e = connect_and_serve E n out err e"
| "exec E (ABeacon s name addrs from) e = hear_beacon E s name addrs from e"
| "exec E (ATypingPeer s on) e = fst (typing_peer E s on e)"
| "exec E (AGroupCreate name ids rnd) e = fst (group_create E name ids rnd e)"
| "exec E (AGroupAdd g s) e = fst (group_add E g s e)"
| "exec E (AGroupRemove g s) e = fst (group_remove E g s e)"
| "exec E (AGroupRename g s) e = fst (group_rename E g s e)"
| "exec E (AGroupDisband g) e = fst (group_disband E g e)"
| "exec E (AGroupLeave g) e = fst (group_leave E g e)"
| "exec E (AGroupDelete g) e = fst (group_delete E g e)"
| "exec E (AGroupSend g txt rt rx rid) e = fst (group_send E g txt rt rx rid e)"
| "exec E (ATypingGroup g on) e = fst (typing_group E g on e)"
| "exec E (AGroupSendFile g src name cap rid) e = fst (group_send_file E g src name cap rid e)"
| "exec E (AGroupFileRetry g i mem) e = fst (group_file_retry E g i mem e)"
| "exec E AGroupDials e = trigger_group_dials E e"
| "exec E (AStream ch f) e = tx_send ch f e"
| "exec E (AStreamFailed i key h) e = stream_failed i key h e"
| "exec E (ASessionOpen n ch) e = group_session_open E n ch e"
| "exec E (ARead n f ch) e = handle_frame E n f ch e"
| "exec E (AWrote n f) e = progress_after E n f e"
| "exec E (ASessionEnd n ch hid) e =
     (let e2 = remove_live E n hid (group_files_failed E n hid e) in e2\<lparr>e_closed := ch # e_closed e2\<rparr>)"

text \<open>A run from a state, by a list of actions, or as the states reachable by allowed actions.\<close>

definition run :: "'a ext_scheme \<Rightarrow> action list \<Rightarrow> engine \<Rightarrow> engine" where
  "run E as e = fold (exec E) as e"

inductive reach :: "'a ext_scheme \<Rightarrow> (engine \<Rightarrow> action \<Rightarrow> bool) \<Rightarrow> engine \<Rightarrow> engine \<Rightarrow> bool"
  for E :: "'a ext_scheme" and allowed :: "engine \<Rightarrow> action \<Rightarrow> bool" where
  reach_refl: "reach E allowed e e"
| reach_step: "reach E allowed e e' \<Longrightarrow> allowed e' a \<Longrightarrow> reach E allowed e (exec E a e')"

lemma reach_run: "reach E (\<lambda>_ _. True) e (run E as e)"
proof (induction as rule: rev_induct)
  case (snoc a as)
  then show ?case using reach_step [of E "\<lambda>_ _. True" e _ a] by (simp add: run_def)
qed (simp add: run_def reach_refl)

text \<open>What holds initially and is kept by every allowed action holds in every reachable state.\<close>

lemma reach_invariant:
  assumes "reach E allowed e e'" "J e" "\<And>e a. J e \<Longrightarrow> allowed e a \<Longrightarrow> J (exec E a e)"
  shows "J e'"
  using assms by (induction rule: reach.induct) auto

end
