(* ===== verification/Frames.thy ===== *)
theory Frames
  imports Sessions
begin

section \<open>What each operation leaves alone\<close>

text \<open>
  For every effect and operation of the engine, the fields it does not change, as simp rules. The proofs of
  the invariants unfold an operation only for the fields it does change.
\<close>

text \<open>A loop keeps what its body keeps.\<close>

lemma fold_frame: "(\<And>x e. f (g x e) = f e) \<Longrightarrow> f (fold g xs e) = f e"
  by (induction xs arbitrary: e) auto

lemmas fold_frames [simp] =
  fold_frame [where f = e_me] fold_frame [where f = e_secret] fold_frame [where f = e_blobs] fold_frame [where f = e_token] fold_frame [where f = e_peers] fold_frame [where f = e_groups] fold_frame [where f = e_links] fold_frame [where f = e_gone] fold_frame [where f = e_gap_sent] fold_frame [where f = e_rx_files] fold_frame [where f = e_closed] fold_frame [where f = e_out] fold_frame [where f = e_io] fold_frame [where f = e_rm] fold_frame [where f = e_now] fold_frame [where f = d_peers] fold_frame [where f = d_groups] fold_frame [where f = d_logs] fold_frame [where f = d_msgs] fold_frame [where f = d_files]

subsection \<open>Effects\<close>

lemma emit_frame [simp]:
    "e_me (emit ev e) = e_me e" "e_secret (emit ev e) = e_secret e" "e_blobs (emit ev e) = e_blobs e"
    "e_token (emit ev e) = e_token e" "e_peers (emit ev e) = e_peers e" "e_groups (emit ev e) = e_groups e"
    "e_links (emit ev e) = e_links e" "e_gone (emit ev e) = e_gone e" "e_gap_sent (emit ev e) = e_gap_sent e"
    "e_rx_files (emit ev e) = e_rx_files e" "e_closed (emit ev e) = e_closed e" "e_out (emit ev e) = e_out e"
    "e_io (emit ev e) = e_io e" "e_rm (emit ev e) = e_rm e" "e_now (emit ev e) = e_now e" "d_peers (emit ev e) = d_peers e"
    "d_groups (emit ev e) = d_groups e" "d_logs (emit ev e) = d_logs e" "d_msgs (emit ev e) = d_msgs e"
    "d_files (emit ev e) = d_files e"
  by (simp_all add: emit_def emit_def split: option.splits)

lemma tx_send_frame [simp]:
    "e_me (tx_send ch f e) = e_me e" "e_secret (tx_send ch f e) = e_secret e" "e_blobs (tx_send ch f e) = e_blobs e"
    "e_token (tx_send ch f e) = e_token e" "e_peers (tx_send ch f e) = e_peers e" "e_groups (tx_send ch f e) = e_groups e"
    "e_links (tx_send ch f e) = e_links e" "e_gone (tx_send ch f e) = e_gone e" "e_gap_sent (tx_send ch f e) = e_gap_sent e"
    "e_rx_files (tx_send ch f e) = e_rx_files e" "e_closed (tx_send ch f e) = e_closed e" "e_io (tx_send ch f e) = e_io e"
    "e_rm (tx_send ch f e) = e_rm e" "e_now (tx_send ch f e) = e_now e" "d_peers (tx_send ch f e) = d_peers e"
    "d_groups (tx_send ch f e) = d_groups e" "d_logs (tx_send ch f e) = d_logs e" "d_msgs (tx_send ch f e) = d_msgs e"
    "d_files (tx_send ch f e) = d_files e"
  by (simp_all add: tx_send_def emit_def split: option.splits)

lemma upd_peer_frame [simp]:
    "e_me (upd_peer n f e) = e_me e" "e_secret (upd_peer n f e) = e_secret e" "e_blobs (upd_peer n f e) = e_blobs e"
    "e_token (upd_peer n f e) = e_token e" "e_groups (upd_peer n f e) = e_groups e" "e_links (upd_peer n f e) = e_links e"
    "e_gone (upd_peer n f e) = e_gone e" "e_gap_sent (upd_peer n f e) = e_gap_sent e" "e_rx_files (upd_peer n f e) = e_rx_files e"
    "e_closed (upd_peer n f e) = e_closed e" "e_out (upd_peer n f e) = e_out e" "e_io (upd_peer n f e) = e_io e"
    "e_rm (upd_peer n f e) = e_rm e" "e_now (upd_peer n f e) = e_now e" "d_peers (upd_peer n f e) = d_peers e"
    "d_groups (upd_peer n f e) = d_groups e" "d_logs (upd_peer n f e) = d_logs e" "d_msgs (upd_peer n f e) = d_msgs e"
    "d_files (upd_peer n f e) = d_files e"
  by (simp_all add: upd_peer_def emit_def split: option.splits)

lemma upd_group_frame [simp]:
    "e_me (upd_group g f e) = e_me e" "e_secret (upd_group g f e) = e_secret e" "e_blobs (upd_group g f e) = e_blobs e"
    "e_token (upd_group g f e) = e_token e" "e_peers (upd_group g f e) = e_peers e" "e_links (upd_group g f e) = e_links e"
    "e_gone (upd_group g f e) = e_gone e" "e_gap_sent (upd_group g f e) = e_gap_sent e"
    "e_rx_files (upd_group g f e) = e_rx_files e" "e_closed (upd_group g f e) = e_closed e" "e_out (upd_group g f e) = e_out e"
    "e_io (upd_group g f e) = e_io e" "e_rm (upd_group g f e) = e_rm e" "e_now (upd_group g f e) = e_now e"
    "d_peers (upd_group g f e) = d_peers e" "d_groups (upd_group g f e) = d_groups e" "d_logs (upd_group g f e) = d_logs e"
    "d_msgs (upd_group g f e) = d_msgs e" "d_files (upd_group g f e) = d_files e"
  by (simp_all add: upd_group_def emit_def split: option.splits)

lemma remove_file_frame [simp]:
    "e_me (remove_file p e) = e_me e" "e_secret (remove_file p e) = e_secret e" "e_blobs (remove_file p e) = e_blobs e"
    "e_token (remove_file p e) = e_token e" "e_peers (remove_file p e) = e_peers e" "e_groups (remove_file p e) = e_groups e"
    "e_links (remove_file p e) = e_links e" "e_gone (remove_file p e) = e_gone e" "e_gap_sent (remove_file p e) = e_gap_sent e"
    "e_rx_files (remove_file p e) = e_rx_files e" "e_closed (remove_file p e) = e_closed e" "e_out (remove_file p e) = e_out e"
    "e_io (remove_file p e) = e_io e" "e_now (remove_file p e) = e_now e" "d_peers (remove_file p e) = d_peers e"
    "d_groups (remove_file p e) = d_groups e" "d_logs (remove_file p e) = d_logs e" "d_msgs (remove_file p e) = d_msgs e"
  by (simp_all add: remove_file_def emit_def split: option.splits)

lemma remove_dir_all_frame [simp]:
    "e_me (remove_dir_all p e) = e_me e" "e_secret (remove_dir_all p e) = e_secret e" "e_blobs (remove_dir_all p e) = e_blobs e"
    "e_token (remove_dir_all p e) = e_token e" "e_peers (remove_dir_all p e) = e_peers e"
    "e_groups (remove_dir_all p e) = e_groups e" "e_links (remove_dir_all p e) = e_links e"
    "e_gone (remove_dir_all p e) = e_gone e" "e_gap_sent (remove_dir_all p e) = e_gap_sent e"
    "e_rx_files (remove_dir_all p e) = e_rx_files e" "e_closed (remove_dir_all p e) = e_closed e"
    "e_out (remove_dir_all p e) = e_out e" "e_io (remove_dir_all p e) = e_io e" "e_now (remove_dir_all p e) = e_now e"
    "d_peers (remove_dir_all p e) = d_peers e" "d_groups (remove_dir_all p e) = d_groups e"
    "d_logs (remove_dir_all p e) = d_logs e" "d_msgs (remove_dir_all p e) = d_msgs e"
  by (simp_all add: remove_dir_all_def emit_def split: option.splits)

lemma e_append_log_frame [simp]:
    "e_me (e_append_log g r e) = e_me e" "e_secret (e_append_log g r e) = e_secret e" "e_blobs (e_append_log g r e) = e_blobs e"
    "e_token (e_append_log g r e) = e_token e" "e_peers (e_append_log g r e) = e_peers e"
    "e_groups (e_append_log g r e) = e_groups e" "e_links (e_append_log g r e) = e_links e"
    "e_gone (e_append_log g r e) = e_gone e" "e_gap_sent (e_append_log g r e) = e_gap_sent e"
    "e_rx_files (e_append_log g r e) = e_rx_files e" "e_closed (e_append_log g r e) = e_closed e"
    "e_out (e_append_log g r e) = e_out e" "e_rm (e_append_log g r e) = e_rm e" "e_now (e_append_log g r e) = e_now e"
    "d_peers (e_append_log g r e) = d_peers e" "d_groups (e_append_log g r e) = d_groups e"
    "d_msgs (e_append_log g r e) = d_msgs e" "d_files (e_append_log g r e) = d_files e"
  by (simp_all add: e_append_log_def emit_def split: option.splits)

lemma e_delete_log_frame [simp]:
    "e_me (e_delete_log g e) = e_me e" "e_secret (e_delete_log g e) = e_secret e" "e_blobs (e_delete_log g e) = e_blobs e"
    "e_token (e_delete_log g e) = e_token e" "e_peers (e_delete_log g e) = e_peers e" "e_groups (e_delete_log g e) = e_groups e"
    "e_links (e_delete_log g e) = e_links e" "e_gone (e_delete_log g e) = e_gone e" "e_gap_sent (e_delete_log g e) = e_gap_sent e"
    "e_rx_files (e_delete_log g e) = e_rx_files e" "e_closed (e_delete_log g e) = e_closed e" "e_out (e_delete_log g e) = e_out e"
    "e_io (e_delete_log g e) = e_io e" "e_now (e_delete_log g e) = e_now e" "d_peers (e_delete_log g e) = d_peers e"
    "d_groups (e_delete_log g e) = d_groups e" "d_msgs (e_delete_log g e) = d_msgs e" "d_files (e_delete_log g e) = d_files e"
  by (simp_all add: e_delete_log_def emit_def split: option.splits)

lemma persist_messages_frame [simp]:
    "e_me (persist_messages n rows e) = e_me e" "e_secret (persist_messages n rows e) = e_secret e"
    "e_blobs (persist_messages n rows e) = e_blobs e" "e_token (persist_messages n rows e) = e_token e"
    "e_peers (persist_messages n rows e) = e_peers e" "e_groups (persist_messages n rows e) = e_groups e"
    "e_links (persist_messages n rows e) = e_links e" "e_gone (persist_messages n rows e) = e_gone e"
    "e_gap_sent (persist_messages n rows e) = e_gap_sent e" "e_rx_files (persist_messages n rows e) = e_rx_files e"
    "e_closed (persist_messages n rows e) = e_closed e" "e_out (persist_messages n rows e) = e_out e"
    "e_rm (persist_messages n rows e) = e_rm e" "e_now (persist_messages n rows e) = e_now e"
    "d_peers (persist_messages n rows e) = d_peers e" "d_groups (persist_messages n rows e) = d_groups e"
    "d_logs (persist_messages n rows e) = d_logs e" "d_files (persist_messages n rows e) = d_files e"
  by (simp_all add: persist_messages_def emit_def split: option.splits)

lemma persist_groups_frame [simp]:
    "e_me (persist_groups e) = e_me e" "e_secret (persist_groups e) = e_secret e" "e_blobs (persist_groups e) = e_blobs e"
    "e_token (persist_groups e) = e_token e" "e_peers (persist_groups e) = e_peers e" "e_groups (persist_groups e) = e_groups e"
    "e_links (persist_groups e) = e_links e" "e_gone (persist_groups e) = e_gone e" "e_gap_sent (persist_groups e) = e_gap_sent e"
    "e_rx_files (persist_groups e) = e_rx_files e" "e_closed (persist_groups e) = e_closed e" "e_out (persist_groups e) = e_out e"
    "e_rm (persist_groups e) = e_rm e" "e_now (persist_groups e) = e_now e" "d_peers (persist_groups e) = d_peers e"
    "d_logs (persist_groups e) = d_logs e" "d_msgs (persist_groups e) = d_msgs e" "d_files (persist_groups e) = d_files e"
  by (simp_all add: persist_groups_def emit_def split: option.splits)

lemma persist_peers_frame [simp]:
    "e_me (persist_peers E e) = e_me e" "e_secret (persist_peers E e) = e_secret e" "e_blobs (persist_peers E e) = e_blobs e"
    "e_token (persist_peers E e) = e_token e" "e_peers (persist_peers E e) = e_peers e" "e_groups (persist_peers E e) = e_groups e"
    "e_links (persist_peers E e) = e_links e" "e_gone (persist_peers E e) = e_gone e"
    "e_gap_sent (persist_peers E e) = e_gap_sent e" "e_rx_files (persist_peers E e) = e_rx_files e"
    "e_closed (persist_peers E e) = e_closed e" "e_out (persist_peers E e) = e_out e" "e_rm (persist_peers E e) = e_rm e"
    "e_now (persist_peers E e) = e_now e" "d_groups (persist_peers E e) = d_groups e" "d_logs (persist_peers E e) = d_logs e"
    "d_msgs (persist_peers E e) = d_msgs e" "d_files (persist_peers E e) = d_files e"
  by (simp_all add: persist_peers_def emit_def split: option.splits)

lemma put_group_frame [simp]:
    "e_me (put_group g r e) = e_me e" "e_secret (put_group g r e) = e_secret e" "e_blobs (put_group g r e) = e_blobs e"
    "e_token (put_group g r e) = e_token e" "e_peers (put_group g r e) = e_peers e" "e_links (put_group g r e) = e_links e"
    "e_gone (put_group g r e) = e_gone e" "e_gap_sent (put_group g r e) = e_gap_sent e"
    "e_rx_files (put_group g r e) = e_rx_files e" "e_closed (put_group g r e) = e_closed e" "e_out (put_group g r e) = e_out e"
    "e_io (put_group g r e) = e_io e" "e_rm (put_group g r e) = e_rm e" "e_now (put_group g r e) = e_now e"
    "d_peers (put_group g r e) = d_peers e" "d_groups (put_group g r e) = d_groups e" "d_logs (put_group g r e) = d_logs e"
    "d_msgs (put_group g r e) = d_msgs e" "d_files (put_group g r e) = d_files e"
  by (simp_all add: put_group_def emit_def split: option.splits)

lemma put_rx_frame [simp]:
    "e_me (put_rx k t e) = e_me e" "e_secret (put_rx k t e) = e_secret e" "e_blobs (put_rx k t e) = e_blobs e"
    "e_token (put_rx k t e) = e_token e" "e_peers (put_rx k t e) = e_peers e" "e_groups (put_rx k t e) = e_groups e"
    "e_links (put_rx k t e) = e_links e" "e_gone (put_rx k t e) = e_gone e" "e_gap_sent (put_rx k t e) = e_gap_sent e"
    "e_closed (put_rx k t e) = e_closed e" "e_out (put_rx k t e) = e_out e" "e_io (put_rx k t e) = e_io e"
    "e_rm (put_rx k t e) = e_rm e" "e_now (put_rx k t e) = e_now e" "d_peers (put_rx k t e) = d_peers e"
    "d_groups (put_rx k t e) = d_groups e" "d_logs (put_rx k t e) = d_logs e" "d_msgs (put_rx k t e) = d_msgs e"
    "d_files (put_rx k t e) = d_files e"
  by (simp_all add: put_rx_def emit_def split: option.splits)

lemma del_rx_frame [simp]:
    "e_me (del_rx k e) = e_me e" "e_secret (del_rx k e) = e_secret e" "e_blobs (del_rx k e) = e_blobs e"
    "e_token (del_rx k e) = e_token e" "e_peers (del_rx k e) = e_peers e" "e_groups (del_rx k e) = e_groups e"
    "e_links (del_rx k e) = e_links e" "e_gone (del_rx k e) = e_gone e" "e_gap_sent (del_rx k e) = e_gap_sent e"
    "e_closed (del_rx k e) = e_closed e" "e_out (del_rx k e) = e_out e" "e_io (del_rx k e) = e_io e" "e_rm (del_rx k e) = e_rm e"
    "e_now (del_rx k e) = e_now e" "d_peers (del_rx k e) = d_peers e" "d_groups (del_rx k e) = d_groups e"
    "d_logs (del_rx k e) = d_logs e" "d_msgs (del_rx k e) = d_msgs e" "d_files (del_rx k e) = d_files e"
  by (simp_all add: del_rx_def emit_def split: option.splits)

lemma file_create_frame [simp]:
    "e_me (file_create p e) = e_me e" "e_secret (file_create p e) = e_secret e" "e_blobs (file_create p e) = e_blobs e"
    "e_token (file_create p e) = e_token e" "e_peers (file_create p e) = e_peers e" "e_groups (file_create p e) = e_groups e"
    "e_links (file_create p e) = e_links e" "e_gone (file_create p e) = e_gone e" "e_gap_sent (file_create p e) = e_gap_sent e"
    "e_rx_files (file_create p e) = e_rx_files e" "e_closed (file_create p e) = e_closed e" "e_out (file_create p e) = e_out e"
    "e_rm (file_create p e) = e_rm e" "e_now (file_create p e) = e_now e" "d_peers (file_create p e) = d_peers e"
    "d_groups (file_create p e) = d_groups e" "d_logs (file_create p e) = d_logs e" "d_msgs (file_create p e) = d_msgs e"
  by (simp_all add: file_create_def emit_def split: option.splits)

lemma file_append_frame [simp]:
    "e_me (file_append p bs e) = e_me e" "e_secret (file_append p bs e) = e_secret e" "e_blobs (file_append p bs e) = e_blobs e"
    "e_token (file_append p bs e) = e_token e" "e_peers (file_append p bs e) = e_peers e"
    "e_groups (file_append p bs e) = e_groups e" "e_links (file_append p bs e) = e_links e"
    "e_gone (file_append p bs e) = e_gone e" "e_gap_sent (file_append p bs e) = e_gap_sent e"
    "e_rx_files (file_append p bs e) = e_rx_files e" "e_closed (file_append p bs e) = e_closed e"
    "e_out (file_append p bs e) = e_out e" "e_rm (file_append p bs e) = e_rm e" "e_now (file_append p bs e) = e_now e"
    "d_peers (file_append p bs e) = d_peers e" "d_groups (file_append p bs e) = d_groups e"
    "d_logs (file_append p bs e) = d_logs e" "d_msgs (file_append p bs e) = d_msgs e"
  by (simp_all add: file_append_def emit_def split: option.splits)

lemma file_rename_frame [simp]:
    "e_me (file_rename p q e) = e_me e" "e_secret (file_rename p q e) = e_secret e" "e_blobs (file_rename p q e) = e_blobs e"
    "e_token (file_rename p q e) = e_token e" "e_peers (file_rename p q e) = e_peers e" "e_groups (file_rename p q e) = e_groups e"
    "e_links (file_rename p q e) = e_links e" "e_gone (file_rename p q e) = e_gone e"
    "e_gap_sent (file_rename p q e) = e_gap_sent e" "e_rx_files (file_rename p q e) = e_rx_files e"
    "e_closed (file_rename p q e) = e_closed e" "e_out (file_rename p q e) = e_out e" "e_rm (file_rename p q e) = e_rm e"
    "e_now (file_rename p q e) = e_now e" "d_peers (file_rename p q e) = d_peers e" "d_groups (file_rename p q e) = d_groups e"
    "d_logs (file_rename p q e) = d_logs e" "d_msgs (file_rename p q e) = d_msgs e"
  by (simp_all add: file_rename_def emit_def split: option.splits)

lemma group_last_ts_frame [simp]:
    "e_me (group_last_ts E g e) = e_me e" "e_secret (group_last_ts E g e) = e_secret e" "e_blobs (group_last_ts E g e) = e_blobs e"
    "e_token (group_last_ts E g e) = e_token e" "e_peers (group_last_ts E g e) = e_peers e"
    "e_groups (group_last_ts E g e) = e_groups e" "e_links (group_last_ts E g e) = e_links e"
    "e_gone (group_last_ts E g e) = e_gone e" "e_gap_sent (group_last_ts E g e) = e_gap_sent e"
    "e_rx_files (group_last_ts E g e) = e_rx_files e" "e_closed (group_last_ts E g e) = e_closed e"
    "e_out (group_last_ts E g e) = e_out e" "e_io (group_last_ts E g e) = e_io e" "e_rm (group_last_ts E g e) = e_rm e"
    "e_now (group_last_ts E g e) = e_now e" "d_peers (group_last_ts E g e) = d_peers e"
    "d_groups (group_last_ts E g e) = d_groups e" "d_logs (group_last_ts E g e) = d_logs e"
    "d_msgs (group_last_ts E g e) = d_msgs e" "d_files (group_last_ts E g e) = d_files e"
  by (simp_all add: group_last_ts_def emit_def split: option.splits)

lemma group_warn_frame [simp]:
    "e_me (group_warn E n msg e) = e_me e" "e_secret (group_warn E n msg e) = e_secret e"
    "e_blobs (group_warn E n msg e) = e_blobs e" "e_token (group_warn E n msg e) = e_token e"
    "e_peers (group_warn E n msg e) = e_peers e" "e_groups (group_warn E n msg e) = e_groups e"
    "e_links (group_warn E n msg e) = e_links e" "e_gone (group_warn E n msg e) = e_gone e"
    "e_gap_sent (group_warn E n msg e) = e_gap_sent e" "e_rx_files (group_warn E n msg e) = e_rx_files e"
    "e_closed (group_warn E n msg e) = e_closed e" "e_out (group_warn E n msg e) = e_out e" "e_io (group_warn E n msg e) = e_io e"
    "e_rm (group_warn E n msg e) = e_rm e" "e_now (group_warn E n msg e) = e_now e" "d_peers (group_warn E n msg e) = d_peers e"
    "d_groups (group_warn E n msg e) = d_groups e" "d_logs (group_warn E n msg e) = d_logs e"
    "d_msgs (group_warn E n msg e) = d_msgs e" "d_files (group_warn E n msg e) = d_files e"
  by (simp_all add: group_warn_def emit_def split: option.splits)

lemma err_ev_frame [simp]:
    "e_me (err_ev E n msg e) = e_me e" "e_secret (err_ev E n msg e) = e_secret e" "e_blobs (err_ev E n msg e) = e_blobs e"
    "e_token (err_ev E n msg e) = e_token e" "e_peers (err_ev E n msg e) = e_peers e" "e_groups (err_ev E n msg e) = e_groups e"
    "e_links (err_ev E n msg e) = e_links e" "e_gone (err_ev E n msg e) = e_gone e" "e_gap_sent (err_ev E n msg e) = e_gap_sent e"
    "e_rx_files (err_ev E n msg e) = e_rx_files e" "e_closed (err_ev E n msg e) = e_closed e" "e_out (err_ev E n msg e) = e_out e"
    "e_io (err_ev E n msg e) = e_io e" "e_rm (err_ev E n msg e) = e_rm e" "e_now (err_ev E n msg e) = e_now e"
    "d_peers (err_ev E n msg e) = d_peers e" "d_groups (err_ev E n msg e) = d_groups e" "d_logs (err_ev E n msg e) = d_logs e"
    "d_msgs (err_ev E n msg e) = d_msgs e" "d_files (err_ev E n msg e) = d_files e"
  by (simp_all add: err_ev_def emit_def split: option.splits)

lemma group_file_err_frame [simp]:
    "e_me (group_file_err E n g msg e) = e_me e" "e_secret (group_file_err E n g msg e) = e_secret e"
    "e_blobs (group_file_err E n g msg e) = e_blobs e" "e_token (group_file_err E n g msg e) = e_token e"
    "e_peers (group_file_err E n g msg e) = e_peers e" "e_groups (group_file_err E n g msg e) = e_groups e"
    "e_links (group_file_err E n g msg e) = e_links e" "e_gone (group_file_err E n g msg e) = e_gone e"
    "e_gap_sent (group_file_err E n g msg e) = e_gap_sent e" "e_rx_files (group_file_err E n g msg e) = e_rx_files e"
    "e_closed (group_file_err E n g msg e) = e_closed e" "e_out (group_file_err E n g msg e) = e_out e"
    "e_io (group_file_err E n g msg e) = e_io e" "e_rm (group_file_err E n g msg e) = e_rm e"
    "e_now (group_file_err E n g msg e) = e_now e" "d_peers (group_file_err E n g msg e) = d_peers e"
    "d_groups (group_file_err E n g msg e) = d_groups e" "d_logs (group_file_err E n g msg e) = d_logs e"
    "d_msgs (group_file_err E n g msg e) = d_msgs e" "d_files (group_file_err E n g msg e) = d_files e"
  by (simp_all add: group_file_err_def emit_def split: option.splits)

lemma typing_gate_frame [simp]:
    "e_me (typing_gate k n on e) = e_me e" "e_secret (typing_gate k n on e) = e_secret e"
    "e_blobs (typing_gate k n on e) = e_blobs e" "e_token (typing_gate k n on e) = e_token e"
    "e_peers (typing_gate k n on e) = e_peers e" "e_groups (typing_gate k n on e) = e_groups e"
    "e_links (typing_gate k n on e) = e_links e" "e_gone (typing_gate k n on e) = e_gone e"
    "e_gap_sent (typing_gate k n on e) = e_gap_sent e" "e_rx_files (typing_gate k n on e) = e_rx_files e"
    "e_closed (typing_gate k n on e) = e_closed e" "e_out (typing_gate k n on e) = e_out e" "e_io (typing_gate k n on e) = e_io e"
    "e_rm (typing_gate k n on e) = e_rm e" "e_now (typing_gate k n on e) = e_now e" "d_peers (typing_gate k n on e) = d_peers e"
    "d_groups (typing_gate k n on e) = d_groups e" "d_logs (typing_gate k n on e) = d_logs e"
    "d_msgs (typing_gate k n on e) = d_msgs e" "d_files (typing_gate k n on e) = d_files e"
  by (simp_all add: typing_gate_def emit_def split: option.splits)

lemma sync_introduced_frame [simp]:
    "e_me (sync_introduced E e) = e_me e" "e_secret (sync_introduced E e) = e_secret e" "e_blobs (sync_introduced E e) = e_blobs e"
    "e_token (sync_introduced E e) = e_token e" "e_groups (sync_introduced E e) = e_groups e"
    "e_links (sync_introduced E e) = e_links e" "e_gone (sync_introduced E e) = e_gone e"
    "e_gap_sent (sync_introduced E e) = e_gap_sent e" "e_rx_files (sync_introduced E e) = e_rx_files e"
    "e_closed (sync_introduced E e) = e_closed e" "e_out (sync_introduced E e) = e_out e" "e_io (sync_introduced E e) = e_io e"
    "e_rm (sync_introduced E e) = e_rm e" "e_now (sync_introduced E e) = e_now e" "d_peers (sync_introduced E e) = d_peers e"
    "d_groups (sync_introduced E e) = d_groups e" "d_logs (sync_introduced E e) = d_logs e"
    "d_msgs (sync_introduced E e) = d_msgs e" "d_files (sync_introduced E e) = d_files e"
  by (simp_all add: sync_introduced_def emit_def split: option.splits)

lemma set_connecting_frame [simp]:
    "e_me (set_connecting n v e) = e_me e" "e_secret (set_connecting n v e) = e_secret e"
    "e_blobs (set_connecting n v e) = e_blobs e" "e_token (set_connecting n v e) = e_token e"
    "e_groups (set_connecting n v e) = e_groups e" "e_links (set_connecting n v e) = e_links e"
    "e_gone (set_connecting n v e) = e_gone e" "e_gap_sent (set_connecting n v e) = e_gap_sent e"
    "e_rx_files (set_connecting n v e) = e_rx_files e" "e_closed (set_connecting n v e) = e_closed e"
    "e_out (set_connecting n v e) = e_out e" "e_io (set_connecting n v e) = e_io e" "e_rm (set_connecting n v e) = e_rm e"
    "e_now (set_connecting n v e) = e_now e" "d_peers (set_connecting n v e) = d_peers e"
    "d_groups (set_connecting n v e) = d_groups e" "d_logs (set_connecting n v e) = d_logs e"
    "d_msgs (set_connecting n v e) = d_msgs e" "d_files (set_connecting n v e) = d_files e"
  by (simp_all add: set_connecting_def emit_def split: option.splits)

lemma upd_member_frame [simp]:
    "e_me (upd_member i mem m e) = e_me e" "e_secret (upd_member i mem m e) = e_secret e"
    "e_blobs (upd_member i mem m e) = e_blobs e" "e_token (upd_member i mem m e) = e_token e"
    "e_peers (upd_member i mem m e) = e_peers e" "e_groups (upd_member i mem m e) = e_groups e"
    "e_links (upd_member i mem m e) = e_links e" "e_gone (upd_member i mem m e) = e_gone e"
    "e_gap_sent (upd_member i mem m e) = e_gap_sent e" "e_rx_files (upd_member i mem m e) = e_rx_files e"
    "e_closed (upd_member i mem m e) = e_closed e" "e_out (upd_member i mem m e) = e_out e" "e_io (upd_member i mem m e) = e_io e"
    "e_rm (upd_member i mem m e) = e_rm e" "e_now (upd_member i mem m e) = e_now e" "d_peers (upd_member i mem m e) = d_peers e"
    "d_groups (upd_member i mem m e) = d_groups e" "d_logs (upd_member i mem m e) = d_logs e"
    "d_msgs (upd_member i mem m e) = d_msgs e" "d_files (upd_member i mem m e) = d_files e"
  by (simp_all add: upd_member_def emit_def split: option.splits)

lemma emit_group_file_frame [simp]:
    "e_me (emit_group_file g i mem st got sz e) = e_me e" "e_secret (emit_group_file g i mem st got sz e) = e_secret e"
    "e_blobs (emit_group_file g i mem st got sz e) = e_blobs e" "e_token (emit_group_file g i mem st got sz e) = e_token e"
    "e_peers (emit_group_file g i mem st got sz e) = e_peers e" "e_groups (emit_group_file g i mem st got sz e) = e_groups e"
    "e_links (emit_group_file g i mem st got sz e) = e_links e" "e_gone (emit_group_file g i mem st got sz e) = e_gone e"
    "e_gap_sent (emit_group_file g i mem st got sz e) = e_gap_sent e"
    "e_rx_files (emit_group_file g i mem st got sz e) = e_rx_files e" "e_closed (emit_group_file g i mem st got sz e) = e_closed e"
    "e_out (emit_group_file g i mem st got sz e) = e_out e" "e_io (emit_group_file g i mem st got sz e) = e_io e"
    "e_rm (emit_group_file g i mem st got sz e) = e_rm e" "e_now (emit_group_file g i mem st got sz e) = e_now e"
    "d_peers (emit_group_file g i mem st got sz e) = d_peers e" "d_groups (emit_group_file g i mem st got sz e) = d_groups e"
    "d_logs (emit_group_file g i mem st got sz e) = d_logs e" "d_msgs (emit_group_file g i mem st got sz e) = d_msgs e"
    "d_files (emit_group_file g i mem st got sz e) = d_files e"
  by (simp_all add: emit_group_file_def emit_def split: option.splits)

subsection \<open>Operations\<close>

lemma add_peer_frame [simp]:
    "e_me (fst (add_peer E n name addrs e)) = e_me e" "e_secret (fst (add_peer E n name addrs e)) = e_secret e"
    "e_blobs (fst (add_peer E n name addrs e)) = e_blobs e" "e_token (fst (add_peer E n name addrs e)) = e_token e"
    "e_groups (fst (add_peer E n name addrs e)) = e_groups e" "e_links (fst (add_peer E n name addrs e)) = e_links e"
    "e_gone (fst (add_peer E n name addrs e)) = e_gone e" "e_gap_sent (fst (add_peer E n name addrs e)) = e_gap_sent e"
    "e_rx_files (fst (add_peer E n name addrs e)) = e_rx_files e" "e_closed (fst (add_peer E n name addrs e)) = e_closed e"
    "e_out (fst (add_peer E n name addrs e)) = e_out e" "e_rm (fst (add_peer E n name addrs e)) = e_rm e"
    "e_now (fst (add_peer E n name addrs e)) = e_now e" "d_groups (fst (add_peer E n name addrs e)) = d_groups e"
    "d_logs (fst (add_peer E n name addrs e)) = d_logs e" "d_msgs (fst (add_peer E n name addrs e)) = d_msgs e"
    "d_files (fst (add_peer E n name addrs e)) = d_files e"
  by (simp_all add: add_peer_def Let_def split_beta split: option.splits sum.splits prod.splits frame.splits hello.splits pair_outcome.splits route.splits token_check.splits evaluation.splits)

lemma register_live_frame [simp]:
    "e_me (register_live E n ch proto e) = e_me e" "e_secret (register_live E n ch proto e) = e_secret e"
    "e_blobs (register_live E n ch proto e) = e_blobs e" "e_token (register_live E n ch proto e) = e_token e"
    "e_groups (register_live E n ch proto e) = e_groups e" "e_links (register_live E n ch proto e) = e_links e"
    "e_gone (register_live E n ch proto e) = e_gone e" "e_gap_sent (register_live E n ch proto e) = e_gap_sent e"
    "e_rx_files (register_live E n ch proto e) = e_rx_files e" "e_closed (register_live E n ch proto e) = e_closed e"
    "e_out (register_live E n ch proto e) = e_out e" "e_rm (register_live E n ch proto e) = e_rm e"
    "e_now (register_live E n ch proto e) = e_now e" "d_groups (register_live E n ch proto e) = d_groups e"
    "d_logs (register_live E n ch proto e) = d_logs e" "d_msgs (register_live E n ch proto e) = d_msgs e"
    "d_files (register_live E n ch proto e) = d_files e"
  by (simp_all add: register_live_def Let_def split_beta split: option.splits sum.splits prod.splits frame.splits hello.splits pair_outcome.splits route.splits token_check.splits evaluation.splits)

lemma emit_presence_frame [simp]:
    "e_me (emit_presence E n on e) = e_me e" "e_secret (emit_presence E n on e) = e_secret e"
    "e_blobs (emit_presence E n on e) = e_blobs e" "e_token (emit_presence E n on e) = e_token e"
    "e_peers (emit_presence E n on e) = e_peers e" "e_groups (emit_presence E n on e) = e_groups e"
    "e_links (emit_presence E n on e) = e_links e" "e_gone (emit_presence E n on e) = e_gone e"
    "e_gap_sent (emit_presence E n on e) = e_gap_sent e" "e_rx_files (emit_presence E n on e) = e_rx_files e"
    "e_closed (emit_presence E n on e) = e_closed e" "e_out (emit_presence E n on e) = e_out e"
    "e_io (emit_presence E n on e) = e_io e" "e_rm (emit_presence E n on e) = e_rm e" "e_now (emit_presence E n on e) = e_now e"
    "d_peers (emit_presence E n on e) = d_peers e" "d_groups (emit_presence E n on e) = d_groups e"
    "d_logs (emit_presence E n on e) = d_logs e" "d_msgs (emit_presence E n on e) = d_msgs e"
    "d_files (emit_presence E n on e) = d_files e"
  by (simp_all add: emit_presence_def Let_def split_beta split: option.splits sum.splits prod.splits frame.splits hello.splits pair_outcome.splits route.splits token_check.splits evaluation.splits)

lemma drop_group_inbound_frame [simp]:
    "e_me (drop_group_inbound pred e) = e_me e" "e_secret (drop_group_inbound pred e) = e_secret e"
    "e_blobs (drop_group_inbound pred e) = e_blobs e" "e_token (drop_group_inbound pred e) = e_token e"
    "e_peers (drop_group_inbound pred e) = e_peers e" "e_groups (drop_group_inbound pred e) = e_groups e"
    "e_links (drop_group_inbound pred e) = e_links e" "e_gone (drop_group_inbound pred e) = e_gone e"
    "e_gap_sent (drop_group_inbound pred e) = e_gap_sent e" "e_closed (drop_group_inbound pred e) = e_closed e"
    "e_out (drop_group_inbound pred e) = e_out e" "e_io (drop_group_inbound pred e) = e_io e"
    "e_now (drop_group_inbound pred e) = e_now e" "d_peers (drop_group_inbound pred e) = d_peers e"
    "d_groups (drop_group_inbound pred e) = d_groups e" "d_logs (drop_group_inbound pred e) = d_logs e"
    "d_msgs (drop_group_inbound pred e) = d_msgs e"
  by (simp_all add: drop_group_inbound_def Let_def split_beta split: option.splits sum.splits prod.splits frame.splits hello.splits pair_outcome.splits route.splits token_check.splits evaluation.splits)

lemma remove_live_frame [simp]:
    "e_me (remove_live E n hid e) = e_me e" "e_secret (remove_live E n hid e) = e_secret e"
    "e_blobs (remove_live E n hid e) = e_blobs e" "e_token (remove_live E n hid e) = e_token e"
    "e_groups (remove_live E n hid e) = e_groups e" "e_gone (remove_live E n hid e) = e_gone e"
    "e_closed (remove_live E n hid e) = e_closed e" "e_out (remove_live E n hid e) = e_out e"
    "e_io (remove_live E n hid e) = e_io e" "e_now (remove_live E n hid e) = e_now e" "d_peers (remove_live E n hid e) = d_peers e"
    "d_groups (remove_live E n hid e) = d_groups e" "d_logs (remove_live E n hid e) = d_logs e"
    "d_msgs (remove_live E n hid e) = d_msgs e"
  by (simp_all add: remove_live_def Let_def split_beta split: option.splits sum.splits prod.splits frame.splits hello.splits pair_outcome.splits route.splits token_check.splits evaluation.splits)

lemma trigger_connect_frame [simp]:
    "e_me (trigger_connect n e) = e_me e" "e_secret (trigger_connect n e) = e_secret e" "e_blobs (trigger_connect n e) = e_blobs e"
    "e_token (trigger_connect n e) = e_token e" "e_groups (trigger_connect n e) = e_groups e"
    "e_links (trigger_connect n e) = e_links e" "e_gone (trigger_connect n e) = e_gone e"
    "e_gap_sent (trigger_connect n e) = e_gap_sent e" "e_rx_files (trigger_connect n e) = e_rx_files e"
    "e_closed (trigger_connect n e) = e_closed e" "e_out (trigger_connect n e) = e_out e" "e_io (trigger_connect n e) = e_io e"
    "e_rm (trigger_connect n e) = e_rm e" "e_now (trigger_connect n e) = e_now e" "d_peers (trigger_connect n e) = d_peers e"
    "d_groups (trigger_connect n e) = d_groups e" "d_logs (trigger_connect n e) = d_logs e"
    "d_msgs (trigger_connect n e) = d_msgs e" "d_files (trigger_connect n e) = d_files e"
  by (simp_all add: trigger_connect_def Let_def split_beta split: option.splits sum.splits prod.splits frame.splits hello.splits pair_outcome.splits route.splits token_check.splits evaluation.splits)

lemma maintenance_tick_frame [simp]:
    "e_me (maintenance_tick e) = e_me e" "e_secret (maintenance_tick e) = e_secret e" "e_blobs (maintenance_tick e) = e_blobs e"
    "e_token (maintenance_tick e) = e_token e" "e_groups (maintenance_tick e) = e_groups e"
    "e_links (maintenance_tick e) = e_links e" "e_gone (maintenance_tick e) = e_gone e"
    "e_gap_sent (maintenance_tick e) = e_gap_sent e" "e_rx_files (maintenance_tick e) = e_rx_files e"
    "e_closed (maintenance_tick e) = e_closed e" "e_out (maintenance_tick e) = e_out e" "e_io (maintenance_tick e) = e_io e"
    "e_rm (maintenance_tick e) = e_rm e" "e_now (maintenance_tick e) = e_now e" "d_peers (maintenance_tick e) = d_peers e"
    "d_groups (maintenance_tick e) = d_groups e" "d_logs (maintenance_tick e) = d_logs e" "d_msgs (maintenance_tick e) = d_msgs e"
    "d_files (maintenance_tick e) = d_files e"
  by (simp_all add: maintenance_tick_def Let_def split_beta split: option.splits sum.splits prod.splits frame.splits hello.splits pair_outcome.splits route.splits token_check.splits evaluation.splits)

lemma trigger_group_dials_frame [simp]:
    "e_me (trigger_group_dials E e) = e_me e" "e_secret (trigger_group_dials E e) = e_secret e"
    "e_blobs (trigger_group_dials E e) = e_blobs e" "e_token (trigger_group_dials E e) = e_token e"
    "e_groups (trigger_group_dials E e) = e_groups e" "e_links (trigger_group_dials E e) = e_links e"
    "e_gone (trigger_group_dials E e) = e_gone e" "e_gap_sent (trigger_group_dials E e) = e_gap_sent e"
    "e_rx_files (trigger_group_dials E e) = e_rx_files e" "e_closed (trigger_group_dials E e) = e_closed e"
    "e_out (trigger_group_dials E e) = e_out e" "e_io (trigger_group_dials E e) = e_io e" "e_rm (trigger_group_dials E e) = e_rm e"
    "e_now (trigger_group_dials E e) = e_now e" "d_peers (trigger_group_dials E e) = d_peers e"
    "d_groups (trigger_group_dials E e) = d_groups e" "d_logs (trigger_group_dials E e) = d_logs e"
    "d_msgs (trigger_group_dials E e) = d_msgs e" "d_files (trigger_group_dials E e) = d_files e"
  by (simp_all add: trigger_group_dials_def Let_def split_beta split: option.splits sum.splits prod.splits frame.splits hello.splits pair_outcome.splits route.splits token_check.splits evaluation.splits)

lemma flush_queue_frame [simp]:
    "e_me (flush_queue E n ch e) = e_me e" "e_secret (flush_queue E n ch e) = e_secret e"
    "e_blobs (flush_queue E n ch e) = e_blobs e" "e_token (flush_queue E n ch e) = e_token e"
    "e_groups (flush_queue E n ch e) = e_groups e" "e_links (flush_queue E n ch e) = e_links e"
    "e_gone (flush_queue E n ch e) = e_gone e" "e_gap_sent (flush_queue E n ch e) = e_gap_sent e"
    "e_rx_files (flush_queue E n ch e) = e_rx_files e" "e_closed (flush_queue E n ch e) = e_closed e"
    "e_rm (flush_queue E n ch e) = e_rm e" "e_now (flush_queue E n ch e) = e_now e" "d_peers (flush_queue E n ch e) = d_peers e"
    "d_groups (flush_queue E n ch e) = d_groups e" "d_logs (flush_queue E n ch e) = d_logs e"
    "d_files (flush_queue E n ch e) = d_files e"
  by (simp_all add: flush_queue_def Let_def split_beta split: option.splits sum.splits prod.splits frame.splits hello.splits pair_outcome.splits route.splits token_check.splits evaluation.splits)

lemma store_in_frame [simp]:
    "e_me (store_in n row e) = e_me e" "e_secret (store_in n row e) = e_secret e" "e_blobs (store_in n row e) = e_blobs e"
    "e_token (store_in n row e) = e_token e" "e_groups (store_in n row e) = e_groups e" "e_links (store_in n row e) = e_links e"
    "e_gone (store_in n row e) = e_gone e" "e_gap_sent (store_in n row e) = e_gap_sent e"
    "e_rx_files (store_in n row e) = e_rx_files e" "e_closed (store_in n row e) = e_closed e" "e_out (store_in n row e) = e_out e"
    "e_rm (store_in n row e) = e_rm e" "e_now (store_in n row e) = e_now e" "d_peers (store_in n row e) = d_peers e"
    "d_groups (store_in n row e) = d_groups e" "d_logs (store_in n row e) = d_logs e" "d_files (store_in n row e) = d_files e"
  by (simp_all add: store_in_def Let_def split_beta split: option.splits sum.splits prod.splits frame.splits hello.splits pair_outcome.splits route.splits token_check.splits evaluation.splits)

lemma on_ack_frame [simp]:
    "e_me (on_ack E n i e) = e_me e" "e_secret (on_ack E n i e) = e_secret e" "e_blobs (on_ack E n i e) = e_blobs e"
    "e_token (on_ack E n i e) = e_token e" "e_groups (on_ack E n i e) = e_groups e" "e_links (on_ack E n i e) = e_links e"
    "e_gone (on_ack E n i e) = e_gone e" "e_gap_sent (on_ack E n i e) = e_gap_sent e" "e_rx_files (on_ack E n i e) = e_rx_files e"
    "e_closed (on_ack E n i e) = e_closed e" "e_out (on_ack E n i e) = e_out e" "e_rm (on_ack E n i e) = e_rm e"
    "e_now (on_ack E n i e) = e_now e" "d_peers (on_ack E n i e) = d_peers e" "d_groups (on_ack E n i e) = d_groups e"
    "d_logs (on_ack E n i e) = d_logs e" "d_files (on_ack E n i e) = d_files e"
  by (simp_all add: on_ack_def Let_def split_beta split: option.splits sum.splits prod.splits frame.splits hello.splits pair_outcome.splits route.splits token_check.splits evaluation.splits)

lemma msg_accept_frame [simp]:
    "e_me (msg_accept E n ch i ts txt rt rx e) = e_me e" "e_secret (msg_accept E n ch i ts txt rt rx e) = e_secret e"
    "e_blobs (msg_accept E n ch i ts txt rt rx e) = e_blobs e" "e_token (msg_accept E n ch i ts txt rt rx e) = e_token e"
    "e_groups (msg_accept E n ch i ts txt rt rx e) = e_groups e" "e_links (msg_accept E n ch i ts txt rt rx e) = e_links e"
    "e_gone (msg_accept E n ch i ts txt rt rx e) = e_gone e" "e_gap_sent (msg_accept E n ch i ts txt rt rx e) = e_gap_sent e"
    "e_rx_files (msg_accept E n ch i ts txt rt rx e) = e_rx_files e" "e_closed (msg_accept E n ch i ts txt rt rx e) = e_closed e"
    "e_rm (msg_accept E n ch i ts txt rt rx e) = e_rm e" "e_now (msg_accept E n ch i ts txt rt rx e) = e_now e"
    "d_peers (msg_accept E n ch i ts txt rt rx e) = d_peers e" "d_groups (msg_accept E n ch i ts txt rt rx e) = d_groups e"
    "d_logs (msg_accept E n ch i ts txt rt rx e) = d_logs e" "d_files (msg_accept E n ch i ts txt rt rx e) = d_files e"
  by (simp_all add: msg_accept_def Let_def split_beta split: option.splits sum.splits prod.splits frame.splits hello.splits pair_outcome.splits route.splits token_check.splits evaluation.splits)

lemma on_msg_frame [simp]:
    "e_me (on_msg E n ch i ts txt rt rx e) = e_me e" "e_secret (on_msg E n ch i ts txt rt rx e) = e_secret e"
    "e_blobs (on_msg E n ch i ts txt rt rx e) = e_blobs e" "e_token (on_msg E n ch i ts txt rt rx e) = e_token e"
    "e_groups (on_msg E n ch i ts txt rt rx e) = e_groups e" "e_links (on_msg E n ch i ts txt rt rx e) = e_links e"
    "e_gone (on_msg E n ch i ts txt rt rx e) = e_gone e" "e_gap_sent (on_msg E n ch i ts txt rt rx e) = e_gap_sent e"
    "e_rx_files (on_msg E n ch i ts txt rt rx e) = e_rx_files e" "e_closed (on_msg E n ch i ts txt rt rx e) = e_closed e"
    "e_rm (on_msg E n ch i ts txt rt rx e) = e_rm e" "e_now (on_msg E n ch i ts txt rt rx e) = e_now e"
    "d_peers (on_msg E n ch i ts txt rt rx e) = d_peers e" "d_groups (on_msg E n ch i ts txt rt rx e) = d_groups e"
    "d_logs (on_msg E n ch i ts txt rt rx e) = d_logs e" "d_files (on_msg E n ch i ts txt rt rx e) = d_files e"
  by (simp_all add: on_msg_def Let_def split_beta split: option.splits sum.splits prod.splits frame.splits hello.splits pair_outcome.splits route.splits token_check.splits evaluation.splits)

lemma on_typing_frame [simp]:
    "e_me (on_typing E n on ch e) = e_me e" "e_secret (on_typing E n on ch e) = e_secret e"
    "e_blobs (on_typing E n on ch e) = e_blobs e" "e_token (on_typing E n on ch e) = e_token e"
    "e_peers (on_typing E n on ch e) = e_peers e" "e_groups (on_typing E n on ch e) = e_groups e"
    "e_links (on_typing E n on ch e) = e_links e" "e_gone (on_typing E n on ch e) = e_gone e"
    "e_gap_sent (on_typing E n on ch e) = e_gap_sent e" "e_rx_files (on_typing E n on ch e) = e_rx_files e"
    "e_closed (on_typing E n on ch e) = e_closed e" "e_out (on_typing E n on ch e) = e_out e"
    "e_io (on_typing E n on ch e) = e_io e" "e_rm (on_typing E n on ch e) = e_rm e" "e_now (on_typing E n on ch e) = e_now e"
    "d_peers (on_typing E n on ch e) = d_peers e" "d_groups (on_typing E n on ch e) = d_groups e"
    "d_logs (on_typing E n on ch e) = d_logs e" "d_msgs (on_typing E n on ch e) = d_msgs e"
    "d_files (on_typing E n on ch e) = d_files e"
  by (simp_all add: on_typing_def Let_def split_beta split: option.splits sum.splits prod.splits frame.splits hello.splits pair_outcome.splits route.splits token_check.splits evaluation.splits)

lemma groups_changed_frame [simp]:
    "e_me (groups_changed E e) = e_me e" "e_secret (groups_changed E e) = e_secret e" "e_blobs (groups_changed E e) = e_blobs e"
    "e_token (groups_changed E e) = e_token e" "e_groups (groups_changed E e) = e_groups e"
    "e_links (groups_changed E e) = e_links e" "e_gone (groups_changed E e) = e_gone e"
    "e_gap_sent (groups_changed E e) = e_gap_sent e" "e_rx_files (groups_changed E e) = e_rx_files e"
    "e_closed (groups_changed E e) = e_closed e" "e_out (groups_changed E e) = e_out e" "e_rm (groups_changed E e) = e_rm e"
    "e_now (groups_changed E e) = e_now e" "d_peers (groups_changed E e) = d_peers e" "d_logs (groups_changed E e) = d_logs e"
    "d_msgs (groups_changed E e) = d_msgs e" "d_files (groups_changed E e) = d_files e"
  by (simp_all add: groups_changed_def Let_def split_beta split: option.splits sum.splits prod.splits frame.splits hello.splits pair_outcome.splits route.splits token_check.splits evaluation.splits)

lemma log_sys_frame [simp]:
    "e_me (log_sys E g epoch i lines e) = e_me e" "e_secret (log_sys E g epoch i lines e) = e_secret e"
    "e_blobs (log_sys E g epoch i lines e) = e_blobs e" "e_token (log_sys E g epoch i lines e) = e_token e"
    "e_peers (log_sys E g epoch i lines e) = e_peers e" "e_groups (log_sys E g epoch i lines e) = e_groups e"
    "e_links (log_sys E g epoch i lines e) = e_links e" "e_gone (log_sys E g epoch i lines e) = e_gone e"
    "e_gap_sent (log_sys E g epoch i lines e) = e_gap_sent e" "e_rx_files (log_sys E g epoch i lines e) = e_rx_files e"
    "e_closed (log_sys E g epoch i lines e) = e_closed e" "e_out (log_sys E g epoch i lines e) = e_out e"
    "e_rm (log_sys E g epoch i lines e) = e_rm e" "e_now (log_sys E g epoch i lines e) = e_now e"
    "d_peers (log_sys E g epoch i lines e) = d_peers e" "d_groups (log_sys E g epoch i lines e) = d_groups e"
    "d_msgs (log_sys E g epoch i lines e) = d_msgs e" "d_files (log_sys E g epoch i lines e) = d_files e"
  by (induction E g epoch i lines e rule: log_sys.induct) (simp_all add: Let_def)

lemma announce_one_frame [simp]:
    "e_me (announce_one E rec n e) = e_me e" "e_secret (announce_one E rec n e) = e_secret e"
    "e_blobs (announce_one E rec n e) = e_blobs e" "e_token (announce_one E rec n e) = e_token e"
    "e_peers (announce_one E rec n e) = e_peers e" "e_groups (announce_one E rec n e) = e_groups e"
    "e_links (announce_one E rec n e) = e_links e" "e_gone (announce_one E rec n e) = e_gone e"
    "e_gap_sent (announce_one E rec n e) = e_gap_sent e" "e_rx_files (announce_one E rec n e) = e_rx_files e"
    "e_closed (announce_one E rec n e) = e_closed e" "e_io (announce_one E rec n e) = e_io e"
    "e_rm (announce_one E rec n e) = e_rm e" "e_now (announce_one E rec n e) = e_now e"
    "d_peers (announce_one E rec n e) = d_peers e" "d_groups (announce_one E rec n e) = d_groups e"
    "d_logs (announce_one E rec n e) = d_logs e" "d_msgs (announce_one E rec n e) = d_msgs e"
    "d_files (announce_one E rec n e) = d_files e"
  by (simp_all add: announce_one_def Let_def split_beta split: option.splits sum.splits prod.splits frame.splits hello.splits pair_outcome.splits route.splits token_check.splits evaluation.splits)

lemma announce_state_frame [simp]:
    "e_me (announce_state E g extra e) = e_me e" "e_secret (announce_state E g extra e) = e_secret e"
    "e_blobs (announce_state E g extra e) = e_blobs e" "e_token (announce_state E g extra e) = e_token e"
    "e_peers (announce_state E g extra e) = e_peers e" "e_groups (announce_state E g extra e) = e_groups e"
    "e_links (announce_state E g extra e) = e_links e" "e_gone (announce_state E g extra e) = e_gone e"
    "e_gap_sent (announce_state E g extra e) = e_gap_sent e" "e_rx_files (announce_state E g extra e) = e_rx_files e"
    "e_closed (announce_state E g extra e) = e_closed e" "e_io (announce_state E g extra e) = e_io e"
    "e_rm (announce_state E g extra e) = e_rm e" "e_now (announce_state E g extra e) = e_now e"
    "d_peers (announce_state E g extra e) = d_peers e" "d_groups (announce_state E g extra e) = d_groups e"
    "d_logs (announce_state E g extra e) = d_logs e" "d_msgs (announce_state E g extra e) = d_msgs e"
    "d_files (announce_state E g extra e) = d_files e"
  by (simp_all add: announce_state_def Let_def split_beta split: option.splits sum.splits prod.splits frame.splits hello.splits pair_outcome.splits route.splits token_check.splits evaluation.splits)

lemma pump_frame [simp]:
    "e_me (pump E g n hint e) = e_me e" "e_secret (pump E g n hint e) = e_secret e" "e_blobs (pump E g n hint e) = e_blobs e"
    "e_token (pump E g n hint e) = e_token e" "e_peers (pump E g n hint e) = e_peers e" "e_groups (pump E g n hint e) = e_groups e"
    "e_gone (pump E g n hint e) = e_gone e" "e_gap_sent (pump E g n hint e) = e_gap_sent e"
    "e_rx_files (pump E g n hint e) = e_rx_files e" "e_closed (pump E g n hint e) = e_closed e" "e_io (pump E g n hint e) = e_io e"
    "e_rm (pump E g n hint e) = e_rm e" "e_now (pump E g n hint e) = e_now e" "d_peers (pump E g n hint e) = d_peers e"
    "d_groups (pump E g n hint e) = d_groups e" "d_logs (pump E g n hint e) = d_logs e" "d_msgs (pump E g n hint e) = d_msgs e"
    "d_files (pump E g n hint e) = d_files e"
  by (simp_all add: pump_def Let_def split_beta split: option.splits sum.splits prod.splits frame.splits hello.splits pair_outcome.splits route.splits token_check.splits evaluation.splits)

lemma send_sync_frame [simp]:
    "e_me (send_sync E rec n e) = e_me e" "e_secret (send_sync E rec n e) = e_secret e" "e_blobs (send_sync E rec n e) = e_blobs e"
    "e_token (send_sync E rec n e) = e_token e" "e_peers (send_sync E rec n e) = e_peers e"
    "e_groups (send_sync E rec n e) = e_groups e" "e_links (send_sync E rec n e) = e_links e"
    "e_gone (send_sync E rec n e) = e_gone e" "e_gap_sent (send_sync E rec n e) = e_gap_sent e"
    "e_rx_files (send_sync E rec n e) = e_rx_files e" "e_closed (send_sync E rec n e) = e_closed e"
    "e_io (send_sync E rec n e) = e_io e" "e_rm (send_sync E rec n e) = e_rm e" "e_now (send_sync E rec n e) = e_now e"
    "d_peers (send_sync E rec n e) = d_peers e" "d_groups (send_sync E rec n e) = d_groups e"
    "d_logs (send_sync E rec n e) = d_logs e" "d_msgs (send_sync E rec n e) = d_msgs e" "d_files (send_sync E rec n e) = d_files e"
  by (simp_all add: send_sync_def Let_def split_beta split: option.splits sum.splits prod.splits frame.splits hello.splits pair_outcome.splits route.splits token_check.splits evaluation.splits)

lemma after_state_applied_frame [simp]:
    "e_me (after_state_applied E g e) = e_me e" "e_secret (after_state_applied E g e) = e_secret e"
    "e_blobs (after_state_applied E g e) = e_blobs e" "e_token (after_state_applied E g e) = e_token e"
    "e_peers (after_state_applied E g e) = e_peers e" "e_groups (after_state_applied E g e) = e_groups e"
    "e_gap_sent (after_state_applied E g e) = e_gap_sent e" "e_rx_files (after_state_applied E g e) = e_rx_files e"
    "e_closed (after_state_applied E g e) = e_closed e" "e_io (after_state_applied E g e) = e_io e"
    "e_rm (after_state_applied E g e) = e_rm e" "e_now (after_state_applied E g e) = e_now e"
    "d_peers (after_state_applied E g e) = d_peers e" "d_groups (after_state_applied E g e) = d_groups e"
    "d_logs (after_state_applied E g e) = d_logs e" "d_msgs (after_state_applied E g e) = d_msgs e"
    "d_files (after_state_applied E g e) = d_files e"
  by (simp_all add: after_state_applied_def Let_def split_beta split: option.splits sum.splits prod.splits frame.splits hello.splits pair_outcome.splits route.splits token_check.splits evaluation.splits)

lemma delete_group_blobs_frame [simp]:
    "e_me (delete_group_blobs g e) = e_me e" "e_secret (delete_group_blobs g e) = e_secret e"
    "e_blobs (delete_group_blobs g e) = e_blobs e" "e_token (delete_group_blobs g e) = e_token e"
    "e_peers (delete_group_blobs g e) = e_peers e" "e_groups (delete_group_blobs g e) = e_groups e"
    "e_links (delete_group_blobs g e) = e_links e" "e_gone (delete_group_blobs g e) = e_gone e"
    "e_gap_sent (delete_group_blobs g e) = e_gap_sent e" "e_closed (delete_group_blobs g e) = e_closed e"
    "e_out (delete_group_blobs g e) = e_out e" "e_io (delete_group_blobs g e) = e_io e" "e_now (delete_group_blobs g e) = e_now e"
    "d_peers (delete_group_blobs g e) = d_peers e" "d_groups (delete_group_blobs g e) = d_groups e"
    "d_logs (delete_group_blobs g e) = d_logs e" "d_msgs (delete_group_blobs g e) = d_msgs e"
  by (simp_all add: delete_group_blobs_def Let_def split_beta split: option.splits sum.splits prod.splits frame.splits hello.splits pair_outcome.splits route.splits token_check.splits evaluation.splits)

lemma purge_group_frame [simp]:
    "e_me (purge_group E g e) = e_me e" "e_secret (purge_group E g e) = e_secret e" "e_blobs (purge_group E g e) = e_blobs e"
    "e_token (purge_group E g e) = e_token e" "e_closed (purge_group E g e) = e_closed e" "e_out (purge_group E g e) = e_out e"
    "e_now (purge_group E g e) = e_now e" "d_peers (purge_group E g e) = d_peers e" "d_msgs (purge_group E g e) = d_msgs e"
  by (simp_all add: purge_group_def Let_def split_beta split: option.splits sum.splits prod.splits frame.splits hello.splits pair_outcome.splits route.splits token_check.splits evaluation.splits)

lemma open_group_frame [simp]:
    "e_me (open_group E n ch rec e) = e_me e" "e_secret (open_group E n ch rec e) = e_secret e"
    "e_blobs (open_group E n ch rec e) = e_blobs e" "e_token (open_group E n ch rec e) = e_token e"
    "e_peers (open_group E n ch rec e) = e_peers e" "e_groups (open_group E n ch rec e) = e_groups e"
    "e_links (open_group E n ch rec e) = e_links e" "e_gone (open_group E n ch rec e) = e_gone e"
    "e_gap_sent (open_group E n ch rec e) = e_gap_sent e" "e_rx_files (open_group E n ch rec e) = e_rx_files e"
    "e_closed (open_group E n ch rec e) = e_closed e" "e_io (open_group E n ch rec e) = e_io e"
    "e_rm (open_group E n ch rec e) = e_rm e" "e_now (open_group E n ch rec e) = e_now e"
    "d_peers (open_group E n ch rec e) = d_peers e" "d_groups (open_group E n ch rec e) = d_groups e"
    "d_logs (open_group E n ch rec e) = d_logs e" "d_msgs (open_group E n ch rec e) = d_msgs e"
    "d_files (open_group E n ch rec e) = d_files e"
  by (simp_all add: open_group_def Let_def split_beta split: option.splits sum.splits prod.splits frame.splits hello.splits pair_outcome.splits route.splits token_check.splits evaluation.splits)

lemma group_session_open_frame [simp]:
    "e_me (group_session_open E n ch e) = e_me e" "e_secret (group_session_open E n ch e) = e_secret e"
    "e_blobs (group_session_open E n ch e) = e_blobs e" "e_token (group_session_open E n ch e) = e_token e"
    "e_peers (group_session_open E n ch e) = e_peers e" "e_groups (group_session_open E n ch e) = e_groups e"
    "e_links (group_session_open E n ch e) = e_links e" "e_gone (group_session_open E n ch e) = e_gone e"
    "e_gap_sent (group_session_open E n ch e) = e_gap_sent e" "e_rx_files (group_session_open E n ch e) = e_rx_files e"
    "e_closed (group_session_open E n ch e) = e_closed e" "e_io (group_session_open E n ch e) = e_io e"
    "e_rm (group_session_open E n ch e) = e_rm e" "e_now (group_session_open E n ch e) = e_now e"
    "d_peers (group_session_open E n ch e) = d_peers e" "d_groups (group_session_open E n ch e) = d_groups e"
    "d_logs (group_session_open E n ch e) = d_logs e" "d_msgs (group_session_open E n ch e) = d_msgs e"
    "d_files (group_session_open E n ch e) = d_files e"
  by (simp_all add: group_session_open_def Let_def split_beta split: option.splits sum.splits prod.splits frame.splits hello.splits pair_outcome.splits route.splits token_check.splits evaluation.splits)

lemma group_file_set_frame [simp]:
    "e_me (group_file_set i mem st sent e) = e_me e" "e_secret (group_file_set i mem st sent e) = e_secret e"
    "e_blobs (group_file_set i mem st sent e) = e_blobs e" "e_token (group_file_set i mem st sent e) = e_token e"
    "e_peers (group_file_set i mem st sent e) = e_peers e" "e_groups (group_file_set i mem st sent e) = e_groups e"
    "e_links (group_file_set i mem st sent e) = e_links e" "e_gone (group_file_set i mem st sent e) = e_gone e"
    "e_gap_sent (group_file_set i mem st sent e) = e_gap_sent e" "e_rx_files (group_file_set i mem st sent e) = e_rx_files e"
    "e_closed (group_file_set i mem st sent e) = e_closed e" "e_out (group_file_set i mem st sent e) = e_out e"
    "e_io (group_file_set i mem st sent e) = e_io e" "e_rm (group_file_set i mem st sent e) = e_rm e"
    "e_now (group_file_set i mem st sent e) = e_now e" "d_peers (group_file_set i mem st sent e) = d_peers e"
    "d_groups (group_file_set i mem st sent e) = d_groups e" "d_logs (group_file_set i mem st sent e) = d_logs e"
    "d_msgs (group_file_set i mem st sent e) = d_msgs e" "d_files (group_file_set i mem st sent e) = d_files e"
  by (simp_all add: group_file_set_def Let_def split_beta split: option.splits sum.splits prod.splits frame.splits hello.splits pair_outcome.splits route.splits token_check.splits evaluation.splits)

lemma group_file_wrote_frame [simp]:
    "e_me (group_file_wrote E n i k e) = e_me e" "e_secret (group_file_wrote E n i k e) = e_secret e"
    "e_blobs (group_file_wrote E n i k e) = e_blobs e" "e_token (group_file_wrote E n i k e) = e_token e"
    "e_peers (group_file_wrote E n i k e) = e_peers e" "e_groups (group_file_wrote E n i k e) = e_groups e"
    "e_links (group_file_wrote E n i k e) = e_links e" "e_gone (group_file_wrote E n i k e) = e_gone e"
    "e_gap_sent (group_file_wrote E n i k e) = e_gap_sent e" "e_rx_files (group_file_wrote E n i k e) = e_rx_files e"
    "e_closed (group_file_wrote E n i k e) = e_closed e" "e_out (group_file_wrote E n i k e) = e_out e"
    "e_io (group_file_wrote E n i k e) = e_io e" "e_rm (group_file_wrote E n i k e) = e_rm e"
    "e_now (group_file_wrote E n i k e) = e_now e" "d_peers (group_file_wrote E n i k e) = d_peers e"
    "d_groups (group_file_wrote E n i k e) = d_groups e" "d_logs (group_file_wrote E n i k e) = d_logs e"
    "d_msgs (group_file_wrote E n i k e) = d_msgs e" "d_files (group_file_wrote E n i k e) = d_files e"
  by (simp_all add: group_file_wrote_def Let_def split_beta split: option.splits sum.splits prod.splits frame.splits hello.splits pair_outcome.splits route.splits token_check.splits evaluation.splits)

lemma group_file_done_frame [simp]:
    "e_me (group_file_done E n i e) = e_me e" "e_secret (group_file_done E n i e) = e_secret e"
    "e_blobs (group_file_done E n i e) = e_blobs e" "e_token (group_file_done E n i e) = e_token e"
    "e_peers (group_file_done E n i e) = e_peers e" "e_groups (group_file_done E n i e) = e_groups e"
    "e_links (group_file_done E n i e) = e_links e" "e_gone (group_file_done E n i e) = e_gone e"
    "e_gap_sent (group_file_done E n i e) = e_gap_sent e" "e_rx_files (group_file_done E n i e) = e_rx_files e"
    "e_closed (group_file_done E n i e) = e_closed e" "e_out (group_file_done E n i e) = e_out e"
    "e_io (group_file_done E n i e) = e_io e" "e_rm (group_file_done E n i e) = e_rm e" "e_now (group_file_done E n i e) = e_now e"
    "d_peers (group_file_done E n i e) = d_peers e" "d_groups (group_file_done E n i e) = d_groups e"
    "d_logs (group_file_done E n i e) = d_logs e" "d_msgs (group_file_done E n i e) = d_msgs e"
    "d_files (group_file_done E n i e) = d_files e"
  by (simp_all add: group_file_done_def Let_def split_beta split: option.splits sum.splits prod.splits frame.splits hello.splits pair_outcome.splits route.splits token_check.splits evaluation.splits)

lemma group_files_failed_frame [simp]:
    "e_me (group_files_failed E n hid e) = e_me e" "e_secret (group_files_failed E n hid e) = e_secret e"
    "e_blobs (group_files_failed E n hid e) = e_blobs e" "e_token (group_files_failed E n hid e) = e_token e"
    "e_peers (group_files_failed E n hid e) = e_peers e" "e_groups (group_files_failed E n hid e) = e_groups e"
    "e_links (group_files_failed E n hid e) = e_links e" "e_gone (group_files_failed E n hid e) = e_gone e"
    "e_gap_sent (group_files_failed E n hid e) = e_gap_sent e" "e_rx_files (group_files_failed E n hid e) = e_rx_files e"
    "e_closed (group_files_failed E n hid e) = e_closed e" "e_out (group_files_failed E n hid e) = e_out e"
    "e_io (group_files_failed E n hid e) = e_io e" "e_rm (group_files_failed E n hid e) = e_rm e"
    "e_now (group_files_failed E n hid e) = e_now e" "d_peers (group_files_failed E n hid e) = d_peers e"
    "d_groups (group_files_failed E n hid e) = d_groups e" "d_logs (group_files_failed E n hid e) = d_logs e"
    "d_msgs (group_files_failed E n hid e) = d_msgs e" "d_files (group_files_failed E n hid e) = d_files e"
  by (simp_all add: group_files_failed_def Let_def split_beta split: option.splits sum.splits prod.splits frame.splits hello.splits pair_outcome.splits route.splits token_check.splits evaluation.splits)

lemma stream_failed_frame [simp]:
    "e_me (stream_failed i key h e) = e_me e" "e_secret (stream_failed i key h e) = e_secret e"
    "e_blobs (stream_failed i key h e) = e_blobs e" "e_token (stream_failed i key h e) = e_token e"
    "e_peers (stream_failed i key h e) = e_peers e" "e_groups (stream_failed i key h e) = e_groups e"
    "e_links (stream_failed i key h e) = e_links e" "e_gone (stream_failed i key h e) = e_gone e"
    "e_gap_sent (stream_failed i key h e) = e_gap_sent e" "e_rx_files (stream_failed i key h e) = e_rx_files e"
    "e_closed (stream_failed i key h e) = e_closed e" "e_out (stream_failed i key h e) = e_out e"
    "e_io (stream_failed i key h e) = e_io e" "e_rm (stream_failed i key h e) = e_rm e" "e_now (stream_failed i key h e) = e_now e"
    "d_peers (stream_failed i key h e) = d_peers e" "d_groups (stream_failed i key h e) = d_groups e"
    "d_logs (stream_failed i key h e) = d_logs e" "d_msgs (stream_failed i key h e) = d_msgs e"
    "d_files (stream_failed i key h e) = d_files e"
  by (simp_all add: stream_failed_def Let_def split_beta split: option.splits sum.splits prod.splits frame.splits hello.splits pair_outcome.splits route.splits token_check.splits evaluation.splits)

lemma progress_after_frame [simp]:
    "e_me (progress_after E n f e) = e_me e" "e_secret (progress_after E n f e) = e_secret e"
    "e_blobs (progress_after E n f e) = e_blobs e" "e_token (progress_after E n f e) = e_token e"
    "e_peers (progress_after E n f e) = e_peers e" "e_groups (progress_after E n f e) = e_groups e"
    "e_links (progress_after E n f e) = e_links e" "e_gone (progress_after E n f e) = e_gone e"
    "e_gap_sent (progress_after E n f e) = e_gap_sent e" "e_rx_files (progress_after E n f e) = e_rx_files e"
    "e_closed (progress_after E n f e) = e_closed e" "e_out (progress_after E n f e) = e_out e"
    "e_io (progress_after E n f e) = e_io e" "e_rm (progress_after E n f e) = e_rm e" "e_now (progress_after E n f e) = e_now e"
    "d_peers (progress_after E n f e) = d_peers e" "d_groups (progress_after E n f e) = d_groups e"
    "d_logs (progress_after E n f e) = d_logs e" "d_msgs (progress_after E n f e) = d_msgs e"
    "d_files (progress_after E n f e) = d_files e"
  by (simp_all add: progress_after_def Let_def split_beta split: option.splits sum.splits prod.splits frame.splits hello.splits pair_outcome.splits route.splits token_check.splits evaluation.splits)

lemma pair_request_frame [simp]:
    "e_me (pair_request E n name req e) = e_me e" "e_secret (pair_request E n name req e) = e_secret e"
    "e_blobs (pair_request E n name req e) = e_blobs e" "e_token (pair_request E n name req e) = e_token e"
    "e_peers (pair_request E n name req e) = e_peers e" "e_groups (pair_request E n name req e) = e_groups e"
    "e_links (pair_request E n name req e) = e_links e" "e_gone (pair_request E n name req e) = e_gone e"
    "e_gap_sent (pair_request E n name req e) = e_gap_sent e" "e_rx_files (pair_request E n name req e) = e_rx_files e"
    "e_closed (pair_request E n name req e) = e_closed e" "e_out (pair_request E n name req e) = e_out e"
    "e_io (pair_request E n name req e) = e_io e" "e_rm (pair_request E n name req e) = e_rm e"
    "e_now (pair_request E n name req e) = e_now e" "d_peers (pair_request E n name req e) = d_peers e"
    "d_groups (pair_request E n name req e) = d_groups e" "d_logs (pair_request E n name req e) = d_logs e"
    "d_msgs (pair_request E n name req e) = d_msgs e" "d_files (pair_request E n name req e) = d_files e"
  by (simp_all add: pair_request_def Let_def split_beta split: option.splits sum.splits prod.splits frame.splits hello.splits pair_outcome.splits route.splits token_check.splits evaluation.splits)

lemma pair_welcomed_frame [simp]:
    "e_me (fst (pair_welcomed E n addrs hint proto ch nm e)) = e_me e"
    "e_secret (fst (pair_welcomed E n addrs hint proto ch nm e)) = e_secret e"
    "e_blobs (fst (pair_welcomed E n addrs hint proto ch nm e)) = e_blobs e"
    "e_token (fst (pair_welcomed E n addrs hint proto ch nm e)) = e_token e"
    "e_groups (fst (pair_welcomed E n addrs hint proto ch nm e)) = e_groups e"
    "e_links (fst (pair_welcomed E n addrs hint proto ch nm e)) = e_links e"
    "e_gone (fst (pair_welcomed E n addrs hint proto ch nm e)) = e_gone e"
    "e_gap_sent (fst (pair_welcomed E n addrs hint proto ch nm e)) = e_gap_sent e"
    "e_rx_files (fst (pair_welcomed E n addrs hint proto ch nm e)) = e_rx_files e"
    "e_closed (fst (pair_welcomed E n addrs hint proto ch nm e)) = e_closed e"
    "e_rm (fst (pair_welcomed E n addrs hint proto ch nm e)) = e_rm e"
    "e_now (fst (pair_welcomed E n addrs hint proto ch nm e)) = e_now e"
    "d_groups (fst (pair_welcomed E n addrs hint proto ch nm e)) = d_groups e"
    "d_logs (fst (pair_welcomed E n addrs hint proto ch nm e)) = d_logs e"
    "d_files (fst (pair_welcomed E n addrs hint proto ch nm e)) = d_files e"
  by (simp_all add: pair_welcomed_def Let_def split_beta split: option.splits sum.splits prod.splits frame.splits hello.splits pair_outcome.splits route.splits token_check.splits evaluation.splits)

lemma pair_connect_frame [simp]:
    "e_me (fst (pair_connect E n addrs hint out proto ch e)) = e_me e"
    "e_secret (fst (pair_connect E n addrs hint out proto ch e)) = e_secret e"
    "e_blobs (fst (pair_connect E n addrs hint out proto ch e)) = e_blobs e"
    "e_token (fst (pair_connect E n addrs hint out proto ch e)) = e_token e"
    "e_groups (fst (pair_connect E n addrs hint out proto ch e)) = e_groups e"
    "e_links (fst (pair_connect E n addrs hint out proto ch e)) = e_links e"
    "e_gone (fst (pair_connect E n addrs hint out proto ch e)) = e_gone e"
    "e_gap_sent (fst (pair_connect E n addrs hint out proto ch e)) = e_gap_sent e"
    "e_rx_files (fst (pair_connect E n addrs hint out proto ch e)) = e_rx_files e"
    "e_closed (fst (pair_connect E n addrs hint out proto ch e)) = e_closed e"
    "e_rm (fst (pair_connect E n addrs hint out proto ch e)) = e_rm e"
    "e_now (fst (pair_connect E n addrs hint out proto ch e)) = e_now e"
    "d_groups (fst (pair_connect E n addrs hint out proto ch e)) = d_groups e"
    "d_logs (fst (pair_connect E n addrs hint out proto ch e)) = d_logs e"
    "d_files (fst (pair_connect E n addrs hint out proto ch e)) = d_files e"
  by (simp_all add: pair_connect_def Let_def split_beta split: option.splits sum.splits prod.splits frame.splits hello.splits pair_outcome.splits route.splits token_check.splits evaluation.splits)

lemma pair_finish_frame [simp]:
    "e_me (fst (pair_finish E n nm addrs proto ch ok e)) = e_me e"
    "e_secret (fst (pair_finish E n nm addrs proto ch ok e)) = e_secret e"
    "e_blobs (fst (pair_finish E n nm addrs proto ch ok e)) = e_blobs e"
    "e_token (fst (pair_finish E n nm addrs proto ch ok e)) = e_token e"
    "e_groups (fst (pair_finish E n nm addrs proto ch ok e)) = e_groups e"
    "e_links (fst (pair_finish E n nm addrs proto ch ok e)) = e_links e"
    "e_gone (fst (pair_finish E n nm addrs proto ch ok e)) = e_gone e"
    "e_gap_sent (fst (pair_finish E n nm addrs proto ch ok e)) = e_gap_sent e"
    "e_rx_files (fst (pair_finish E n nm addrs proto ch ok e)) = e_rx_files e"
    "e_closed (fst (pair_finish E n nm addrs proto ch ok e)) = e_closed e"
    "e_rm (fst (pair_finish E n nm addrs proto ch ok e)) = e_rm e" "e_now (fst (pair_finish E n nm addrs proto ch ok e)) = e_now e"
    "d_groups (fst (pair_finish E n nm addrs proto ch ok e)) = d_groups e"
    "d_logs (fst (pair_finish E n nm addrs proto ch ok e)) = d_logs e"
    "d_files (fst (pair_finish E n nm addrs proto ch ok e)) = d_files e"
  by (simp_all add: pair_finish_def Let_def split_beta split: option.splits sum.splits prod.splits frame.splits hello.splits pair_outcome.splits route.splits token_check.splits evaluation.splits)

lemma handle_incoming_frame [simp]:
    "e_me (fst (handle_incoming E n proto ch op expected req ds ok e)) = e_me e"
    "e_secret (fst (handle_incoming E n proto ch op expected req ds ok e)) = e_secret e"
    "e_blobs (fst (handle_incoming E n proto ch op expected req ds ok e)) = e_blobs e"
    "e_token (fst (handle_incoming E n proto ch op expected req ds ok e)) = e_token e"
    "e_groups (fst (handle_incoming E n proto ch op expected req ds ok e)) = e_groups e"
    "e_links (fst (handle_incoming E n proto ch op expected req ds ok e)) = e_links e"
    "e_gone (fst (handle_incoming E n proto ch op expected req ds ok e)) = e_gone e"
    "e_gap_sent (fst (handle_incoming E n proto ch op expected req ds ok e)) = e_gap_sent e"
    "e_rx_files (fst (handle_incoming E n proto ch op expected req ds ok e)) = e_rx_files e"
    "e_closed (fst (handle_incoming E n proto ch op expected req ds ok e)) = e_closed e"
    "e_rm (fst (handle_incoming E n proto ch op expected req ds ok e)) = e_rm e"
    "e_now (fst (handle_incoming E n proto ch op expected req ds ok e)) = e_now e"
    "d_groups (fst (handle_incoming E n proto ch op expected req ds ok e)) = d_groups e"
    "d_logs (fst (handle_incoming E n proto ch op expected req ds ok e)) = d_logs e"
    "d_files (fst (handle_incoming E n proto ch op expected req ds ok e)) = d_files e"
  by (simp_all add: handle_incoming_def Let_def split_beta split: option.splits sum.splits prod.splits frame.splits hello.splits pair_outcome.splits route.splits token_check.splits evaluation.splits)

lemma approve_pair_frame [simp]:
    "e_me (fst (approve_pair E s b e)) = e_me e" "e_secret (fst (approve_pair E s b e)) = e_secret e"
    "e_blobs (fst (approve_pair E s b e)) = e_blobs e" "e_token (fst (approve_pair E s b e)) = e_token e"
    "e_peers (fst (approve_pair E s b e)) = e_peers e" "e_groups (fst (approve_pair E s b e)) = e_groups e"
    "e_links (fst (approve_pair E s b e)) = e_links e" "e_gone (fst (approve_pair E s b e)) = e_gone e"
    "e_gap_sent (fst (approve_pair E s b e)) = e_gap_sent e" "e_rx_files (fst (approve_pair E s b e)) = e_rx_files e"
    "e_closed (fst (approve_pair E s b e)) = e_closed e" "e_out (fst (approve_pair E s b e)) = e_out e"
    "e_io (fst (approve_pair E s b e)) = e_io e" "e_rm (fst (approve_pair E s b e)) = e_rm e"
    "e_now (fst (approve_pair E s b e)) = e_now e" "d_peers (fst (approve_pair E s b e)) = d_peers e"
    "d_groups (fst (approve_pair E s b e)) = d_groups e" "d_logs (fst (approve_pair E s b e)) = d_logs e"
    "d_msgs (fst (approve_pair E s b e)) = d_msgs e" "d_files (fst (approve_pair E s b e)) = d_files e"
  by (simp_all add: approve_pair_def Let_def split_beta split: option.splits sum.splits prod.splits frame.splits hello.splits pair_outcome.splits route.splits token_check.splits evaluation.splits)

lemma connect_and_serve_frame [simp]:
    "e_me (connect_and_serve E n out err e) = e_me e" "e_secret (connect_and_serve E n out err e) = e_secret e"
    "e_blobs (connect_and_serve E n out err e) = e_blobs e" "e_token (connect_and_serve E n out err e) = e_token e"
    "e_groups (connect_and_serve E n out err e) = e_groups e" "e_links (connect_and_serve E n out err e) = e_links e"
    "e_gone (connect_and_serve E n out err e) = e_gone e" "e_gap_sent (connect_and_serve E n out err e) = e_gap_sent e"
    "e_rx_files (connect_and_serve E n out err e) = e_rx_files e" "e_closed (connect_and_serve E n out err e) = e_closed e"
    "e_rm (connect_and_serve E n out err e) = e_rm e" "e_now (connect_and_serve E n out err e) = e_now e"
    "d_groups (connect_and_serve E n out err e) = d_groups e" "d_logs (connect_and_serve E n out err e) = d_logs e"
    "d_files (connect_and_serve E n out err e) = d_files e"
  by (simp_all add: connect_and_serve_def Let_def split_beta split: option.splits sum.splits prod.splits frame.splits hello.splits pair_outcome.splits route.splits token_check.splits evaluation.splits)

lemma hear_beacon_frame [simp]:
    "e_me (hear_beacon E s name addrs from e) = e_me e" "e_secret (hear_beacon E s name addrs from e) = e_secret e"
    "e_blobs (hear_beacon E s name addrs from e) = e_blobs e" "e_token (hear_beacon E s name addrs from e) = e_token e"
    "e_groups (hear_beacon E s name addrs from e) = e_groups e" "e_links (hear_beacon E s name addrs from e) = e_links e"
    "e_gone (hear_beacon E s name addrs from e) = e_gone e" "e_gap_sent (hear_beacon E s name addrs from e) = e_gap_sent e"
    "e_rx_files (hear_beacon E s name addrs from e) = e_rx_files e" "e_closed (hear_beacon E s name addrs from e) = e_closed e"
    "e_out (hear_beacon E s name addrs from e) = e_out e" "e_rm (hear_beacon E s name addrs from e) = e_rm e"
    "e_now (hear_beacon E s name addrs from e) = e_now e" "d_groups (hear_beacon E s name addrs from e) = d_groups e"
    "d_logs (hear_beacon E s name addrs from e) = d_logs e" "d_msgs (hear_beacon E s name addrs from e) = d_msgs e"
    "d_files (hear_beacon E s name addrs from e) = d_files e"
  by (simp_all add: hear_beacon_def Let_def split_beta split: option.splits sum.splits prod.splits frame.splits hello.splits pair_outcome.splits route.splits token_check.splits evaluation.splits)

lemma set_name_frame [simp]:
    "e_me (fst (set_name s e)) = e_me e" "e_secret (fst (set_name s e)) = e_secret e" "e_blobs (fst (set_name s e)) = e_blobs e"
    "e_token (fst (set_name s e)) = e_token e" "e_peers (fst (set_name s e)) = e_peers e"
    "e_groups (fst (set_name s e)) = e_groups e" "e_links (fst (set_name s e)) = e_links e"
    "e_gone (fst (set_name s e)) = e_gone e" "e_gap_sent (fst (set_name s e)) = e_gap_sent e"
    "e_rx_files (fst (set_name s e)) = e_rx_files e" "e_closed (fst (set_name s e)) = e_closed e"
    "e_out (fst (set_name s e)) = e_out e" "e_rm (fst (set_name s e)) = e_rm e" "e_now (fst (set_name s e)) = e_now e"
    "d_peers (fst (set_name s e)) = d_peers e" "d_groups (fst (set_name s e)) = d_groups e"
    "d_logs (fst (set_name s e)) = d_logs e" "d_msgs (fst (set_name s e)) = d_msgs e" "d_files (fst (set_name s e)) = d_files e"
  by (simp_all add: set_name_def Let_def split_beta split: option.splits sum.splits prod.splits frame.splits hello.splits pair_outcome.splits route.splits token_check.splits evaluation.splits)

lemma create_invite_frame [simp]:
    "e_me (fst (create_invite E addrs rid e)) = e_me e" "e_secret (fst (create_invite E addrs rid e)) = e_secret e"
    "e_blobs (fst (create_invite E addrs rid e)) = e_blobs e" "e_peers (fst (create_invite E addrs rid e)) = e_peers e"
    "e_groups (fst (create_invite E addrs rid e)) = e_groups e" "e_links (fst (create_invite E addrs rid e)) = e_links e"
    "e_gone (fst (create_invite E addrs rid e)) = e_gone e" "e_gap_sent (fst (create_invite E addrs rid e)) = e_gap_sent e"
    "e_rx_files (fst (create_invite E addrs rid e)) = e_rx_files e" "e_closed (fst (create_invite E addrs rid e)) = e_closed e"
    "e_out (fst (create_invite E addrs rid e)) = e_out e" "e_io (fst (create_invite E addrs rid e)) = e_io e"
    "e_rm (fst (create_invite E addrs rid e)) = e_rm e" "e_now (fst (create_invite E addrs rid e)) = e_now e"
    "d_peers (fst (create_invite E addrs rid e)) = d_peers e" "d_groups (fst (create_invite E addrs rid e)) = d_groups e"
    "d_logs (fst (create_invite E addrs rid e)) = d_logs e" "d_msgs (fst (create_invite E addrs rid e)) = d_msgs e"
    "d_files (fst (create_invite E addrs rid e)) = d_files e"
  by (simp_all add: create_invite_def Let_def split_beta split: option.splits sum.splits prod.splits frame.splits hello.splits pair_outcome.splits route.splits token_check.splits evaluation.splits)

lemma send_frame [simp]:
    "e_me (fst (send E s txt rt rx rid e)) = e_me e" "e_secret (fst (send E s txt rt rx rid e)) = e_secret e"
    "e_blobs (fst (send E s txt rt rx rid e)) = e_blobs e" "e_token (fst (send E s txt rt rx rid e)) = e_token e"
    "e_groups (fst (send E s txt rt rx rid e)) = e_groups e" "e_links (fst (send E s txt rt rx rid e)) = e_links e"
    "e_gone (fst (send E s txt rt rx rid e)) = e_gone e" "e_gap_sent (fst (send E s txt rt rx rid e)) = e_gap_sent e"
    "e_rx_files (fst (send E s txt rt rx rid e)) = e_rx_files e" "e_closed (fst (send E s txt rt rx rid e)) = e_closed e"
    "e_rm (fst (send E s txt rt rx rid e)) = e_rm e" "e_now (fst (send E s txt rt rx rid e)) = e_now e"
    "d_peers (fst (send E s txt rt rx rid e)) = d_peers e" "d_groups (fst (send E s txt rt rx rid e)) = d_groups e"
    "d_logs (fst (send E s txt rt rx rid e)) = d_logs e" "d_files (fst (send E s txt rt rx rid e)) = d_files e"
  by (simp_all add: send_def Let_def split_beta split: option.splits sum.splits prod.splits frame.splits hello.splits pair_outcome.splits route.splits token_check.splits evaluation.splits)

lemma retry_frame [simp]:
    "e_me (fst (retry E s e)) = e_me e" "e_secret (fst (retry E s e)) = e_secret e" "e_blobs (fst (retry E s e)) = e_blobs e"
    "e_token (fst (retry E s e)) = e_token e" "e_groups (fst (retry E s e)) = e_groups e" "e_links (fst (retry E s e)) = e_links e"
    "e_gone (fst (retry E s e)) = e_gone e" "e_gap_sent (fst (retry E s e)) = e_gap_sent e"
    "e_rx_files (fst (retry E s e)) = e_rx_files e" "e_closed (fst (retry E s e)) = e_closed e"
    "e_out (fst (retry E s e)) = e_out e" "e_io (fst (retry E s e)) = e_io e" "e_rm (fst (retry E s e)) = e_rm e"
    "e_now (fst (retry E s e)) = e_now e" "d_peers (fst (retry E s e)) = d_peers e" "d_groups (fst (retry E s e)) = d_groups e"
    "d_logs (fst (retry E s e)) = d_logs e" "d_msgs (fst (retry E s e)) = d_msgs e" "d_files (fst (retry E s e)) = d_files e"
  by (simp_all add: retry_def Let_def split_beta split: option.splits sum.splits prod.splits frame.splits hello.splits pair_outcome.splits route.splits token_check.splits evaluation.splits)

lemma typing_peer_frame [simp]:
    "e_me (fst (typing_peer E s on e)) = e_me e" "e_secret (fst (typing_peer E s on e)) = e_secret e"
    "e_blobs (fst (typing_peer E s on e)) = e_blobs e" "e_token (fst (typing_peer E s on e)) = e_token e"
    "e_peers (fst (typing_peer E s on e)) = e_peers e" "e_groups (fst (typing_peer E s on e)) = e_groups e"
    "e_links (fst (typing_peer E s on e)) = e_links e" "e_gone (fst (typing_peer E s on e)) = e_gone e"
    "e_gap_sent (fst (typing_peer E s on e)) = e_gap_sent e" "e_rx_files (fst (typing_peer E s on e)) = e_rx_files e"
    "e_closed (fst (typing_peer E s on e)) = e_closed e" "e_io (fst (typing_peer E s on e)) = e_io e"
    "e_rm (fst (typing_peer E s on e)) = e_rm e" "e_now (fst (typing_peer E s on e)) = e_now e"
    "d_peers (fst (typing_peer E s on e)) = d_peers e" "d_groups (fst (typing_peer E s on e)) = d_groups e"
    "d_logs (fst (typing_peer E s on e)) = d_logs e" "d_msgs (fst (typing_peer E s on e)) = d_msgs e"
    "d_files (fst (typing_peer E s on e)) = d_files e"
  by (simp_all add: typing_peer_def Let_def split_beta split: option.splits sum.splits prod.splits frame.splits hello.splits pair_outcome.splits route.splits token_check.splits evaluation.splits)

lemma typing_members_frame [simp]:
    "e_me (fst (typing_members E g on ns e)) = e_me e" "e_secret (fst (typing_members E g on ns e)) = e_secret e"
    "e_blobs (fst (typing_members E g on ns e)) = e_blobs e" "e_token (fst (typing_members E g on ns e)) = e_token e"
    "e_peers (fst (typing_members E g on ns e)) = e_peers e" "e_groups (fst (typing_members E g on ns e)) = e_groups e"
    "e_links (fst (typing_members E g on ns e)) = e_links e" "e_gone (fst (typing_members E g on ns e)) = e_gone e"
    "e_gap_sent (fst (typing_members E g on ns e)) = e_gap_sent e" "e_rx_files (fst (typing_members E g on ns e)) = e_rx_files e"
    "e_closed (fst (typing_members E g on ns e)) = e_closed e" "e_io (fst (typing_members E g on ns e)) = e_io e"
    "e_rm (fst (typing_members E g on ns e)) = e_rm e" "e_now (fst (typing_members E g on ns e)) = e_now e"
    "d_peers (fst (typing_members E g on ns e)) = d_peers e" "d_groups (fst (typing_members E g on ns e)) = d_groups e"
    "d_logs (fst (typing_members E g on ns e)) = d_logs e" "d_msgs (fst (typing_members E g on ns e)) = d_msgs e"
    "d_files (fst (typing_members E g on ns e)) = d_files e"
  by (induction E g on ns e rule: typing_members.induct) (simp_all add: split_beta split: option.splits)

lemma pump_all_frame [simp]:
    "e_me (fst (pump_all E g ns hint e)) = e_me e" "e_secret (fst (pump_all E g ns hint e)) = e_secret e"
    "e_blobs (fst (pump_all E g ns hint e)) = e_blobs e" "e_token (fst (pump_all E g ns hint e)) = e_token e"
    "e_peers (fst (pump_all E g ns hint e)) = e_peers e" "e_groups (fst (pump_all E g ns hint e)) = e_groups e"
    "e_gone (fst (pump_all E g ns hint e)) = e_gone e" "e_gap_sent (fst (pump_all E g ns hint e)) = e_gap_sent e"
    "e_rx_files (fst (pump_all E g ns hint e)) = e_rx_files e" "e_closed (fst (pump_all E g ns hint e)) = e_closed e"
    "e_io (fst (pump_all E g ns hint e)) = e_io e" "e_rm (fst (pump_all E g ns hint e)) = e_rm e"
    "e_now (fst (pump_all E g ns hint e)) = e_now e" "d_peers (fst (pump_all E g ns hint e)) = d_peers e"
    "d_groups (fst (pump_all E g ns hint e)) = d_groups e" "d_logs (fst (pump_all E g ns hint e)) = d_logs e"
    "d_msgs (fst (pump_all E g ns hint e)) = d_msgs e" "d_files (fst (pump_all E g ns hint e)) = d_files e"
  by (induction E g ns hint e rule: pump_all.induct) (simp_all add: split_beta)

lemma typing_group_frame [simp]:
    "e_me (fst (typing_group E g on e)) = e_me e" "e_secret (fst (typing_group E g on e)) = e_secret e"
    "e_blobs (fst (typing_group E g on e)) = e_blobs e" "e_token (fst (typing_group E g on e)) = e_token e"
    "e_peers (fst (typing_group E g on e)) = e_peers e" "e_groups (fst (typing_group E g on e)) = e_groups e"
    "e_links (fst (typing_group E g on e)) = e_links e" "e_gone (fst (typing_group E g on e)) = e_gone e"
    "e_gap_sent (fst (typing_group E g on e)) = e_gap_sent e" "e_rx_files (fst (typing_group E g on e)) = e_rx_files e"
    "e_closed (fst (typing_group E g on e)) = e_closed e" "e_io (fst (typing_group E g on e)) = e_io e"
    "e_rm (fst (typing_group E g on e)) = e_rm e" "e_now (fst (typing_group E g on e)) = e_now e"
    "d_peers (fst (typing_group E g on e)) = d_peers e" "d_groups (fst (typing_group E g on e)) = d_groups e"
    "d_logs (fst (typing_group E g on e)) = d_logs e" "d_msgs (fst (typing_group E g on e)) = d_msgs e"
    "d_files (fst (typing_group E g on e)) = d_files e"
  by (simp_all add: typing_group_def Let_def split_beta split: option.splits sum.splits prod.splits frame.splits hello.splits pair_outcome.splits route.splits token_check.splits evaluation.splits)

lemma send_file_frame [simp]:
    "e_me (fst (send_file E s src name cap rid e)) = e_me e" "e_secret (fst (send_file E s src name cap rid e)) = e_secret e"
    "e_blobs (fst (send_file E s src name cap rid e)) = e_blobs e" "e_token (fst (send_file E s src name cap rid e)) = e_token e"
    "e_groups (fst (send_file E s src name cap rid e)) = e_groups e" "e_links (fst (send_file E s src name cap rid e)) = e_links e"
    "e_gone (fst (send_file E s src name cap rid e)) = e_gone e"
    "e_gap_sent (fst (send_file E s src name cap rid e)) = e_gap_sent e"
    "e_rx_files (fst (send_file E s src name cap rid e)) = e_rx_files e"
    "e_closed (fst (send_file E s src name cap rid e)) = e_closed e" "e_rm (fst (send_file E s src name cap rid e)) = e_rm e"
    "e_now (fst (send_file E s src name cap rid e)) = e_now e" "d_peers (fst (send_file E s src name cap rid e)) = d_peers e"
    "d_groups (fst (send_file E s src name cap rid e)) = d_groups e" "d_logs (fst (send_file E s src name cap rid e)) = d_logs e"
  by (simp_all add: send_file_def Let_def split_beta split: option.splits sum.splits prod.splits frame.splits hello.splits pair_outcome.splits route.splits token_check.splits evaluation.splits)

lemma on_file_begin_frame [simp]:
    "e_me (on_file_begin E n i ts name sz mime cap e) = e_me e" "e_secret (on_file_begin E n i ts name sz mime cap e) = e_secret e"
    "e_blobs (on_file_begin E n i ts name sz mime cap e) = e_blobs e"
    "e_token (on_file_begin E n i ts name sz mime cap e) = e_token e"
    "e_peers (on_file_begin E n i ts name sz mime cap e) = e_peers e"
    "e_groups (on_file_begin E n i ts name sz mime cap e) = e_groups e"
    "e_links (on_file_begin E n i ts name sz mime cap e) = e_links e"
    "e_gone (on_file_begin E n i ts name sz mime cap e) = e_gone e"
    "e_gap_sent (on_file_begin E n i ts name sz mime cap e) = e_gap_sent e"
    "e_closed (on_file_begin E n i ts name sz mime cap e) = e_closed e"
    "e_out (on_file_begin E n i ts name sz mime cap e) = e_out e" "e_rm (on_file_begin E n i ts name sz mime cap e) = e_rm e"
    "e_now (on_file_begin E n i ts name sz mime cap e) = e_now e" "d_peers (on_file_begin E n i ts name sz mime cap e) = d_peers e"
    "d_groups (on_file_begin E n i ts name sz mime cap e) = d_groups e"
    "d_logs (on_file_begin E n i ts name sz mime cap e) = d_logs e" "d_msgs (on_file_begin E n i ts name sz mime cap e) = d_msgs e"
  by (simp_all add: on_file_begin_def Let_def split_beta split: option.splits sum.splits prod.splits frame.splits hello.splits pair_outcome.splits route.splits token_check.splits evaluation.splits)

lemma on_file_chunk_frame [simp]:
    "e_me (on_file_chunk E n i data e) = e_me e" "e_secret (on_file_chunk E n i data e) = e_secret e"
    "e_blobs (on_file_chunk E n i data e) = e_blobs e" "e_token (on_file_chunk E n i data e) = e_token e"
    "e_peers (on_file_chunk E n i data e) = e_peers e" "e_groups (on_file_chunk E n i data e) = e_groups e"
    "e_links (on_file_chunk E n i data e) = e_links e" "e_gone (on_file_chunk E n i data e) = e_gone e"
    "e_gap_sent (on_file_chunk E n i data e) = e_gap_sent e" "e_closed (on_file_chunk E n i data e) = e_closed e"
    "e_out (on_file_chunk E n i data e) = e_out e" "e_rm (on_file_chunk E n i data e) = e_rm e"
    "e_now (on_file_chunk E n i data e) = e_now e" "d_peers (on_file_chunk E n i data e) = d_peers e"
    "d_groups (on_file_chunk E n i data e) = d_groups e" "d_logs (on_file_chunk E n i data e) = d_logs e"
    "d_msgs (on_file_chunk E n i data e) = d_msgs e"
  by (simp_all add: on_file_chunk_def Let_def split_beta split: option.splits sum.splits prod.splits frame.splits hello.splits pair_outcome.splits route.splits token_check.splits evaluation.splits)

lemma on_file_end_frame [simp]:
    "e_me (on_file_end E n ch i e) = e_me e" "e_secret (on_file_end E n ch i e) = e_secret e"
    "e_blobs (on_file_end E n ch i e) = e_blobs e" "e_token (on_file_end E n ch i e) = e_token e"
    "e_groups (on_file_end E n ch i e) = e_groups e" "e_links (on_file_end E n ch i e) = e_links e"
    "e_gone (on_file_end E n ch i e) = e_gone e" "e_gap_sent (on_file_end E n ch i e) = e_gap_sent e"
    "e_closed (on_file_end E n ch i e) = e_closed e" "e_now (on_file_end E n ch i e) = e_now e"
    "d_peers (on_file_end E n ch i e) = d_peers e" "d_groups (on_file_end E n ch i e) = d_groups e"
    "d_logs (on_file_end E n ch i e) = d_logs e"
  by (simp_all add: on_file_end_def Let_def split_beta split: option.splits sum.splits prod.splits frame.splits hello.splits pair_outcome.splits route.splits token_check.splits evaluation.splits)

lemma on_group_file_begin_frame [simp]:
    "e_me (on_group_file_begin E n g i ts name sz mime cap e) = e_me e"
    "e_secret (on_group_file_begin E n g i ts name sz mime cap e) = e_secret e"
    "e_blobs (on_group_file_begin E n g i ts name sz mime cap e) = e_blobs e"
    "e_token (on_group_file_begin E n g i ts name sz mime cap e) = e_token e"
    "e_peers (on_group_file_begin E n g i ts name sz mime cap e) = e_peers e"
    "e_groups (on_group_file_begin E n g i ts name sz mime cap e) = e_groups e"
    "e_links (on_group_file_begin E n g i ts name sz mime cap e) = e_links e"
    "e_gone (on_group_file_begin E n g i ts name sz mime cap e) = e_gone e"
    "e_gap_sent (on_group_file_begin E n g i ts name sz mime cap e) = e_gap_sent e"
    "e_closed (on_group_file_begin E n g i ts name sz mime cap e) = e_closed e"
    "e_out (on_group_file_begin E n g i ts name sz mime cap e) = e_out e"
    "e_rm (on_group_file_begin E n g i ts name sz mime cap e) = e_rm e"
    "e_now (on_group_file_begin E n g i ts name sz mime cap e) = e_now e"
    "d_peers (on_group_file_begin E n g i ts name sz mime cap e) = d_peers e"
    "d_groups (on_group_file_begin E n g i ts name sz mime cap e) = d_groups e"
    "d_logs (on_group_file_begin E n g i ts name sz mime cap e) = d_logs e"
    "d_msgs (on_group_file_begin E n g i ts name sz mime cap e) = d_msgs e"
  by (simp_all add: on_group_file_begin_def Let_def split_beta split: option.splits sum.splits prod.splits frame.splits hello.splits pair_outcome.splits route.splits token_check.splits evaluation.splits)

lemma on_group_file_chunk_frame [simp]:
    "e_me (on_group_file_chunk E n g i data e) = e_me e" "e_secret (on_group_file_chunk E n g i data e) = e_secret e"
    "e_blobs (on_group_file_chunk E n g i data e) = e_blobs e" "e_token (on_group_file_chunk E n g i data e) = e_token e"
    "e_peers (on_group_file_chunk E n g i data e) = e_peers e" "e_groups (on_group_file_chunk E n g i data e) = e_groups e"
    "e_links (on_group_file_chunk E n g i data e) = e_links e" "e_gone (on_group_file_chunk E n g i data e) = e_gone e"
    "e_gap_sent (on_group_file_chunk E n g i data e) = e_gap_sent e" "e_closed (on_group_file_chunk E n g i data e) = e_closed e"
    "e_out (on_group_file_chunk E n g i data e) = e_out e" "e_now (on_group_file_chunk E n g i data e) = e_now e"
    "d_peers (on_group_file_chunk E n g i data e) = d_peers e" "d_groups (on_group_file_chunk E n g i data e) = d_groups e"
    "d_logs (on_group_file_chunk E n g i data e) = d_logs e" "d_msgs (on_group_file_chunk E n g i data e) = d_msgs e"
  by (simp_all add: on_group_file_chunk_def Let_def split_beta split: option.splits sum.splits prod.splits frame.splits hello.splits pair_outcome.splits route.splits token_check.splits evaluation.splits)

lemma on_group_file_end_frame [simp]:
    "e_me (on_group_file_end E n g i e) = e_me e" "e_secret (on_group_file_end E n g i e) = e_secret e"
    "e_blobs (on_group_file_end E n g i e) = e_blobs e" "e_token (on_group_file_end E n g i e) = e_token e"
    "e_peers (on_group_file_end E n g i e) = e_peers e" "e_groups (on_group_file_end E n g i e) = e_groups e"
    "e_links (on_group_file_end E n g i e) = e_links e" "e_gone (on_group_file_end E n g i e) = e_gone e"
    "e_gap_sent (on_group_file_end E n g i e) = e_gap_sent e" "e_closed (on_group_file_end E n g i e) = e_closed e"
    "e_out (on_group_file_end E n g i e) = e_out e" "e_now (on_group_file_end E n g i e) = e_now e"
    "d_peers (on_group_file_end E n g i e) = d_peers e" "d_groups (on_group_file_end E n g i e) = d_groups e"
    "d_msgs (on_group_file_end E n g i e) = d_msgs e"
  by (simp_all add: on_group_file_end_def Let_def split_beta split: option.splits sum.splits prod.splits frame.splits hello.splits pair_outcome.splits route.splits token_check.splits evaluation.splits)

lemma on_group_file_frame [simp]:
    "e_me (on_group_file E n f ch e) = e_me e" "e_secret (on_group_file E n f ch e) = e_secret e"
    "e_blobs (on_group_file E n f ch e) = e_blobs e" "e_token (on_group_file E n f ch e) = e_token e"
    "e_peers (on_group_file E n f ch e) = e_peers e" "e_groups (on_group_file E n f ch e) = e_groups e"
    "e_links (on_group_file E n f ch e) = e_links e" "e_gone (on_group_file E n f ch e) = e_gone e"
    "e_gap_sent (on_group_file E n f ch e) = e_gap_sent e" "e_closed (on_group_file E n f ch e) = e_closed e"
    "e_out (on_group_file E n f ch e) = e_out e" "e_now (on_group_file E n f ch e) = e_now e"
    "d_peers (on_group_file E n f ch e) = d_peers e" "d_groups (on_group_file E n f ch e) = d_groups e"
    "d_msgs (on_group_file E n f ch e) = d_msgs e"
  by (simp_all add: on_group_file_def Let_def split_beta split: option.splits sum.splits prod.splits frame.splits hello.splits pair_outcome.splits route.splits token_check.splits evaluation.splits)

lemma group_send_file_frame [simp]:
    "e_me (fst (group_send_file E g src name cap rid e)) = e_me e"
    "e_secret (fst (group_send_file E g src name cap rid e)) = e_secret e"
    "e_blobs (fst (group_send_file E g src name cap rid e)) = e_blobs e"
    "e_token (fst (group_send_file E g src name cap rid e)) = e_token e"
    "e_peers (fst (group_send_file E g src name cap rid e)) = e_peers e"
    "e_groups (fst (group_send_file E g src name cap rid e)) = e_groups e"
    "e_links (fst (group_send_file E g src name cap rid e)) = e_links e"
    "e_gone (fst (group_send_file E g src name cap rid e)) = e_gone e"
    "e_gap_sent (fst (group_send_file E g src name cap rid e)) = e_gap_sent e"
    "e_rx_files (fst (group_send_file E g src name cap rid e)) = e_rx_files e"
    "e_closed (fst (group_send_file E g src name cap rid e)) = e_closed e"
    "e_out (fst (group_send_file E g src name cap rid e)) = e_out e"
    "e_now (fst (group_send_file E g src name cap rid e)) = e_now e"
    "d_peers (fst (group_send_file E g src name cap rid e)) = d_peers e"
    "d_groups (fst (group_send_file E g src name cap rid e)) = d_groups e"
    "d_msgs (fst (group_send_file E g src name cap rid e)) = d_msgs e"
  by (simp_all add: group_send_file_def Let_def split_beta split: option.splits sum.splits prod.splits frame.splits hello.splits pair_outcome.splits route.splits token_check.splits evaluation.splits)

lemma group_file_retry_frame [simp]:
    "e_me (fst (group_file_retry E g i mem e)) = e_me e" "e_secret (fst (group_file_retry E g i mem e)) = e_secret e"
    "e_blobs (fst (group_file_retry E g i mem e)) = e_blobs e" "e_token (fst (group_file_retry E g i mem e)) = e_token e"
    "e_peers (fst (group_file_retry E g i mem e)) = e_peers e" "e_groups (fst (group_file_retry E g i mem e)) = e_groups e"
    "e_links (fst (group_file_retry E g i mem e)) = e_links e" "e_gone (fst (group_file_retry E g i mem e)) = e_gone e"
    "e_gap_sent (fst (group_file_retry E g i mem e)) = e_gap_sent e"
    "e_rx_files (fst (group_file_retry E g i mem e)) = e_rx_files e" "e_closed (fst (group_file_retry E g i mem e)) = e_closed e"
    "e_out (fst (group_file_retry E g i mem e)) = e_out e" "e_io (fst (group_file_retry E g i mem e)) = e_io e"
    "e_rm (fst (group_file_retry E g i mem e)) = e_rm e" "e_now (fst (group_file_retry E g i mem e)) = e_now e"
    "d_peers (fst (group_file_retry E g i mem e)) = d_peers e" "d_groups (fst (group_file_retry E g i mem e)) = d_groups e"
    "d_logs (fst (group_file_retry E g i mem e)) = d_logs e" "d_msgs (fst (group_file_retry E g i mem e)) = d_msgs e"
    "d_files (fst (group_file_retry E g i mem e)) = d_files e"
  by (simp_all add: group_file_retry_def Let_def split_beta split: option.splits sum.splits prod.splits frame.splits hello.splits pair_outcome.splits route.splits token_check.splits evaluation.splits)

lemma edit_group_locked_frame [simp]:
    "e_me (fst (edit_group_locked E g left edit e)) = e_me e" "e_secret (fst (edit_group_locked E g left edit e)) = e_secret e"
    "e_blobs (fst (edit_group_locked E g left edit e)) = e_blobs e" "e_token (fst (edit_group_locked E g left edit e)) = e_token e"
    "e_gap_sent (fst (edit_group_locked E g left edit e)) = e_gap_sent e"
    "e_rx_files (fst (edit_group_locked E g left edit e)) = e_rx_files e"
    "e_closed (fst (edit_group_locked E g left edit e)) = e_closed e" "e_rm (fst (edit_group_locked E g left edit e)) = e_rm e"
    "e_now (fst (edit_group_locked E g left edit e)) = e_now e" "d_peers (fst (edit_group_locked E g left edit e)) = d_peers e"
    "d_msgs (fst (edit_group_locked E g left edit e)) = d_msgs e" "d_files (fst (edit_group_locked E g left edit e)) = d_files e"
  by (simp_all add: edit_group_locked_def Let_def split_beta split: option.splits sum.splits prod.splits frame.splits hello.splits pair_outcome.splits route.splits token_check.splits evaluation.splits)

lemma group_create_frame [simp]:
    "e_me (fst (group_create E name ids rnd e)) = e_me e" "e_secret (fst (group_create E name ids rnd e)) = e_secret e"
    "e_blobs (fst (group_create E name ids rnd e)) = e_blobs e" "e_token (fst (group_create E name ids rnd e)) = e_token e"
    "e_links (fst (group_create E name ids rnd e)) = e_links e" "e_gone (fst (group_create E name ids rnd e)) = e_gone e"
    "e_gap_sent (fst (group_create E name ids rnd e)) = e_gap_sent e"
    "e_rx_files (fst (group_create E name ids rnd e)) = e_rx_files e" "e_closed (fst (group_create E name ids rnd e)) = e_closed e"
    "e_rm (fst (group_create E name ids rnd e)) = e_rm e" "e_now (fst (group_create E name ids rnd e)) = e_now e"
    "d_peers (fst (group_create E name ids rnd e)) = d_peers e" "d_msgs (fst (group_create E name ids rnd e)) = d_msgs e"
    "d_files (fst (group_create E name ids rnd e)) = d_files e"
  by (simp_all add: group_create_def Let_def split_beta split: option.splits sum.splits prod.splits frame.splits hello.splits pair_outcome.splits route.splits token_check.splits evaluation.splits)

lemma group_add_frame [simp]:
    "e_me (fst (group_add E g s e)) = e_me e" "e_secret (fst (group_add E g s e)) = e_secret e"
    "e_blobs (fst (group_add E g s e)) = e_blobs e" "e_token (fst (group_add E g s e)) = e_token e"
    "e_gap_sent (fst (group_add E g s e)) = e_gap_sent e" "e_rx_files (fst (group_add E g s e)) = e_rx_files e"
    "e_closed (fst (group_add E g s e)) = e_closed e" "e_rm (fst (group_add E g s e)) = e_rm e"
    "e_now (fst (group_add E g s e)) = e_now e" "d_peers (fst (group_add E g s e)) = d_peers e"
    "d_msgs (fst (group_add E g s e)) = d_msgs e" "d_files (fst (group_add E g s e)) = d_files e"
  by (simp_all add: group_add_def Let_def split_beta split: option.splits sum.splits prod.splits frame.splits hello.splits pair_outcome.splits route.splits token_check.splits evaluation.splits)

lemma group_remove_frame [simp]:
    "e_me (fst (group_remove E g s e)) = e_me e" "e_secret (fst (group_remove E g s e)) = e_secret e"
    "e_blobs (fst (group_remove E g s e)) = e_blobs e" "e_token (fst (group_remove E g s e)) = e_token e"
    "e_gap_sent (fst (group_remove E g s e)) = e_gap_sent e" "e_rx_files (fst (group_remove E g s e)) = e_rx_files e"
    "e_closed (fst (group_remove E g s e)) = e_closed e" "e_rm (fst (group_remove E g s e)) = e_rm e"
    "e_now (fst (group_remove E g s e)) = e_now e" "d_peers (fst (group_remove E g s e)) = d_peers e"
    "d_msgs (fst (group_remove E g s e)) = d_msgs e" "d_files (fst (group_remove E g s e)) = d_files e"
  by (simp_all add: group_remove_def Let_def split_beta split: option.splits sum.splits prod.splits frame.splits hello.splits pair_outcome.splits route.splits token_check.splits evaluation.splits)

lemma group_rename_frame [simp]:
    "e_me (fst (group_rename E g s e)) = e_me e" "e_secret (fst (group_rename E g s e)) = e_secret e"
    "e_blobs (fst (group_rename E g s e)) = e_blobs e" "e_token (fst (group_rename E g s e)) = e_token e"
    "e_gap_sent (fst (group_rename E g s e)) = e_gap_sent e" "e_rx_files (fst (group_rename E g s e)) = e_rx_files e"
    "e_closed (fst (group_rename E g s e)) = e_closed e" "e_rm (fst (group_rename E g s e)) = e_rm e"
    "e_now (fst (group_rename E g s e)) = e_now e" "d_peers (fst (group_rename E g s e)) = d_peers e"
    "d_msgs (fst (group_rename E g s e)) = d_msgs e" "d_files (fst (group_rename E g s e)) = d_files e"
  by (simp_all add: group_rename_def Let_def split_beta split: option.splits sum.splits prod.splits frame.splits hello.splits pair_outcome.splits route.splits token_check.splits evaluation.splits)

lemma group_disband_frame [simp]:
    "e_me (fst (group_disband E g e)) = e_me e" "e_secret (fst (group_disband E g e)) = e_secret e"
    "e_blobs (fst (group_disband E g e)) = e_blobs e" "e_token (fst (group_disband E g e)) = e_token e"
    "e_gap_sent (fst (group_disband E g e)) = e_gap_sent e" "e_rx_files (fst (group_disband E g e)) = e_rx_files e"
    "e_closed (fst (group_disband E g e)) = e_closed e" "e_rm (fst (group_disband E g e)) = e_rm e"
    "e_now (fst (group_disband E g e)) = e_now e" "d_peers (fst (group_disband E g e)) = d_peers e"
    "d_msgs (fst (group_disband E g e)) = d_msgs e" "d_files (fst (group_disband E g e)) = d_files e"
  by (simp_all add: group_disband_def Let_def split_beta split: option.splits sum.splits prod.splits frame.splits hello.splits pair_outcome.splits route.splits token_check.splits evaluation.splits)

lemma group_leave_frame [simp]:
    "e_me (fst (group_leave E g e)) = e_me e" "e_secret (fst (group_leave E g e)) = e_secret e"
    "e_blobs (fst (group_leave E g e)) = e_blobs e" "e_token (fst (group_leave E g e)) = e_token e"
    "e_gone (fst (group_leave E g e)) = e_gone e" "e_gap_sent (fst (group_leave E g e)) = e_gap_sent e"
    "e_rx_files (fst (group_leave E g e)) = e_rx_files e" "e_closed (fst (group_leave E g e)) = e_closed e"
    "e_rm (fst (group_leave E g e)) = e_rm e" "e_now (fst (group_leave E g e)) = e_now e"
    "d_peers (fst (group_leave E g e)) = d_peers e" "d_msgs (fst (group_leave E g e)) = d_msgs e"
    "d_files (fst (group_leave E g e)) = d_files e"
  by (simp_all add: group_leave_def Let_def split_beta split: option.splits sum.splits prod.splits frame.splits hello.splits pair_outcome.splits route.splits token_check.splits evaluation.splits)

lemma group_delete_frame [simp]:
    "e_me (fst (group_delete E g e)) = e_me e" "e_secret (fst (group_delete E g e)) = e_secret e"
    "e_blobs (fst (group_delete E g e)) = e_blobs e" "e_token (fst (group_delete E g e)) = e_token e"
    "e_closed (fst (group_delete E g e)) = e_closed e" "e_out (fst (group_delete E g e)) = e_out e"
    "e_now (fst (group_delete E g e)) = e_now e" "d_peers (fst (group_delete E g e)) = d_peers e"
    "d_msgs (fst (group_delete E g e)) = d_msgs e"
  by (simp_all add: group_delete_def Let_def split_beta split: option.splits sum.splits prod.splits frame.splits hello.splits pair_outcome.splits route.splits token_check.splits evaluation.splits)

lemma remove_peer_frame [simp]:
    "e_me (fst (remove_peer E s e)) = e_me e" "e_secret (fst (remove_peer E s e)) = e_secret e"
    "e_blobs (fst (remove_peer E s e)) = e_blobs e" "e_token (fst (remove_peer E s e)) = e_token e"
    "e_closed (fst (remove_peer E s e)) = e_closed e" "e_out (fst (remove_peer E s e)) = e_out e"
    "e_now (fst (remove_peer E s e)) = e_now e"
  by (simp_all add: remove_peer_def Let_def split_beta split: option.splits sum.splits prod.splits frame.splits hello.splits pair_outcome.splits route.splits token_check.splits evaluation.splits)

lemma group_send_frame [simp]:
    "e_me (fst (group_send E g txt rt rx rid e)) = e_me e" "e_secret (fst (group_send E g txt rt rx rid e)) = e_secret e"
    "e_blobs (fst (group_send E g txt rt rx rid e)) = e_blobs e" "e_token (fst (group_send E g txt rt rx rid e)) = e_token e"
    "e_gone (fst (group_send E g txt rt rx rid e)) = e_gone e" "e_gap_sent (fst (group_send E g txt rt rx rid e)) = e_gap_sent e"
    "e_rx_files (fst (group_send E g txt rt rx rid e)) = e_rx_files e"
    "e_closed (fst (group_send E g txt rt rx rid e)) = e_closed e" "e_rm (fst (group_send E g txt rt rx rid e)) = e_rm e"
    "e_now (fst (group_send E g txt rt rx rid e)) = e_now e" "d_peers (fst (group_send E g txt rt rx rid e)) = d_peers e"
    "d_msgs (fst (group_send E g txt rt rx rid e)) = d_msgs e" "d_files (fst (group_send E g txt rt rx rid e)) = d_files e"
  by (simp_all add: group_send_def Let_def split_beta split: option.splits sum.splits prod.splits frame.splits hello.splits pair_outcome.splits route.splits token_check.splits evaluation.splits)

lemma apply_tail_frame [simp]:
    "e_me (fst (apply_tail E g ep sys nr res e)) = e_me e" "e_secret (fst (apply_tail E g ep sys nr res e)) = e_secret e"
    "e_blobs (fst (apply_tail E g ep sys nr res e)) = e_blobs e" "e_token (fst (apply_tail E g ep sys nr res e)) = e_token e"
    "e_closed (fst (apply_tail E g ep sys nr res e)) = e_closed e" "e_now (fst (apply_tail E g ep sys nr res e)) = e_now e"
    "d_peers (fst (apply_tail E g ep sys nr res e)) = d_peers e" "d_msgs (fst (apply_tail E g ep sys nr res e)) = d_msgs e"
  by (simp_all add: apply_tail_def Let_def split_beta split: option.splits sum.splits prod.splits frame.splits hello.splits pair_outcome.splits route.splits token_check.splits evaluation.splits)

lemma apply_state_locked_frame [simp]:
    "e_me (fst (apply_state_locked E st n e)) = e_me e" "e_secret (fst (apply_state_locked E st n e)) = e_secret e"
    "e_blobs (fst (apply_state_locked E st n e)) = e_blobs e" "e_token (fst (apply_state_locked E st n e)) = e_token e"
    "e_closed (fst (apply_state_locked E st n e)) = e_closed e" "e_now (fst (apply_state_locked E st n e)) = e_now e"
    "d_peers (fst (apply_state_locked E st n e)) = d_peers e" "d_msgs (fst (apply_state_locked E st n e)) = d_msgs e"
  by (simp_all add: apply_state_locked_def Let_def split_beta split: option.splits sum.splits prod.splits frame.splits hello.splits pair_outcome.splits route.splits token_check.splits evaluation.splits)

lemma on_group_sync_frame [simp]:
    "e_me (on_group_sync E n ch g ep h name e) = e_me e" "e_secret (on_group_sync E n ch g ep h name e) = e_secret e"
    "e_blobs (on_group_sync E n ch g ep h name e) = e_blobs e" "e_token (on_group_sync E n ch g ep h name e) = e_token e"
    "e_gap_sent (on_group_sync E n ch g ep h name e) = e_gap_sent e"
    "e_rx_files (on_group_sync E n ch g ep h name e) = e_rx_files e" "e_closed (on_group_sync E n ch g ep h name e) = e_closed e"
    "e_rm (on_group_sync E n ch g ep h name e) = e_rm e" "e_now (on_group_sync E n ch g ep h name e) = e_now e"
    "d_peers (on_group_sync E n ch g ep h name e) = d_peers e" "d_logs (on_group_sync E n ch g ep h name e) = d_logs e"
    "d_msgs (on_group_sync E n ch g ep h name e) = d_msgs e" "d_files (on_group_sync E n ch g ep h name e) = d_files e"
  by (simp_all add: on_group_sync_def Let_def split: option.splits)

lemma on_group_msg_frame [simp]:
    "e_me (on_group_msg E n ch g claimed seq i ts txt rt rx e) = e_me e"
    "e_secret (on_group_msg E n ch g claimed seq i ts txt rt rx e) = e_secret e"
    "e_blobs (on_group_msg E n ch g claimed seq i ts txt rt rx e) = e_blobs e"
    "e_token (on_group_msg E n ch g claimed seq i ts txt rt rx e) = e_token e"
    "e_peers (on_group_msg E n ch g claimed seq i ts txt rt rx e) = e_peers e"
    "e_links (on_group_msg E n ch g claimed seq i ts txt rt rx e) = e_links e"
    "e_gone (on_group_msg E n ch g claimed seq i ts txt rt rx e) = e_gone e"
    "e_rx_files (on_group_msg E n ch g claimed seq i ts txt rt rx e) = e_rx_files e"
    "e_closed (on_group_msg E n ch g claimed seq i ts txt rt rx e) = e_closed e"
    "e_rm (on_group_msg E n ch g claimed seq i ts txt rt rx e) = e_rm e"
    "e_now (on_group_msg E n ch g claimed seq i ts txt rt rx e) = e_now e"
    "d_peers (on_group_msg E n ch g claimed seq i ts txt rt rx e) = d_peers e"
    "d_msgs (on_group_msg E n ch g claimed seq i ts txt rt rx e) = d_msgs e"
    "d_files (on_group_msg E n ch g claimed seq i ts txt rt rx e) = d_files e"
  by (simp_all add: on_group_msg_def Let_def split_beta split: option.splits sum.splits prod.splits frame.splits hello.splits pair_outcome.splits route.splits token_check.splits evaluation.splits)

lemma on_group_ack_frame [simp]:
    "e_me (on_group_ack E n g h e) = e_me e" "e_secret (on_group_ack E n g h e) = e_secret e"
    "e_blobs (on_group_ack E n g h e) = e_blobs e" "e_token (on_group_ack E n g h e) = e_token e"
    "e_peers (on_group_ack E n g h e) = e_peers e" "e_gone (on_group_ack E n g h e) = e_gone e"
    "e_gap_sent (on_group_ack E n g h e) = e_gap_sent e" "e_rx_files (on_group_ack E n g h e) = e_rx_files e"
    "e_closed (on_group_ack E n g h e) = e_closed e" "e_rm (on_group_ack E n g h e) = e_rm e"
    "e_now (on_group_ack E n g h e) = e_now e" "d_peers (on_group_ack E n g h e) = d_peers e"
    "d_logs (on_group_ack E n g h e) = d_logs e" "d_msgs (on_group_ack E n g h e) = d_msgs e"
    "d_files (on_group_ack E n g h e) = d_files e"
  by (simp_all add: on_group_ack_def Let_def split_beta split: option.splits sum.splits prod.splits frame.splits hello.splits pair_outcome.splits route.splits token_check.splits evaluation.splits)

lemma on_group_leave_frame [simp]:
    "e_me (on_group_leave E n g e) = e_me e" "e_secret (on_group_leave E n g e) = e_secret e"
    "e_blobs (on_group_leave E n g e) = e_blobs e" "e_token (on_group_leave E n g e) = e_token e"
    "e_gap_sent (on_group_leave E n g e) = e_gap_sent e" "e_rx_files (on_group_leave E n g e) = e_rx_files e"
    "e_closed (on_group_leave E n g e) = e_closed e" "e_rm (on_group_leave E n g e) = e_rm e"
    "e_now (on_group_leave E n g e) = e_now e" "d_peers (on_group_leave E n g e) = d_peers e"
    "d_msgs (on_group_leave E n g e) = d_msgs e" "d_files (on_group_leave E n g e) = d_files e"
  by (simp_all add: on_group_leave_def Let_def split_beta split: option.splits sum.splits prod.splits frame.splits hello.splits pair_outcome.splits route.splits token_check.splits evaluation.splits)

lemma handle_group_frame_frame [simp]:
    "e_me (handle_group_frame E n f ch e) = e_me e" "e_secret (handle_group_frame E n f ch e) = e_secret e"
    "e_blobs (handle_group_frame E n f ch e) = e_blobs e" "e_token (handle_group_frame E n f ch e) = e_token e"
    "e_closed (handle_group_frame E n f ch e) = e_closed e" "e_now (handle_group_frame E n f ch e) = e_now e"
    "d_peers (handle_group_frame E n f ch e) = d_peers e" "d_msgs (handle_group_frame E n f ch e) = d_msgs e"
  by (simp_all add: handle_group_frame_def Let_def split_beta split: option.splits sum.splits prod.splits frame.splits hello.splits pair_outcome.splits route.splits token_check.splits evaluation.splits)

lemma handle_frame_frame [simp]:
    "e_me (handle_frame E n f ch e) = e_me e" "e_secret (handle_frame E n f ch e) = e_secret e"
    "e_blobs (handle_frame E n f ch e) = e_blobs e" "e_token (handle_frame E n f ch e) = e_token e"
    "e_closed (handle_frame E n f ch e) = e_closed e" "e_now (handle_frame E n f ch e) = e_now e"
    "d_peers (handle_frame E n f ch e) = d_peers e"
  by (simp_all add: handle_frame_def Let_def split_beta split: option.splits sum.splits prod.splits frame.splits hello.splits pair_outcome.splits route.splits token_check.splits evaluation.splits)

end
