(* ===== verification/Demo.thy ===== *)
theory Demo
  imports Frames
begin

section \<open>A concrete engine\<close>

text \<open>
  The engine of device 2, paired with device 1 over a protocol 2 session (channel 7), as the states the
  witnesses of the engine's properties start from. \<open>demo_group\<close> is the engine after it joined the signed group
  of devices 1, 2 and 3, of which device 1 is the creator.
\<close>

definition peer1 :: peer where
  "peer1 = \<lparr>p_kind = Paired, p_name = ''A'', p_addrs = [], p_proto = 2, p_live = [\<lparr>lh_id = 1, lh_tx = 7, lh_proto = 2\<rparr>],
     p_connecting = False, p_queued = [], p_msgs = []\<rparr>"

definition demo :: engine where
  "demo = \<lparr>e_me = dev 2, e_secret = SecretKey (replicate 32 2), e_blobs = ''b'', e_name = ''B'', e_token = ''t'',
     e_peers = [(dev 1, peer1)], e_nearby = [], e_pair_requests = [], e_decisions = [], e_groups = [], e_links = [],
     e_gone = [], e_gap_sent = [], e_ts_eff = [], e_typing_seen = [], e_caps = [], e_rx_files = [], e_group_xfers = [],
     e_handle_ids = 2, e_closed = [], e_out = [], e_events = [], e_dials = [], e_now = 100, e_mono = 0, e_io = [], e_rm = [],
     d_peers = None, d_profile = None, d_groups = None, d_logs = [], d_msgs = [], d_files = []\<rparr>"

definition demo_group :: engine where
  "demo_group = demo\<lparr>e_groups := [(gs_gid trio, new_rec trio_signed)]\<rparr>"

lemma trio_signed_eq: "\<exists>x. trio_signed = trio\<lparr>gs_sig := x\<rparr>"
  using trio_signs by (auto simp: trio_signed_def)

lemma trio_signed_fields [simp]:
  "gs_gid trio_signed = gs_gid trio" "gs_creator trio_signed = dev_id 1" "gs_epoch trio_signed = 1"
  "gs_closed trio_signed = False" "gs_members trio_signed = gs_members trio" "gs_name trio_signed = ''trio''"
proof -
  obtain x where x: "trio_signed = trio\<lparr>gs_sig := x\<rparr>" using trio_signed_eq by blast
  show "gs_gid trio_signed = gs_gid trio" "gs_creator trio_signed = dev_id 1" "gs_epoch trio_signed = 1"
    "gs_closed trio_signed = False" "gs_members trio_signed = gs_members trio" "gs_name trio_signed = ''trio''"
    unfolding x by (simp_all add: trio_def)
qed

lemma new_rec_fields [simp]:
  "gr_state (new_rec st) = st" "gr_removed (new_rec st) = False" "gr_next_seq (new_rec st) = 1"
  "gr_sent_cursor (new_rec st) = []" "gr_have (new_rec st) = []" "gr_state_cursor (new_rec st) = []"
  "gr_pending_leave (new_rec st) = False" "gr_hidden (new_rec st) = False"
  by (simp_all add: new_rec_def)

lemma trio_contains [simp]: "contains ref_ext trio_signed (dev i) \<longleftrightarrow> i \<in> {1, 2, 3}"
  by (auto simp: contains_def trio_def)

lemma demo_groups_ok: "groups_ok ref_ext (e_groups demo_group)"
  by (simp add: groups_ok_def demo_group_def rec_ok_def trio_accepted)

lemma demo_fields [simp]:
  "e_me demo = dev 2" "e_peers demo = [(dev 1, peer1)]" "e_groups demo = []" "e_closed demo = []" "e_io demo = []" "e_rm demo = []"
  "e_out demo = []" "d_logs demo = []" "e_rx_files demo = []" "e_links demo = []" "e_gone demo = []" "e_gap_sent demo = []"
  "e_me demo_group = dev 2" "e_peers demo_group = [(dev 1, peer1)]" "e_groups demo_group = [(gs_gid trio, new_rec trio_signed)]"
  "e_closed demo_group = []" "e_io demo_group = []" "e_rm demo_group = []" "e_out demo_group = []" "d_logs demo_group = []"
  "e_rx_files demo_group = []" "e_links demo_group = []" "e_gone demo_group = []" "e_gap_sent demo_group = []"
  by (simp_all add: demo_group_def demo_def)

lemma demo_io [simp]: "io_ok demo" "io_ok demo_group" "rm_ok demo" "rm_ok demo_group"
  by (simp_all add: io_ok_def rm_ok_def)

end
