(* ===== verification/GroupInv.thy ===== *)
theory GroupInv
  imports Demo
begin

section \<open>The groups an engine keeps\<close>

text \<open>
  Whatever the user does, whatever frames arrive and whatever writes fail, the groups in memory are signed by
  their creators and only move forward: a group's creator never changes, its epoch never decreases, and two
  different states of one epoch never replace each other.
\<close>

definition succeeds :: "group_state \<Rightarrow> group_state \<Rightarrow> bool" where
  "succeeds st st' \<longleftrightarrow> gs_creator st' = gs_creator st \<and> gs_epoch st \<le> gs_epoch st' \<and> (gs_epoch st = gs_epoch st' \<longrightarrow> st = st')"

text \<open>A record follows another: its state does, a group the user deleted stays hidden, and no received position
  goes back.\<close>

definition succeeds_rec :: "group_rec \<Rightarrow> group_rec \<Rightarrow> bool" where
  "succeeds_rec r r' \<longleftrightarrow> succeeds (gr_state r) (gr_state r') \<and> (gr_hidden r \<longrightarrow> gr_hidden r')
     \<and> (\<forall>a. get0 (gr_have r) a \<le> get0 (gr_have r') a)"

definition evolves :: "'a ext_scheme \<Rightarrow> (string, group_rec) btmap \<Rightarrow> (string, group_rec) btmap \<Rightarrow> bool" where
  "evolves E gs gs' \<longleftrightarrow> groups_ok E gs'
     \<and> (\<forall>g r r'. map_of gs g = Some r \<longrightarrow> map_of gs' g = Some r' \<longrightarrow> succeeds_rec r r')"

lemma succeeds_refl [simp]: "succeeds st st" "succeeds_rec r r"
  by (simp_all add: succeeds_def succeeds_rec_def)

lemma evolves_refl: "groups_ok E gs \<Longrightarrow> evolves E gs gs"
  by (auto simp: evolves_def)

lemma evolves_put:
  assumes "groups_ok E gs" "rec_ok E g r'" "\<And>r. map_of gs g = Some r \<Longrightarrow> succeeds_rec r r'"
  shows "evolves E gs (bt_put g r' gs)"
  using assms by (auto simp: evolves_def groups_ok_put)

lemma evolves_del: "groups_ok E gs \<Longrightarrow> evolves E gs (hm_del g gs)"
  by (auto simp: evolves_def groups_ok_del split: if_splits)

lemma evolves_put_del: "evolves E gs (bt_put g r gs) \<Longrightarrow> evolves E gs (hm_del g (bt_put g r gs))"
  by (auto simp: evolves_def groups_ok_del split: if_splits)

lemma evolves_upd:
  assumes "groups_ok E (e_groups e)"
    and "\<And>r. map_of (e_groups e) g = Some r \<Longrightarrow> rec_ok E g (f r) \<and> succeeds_rec r (f r)"
  shows "evolves E (e_groups e) (e_groups (upd_group g f e))"
proof (cases "map_of (e_groups e) g")
  case (Some r)
  then have "e_groups (upd_group g f e) = bt_put g (f r) (e_groups e)" by (simp add: upd_group_def)
  with assms Some show ?thesis by (auto intro: evolves_put)
qed (use assms(1) in \<open>simp add: upd_group_def evolves_refl\<close>)

text \<open>Counters and flags do not matter.\<close>

lemma evolves_upd_same:
  assumes "groups_ok E (e_groups e)" "\<And>r. gr_state (f r) = gr_state r \<and> gr_have (f r) = gr_have r \<and> (gr_hidden r \<longrightarrow> gr_hidden (f r))"
  shows "evolves E (e_groups e) (e_groups (upd_group g f e))"
proof (rule evolves_upd [OF assms(1)])
  fix r assume "map_of (e_groups e) g = Some r"
  with assms(1) have "rec_ok E g r" by (rule groups_ok_get)
  then show "rec_ok E g (f r) \<and> succeeds_rec r (f r)"
    using assms(2) by (simp add: rec_ok_def succeeds_rec_def)
qed

subsection \<open>Sealing an edited state\<close>

lemma sign_view: "sign E sk st = Inr st' \<Longrightarrow> \<exists>x. st' = st\<lparr>gs_sig := x\<rparr>"
  by (auto simp: sign_def r_bind_Inr split: if_splits)

lemma seal_Inr:
  assumes "seal E e st = Inr st'"
  shows "accepted E st' \<and> (\<exists>x. st' = st\<lparr>gs_sig := x\<rparr>)"
proof -
  from assms have "sign E (e_secret e) st = Inr st'" "check E st' = Inr ()"
    by (auto simp: seal_def split: sum.splits)
  then show ?thesis using sign_view by (auto simp: accepted_def)
qed

definition edit_keeps :: "(engine \<Rightarrow> group_state \<Rightarrow> p2p_error + group_state) \<Rightarrow> bool" where
  "edit_keeps edit \<longleftrightarrow> (\<forall>e st st'. edit e st = Inr st' \<longrightarrow>
     gs_gid st' = gs_gid st \<and> gs_creator st' = gs_creator st \<and> gs_epoch st' = gs_epoch st)"

lemma edits_keep [simp]:
  "edit_keeps (edit_add E i)" "edit_keeps (edit_remove E i)" "edit_keeps edit_close"
  "edit_keeps (\<lambda>_ st. Inr (st\<lparr>gs_name := name\<rparr>))" "edit_keeps (\<lambda>_ st. Inr (drop_member key st))"
  by (auto simp: edit_keeps_def edit_add_def edit_remove_def edit_close_def drop_member_def r_bind_Inr split: if_splits)

lemma u64_next: "(x :: u64) + 1 \<noteq> 0 \<Longrightarrow> x < x + 1"
  by unat_arith

lemma sealed_rec:
  assumes "rec_ok E g rec" "edit_keeps edit" "edit e (gr_state rec) = Inr st0"
    and "seal E e (st0\<lparr>gs_epoch := gs_epoch st0 + 1\<rparr>) = Inr st"
  shows "gs_gid st = g" "accepted E st" "gs_creator st = gs_creator (gr_state rec)"
    "gs_epoch (gr_state rec) < gs_epoch st"
proof -
  have st0: "gs_gid st0 = g" "gs_creator st0 = gs_creator (gr_state rec)" "gs_epoch st0 = gs_epoch (gr_state rec)"
    using assms(1-3) by (auto simp: edit_keeps_def rec_ok_def)
  obtain x where st: "accepted E st" "st = st0\<lparr>gs_epoch := gs_epoch st0 + 1, gs_sig := x\<rparr>"
    using seal_Inr [OF assms(4)] by auto
  have "group_state_wf E st" using st(1) by (rule accepted_wf)
  then have "gs_epoch st \<noteq> 0" by (simp add: group_state_wf_def)
  with st st0 show "gs_gid st = g" "accepted E st" "gs_creator st = gs_creator (gr_state rec)"
    "gs_epoch (gr_state rec) < gs_epoch st"
    using u64_next by auto
qed

lemma edit_group_evolves:
  assumes ok: "groups_ok E (e_groups e)" and "edit_keeps edit"
  shows "evolves E (e_groups e) (e_groups (fst (edit_group_locked E g left edit e)))"
proof (cases "map_of (e_groups e) g")
  case (Some rec)
  note rec = groups_ok_get [OF ok Some]
  have "evolves E (e_groups e) (e_groups (upd_group g (edit_rec st) e))"
    if "edit e (gr_state rec) = Inr st0" "seal E e (st0\<lparr>gs_epoch := gs_epoch st0 + 1\<rparr>) = Inr st" for st0 st
  proof (rule evolves_upd [OF ok])
    fix r assume "map_of (e_groups e) g = Some r"
    with Some have "r = rec" by simp
    then show "rec_ok E g (edit_rec st r) \<and> succeeds_rec r (edit_rec st r)"
      using sealed_rec [OF rec assms(2) that] by (auto simp: rec_ok_def succeeds_rec_def succeeds_def edit_rec_def)
  qed
  with Some show ?thesis
    by (auto simp: edit_group_locked_def Let_def evolves_refl ok split: sum.splits)
qed (simp add: edit_group_locked_def evolves_refl ok)

lemmas edit_ops_defs = group_add_def group_remove_def group_rename_def group_disband_def

lemma edit_ops_evolve:
  assumes "groups_ok E (e_groups e)"
  shows "evolves E (e_groups e) (e_groups (fst (group_add E g s e)))"
    and "evolves E (e_groups e) (e_groups (fst (group_remove E g s e)))"
    and "evolves E (e_groups e) (e_groups (fst (group_rename E g s e)))"
    and "evolves E (e_groups e) (e_groups (fst (group_disband E g e)))"
    and "evolves E (e_groups e) (e_groups (on_group_leave E n g e))"
  using assms edit_group_evolves [OF assms]
  by (auto simp: edit_ops_defs on_group_leave_def Let_def evolves_refl split_beta split: option.splits sum.splits prod.splits)

subsection \<open>The other operations\<close>

lemma purge_groups [simp]: "e_groups (purge_group E g e) = hm_del g (e_groups e)"
  by (simp add: purge_group_def Let_def)

lemma fold_purge_groups: "groups_ok E gs0 \<Longrightarrow> evolves E gs0 (e_groups e) \<Longrightarrow> evolves E gs0 (e_groups (fold (purge_group E) gids e))"
proof (induction gids arbitrary: e)
  case (Cons g gids)
  have "evolves E gs0 (e_groups (purge_group E g e))"
    using Cons.prems(2) by (auto simp: evolves_def groups_ok_del split: if_splits)
  with Cons show ?case by simp
qed simp

lemma remove_peer_evolves:
  assumes "groups_ok E (e_groups e)"
  shows "evolves E (e_groups e) (e_groups (fst (remove_peer E s e)))"
  using assms by (auto simp: remove_peer_def Let_def evolves_refl fold_purge_groups split: option.splits)

lemma group_delete_evolves:
  assumes "groups_ok E (e_groups e)"
  shows "evolves E (e_groups e) (e_groups (fst (group_delete E g e)))"
  using assms by (auto simp: group_delete_def Let_def evolves_refl evolves_del evolves_upd_same split: option.splits)

lemma group_leave_evolves:
  assumes "groups_ok E (e_groups e)"
  shows "evolves E (e_groups e) (e_groups (fst (group_leave E g e)))"
  using assms by (auto simp: group_leave_def Let_def evolves_refl evolves_upd_same split: option.splits)

lemma group_create_evolves:
  assumes "groups_ok E (e_groups e)" "map_of (e_groups e) (new_gid E rnd) = None"
  shows "evolves E (e_groups e) (e_groups (fst (group_create E name ids rnd e)))"
proof (cases "group_create_state E name ids rnd e")
  case (Inr st)
  then obtain st0 where "seal E e st0 = Inr st" "gs_gid st0 = new_gid E rnd"
    by (auto simp: group_create_state_def Let_def r_bind_Inr split: sum.splits if_splits)
  then have "accepted E st" "gs_gid st = new_gid E rnd" using seal_Inr by fastforce+
  then have "evolves E (e_groups e) (bt_put (gs_gid st) (new_rec st) (e_groups e))"
    using assms by (intro evolves_put) (auto simp: rec_ok_def new_rec_def)
  with Inr show ?thesis by (simp add: group_create_def Let_def put_group_def)
qed (simp add: group_create_def evolves_refl assms(1))

lemma apply_tail_groups:
  "e_groups (fst (apply_tail E g ep sys nr res e)) = e_groups e
   \<or> e_groups (fst (apply_tail E g ep sys nr res e)) = hm_del g (e_groups e)"
  by (simp add: apply_tail_def Let_def split: option.splits)

lemma evolves_tail:
  assumes "evolves E gs (e_groups e)"
  shows "evolves E gs (e_groups (fst (apply_tail E g ep sys nr res e)))"
  using apply_tail_groups [of E g ep sys nr res e] assms
  by (auto simp: evolves_def groups_ok_del split: if_splits)

lemma apply_state_evolves:
  assumes ok: "groups_ok E (e_groups e)"
  shows "evolves E (e_groups e) (e_groups (fst (apply_state_locked E st from e)))"
proof (cases "evaluate_incoming E (map_of (e_groups e) (gs_gid st)) st (e_me e)")
  case (Inr ev)
  note acc = Inr [unfolded evaluate_incoming_Inr]
  show ?thesis
  proof (cases "map_of (e_groups e) (gs_gid st)")
    case None
    have "evolves E (e_groups e) (e_groups (put_group (gs_gid st) (new_rec st) e))"
      unfolding put_group_def using ok acc None by (auto intro!: evolves_put simp: rec_ok_def new_rec_def)
    then show ?thesis using Inr acc None ok
      by (auto simp: apply_state_locked_def Let_def evolves_refl intro!: evolves_tail)
  next
    case (Some rec)
    have "evolves E (e_groups e) (e_groups (upd_group (gs_gid st) (\<lambda>_. update_rec st rm rec) e))"
      if "\<not> gs_epoch st \<le> gs_epoch (gr_state rec)" for rm
      using Some acc that by (intro evolves_upd [OF ok]) (auto simp: rec_ok_def succeeds_rec_def succeeds_def update_rec_def)
    then show ?thesis using Inr acc Some ok
      by (auto simp: apply_state_locked_def Let_def evolves_refl intro!: evolves_tail split: if_splits)
  qed
qed (simp add: apply_state_locked_def evolves_refl ok)

lemma group_msg_evolves:
  assumes ok: "groups_ok E (e_groups e)"
  shows "evolves E (e_groups e) (e_groups (on_group_msg E n ch g claimed seq i ts txt rt rx e))"
proof -
  define e1 where "e1 = e_append_log g (in_line E n g seq i ts txt rt rx e) (group_last_ts E g e)"
  have e1: "e_groups e1 = e_groups e" by (simp add: e1_def)
  let ?f = "\<lambda>r. r\<lparr>gr_have := hm_put (nid_show E n) seq (gr_have r)\<rparr>"
  have "evolves E (e_groups e) (e_groups (upd_group g ?f (e1\<lparr>e_ts_eff := x, e_gap_sent := y\<rparr>)))"
    if rec: "map_of (e_groups e) g = Some rec" and less: "\<not> seq \<le> get0 (gr_have rec) (nid_show E n)" for rec x y
    using evolves_upd [of E "e1\<lparr>e_ts_eff := x, e_gap_sent := y\<rparr>" g ?f] groups_ok_get [OF ok rec] ok rec less
    by (auto simp: e1 rec_ok_def succeeds_rec_def)
  then show ?thesis
    using ok by (auto simp: on_group_msg_def Let_def evolves_refl e1_def [symmetric] e1 split: option.splits)
qed

lemma group_ack_evolves:
  assumes "groups_ok E (e_groups e)"
  shows "evolves E (e_groups e) (e_groups (on_group_ack E n g h e))"
  using assms by (auto simp: on_group_ack_def Let_def evolves_refl evolves_upd_same split: option.splits)

lemma sync_rec_fields [simp]:
  "gr_state (sync_rec E e n ep h r) = gr_state r" "gr_have (sync_rec E e n ep h r) = gr_have r"
  "gr_hidden (sync_rec E e n ep h r) = gr_hidden r" "gr_removed (sync_rec E e n ep h r) = gr_removed r"
  "gr_next_seq (sync_rec E e n ep h r) = gr_next_seq r" "gr_pending_leave (sync_rec E e n ep h r) = gr_pending_leave r"
  by (simp_all add: sync_rec_def)

lemma upd_group_groups: "e_groups e' = e_groups e \<Longrightarrow> e_groups (upd_group g f e') = e_groups (upd_group g f e)"
  by (simp add: upd_group_def cong: option.case_cong)

lemma sync_groups:
  "e_groups (on_group_sync E n ch g ep h name e) = e_groups e
   \<or> (\<exists>rec. map_of (e_groups e) g = Some rec
        \<and> e_groups (on_group_sync E n ch g ep h name e) = e_groups (upd_group g (\<lambda>_. sync_rec E e n ep h rec) e))"
proof -
  have "e_groups (upd_group g f (upd_peer n h e\<lparr>e_gone := x\<rparr>)) = e_groups (upd_group g f e)"
    "e_groups (upd_group g f (e\<lparr>e_gone := x\<rparr>)) = e_groups (upd_group g f e)" for f h x
    by (rule upd_group_groups, simp)+
  then show ?thesis by (simp add: on_group_sync_def Let_def split: option.splits)
qed

lemma group_sync_evolves:
  assumes ok: "groups_ok E (e_groups e)"
  shows "evolves E (e_groups e) (e_groups (on_group_sync E n ch g ep h name e))"
  using sync_groups [of E n ch g ep h name e]
proof (elim disjE exE conjE)
  fix rec
  assume rec: "map_of (e_groups e) g = Some rec"
    and new: "e_groups (on_group_sync E n ch g ep h name e) = e_groups (upd_group g (\<lambda>_. sync_rec E e n ep h rec) e)"
  show ?thesis unfolding new
    by (rule evolves_upd [OF ok]) (use rec groups_ok_get [OF ok rec] in \<open>auto simp: rec_ok_def succeeds_rec_def\<close>)
qed (simp add: evolves_refl ok)

lemma group_send_evolves:
  assumes "groups_ok E (e_groups e)"
  shows "evolves E (e_groups e) (e_groups (fst (group_send E g txt rt rx rid e)))"
proof -
  define e1 where "e1 l = e_append_log g l (group_last_ts E g e)" for l
  have e1: "e_groups (e1 l) = e_groups e" for l by (simp add: e1_def)
  show ?thesis
    using assms evolves_upd_same [of E "(e1 l)\<lparr>e_ts_eff := x\<rparr>" for l x]
    by (auto simp: group_send_def Let_def split_beta evolves_refl e1_def [symmetric] e1 split: option.splits)
qed

lemma handle_group_frame_evolves:
  assumes "groups_ok E (e_groups e)"
  shows "evolves E (e_groups e) (e_groups (handle_group_frame E n f ch e))"
  using assms apply_state_evolves [OF assms] group_sync_evolves [OF assms] group_msg_evolves [OF assms]
    group_ack_evolves [OF assms] edit_ops_evolve(5) [OF assms]
  by (simp add: handle_group_frame_def Let_def split_beta evolves_refl split: frame.splits option.splits sum.splits)

lemma handle_frame_evolves:
  assumes "groups_ok E (e_groups e)"
  shows "evolves E (e_groups e) (e_groups (handle_frame E n f ch e))"
  using assms handle_group_frame_evolves [OF assms]
  by (simp add: handle_frame_def evolves_refl split: frame.splits option.splits)

subsection \<open>Restart\<close>

lemma map_of_map_key: "map_of (map (\<lambda>(k, v). (k, f k v)) m) k = map_option (f k) (map_of m k)"
  by (induction m) auto

lemma repaired_get:
  "map_of (repaired_groups E e) g = map_option (repair_rec (scan_recs (nid_show E (e_me e)) (log_of e g)))
     (map_of (load_recs E (case d_groups e of None \<Rightarrow> [] | Some rs \<Rightarrow> rs) []) g)"
  unfolding repaired_groups_def by (rule map_of_map_key)

lemma repaired_groups_ok: "groups_ok E (repaired_groups E e)"
proof -
  let ?rs = "load_recs E (case d_groups e of None \<Rightarrow> [] | Some rs \<Rightarrow> rs) []"
  have ok: "groups_ok E ?rs" using load_recs_ok [of E "[]"] by (simp add: groups_ok_def MAX_GROUPS_def)
  have "map fst (repaired_groups E e) = map fst ?rs" by (simp add: repaired_groups_def comp_def split_beta)
  then have "bt_ok (repaired_groups E e)" using ok by (simp add: groups_ok_def)
  moreover have "rec_ok E g r" if r: "map_of (repaired_groups E e) g = Some r" for g r
  proof -
    obtain r0 where "map_of ?rs g = Some r0" "gr_state r = gr_state r0"
      using r unfolding repaired_get by (auto simp: repair_rec_def)
    with groups_ok_get [OF ok] show ?thesis by (auto simp: rec_ok_def)
  qed
  ultimately show ?thesis by (simp add: groups_ok_def)
qed

lemma start_groups [simp]: "e_groups (start E tok e) = repaired_groups E e"
  by (simp add: start_def Let_def)

subsection \<open>Every action\<close>

text \<open>Group ids are 16 random bytes; the properties below are for ids that are not in use yet.\<close>

definition gid_fresh :: "'a ext_scheme \<Rightarrow> engine \<Rightarrow> action \<Rightarrow> bool" where
  "gid_fresh E e a = (case a of AGroupCreate _ _ rnd \<Rightarrow> map_of (e_groups e) (new_gid E rnd) = None | _ \<Rightarrow> True)"

definition is_restart :: "action \<Rightarrow> bool" where
  "is_restart a = (case a of ARestart _ \<Rightarrow> True | _ \<Rightarrow> False)"

lemma exec_evolves:
  assumes ok: "groups_ok E (e_groups e)" and "gid_fresh E e a" "\<not> is_restart a"
  shows "evolves E (e_groups e) (e_groups (exec E a e))"
  using assms(2,3)
proof (cases a)
  case (ARead n f ch)
  then show ?thesis using handle_frame_evolves [OF ok] by simp
qed (simp_all add: gid_fresh_def is_restart_def evolves_refl ok remove_peer_evolves group_create_evolves edit_ops_evolve
    group_leave_evolves group_delete_evolves group_send_evolves Let_def)

lemma exec_groups_ok:
  assumes "groups_ok E (e_groups e)" "gid_fresh E e a"
  shows "groups_ok E (e_groups (exec E a e))"
proof (cases "is_restart a")
  case True
  then show ?thesis by (auto simp: is_restart_def repaired_groups_ok split: action.splits)
next
  case False
  with exec_evolves [OF assms this] show ?thesis by (simp add: evolves_def)
qed

text \<open>C1: in every state the engine can reach, restarts, failing writes and frames of any peer included, each
  group is stored under its own id and its state satisfies the limits and carries its creator's signature.\<close>

theorem groups_always_accepted:
  assumes "reach E (gid_fresh E) e e'" "groups_ok E (e_groups e)"
  shows "\<forall>g r. map_of (e_groups e') g = Some r \<longrightarrow> gs_gid (gr_state r) = g \<and> accepted E (gr_state r)"
proof -
  have "groups_ok E (e_groups e')"
    using assms by (rule reach_invariant) (rule exec_groups_ok)
  then show ?thesis by (auto dest: groups_ok_get simp: rec_ok_def)
qed

theorem groups_always_accepted_witness:
  "gs_gid (gr_state (new_rec trio_signed)) = gs_gid trio \<and> accepted ref_ext (gr_state (new_rec trio_signed))"
proof -
  have "reach ref_ext (gid_fresh ref_ext) demo_group (exec ref_ext (ASetName ''B2'') demo_group)"
    by (rule reach_step [OF reach_refl]) (simp add: gid_fresh_def)
  moreover have "map_of (e_groups (exec ref_ext (ASetName ''B2'') demo_group)) (gs_gid trio) = Some (new_rec trio_signed)"
    by simp
  ultimately show ?thesis using groups_always_accepted [OF _ demo_groups_ok] by blast
qed

text \<open>C2: one action of a running engine never changes a group's creator, never lowers its epoch, and never
  replaces a state by a different one of the same epoch: a replayed or forked roster has no effect. Nor does the
  position up to which an author's messages are stored ever go back.\<close>

theorem group_states_move_forward:
  assumes "groups_ok E (e_groups e)" "gid_fresh E e a" "\<not> is_restart a"
    and "map_of (e_groups e) g = Some r" "map_of (e_groups (exec E a e)) g = Some r'"
  shows "gs_creator (gr_state r') = gs_creator (gr_state r) \<and> gs_epoch (gr_state r) \<le> gs_epoch (gr_state r')
    \<and> (gs_epoch (gr_state r) = gs_epoch (gr_state r') \<longrightarrow> gr_state r = gr_state r')
    \<and> (\<forall>a. get0 (gr_have r) a \<le> get0 (gr_have r') a)"
  using exec_evolves [OF assms(1-3)] assms(4,5) unfolding evolves_def succeeds_rec_def succeeds_def by blast

theorem group_states_move_forward_witness:
  "\<exists>r'. map_of (e_groups (exec ref_ext (AGroupLeave (gs_gid trio)) demo_group)) (gs_gid trio) = Some r' \<and> gr_removed r'
     \<and> gs_creator (gr_state r') = dev_id 1"
proof -
  let ?a = "AGroupLeave (gs_gid trio)"
  have "map_of (e_groups (exec ref_ext ?a demo_group)) (gs_gid trio)
      = Some ((new_rec trio_signed)\<lparr>gr_removed := True, gr_pending_leave := True\<rparr>)"
    by (simp add: group_leave_def Let_def split: option.splits)
  then obtain r' where r': "map_of (e_groups (exec ref_ext ?a demo_group)) (gs_gid trio) = Some r'" "gr_removed r'"
    by simp
  have "map_of (e_groups demo_group) (gs_gid trio) = Some (new_rec trio_signed)" by simp
  from group_states_move_forward [OF demo_groups_ok _ _ this r'(1)] r'
  show ?thesis by (simp add: gid_fresh_def is_restart_def)
qed

end
