(* ===== verification/Numbering.thy ===== *)
theory Numbering
  imports GroupInv
begin

section \<open>Numbered messages in the group logs\<close>

text \<open>
  What the bookkeeping of received positions and of own sequence numbers has in common: a position of the group
  record counts the messages of one author and one direction in the group's log. The locale \<open>numbered\<close> states
  what this needs of the two operations that store a message; every other action of the engine keeps the
  relation, which is proved here once. Theory Delivery interprets the locale for the received messages of each
  author, theory Outbox for the own ones.
\<close>

definition seqlog :: "string \<Rightarrow> string \<Rightarrow> group_log_rec list \<Rightarrow> group_log_rec list" where
  "seqlog d a l = filter (\<lambda>r. gl_dir r = d \<and> gl_from r = a \<and> gl_seq r \<noteq> 0) l"

definition first_seqs :: "u64 \<Rightarrow> u64 list" where
  "first_seqs h = map of_nat [1..<Suc (unat h)]"

lemma seqlog_append [simp]: "seqlog d a (l @ l') = seqlog d a l @ seqlog d a l'"
  by (simp add: seqlog_def)

lemma seqlog_Nil [simp]: "seqlog d a [] = []"
  by (simp add: seqlog_def)

lemma seqlog_skip: "gl_dir r \<noteq> d \<or> gl_seq r = 0 \<Longrightarrow> seqlog d a [r] = []"
  by (auto simp: seqlog_def)

lemma first_seqs_0 [simp]: "first_seqs 0 = []"
  by (simp add: first_seqs_def)

lemma first_seqs_len [simp]: "length (first_seqs h) = unat h"
  by (simp add: first_seqs_def)

lemma first_seqs_take: "h \<le> k \<Longrightarrow> first_seqs h = take (unat h) (first_seqs k)"
  by (simp add: first_seqs_def word_le_nat_alt take_map take_upt del: upt_Suc)

lemma first_seqs_next: "h < s \<Longrightarrow> s = h + 1 \<Longrightarrow> first_seqs s = first_seqs h @ [s]"
proof -
  assume "h < s" "s = h + 1"
  then have "unat s = Suc (unat h)" using unat_Suc_less [of h s] by simp
  moreover have "of_nat (Suc (unat h)) = s" using \<open>s = h + 1\<close> by simp
  ultimately show ?thesis by (simp add: first_seqs_def)
qed

lemma first_seqs_mem: "x \<in> set (first_seqs h) \<longleftrightarrow> x \<noteq> 0 \<and> x \<le> h"
proof
  assume "x \<in> set (first_seqs h)"
  then obtain i where "x = of_nat i" "1 \<le> i" "i \<le> unat h" by (auto simp: first_seqs_def)
  moreover have "unat (of_nat i :: u64) = i"
    using \<open>i \<le> unat h\<close> unsigned_less [of h, where 'a = nat] by (simp add: unat_of_nat)
  ultimately show "x \<noteq> 0 \<and> x \<le> h" by (auto simp: word_le_nat_alt)
next
  assume "x \<noteq> 0 \<and> x \<le> h"
  then show "x \<in> set (first_seqs h)"
    by (auto simp: first_seqs_def Suc_le_eq unat_gt_0 word_le_nat_alt intro!: image_eqI [of _ _ "unat x"] simp del: upt_Suc)
qed

lemma foldl_max_nz: "foldl max (m :: u64) (filter (\<lambda>s. s \<noteq> 0) xs) = foldl max m xs"
  by (induction xs arbitrary: m) (auto simp: max_def)

lemma foldl_max_first: "foldl max 0 (first_seqs h) = h"
proof (cases "h = 0")
  case False
  then have "h \<in> set (first_seqs h)" "\<And>x. x \<in> set (first_seqs h) \<Longrightarrow> x \<le> h" by (simp_all add: first_seqs_mem)
  then show ?thesis
    using foldl_max_ge [of 0 "first_seqs h"] foldl_max_mem [of 0 "first_seqs h"] False
    by (metis insertE order_antisym_conv word_zero_le)
qed simp

subsection \<open>Logs that agree in one direction\<close>

text \<open>The records of a log depend on the log files alone, so what an operation leaves alone is known.\<close>

definition lg :: "(string, group_log_rec list) hmap \<Rightarrow> string \<Rightarrow> group_log_rec list" where
  "lg d g = (case map_of d g of None \<Rightarrow> [] | Some l \<Rightarrow> l)"

lemma log_of_lg: "log_of e g = lg (d_logs e) g"
  by (simp add: log_of_def lg_def)

lemma lg_put [simp]: "lg (hm_put g l d) h = (if h = g then l else lg d h)"
  by (simp add: lg_def)

lemma d_logs_append [simp]: "d_logs (e_append_log g r e) = (if io_ok e then hm_put g (lg (d_logs e) g @ [r]) (d_logs e) else d_logs e)"
  by (simp add: e_append_log_def log_of_lg)

definition same_dir :: "string \<Rightarrow> engine \<Rightarrow> engine \<Rightarrow> bool" where
  "same_dir d e e' \<longleftrightarrow> (\<forall>g a. seqlog d a (log_of e' g) = seqlog d a (log_of e g))"

lemma same_dir_lg: "same_dir d e e' \<longleftrightarrow> (\<forall>g a. seqlog d a (lg (d_logs e') g) = seqlog d a (lg (d_logs e) g))"
  by (simp add: same_dir_def log_of_lg)

lemma same_dir_logs [simp]: "d_logs e' = d_logs e \<Longrightarrow> same_dir d e e'"
  by (simp add: same_dir_lg)

lemma same_dir_trans: "same_dir d e e' \<Longrightarrow> same_dir d e' e'' \<Longrightarrow> same_dir d e e''"
  by (simp add: same_dir_def)

lemma same_dir_logs_trans: "same_dir d e e' \<Longrightarrow> d_logs e'' = d_logs e' \<Longrightarrow> same_dir d e e''"
  by (simp add: same_dir_lg)

lemma log_of_simps [simp]:
  "log_of (emit ev e) = log_of e" "log_of (group_last_ts E g e) = log_of e" "log_of (e\<lparr>e_ts_eff := x\<rparr>) = log_of e"
  by (simp_all add: log_of_def fun_eq_iff)

lemma same_dir_log_sys: "d \<noteq> SYS_DIR \<Longrightarrow> same_dir d e (log_sys E g ep i lines e)"
proof (induction E g ep i lines e rule: log_sys.induct)
  case (2 E g epoch i kind line lines e)
  have "seqlog d a [sys_rec kind epoch i line ts] = []" for a ts
    using \<open>d \<noteq> SYS_DIR\<close> by (simp add: seqlog_skip sys_rec_def)
  with 2 show ?case by (simp add: same_dir_def Let_def)
qed (simp add: same_dir_def)

declare log_sys.simps [simp del]

text \<open>A direction other than that of system lines: most operations store no numbered message of it.\<close>

locale log_dir =
  fixes d :: string
  assumes d: "d \<noteq> SYS_DIR"
begin

lemma sys_after: "d_logs e0 = d_logs e \<Longrightarrow> same_dir d e (log_sys E g ep i lines e0)"
  by (rule same_dir_trans [OF same_dir_logs same_dir_log_sys [OF d]])

lemma sys_upd: "d_logs e' = d_logs (log_sys E g ep i lines (groups_changed E (upd_group g f e))) \<Longrightarrow> same_dir d e e'"
  by (rule same_dir_logs_trans [OF sys_after]) simp_all

lemma sys_put: "d_logs e' = d_logs (log_sys E g ep i lines (groups_changed E (put_group g r e))) \<Longrightarrow> same_dir d e e'"
  by (rule same_dir_logs_trans [OF sys_after]) simp_all

lemma edit_same_dir: "same_dir d e (fst (edit_group_locked E g left edit e))"
  by (auto simp: edit_group_locked_def Let_def intro!: sys_upd split: option.splits sum.splits)

lemma edit_ops_same_dir:
  "same_dir d e (fst (group_add E g s e))" "same_dir d e (fst (group_remove E g s e))"
  "same_dir d e (fst (group_rename E g s e))" "same_dir d e (fst (group_disband E g e))"
  by (auto simp: edit_ops_defs Let_def edit_same_dir split: option.splits sum.splits)

lemma on_leave_same_dir: "same_dir d e (on_group_leave E n g e)"
  by (auto simp: on_group_leave_def Let_def split_beta edit_same_dir intro: same_dir_logs_trans [OF edit_same_dir]
      split: option.splits sum.splits)

lemma create_same_dir: "same_dir d e (fst (group_create E name ids rnd e))"
  by (auto simp: group_create_def Let_def intro!: sys_put split: sum.splits)

lemma leave_same_dir: "same_dir d e (fst (group_leave E g e))"
  by (auto simp: group_leave_def Let_def intro!: sys_upd split: option.splits)

lemma file_end_same_dir: "same_dir d e (on_group_file_end E n g i e)"
  by (simp add: same_dir_lg on_group_file_end_def Let_def seqlog_skip split: option.splits)

lemma send_file_same_dir: "same_dir d e (fst (group_send_file E g src name cap rid e))"
  by (simp add: same_dir_lg group_send_file_def Let_def seqlog_skip split: option.splits sum.splits prod.splits)

lemma group_file_same_dir: "same_dir d e (on_group_file E n f ch e)"
  by (simp add: on_group_file_def Let_def file_end_same_dir split: frame.splits)

end

subsection \<open>Removals that succeed\<close>

lemma rm_ok_Nil: "e_rm e = [] \<Longrightarrow> rm_ok e"
  by (simp add: rm_ok_def)

lemma rm_prims [simp]:
  "e_rm (remove_file p e) = tl (e_rm e)" "e_rm (remove_dir_all p e) = tl (e_rm e)" "e_rm (e_delete_log g e) = tl (e_rm e)"
  by (simp_all add: remove_file_def remove_dir_all_def e_delete_log_def)

lemma fold_rm: "e_rm e = [] \<Longrightarrow> e_rm (fold (\<lambda>(k, t). remove_file (rx_partial t)) xs e) = []"
  by (induction xs arbitrary: e) auto

lemma inbound_rm: "e_rm e = [] \<Longrightarrow> e_rm (drop_group_inbound pr e) = []"
  by (simp add: drop_group_inbound_def Let_def fold_rm)

lemma blobs_rm: "e_rm e = [] \<Longrightarrow> e_rm (delete_group_blobs g e) = []"
  by (simp add: delete_group_blobs_def Let_def inbound_rm)

lemma purge_rm: "e_rm e = [] \<Longrightarrow> e_rm (purge_group E g e) = []"
  by (simp add: purge_group_def Let_def blobs_rm)

lemma fold_purge_rm: "e_rm e = [] \<Longrightarrow> e_rm (fold (purge_group E) gids e) = []"
  by (induction gids arbitrary: e) (auto simp: purge_rm)

lemma frame_rm: "e_rm e = [] \<Longrightarrow> e_rm (handle_frame E n f ch e) = []"
proof -
  assume rm: "e_rm e = []"
  have "e_rm (on_file_end E n ch i e) = []" "e_rm (on_group_file_chunk E n g i data e) = []" "e_rm (on_group_file_end E n g i e) = []"
    for i g data
    using rm by (simp_all add: on_file_end_def on_group_file_chunk_def on_group_file_end_def Let_def split: option.splits)
  moreover have "e_rm (fst (apply_tail E g ep sys nr res e')) = []" if "e_rm e' = []" for g ep sys nr res e'
    using that by (simp add: apply_tail_def Let_def purge_rm split: option.splits)
  then have "e_rm (fst (apply_state_locked E st n e)) = []" for st
    using rm by (simp add: apply_state_locked_def Let_def split: option.splits sum.splits evaluation.splits)
  ultimately show ?thesis
    using rm by (simp add: handle_frame_def handle_group_frame_def on_group_file_def Let_def split_beta inbound_rm
      split: frame.splits option.splits sum.splits)
qed

definition rm_works :: "action \<Rightarrow> bool" where
  "rm_works a = (case a of AIo _ rm \<Rightarrow> rm = [] | _ \<Rightarrow> True)"

lemma exec_rm:
  assumes rm: "e_rm e = []" and "rm_works a"
  shows "e_rm (exec E a e) = []"
proof (cases a)
  case (ARemovePeer s)
  then show ?thesis using rm by (simp add: remove_peer_def Let_def fold_purge_rm split: option.splits)
next
  case (AGroupDelete g)
  then show ?thesis using rm by (simp add: group_delete_def Let_def purge_rm blobs_rm split: option.splits)
next
  case (AGroupSendFile g src name cap rid)
  then show ?thesis using rm by (simp add: group_send_file_def Let_def split: option.splits sum.splits prod.splits)
next
  case (ARestart tok)
  then show ?thesis using rm by (simp add: start_def Let_def)
qed (use assms in \<open>simp_all add: rm_works_def frame_rm remove_live_def Let_def inbound_rm split_beta split: option.splits\<close>)

subsection \<open>Restarts that find what was saved\<close>

text \<open>A restart finds what the engine had when the last write of \<open>groups.json\<close> succeeded and all groups fit in it.\<close>

definition saved :: "engine \<Rightarrow> bool" where
  "saved e \<longleftrightarrow> d_groups e = Some (map snd (e_groups e)) \<and> length (e_groups e) \<le> MAX_GROUPS"

lemma saved_reload:
  assumes "groups_ok E (e_groups e)" "saved e"
  shows "map_of (repaired_groups E e) g = map_option (repair_rec (scan_recs (nid_show E (e_me e)) (log_of e g))) (map_of (e_groups e) g)"
proof -
  have "load_recs E (map snd (e_groups e)) [] = [] @ e_groups e"
    using assms by (intro load_recs_saved) (auto simp: groups_ok_def saved_def)
  with assms(2) show ?thesis by (simp add: repaired_get saved_def)
qed

text \<open>The runs considered: fresh group ids, working removals, and restarts that find what was saved.\<close>

definition orderly :: "'a ext_scheme \<Rightarrow> engine \<Rightarrow> action \<Rightarrow> bool" where
  "orderly E e a \<longleftrightarrow> gid_fresh E e a \<and> rm_works a \<and> (is_restart a \<longrightarrow> saved e)"

subsection \<open>A position that counts the messages of the log\<close>

definition logged_at :: "string \<Rightarrow> string \<Rightarrow> (group_rec \<Rightarrow> u64) \<Rightarrow> engine \<Rightarrow> string \<Rightarrow> bool" where
  "logged_at d a pos e g = (case map_of (e_groups e) g of
     None \<Rightarrow> seqlog d a (log_of e g) = []
   | Some r \<Rightarrow> gr_hidden r \<or> map gl_seq (seqlog d a (log_of e g)) = first_seqs (pos r))"

definition logged :: "string \<Rightarrow> string \<Rightarrow> (group_rec \<Rightarrow> u64) \<Rightarrow> engine \<Rightarrow> bool" where
  "logged d a pos e \<longleftrightarrow> (\<forall>g. logged_at d a pos e g)"

lemma logged_cong: "e_groups e' = e_groups e \<Longrightarrow> d_logs e' = d_logs e \<Longrightarrow> logged d a pos e' = logged d a pos e"
  by (simp add: logged_def logged_at_def log_of_lg cong: option.case_cong)

lemma logged_seqs:
  assumes "logged d a pos e" "map_of (e_groups e) g = Some r" "\<not> gr_hidden r"
  shows "map gl_seq (seqlog d a (log_of e g)) = first_seqs (pos r)"
proof -
  have "logged_at d a pos e g" using assms(1) by (simp add: logged_def)
  with assms(2,3) show ?thesis by (simp add: logged_at_def)
qed

text \<open>A group and its log disappear together, or the group is hidden.\<close>

lemma logged_dropped:
  assumes "logged d a pos e" "\<And>h. h \<noteq> g \<Longrightarrow> map_of (e_groups e') h = map_of (e_groups e) h"
    and "\<And>h. log_of e' h = (if h = g then [] else log_of e h)"
    and "case map_of (e_groups e') g of None \<Rightarrow> True | Some r \<Rightarrow> gr_hidden r"
  shows "logged d a pos e'"
  unfolding logged_def
proof
  fix h
  have "logged_at d a pos e h" using assms(1) by (simp add: logged_def)
  then show "logged_at d a pos e' h"
    using assms(2) [of h] assms(3) [of h] assms(4) by (cases "h = g") (auto simp: logged_at_def split: option.splits)
qed

text \<open>The group keeps its counters and can only become hidden.\<close>

definition keeps_counters :: "group_rec \<Rightarrow> group_rec \<Rightarrow> bool" where
  "keeps_counters r r' \<longleftrightarrow> gr_have r' = gr_have r \<and> gr_next_seq r' = gr_next_seq r \<and> (gr_hidden r \<longrightarrow> gr_hidden r')"

locale numbered = log_dir +
  fixes E :: "'x ext_scheme" and me :: string and a :: string and pos :: "group_rec \<Rightarrow> u64"
    and fits :: "engine \<Rightarrow> action \<Rightarrow> bool"
  assumes pos_cong: "gr_have r' = gr_have r \<Longrightarrow> gr_next_seq r' = gr_next_seq r \<Longrightarrow> pos r' = pos r"
    and pos_new: "pos (new_rec st) = 0"
    and repair_law: "map gl_seq (seqlog d a l) = first_seqs (pos r) \<Longrightarrow> pos (repair_rec (scan_recs me l) r) = pos r"
    and msg_law: "logged d a pos e \<Longrightarrow> logged d a pos (on_group_msg E n ch g claimed seq i ts txt rt rx e)"
    and send_law: "logged d a pos e \<Longrightarrow> fits e (AGroupSend g txt rt rx rid) \<Longrightarrow> nid_show E (e_me e) = me \<Longrightarrow>
      logged d a pos (fst (group_send E g txt rt rx rid e))"
begin

lemma logged_same:
  assumes "logged d a pos e" "same_dir d e e'"
    and "\<And>g. map_of (e_groups e') g = map_of (e_groups e) g
       \<or> (\<exists>r r'. map_of (e_groups e) g = Some r \<and> map_of (e_groups e') g = Some r' \<and> keeps_counters r r')
       \<or> (\<exists>st. map_of (e_groups e) g = None \<and> map_of (e_groups e') g = Some (new_rec st))"
  shows "logged d a pos e'"
  unfolding logged_def
proof
  fix g
  have old: "logged_at d a pos e g" using assms(1) by (simp add: logged_def)
  have log: "seqlog d a (log_of e' g) = seqlog d a (log_of e g)" using assms(2) by (simp add: same_dir_def)
  show "logged_at d a pos e' g"
    using assms(3) [of g] old
    by (auto simp: logged_at_def log keeps_counters_def pos_new dest: pos_cong split: option.splits)
qed

lemma logged_frame:
  assumes "logged d a pos e" "e_groups e' = e_groups e" "same_dir d e e'"
  shows "logged d a pos e'"
  by (rule logged_same [OF assms(1,3)]) (simp add: assms(2))

lemma logged_keep: "logged d a pos e \<Longrightarrow> e_groups e' = e_groups e \<Longrightarrow> d_logs e' = d_logs e \<Longrightarrow> logged d a pos e'"
  by (auto intro: logged_frame)

lemma logged_upd:
  assumes "logged d a pos e" "same_dir d e e'" "e_groups e' = e_groups (upd_group g f e)"
    and "\<And>r. map_of (e_groups e) g = Some r \<Longrightarrow> keeps_counters r (f r)"
  shows "logged d a pos e'"
proof (rule logged_same [OF assms(1,2)])
  fix h
  show "map_of (e_groups e') h = map_of (e_groups e) h
      \<or> (\<exists>r r'. map_of (e_groups e) h = Some r \<and> map_of (e_groups e') h = Some r' \<and> keeps_counters r r')
      \<or> (\<exists>st. map_of (e_groups e) h = None \<and> map_of (e_groups e') h = Some (new_rec st))"
    using assms(4) by (cases "map_of (e_groups e) g") (auto simp: assms(3))
qed

lemma logged_purge:
  assumes "logged d a pos e" "rm_ok e"
  shows "logged d a pos (purge_group E g e)"
proof -
  have "d_logs (purge_group E g e) = hm_del g (d_logs e)"
    using assms(2) by (simp add: purge_group_def Let_def e_delete_log_def rm_ok_def)
  then show ?thesis by (intro logged_dropped [OF assms(1), of g]) (simp_all add: log_of_def)
qed

lemma edit_logged:
  assumes "logged d a pos e"
  shows "logged d a pos (fst (edit_group_locked E g left edit e))"
proof -
  have "e_groups (fst (edit_group_locked E g left edit e)) = e_groups e
      \<or> (\<exists>st. e_groups (fst (edit_group_locked E g left edit e)) = e_groups (upd_group g (edit_rec st) e))"
    by (simp add: edit_group_locked_def Let_def split: option.splits sum.splits) metis
  then show ?thesis
  proof (elim disjE exE)
    fix st
    assume "e_groups (fst (edit_group_locked E g left edit e)) = e_groups (upd_group g (edit_rec st) e)"
    then show ?thesis
      by (rule logged_upd [OF assms edit_same_dir]) (simp add: keeps_counters_def edit_rec_def)
  qed (rule logged_frame [OF assms _ edit_same_dir])
qed

lemma edit_ops_logged:
  assumes "logged d a pos e"
  shows "logged d a pos (fst (group_add E g s e))" "logged d a pos (fst (group_remove E g s e))"
    "logged d a pos (fst (group_rename E g s e))" "logged d a pos (fst (group_disband E g e))" "logged d a pos (on_group_leave E n g e)"
proof -
  show "logged d a pos (fst (group_add E g s e))" "logged d a pos (fst (group_remove E g s e))"
    "logged d a pos (fst (group_rename E g s e))" "logged d a pos (fst (group_disband E g e))"
    using assms edit_logged [OF assms] by (auto simp: edit_ops_defs Let_def split: option.splits sum.splits)
  have "logged d a pos (group_warn E n msg e')" if "logged d a pos e'" for msg e'
    using that by (rule logged_keep) simp_all
  with assms edit_logged [OF assms] show "logged d a pos (on_group_leave E n g e)"
    by (simp add: on_group_leave_def Let_def split_beta split: option.splits sum.splits)
qed

lemma create_logged:
  assumes "logged d a pos e" "map_of (e_groups e) (new_gid E rnd) = None"
  shows "logged d a pos (fst (group_create E name ids rnd e))"
proof (cases "group_create_state E name ids rnd e")
  case (Inr st)
  then have gid: "gs_gid st = new_gid E rnd"
    by (auto simp: group_create_state_def Let_def r_bind_Inr dest!: seal_Inr split: sum.splits if_splits)
  have "e_groups (fst (group_create E name ids rnd e)) = bt_put (gs_gid st) (new_rec st) (e_groups e)"
    using Inr by (simp add: group_create_def Let_def put_group_def)
  then show ?thesis using assms gid
    by (intro logged_same [OF assms(1) create_same_dir]) auto
qed (simp add: group_create_def assms(1))

lemma leave_logged:
  assumes "logged d a pos e"
  shows "logged d a pos (fst (group_leave E g e))"
proof -
  let ?f = "\<lambda>r. r\<lparr>gr_removed := True, gr_pending_leave := True\<rparr>"
  have "e_groups (fst (group_leave E g e)) = e_groups e \<or> e_groups (fst (group_leave E g e)) = e_groups (upd_group g ?f e)"
    by (simp add: group_leave_def Let_def split: option.splits)
  then show ?thesis
    using logged_upd [OF assms leave_same_dir, of E g g ?f] logged_frame [OF assms _ leave_same_dir, of E g]
    by (auto simp: keeps_counters_def)
qed

lemma delete_logged:
  assumes "logged d a pos e" "rm_ok e"
  shows "logged d a pos (fst (group_delete E g e))"
proof -
  let ?e2 = "e_delete_log g (upd_group g (\<lambda>r. r\<lparr>gr_hidden := True\<rparr>) e)"
  have "log_of ?e2 h = (if h = g then [] else log_of e h)" for h
    using assms(2) by (simp add: log_of_def e_delete_log_def rm_ok_def)
  then have "logged d a pos ?e2" if "map_of (e_groups e) g = Some r" for r
    using that by (intro logged_dropped [OF assms(1), of g]) simp_all
  then have "logged d a pos e'" if "map_of (e_groups e) g = Some r" "e_groups e' = e_groups ?e2" "d_logs e' = d_logs ?e2" for e' r
    using that by (auto intro: logged_keep)
  with assms logged_purge [OF assms] show ?thesis
    by (auto simp: group_delete_def Let_def split: option.splits)
qed

lemma fold_purge_logged:
  "logged d a pos e \<Longrightarrow> e_rm e = [] \<Longrightarrow> logged d a pos (fold (purge_group E) gids e)"
  by (induction gids arbitrary: e) (auto simp: purge_rm logged_purge rm_ok_Nil)

lemma remove_peer_logged:
  assumes "logged d a pos e" "e_rm e = []"
  shows "logged d a pos (fst (remove_peer E s e))"
proof -
  let ?e1 = "\<lambda>n. persist_peers E (e\<lparr>e_peers := hm_del n (e_peers e), e_pair_requests := hm_del n (e_pair_requests e)\<rparr>)"
  have e1: "logged d a pos (?e1 n)" "e_rm (?e1 n) = []" for n using assms by (auto intro: logged_keep)
  show ?thesis using assms(1) e1(1)
    by (auto simp: remove_peer_def Let_def intro: logged_keep [OF fold_purge_logged [OF e1]] split: option.splits)
qed

lemma tail_logged:
  assumes "logged d a pos e" "e_rm e = []"
  shows "logged d a pos (fst (apply_tail E g ep sys nr res e))"
proof -
  let ?e2 = "log_sys E g ep 0 sys (groups_changed E e)"
  have e1: "logged d a pos (groups_changed E e)" using assms(1) by (rule logged_keep) simp_all
  have e2: "logged d a pos ?e2" by (rule logged_frame [OF assms(1)]) (simp_all add: sys_after)
  have "logged d a pos (after_state_applied E g e')" if "e_groups e' = e_groups ?e2" "d_logs e' = d_logs ?e2" for e'
    using that by (intro logged_keep [OF e2]) simp_all
  with e1 e2 logged_purge [OF e2] assms(2) show ?thesis
    by (auto simp: apply_tail_def Let_def rm_ok_Nil split: option.splits)
qed

lemma apply_logged:
  assumes "logged d a pos e" "e_rm e = []"
  shows "logged d a pos (fst (apply_state_locked E st from e))"
proof -
  have "logged d a pos (put_group (gs_gid st) (new_rec st) e)" if "map_of (e_groups e) (gs_gid st) = None"
    using that by (intro logged_same [OF assms(1)]) (auto simp: put_group_def)
  moreover have "logged d a pos (upd_group (gs_gid st) (\<lambda>_. update_rec st rm r) e)" if "map_of (e_groups e) (gs_gid st) = Some r" for rm r
    using that by (intro logged_upd [OF assms(1)]) (auto simp: keeps_counters_def update_rec_def)
  moreover have "evaluate_incoming E (map_of (e_groups e) (gs_gid st)) st (e_me e) = Inr Create \<Longrightarrow> map_of (e_groups e) (gs_gid st) = None"
    by (auto simp: evaluate_incoming_Inr split: option.splits if_splits)
  ultimately show ?thesis using assms
    by (auto simp: apply_state_locked_def Let_def intro!: tail_logged split: sum.splits evaluation.splits option.splits)
qed

lemma ack_logged: "logged d a pos e \<Longrightarrow> logged d a pos (on_group_ack E n g h e)"
proof (rule logged_same)
  let ?e' = "on_group_ack E n g h e"
  show "map_of (e_groups ?e') k = map_of (e_groups e) k
      \<or> (\<exists>r r'. map_of (e_groups e) k = Some r \<and> map_of (e_groups ?e') k = Some r' \<and> keeps_counters r r')
      \<or> (\<exists>st. map_of (e_groups e) k = None \<and> map_of (e_groups ?e') k = Some (new_rec st))" for k
    by (auto simp: on_group_ack_def Let_def keeps_counters_def split: option.splits)
qed simp_all

lemma sync_logged: "logged d a pos e \<Longrightarrow> logged d a pos (on_group_sync E n ch g ep h name e)"
  using sync_groups [of E n ch g ep h name e]
proof (elim disjE exE conjE)
  fix rec
  assume "logged d a pos e" and rec: "map_of (e_groups e) g = Some rec"
    and "e_groups (on_group_sync E n ch g ep h name e) = e_groups (upd_group g (\<lambda>_. sync_rec E e n ep h rec) e)"
  from this(1) _ this(3) show ?thesis by (rule logged_upd) (simp_all add: rec keeps_counters_def)
next
  assume "logged d a pos e" "e_groups (on_group_sync E n ch g ep h name e) = e_groups e"
  then show ?thesis by (rule logged_frame) simp
qed

lemma group_frame_logged:
  assumes "logged d a pos e" "e_rm e = []"
  shows "logged d a pos (handle_group_frame E n f ch e)"
proof -
  have warn: "logged d a pos (group_warn E n msg e')" if "logged d a pos e'" for msg e'
    using that by (rule logged_keep) simp_all
  show ?thesis
    using assms(1) apply_logged [OF assms] sync_logged [OF assms(1)] msg_law [OF assms(1)]
      ack_logged [OF assms(1)] edit_ops_logged(5) [OF assms(1)] warn logged_keep [OF assms(1)]
    by (simp add: handle_group_frame_def Let_def split_beta split: frame.splits option.splits sum.splits)
qed

lemma frame_logged:
  assumes "logged d a pos e" "e_rm e = []"
  shows "logged d a pos (handle_frame E n f ch e)"
  using assms group_frame_logged [OF assms, of n f ch] logged_frame [OF assms(1) _ group_file_same_dir, of E n f ch]
    logged_keep [OF assms(1)]
  by (simp add: handle_frame_def split: frame.splits option.splits)

lemma start_logged:
  assumes "logged d a pos e" "groups_ok E (e_groups e)" "saved e" "nid_show E (e_me e) = me"
  shows "logged d a pos (start E tok e)"
  unfolding logged_def
proof
  fix g
  have "d_logs (start E tok e) = d_logs e" by (simp add: start_def Let_def)
  then have logs: "log_of (start E tok e) g = log_of e g" by (simp add: log_of_lg)
  have old: "logged_at d a pos e g" using assms(1) by (simp add: logged_def)
  show "logged_at d a pos (start E tok e) g"
    unfolding logged_at_def start_groups logs saved_reload [OF assms(2,3)] assms(4)
    using old by (auto simp: logged_at_def repair_law split: option.splits) (simp add: repair_rec_def)
qed

text \<open>Every action keeps the relation.\<close>

lemma exec_logged:
  assumes ok: "logged d a pos e" and gs: "groups_ok E (e_groups e)" and rm: "e_rm e = []" and own: "nid_show E (e_me e) = me"
    and act: "orderly E e act" "fits e act"
  shows "logged d a pos (exec E act e)"
proof (cases act)
  case (AGroupSendFile g src name cap rid)
  then show ?thesis by (auto intro: logged_frame [OF ok _ send_file_same_dir])
qed (use act in \<open>simp_all add: orderly_def gid_fresh_def is_restart_def logged_keep [OF ok] start_logged [OF ok gs _ own]
    create_logged ok edit_ops_logged leave_logged delete_logged remove_peer_logged rm rm_ok_Nil send_law own frame_logged Let_def\<close>)

end

lemma exec_me [simp]: "e_me (exec E a e) = e_me e"
  by (cases a) (simp_all add: start_def Let_def)

end
