(* ===== verification/Delivery.thy ===== *)
theory Delivery
  imports Numbering
begin

section \<open>In-order delivery of group messages\<close>

text \<open>
  The position \<open>have\<close> a device keeps per author is exactly what it stored: its log holds the author's messages
  1, 2, ..., \<open>have\<close>, each once and in this order, whatever frames arrive on whatever sessions.
\<close>

abbreviation inlog :: "string \<Rightarrow> group_log_rec list \<Rightarrow> group_log_rec list" where
  "inlog \<equiv> seqlog ''in''"

abbreviation have_of :: "string \<Rightarrow> group_rec \<Rightarrow> u64" where
  "have_of a r \<equiv> get0 (gr_have r) a"

definition delivery_ok :: "engine \<Rightarrow> bool" where
  "delivery_ok e \<longleftrightarrow> (\<forall>a. logged ''in'' a (have_of a) e)"

subsection \<open>Receiving\<close>

lemma e_groups_upd: "e_groups (upd_group g f e) = (case map_of (e_groups e) g of None \<Rightarrow> e_groups e | Some r \<Rightarrow> bt_put g (f r) (e_groups e))"
  by (simp add: upd_group_def)

text \<open>A group message is stored when it is the next one of its author in a group both are in; otherwise
  nothing is stored and no position moves.\<close>

definition msg_stored :: "'a ext_scheme \<Rightarrow> node_id \<Rightarrow> string \<Rightarrow> string \<Rightarrow> u64 \<Rightarrow> string \<Rightarrow> string \<Rightarrow> engine \<Rightarrow> bool" where
  "msg_stored E n g claimed seq i txt e \<longleftrightarrow> claimed = nid_show E n \<and> is_active_member E e g n
     \<and> txt \<noteq> [] \<and> length txt \<le> MAX_GROUP_TEXT \<and> is_safe_transfer_id i \<and> io_ok e
     \<and> get0 (gr_have (the (map_of (e_groups e) g))) claimed < seq
     \<and> seq = get0 (gr_have (the (map_of (e_groups e) g))) claimed + 1"

lemma io_ok_last_ts [simp]: "io_ok (group_last_ts E g e) = io_ok e"
  by (simp add: io_ok_def group_last_ts_def)

lemma msg_stored_Some:
  assumes "map_of (e_groups e) g = Some rec"
  shows "msg_stored E n g claimed seq i txt e \<longleftrightarrow> claimed = nid_show E n \<and> \<not> gr_removed rec \<and> contains E (gr_state rec) n
     \<and> \<not> (seq = 0 \<or> txt = [] \<or> length txt > MAX_GROUP_TEXT \<or> \<not> is_safe_transfer_id i) \<and> io_ok e
     \<and> \<not> seq \<le> get0 (gr_have rec) (nid_show E n) \<and> \<not> seq > get0 (gr_have rec) (nid_show E n) + 1"
proof -
  define h where "h = get0 (gr_have rec) (nid_show E n)"
  have iff: "h < seq \<and> seq = h + 1 \<longleftrightarrow> seq \<noteq> 0 \<and> \<not> seq \<le> h \<and> \<not> seq > h + 1"
    using word_next_eq [of seq h] by (auto simp: not_le)
  show ?thesis
  proof (cases "claimed = nid_show E n")
    case True
    show ?thesis
      unfolding msg_stored_def is_active_member_def assms option.case option.sel True h_def [symmetric] iff
      by (auto simp: not_less)
  qed (simp add: msg_stored_def)
qed

lemma group_msg_effect:
  "e_groups (on_group_msg E n ch g claimed seq i ts txt rt rx e)
     = (if msg_stored E n g claimed seq i txt e
        then bt_put g ((the (map_of (e_groups e) g))\<lparr>gr_have := hm_put claimed seq (gr_have (the (map_of (e_groups e) g)))\<rparr>) (e_groups e)
        else e_groups e)"
  "d_logs (on_group_msg E n ch g claimed seq i ts txt rt rx e)
     = (if msg_stored E n g claimed seq i txt e
        then hm_put g (log_of e g @ [in_line E n g seq i ts txt rt rx e]) (d_logs e) else d_logs e)"
proof (atomize (full), cases "map_of (e_groups e) g")
  case None
  then show "e_groups (on_group_msg E n ch g claimed seq i ts txt rt rx e)
     = (if msg_stored E n g claimed seq i txt e
        then bt_put g ((the (map_of (e_groups e) g))\<lparr>gr_have := hm_put claimed seq (gr_have (the (map_of (e_groups e) g)))\<rparr>) (e_groups e)
        else e_groups e) \<and>
   d_logs (on_group_msg E n ch g claimed seq i ts txt rt rx e)
     = (if msg_stored E n g claimed seq i txt e
        then hm_put g (log_of e g @ [in_line E n g seq i ts txt rt rx e]) (d_logs e) else d_logs e)"
    by (simp add: on_group_msg_def Let_def msg_stored_def is_active_member_def)
next
  case (Some rec)
  show "e_groups (on_group_msg E n ch g claimed seq i ts txt rt rx e)
     = (if msg_stored E n g claimed seq i txt e
        then bt_put g ((the (map_of (e_groups e) g))\<lparr>gr_have := hm_put claimed seq (gr_have (the (map_of (e_groups e) g)))\<rparr>) (e_groups e)
        else e_groups e) \<and>
   d_logs (on_group_msg E n ch g claimed seq i ts txt rt rx e)
     = (if msg_stored E n g claimed seq i txt e
        then hm_put g (log_of e g @ [in_line E n g seq i ts txt rt rx e]) (d_logs e) else d_logs e)"
    unfolding msg_stored_Some [OF Some] unfolding on_group_msg_def Let_def
    by (simp add: Some e_groups_upd log_of_lg)
qed

subsection \<open>The received messages are numbered\<close>

lemma inlog_seqs: "map gl_seq (inlog a l) = filter (\<lambda>s. s \<noteq> 0) (in_seqs a l)"
  by (induction l) (auto simp: seqlog_def in_seqs_def)

lemma repair_keeps:
  assumes "map gl_seq (inlog a l) = first_seqs (have_of a r)"
  shows "have_of a (repair_rec (scan_recs me l) r) = have_of a r"
proof -
  have "hm_ok (ls_in_max (scan_recs me l))" by (simp add: scan_recs_def log_scan_default_def scan_in_ok)
  moreover have "get0 (ls_in_max (scan_recs me l)) a = foldl max 0 (in_seqs a l)"
    by (simp add: scan_recs_def log_scan_default_def scan_in)
  moreover have "foldl max 0 (in_seqs a l) = have_of a r"
    using assms foldl_max_nz [of 0 "in_seqs a l"] by (simp add: inlog_seqs foldl_max_first)
  ultimately show ?thesis by (simp add: repair_rec_def merge_have_get)
qed

text \<open>The one place where a position moves: the record is the next of its author and is in the log first.\<close>

lemma msg_logged:
  assumes ok: "logged ''in'' a (have_of a) e"
  shows "logged ''in'' a (have_of a) (on_group_msg E n ch g claimed seq i ts txt rt rx e)"
proof (cases "msg_stored E n g claimed seq i txt e")
  case False
  then have "logged ''in'' a (have_of a) (on_group_msg E n ch g claimed seq i ts txt rt rx e) = logged ''in'' a (have_of a) e"
    by (intro logged_cong) (simp_all add: group_msg_effect)
  with ok show ?thesis by simp
next
  case True
  let ?l = "in_line E n g seq i ts txt rt rx e"
  obtain rec where rec: "map_of (e_groups e) g = Some rec" and c: "claimed = nid_show E n"
    and s: "seq = have_of claimed rec + 1" "have_of claimed rec < seq"
    using True by (auto simp: msg_stored_def is_active_member_def split: option.splits)
  have "seq \<noteq> 0" using s(2) by auto
  then have line: "inlog a [?l] = (if a = claimed then [?l] else [])" "gl_seq ?l = seq"
    by (simp_all add: seqlog_def in_line_def c)
  show ?thesis unfolding logged_def
  proof
    fix h
    have "logged_at ''in'' a (have_of a) e h" using ok by (simp add: logged_def)
    then show "logged_at ''in'' a (have_of a) (on_group_msg E n ch g claimed seq i ts txt rt rx e) h"
      using True rec line first_seqs_next [OF s(2,1)]
      by (cases "h = g") (auto simp: logged_at_def group_msg_effect log_of_lg split: option.splits)
  qed
qed

lemma send_in_same: "same_dir ''in'' e (fst (group_send E g txt rt rx rid e))"
  by (simp add: same_dir_lg group_send_def Let_def split_beta split: option.splits) (simp add: group_line_def seqlog_skip)

lemma send_in_logged:
  assumes "logged ''in'' a (have_of a) e"
  shows "logged ''in'' a (have_of a) (fst (group_send E g txt rt rx rid e))"
  unfolding logged_def
proof
  fix h
  let ?e' = "fst (group_send E g txt rt rx rid e)"
  have "logged_at ''in'' a (have_of a) e h" using assms by (simp add: logged_def)
  moreover have "inlog a (log_of ?e' h) = inlog a (log_of e h)" using send_in_same [of e E g "txt" rt rx rid] by (simp add: same_dir_def)
  moreover have "map_of (e_groups ?e') h = map_of (e_groups e) h \<or> (\<exists>r r'. map_of (e_groups e) h = Some r
      \<and> map_of (e_groups ?e') h = Some r' \<and> gr_have r' = gr_have r \<and> gr_hidden r' = gr_hidden r)"
    by (simp add: group_send_def Let_def split_beta split: option.splits)
  ultimately show "logged_at ''in'' a (have_of a) ?e' h" by (auto simp: logged_at_def split: option.splits)
qed

interpretation received: numbered "''in''" E me a "have_of a" "\<lambda>_ _. True" for E :: "'x ext_scheme" and me a
  by unfold_locales (simp_all add: SYS_DIR_def repair_keeps msg_logged send_in_logged)

lemma exec_delivery:
  assumes "delivery_ok e" "groups_ok E (e_groups e)" "e_rm e = []" "orderly E e act"
  shows "delivery_ok (exec E act e)"
  using assms received.exec_logged [OF _ assms(2,3) refl assms(4) TrueI] by (simp add: delivery_ok_def)

lemma reach_delivery:
  assumes "reach E (orderly E) e e'" "groups_ok E (e_groups e)" "delivery_ok e" "e_rm e = []"
  shows "groups_ok E (e_groups e') \<and> delivery_ok e' \<and> e_rm e' = []"
proof (rule reach_invariant [OF assms(1)])
  show "groups_ok E (e_groups e) \<and> delivery_ok e \<and> e_rm e = []" using assms by blast
  show "groups_ok E (e_groups (exec E b e1)) \<and> delivery_ok (exec E b e1) \<and> e_rm (exec E b e1) = []"
    if "groups_ok E (e_groups e1) \<and> delivery_ok e1 \<and> e_rm e1 = []" "orderly E e1 b" for e1 b
    using that exec_groups_ok [of E e1 b] exec_delivery [of e1 E b] exec_rm [of e1 b E] by (simp add: orderly_def)
qed

lemma delivery_seqs:
  "delivery_ok e \<Longrightarrow> map_of (e_groups e) g = Some r \<Longrightarrow> \<not> gr_hidden r
    \<Longrightarrow> map gl_seq (inlog a (log_of e g)) = first_seqs (have_of a r)"
  unfolding delivery_ok_def by (rule logged_seqs) auto


text \<open>The engine of the example stores the first message of device 1.\<close>

definition demo_msg :: action where
  "demo_msg = ARead (dev 1) (GroupMsg (gs_gid trio) (dev_id 1) 1 ''m1'' 90 ''hi'' None None) 7"

lemma demo_proto: "session_proto demo_group (dev 1) 7 = 2"
  by (simp add: session_proto_def peer1_def)

lemma demo_stored: "msg_stored ref_ext (dev 1) (gs_gid trio) (dev_id 1) 1 ''m1'' ''hi'' demo_group"
proof -
  have "is_safe_transfer_id ''m1''" by code_simp
  then show ?thesis by (simp add: msg_stored_def is_active_member_def MAX_GROUP_TEXT_def get0_def)
qed

lemma demo_msg_frame:
  "exec ref_ext demo_msg demo_group
     = on_group_msg ref_ext (dev 1) 7 (gs_gid trio) (dev_id 1) 1 ''m1'' 90 ''hi'' None None demo_group"
  by (simp add: demo_msg_def handle_frame_def peer1_def handle_group_frame_def demo_proto)


end
