(* ===== verification/Replica.thy ===== *)
theory Replica
  imports Delivery
begin

section \<open>Whose messages a device stores\<close>

text \<open>
  Authenticity and completeness of the replicated log: an inbound record can only come from a frame read on a
  session of the device it names as author, so two devices that read the same author agree on the prefix both
  have; and an in-order replay is stored and acknowledged to its end.
\<close>

subsection \<open>What an action can add\<close>

text \<open>An action keeps the received messages of a group or forgets them all.\<close>

definition in_sub :: "engine \<Rightarrow> engine \<Rightarrow> bool" where
  "in_sub e e' \<longleftrightarrow> (\<forall>g. (\<forall>a. inlog a (log_of e' g) = inlog a (log_of e g)) \<or> (\<forall>a. inlog a (log_of e' g) = []))"

lemma in_sub_same: "same_dir ''in'' e e' \<Longrightarrow> in_sub e e'"
  by (simp add: in_sub_def same_dir_def)

lemma in_sub_logs: "d_logs e' = d_logs e \<Longrightarrow> in_sub e e'"
  by (simp add: in_sub_same)

lemma in_sub_trans: "in_sub e e' \<Longrightarrow> in_sub e' e'' \<Longrightarrow> in_sub e e''"
  unfolding in_sub_def by metis

lemma in_sub_delete: "d_logs e' = d_logs e \<or> d_logs e' = hm_del g (d_logs e) \<Longrightarrow> in_sub e e'"
  by (auto simp: in_sub_def log_of_lg lg_def split: if_splits)

lemma in_sub_purge: "in_sub e (purge_group E g e)"
  by (rule in_sub_delete [of _ _ g]) (simp add: purge_group_def Let_def e_delete_log_def)

lemma in_sub_fold_purge: "in_sub e (fold (purge_group E) gids e)"
proof (induction gids arbitrary: e)
  case (Cons g gids)
  then show ?case by (auto intro: in_sub_trans [OF in_sub_purge])
qed (simp add: in_sub_logs)

lemma in_sub_remove_peer: "in_sub e (fst (remove_peer E s e))"
proof -
  have "in_sub e (fold (purge_group E) gids (persist_peers E (e\<lparr>e_peers := ps, e_pair_requests := q\<rparr>)))" for gids ps q
    by (rule in_sub_trans [OF _ in_sub_fold_purge]) (simp add: in_sub_logs)
  then have "in_sub e e'" if "d_logs e' = d_logs (fold (purge_group E) gids (persist_peers E (e\<lparr>e_peers := ps, e_pair_requests := q\<rparr>)))"
    for e' gids ps q using that in_sub_trans in_sub_logs by metis
  then show ?thesis by (simp add: remove_peer_def Let_def in_sub_logs split: option.splits)
qed

lemma in_sub_group_delete: "in_sub e (fst (group_delete E g e))"
proof -
  have "in_sub e e'" if "d_logs e' = d_logs (e_delete_log g e0)" "d_logs e0 = d_logs e" for e' e0
    using that by (intro in_sub_delete [of _ _ g]) (simp add: e_delete_log_def)
  then show ?thesis
    by (simp add: group_delete_def Let_def in_sub_purge in_sub_logs split: option.splits)
qed

lemma in_sub_tail: "in_sub e (fst (apply_tail E g ep sys nr res e))"
proof -
  have 1: "in_sub e (log_sys E g ep 0 sys (groups_changed E e))"
    by (rule in_sub_same, rule received.sys_after) simp
  have "in_sub e e'" if "d_logs e' = d_logs (log_sys E g ep 0 sys (groups_changed E e))" for e'
    using 1 that by (auto intro: in_sub_trans in_sub_logs)
  with 1 show ?thesis
    by (simp add: apply_tail_def Let_def in_sub_logs in_sub_trans [OF _ in_sub_purge] split: option.splits)
qed

lemma in_sub_apply: "in_sub e (fst (apply_state_locked E st from e))"
proof -
  have "in_sub e (fst (apply_tail E g ep sys nr res e0))" if "d_logs e0 = d_logs e" for g ep sys nr res e0
    by (rule in_sub_trans [OF _ in_sub_tail]) (simp add: in_sub_logs that)
  then show ?thesis
    by (simp add: apply_state_locked_def Let_def in_sub_logs split: sum.splits evaluation.splits option.splits)
qed

text \<open>The frame that a stored record can come from.\<close>

definition frame_of :: "string \<Rightarrow> group_log_rec \<Rightarrow> frame" where
  "frame_of g r = GroupMsg g (gl_from r) (gl_seq r) (gl_id r) (gl_ts r) (gl_text r) (gl_reply_to r) (gl_reply_text r)"

definition adds_only :: "'a ext_scheme \<Rightarrow> node_id \<Rightarrow> frame \<Rightarrow> engine \<Rightarrow> engine \<Rightarrow> bool" where
  "adds_only E n f e e' \<longleftrightarrow> (\<forall>g. (\<forall>a. inlog a (log_of e' g) = inlog a (log_of e g)) \<or> (\<forall>a. inlog a (log_of e' g) = [])
     \<or> (\<exists>r. f = frame_of g r \<and> gl_from r = nid_show E n
          \<and> (\<forall>a. inlog a (log_of e' g) = inlog a (log_of e g) @ (if a = gl_from r then [r] else []))))"

lemma adds_in_sub: "in_sub e e' \<Longrightarrow> adds_only E n f e e'"
  unfolding in_sub_def adds_only_def by blast

lemma adds_msg: "adds_only E n (GroupMsg g claimed seq i ts txt rt rx) e (on_group_msg E n ch g claimed seq i ts txt rt rx e)"
proof (cases "msg_stored E n g claimed seq i txt e")
  case True
  let ?l = "in_line E n g seq i ts txt rt rx e" and ?e' = "on_group_msg E n ch g claimed seq i ts txt rt rx e"
  have c: "claimed = nid_show E n" and "seq \<noteq> 0" using True by (auto simp: msg_stored_def)
  then have l: "frame_of g ?l = GroupMsg g claimed seq i ts txt rt rx" "gl_from ?l = nid_show E n"
    "inlog a [?l] = (if a = gl_from ?l then [?l] else [])" for a
    by (simp_all add: frame_of_def in_line_def seqlog_def)
  have log: "log_of ?e' h = (if h = g then log_of e g @ [?l] else log_of e h)" for h
    using True by (simp add: group_msg_effect log_of_lg)
  have "\<forall>a. inlog a (log_of ?e' g) = inlog a (log_of e g) @ (if a = gl_from ?l then [?l] else [])"
    by (simp add: log l(3))
  moreover have "\<forall>a. inlog a (log_of ?e' h) = inlog a (log_of e h)" if "h \<noteq> g" for h using that by (simp add: log)
  ultimately show ?thesis unfolding adds_only_def using l(1,2) by metis
qed (simp add: adds_in_sub in_sub_logs group_msg_effect)

lemma adds_group_frame: "adds_only E n f e (handle_group_frame E n f ch e)"
proof -
  have sub: "adds_only E n f e (fst (apply_state_locked E st n e))" for st f by (rule adds_in_sub [OF in_sub_apply])
  have log: "d_logs e' = d_logs e \<Longrightarrow> adds_only E n f e e'" for e' f by (rule adds_in_sub [OF in_sub_logs])
  have warn: "adds_only E n f e e' \<Longrightarrow> adds_only E n f e (group_warn E n msg e')" for e' msg f
    by (simp add: adds_only_def log_of_lg)
  have "in_sub e (on_group_leave E n g e)" for g by (rule in_sub_same [OF received.on_leave_same_dir])
  then have leave: "adds_only E n f e (on_group_leave E n g e)" for g f by (rule adds_in_sub)
  show ?thesis using adds_msg [of E n]
    by (simp add: handle_group_frame_def Let_def split_beta log sub warn leave split: frame.splits option.splits sum.splits)
qed

lemma adds_frame: "adds_only E n f e (handle_frame E n f ch e)"
proof -
  have "adds_only E n f e (on_group_file E n f ch e)"
    by (rule adds_in_sub [OF in_sub_same [OF received.group_file_same_dir]])
  moreover have "d_logs e' = d_logs e \<Longrightarrow> adds_only E n f e e'" for e' f by (rule adds_in_sub [OF in_sub_logs])
  ultimately show ?thesis using adds_group_frame [of E n f e ch]
    by (simp add: handle_frame_def split: frame.splits option.splits)
qed

text \<open>Every action keeps a group's received messages, forgets them, or adds one message that it reads.\<close>

lemma exec_inlog:
  "(\<forall>a. inlog a (log_of (exec E act e) g) = inlog a (log_of e g)) \<or> (\<forall>a. inlog a (log_of (exec E act e) g) = [])
   \<or> (\<exists>n ch r. act = ARead n (frame_of g r) ch \<and> gl_from r = nid_show E n
        \<and> (\<forall>a. inlog a (log_of (exec E act e) g) = inlog a (log_of e g) @ (if a = gl_from r then [r] else [])))"
proof (cases "\<exists>n f ch. act = ARead n f ch")
  case True
  then obtain n f ch where act: "act = ARead n f ch" by blast
  have "adds_only E n f e (exec E act e)" by (simp add: act adds_frame)
  then show ?thesis unfolding adds_only_def act by (elim allE [of _ g]) blast
next
  case False
  note same = received.create_same_dir received.leave_same_dir received.edit_ops_same_dir received.send_file_same_dir send_in_same
  from False have "in_sub e (exec E act e)"
    by (cases act) (simp_all add: in_sub_logs in_sub_remove_peer in_sub_group_delete in_sub_same same start_def Let_def)
  then show ?thesis unfolding in_sub_def by blast
qed

lemma exec_adds:
  assumes "r \<in> set (inlog a (log_of (exec E act e) g))"
  shows "r \<in> set (inlog a (log_of e g)) \<or> (\<exists>n ch. act = ARead n (frame_of g r) ch \<and> gl_from r = nid_show E n)"
  using exec_inlog [of E act e g]
proof (elim disjE exE conjE)
  fix n ch r'
  assume act: "act = ARead n (frame_of g r') ch" "gl_from r' = nid_show E n"
    and "\<forall>a. inlog a (log_of (exec E act e) g) = inlog a (log_of e g) @ (if a = gl_from r' then [r'] else [])"
  then have "r \<in> set (inlog a (log_of e g) @ (if a = gl_from r' then [r'] else []))" using assms by metis
  with act show ?thesis by (auto split: if_splits)
qed (use assms in \<open>auto simp del: exec.simps\<close>)

subsection \<open>Authenticity\<close>

text \<open>A run of allowed actions, with the frames it read and the devices it read them from.\<close>

inductive run_reads :: "'a ext_scheme \<Rightarrow> (engine \<Rightarrow> action \<Rightarrow> bool) \<Rightarrow> engine \<Rightarrow> (node_id \<times> frame) set \<Rightarrow> engine \<Rightarrow> bool"
  for E :: "'a ext_scheme" and allowed :: "engine \<Rightarrow> action \<Rightarrow> bool" and e0 :: engine where
  reads_start: "run_reads E allowed e0 {} e0"
| reads_read: "run_reads E allowed e0 R e \<Longrightarrow> allowed e (ARead n f ch) \<Longrightarrow>
     run_reads E allowed e0 (insert (n, f) R) (exec E (ARead n f ch) e)"
| reads_other: "run_reads E allowed e0 R e \<Longrightarrow> allowed e a \<Longrightarrow> (\<And>n f ch. a \<noteq> ARead n f ch) \<Longrightarrow>
     run_reads E allowed e0 R (exec E a e)"

lemma reads_reach: "run_reads E allowed e0 R e \<Longrightarrow> reach E allowed e0 e"
  by (induction rule: run_reads.induct) (blast intro: reach.intros)+

lemma reads_authentic:
  assumes "run_reads E allowed e0 R e" "\<And>g. inlog a (log_of e0 g) = []" "r \<in> set (inlog a (log_of e g))"
  shows "\<exists>n. nid_show E n = a \<and> (n, frame_of g r) \<in> R"
  using assms
proof (induction arbitrary: g r rule: run_reads.induct)
  case (reads_read R e n f ch)
  have a: "gl_from r = a" using reads_read.prems(2) by (simp add: seqlog_def)
  from exec_adds [OF reads_read.prems(2)] show ?case
  proof (elim disjE exE conjE)
    assume "r \<in> set (inlog a (log_of e g))"
    with reads_read.IH reads_read.prems(1) show ?case by blast
  qed (use a in auto)
next
  case (reads_other R e act)
  from exec_adds [OF reads_other.prems(2)] reads_other show ?case by blast
qed simp

text \<open>C6: every group message a device stores was read, with exactly this sequence number, id, time, text and
  reply, from a session of the device it is attributed to: no peer can make a device store a message in the
  name of another.\<close>

theorem stored_messages_are_authentic:
  assumes "run_reads E allowed e0 R e" "\<And>g. inlog a (log_of e0 g) = []" "r \<in> set (inlog a (log_of e g))"
  shows "\<exists>n. nid_show E n = a \<and> (n, frame_of g r) \<in> R"
  using assms by (rule reads_authentic)

subsection \<open>Agreement\<close>

definition msg_body :: "group_log_rec \<Rightarrow> u64 \<times> string \<times> u64 \<times> string \<times> string option \<times> string option" where
  "msg_body r = (gl_seq r, gl_id r, gl_ts r, gl_text r, gl_reply_to r, gl_reply_text r)"

text \<open>The author never numbers two different messages of a group alike.\<close>

definition numbers_once :: "'a ext_scheme \<Rightarrow> (node_id \<times> frame) set \<Rightarrow> string \<Rightarrow> string \<Rightarrow> bool" where
  "numbers_once E R g a \<longleftrightarrow> (\<forall>n r n' r'. (n, frame_of g r) \<in> R \<and> (n', frame_of g r') \<in> R \<and> nid_show E n = a \<and> nid_show E n' = a
     \<and> gl_seq r = gl_seq r' \<longrightarrow> msg_body r = msg_body r')"

text \<open>A device that starts without stored group messages.\<close>

definition blank_device :: "'a ext_scheme \<Rightarrow> engine \<Rightarrow> bool" where
  "blank_device E e \<longleftrightarrow> groups_ok E (e_groups e) \<and> delivery_ok e \<and> e_rm e = [] \<and> (\<forall>g a. inlog a (log_of e g) = [])"

lemma same_seqs_same_bodies:
  assumes "map gl_seq xs = take k (map gl_seq ys)"
    and "\<And>x y. x \<in> set xs \<Longrightarrow> y \<in> set ys \<Longrightarrow> gl_seq x = gl_seq y \<Longrightarrow> msg_body x = msg_body y"
  shows "map msg_body xs = take k (map msg_body ys)"
proof (rule nth_equalityI)
  have len: "length xs = min k (length ys)" using arg_cong [OF assms(1), of length] by simp
  then show "length (map msg_body xs) = length (take k (map msg_body ys))" by simp
  fix i assume "i < length (map msg_body xs)"
  then have i: "i < length xs" "i < k" "i < length ys" using len by auto
  have "gl_seq (xs ! i) = gl_seq (ys ! i)" using arg_cong [OF assms(1), of "\<lambda>l. l ! i"] i by simp
  then show "map msg_body xs ! i = take k (map msg_body ys) ! i" using assms(2) i by simp
qed


subsection \<open>Replay\<close>

text \<open>The device accepts the author's messages on this session, from position \<open>h\<close> on.\<close>

definition receiving :: "'a ext_scheme \<Rightarrow> node_id \<Rightarrow> nat \<Rightarrow> string \<Rightarrow> u64 \<Rightarrow> engine \<Rightarrow> bool" where
  "receiving E n ch g h e \<longleftrightarrow> is_active_member E e g n \<and> get0 (gr_have (the (map_of (e_groups e) g))) (nid_show E n) = h
     \<and> session_proto e n ch \<ge> 2 \<and> e_io e = [] \<and> tx_ok e ch"

definition sendable :: "'a ext_scheme \<Rightarrow> node_id \<Rightarrow> group_log_rec \<Rightarrow> bool" where
  "sendable E n r \<longleftrightarrow> gl_from r = nid_show E n \<and> gl_text r \<noteq> [] \<and> length (gl_text r) \<le> MAX_GROUP_TEXT \<and> is_safe_transfer_id (gl_id r)"

lemma tx_ok_closed: "e_closed e' = e_closed e \<Longrightarrow> tx_ok e' ch = tx_ok e ch"
  by (simp add: tx_ok_def)

lemma session_proto_peers: "e_peers e' = e_peers e \<Longrightarrow> session_proto e' n ch = session_proto e n ch"
  by (simp add: session_proto_def)

lemma group_msg_out:
  assumes "msg_stored E n g claimed seq i txt e" "tx_ok e ch" "e_io e = []"
  shows "e_out (on_group_msg E n ch g claimed seq i ts txt rt rx e) = e_out e @ [(ch, GroupAck g seq)]"
    "e_io (on_group_msg E n ch g claimed seq i ts txt rt rx e) = []"
proof -
  obtain rec where rec: "map_of (e_groups e) g = Some rec"
    using assms(1) by (auto simp: msg_stored_def is_active_member_def split: option.splits)
  note st = assms(1) [unfolded msg_stored_Some [OF rec]]
  have "e_io (e_append_log g l e') = tl (e_io e')" "e_io (persist_groups e') = tl (e_io e')" for l e'
    by (simp_all add: e_append_log_def persist_groups_def)
  then show "e_out (on_group_msg E n ch g claimed seq i ts txt rt rx e) = e_out e @ [(ch, GroupAck g seq)]"
    "e_io (on_group_msg E n ch g claimed seq i ts txt rt rx e) = []"
    using st assms(2,3) by (simp_all add: on_group_msg_def Let_def rec tx_send_def tx_ok_def)
qed

lemma frame_of_stored:
  assumes "receiving E n ch g h e" "sendable E n r" "gl_seq r = h + 1" "h < h + 1"
  shows "msg_stored E n g (gl_from r) (gl_seq r) (gl_id r) (gl_text r) e"
proof -
  have "get0 (gr_have (the (map_of (e_groups e) g))) (nid_show E n) = h" using assms(1) by (simp add: receiving_def)
  with assms(1,2,4) show ?thesis
    by (simp add: msg_stored_def receiving_def sendable_def io_ok_def assms(3))
qed

lemma exec_frame_of:
  assumes "session_proto e n ch \<ge> 2"
  shows "exec E (ARead n (frame_of g r) ch) e
    = on_group_msg E n ch g (gl_from r) (gl_seq r) (gl_id r) (gl_ts r) (gl_text r) (gl_reply_to r) (gl_reply_text r) e"
  using assms by (simp add: handle_frame_def frame_of_def handle_group_frame_def not_le [symmetric])

lemma receive_one:
  assumes "receiving E n ch g h e" "sendable E n r" "gl_seq r = h + 1" "h < h + 1"
  shows "receiving E n ch g (h + 1) (exec E (ARead n (frame_of g r) ch) e)"
    "map msg_body (inlog (nid_show E n) (log_of (exec E (ARead n (frame_of g r) ch) e) g))
       = map msg_body (inlog (nid_show E n) (log_of e g)) @ [msg_body r]"
    "e_out (exec E (ARead n (frame_of g r) ch) e) = e_out e @ [(ch, GroupAck g (gl_seq r))]"
proof -
  have io: "e_io e = []" "tx_ok e ch" and p: "session_proto e n ch \<ge> 2" and act: "is_active_member E e g n"
    using assms(1) by (simp_all add: receiving_def)
  obtain rec where rec: "map_of (e_groups e) g = Some rec" "\<not> gr_removed rec" "contains E (gr_state rec) n"
    using act by (auto simp: is_active_member_def split: option.splits)
  note st = frame_of_stored [OF assms]
  have from_n: "gl_from r = nid_show E n" using assms(2) by (simp add: sendable_def)
  show "e_out (exec E (ARead n (frame_of g r) ch) e) = e_out e @ [(ch, GroupAck g (gl_seq r))]"
    unfolding exec_frame_of [OF p] by (rule group_msg_out(1) [OF st io(2,1)])
  show "receiving E n ch g (h + 1) (exec E (ARead n (frame_of g r) ch) e)"
  proof -
    define e' where "e' = exec E (ARead n (frame_of g r) ch) e"
    note e'_eq = e'_def [unfolded exec_frame_of [OF p]]
    have "e_peers e' = e_peers e" "e_closed e' = e_closed e" "e_io e' = []"
      by (simp_all add: e'_eq group_msg_out(2) [OF st io(2,1)])
    moreover have "map_of (e_groups e') g = Some (rec\<lparr>gr_have := hm_put (nid_show E n) (h + 1) (gr_have rec)\<rparr>)"
      using st unfolding e'_eq group_msg_effect(1) by (simp add: rec from_n assms(3))
    ultimately show ?thesis
      unfolding e'_def [symmetric] using p io rec
      by (simp add: receiving_def is_active_member_def get0_def session_proto_def tx_ok_def)
  qed
  have "seq_nz": "gl_seq r \<noteq> 0" using assms(3,4) by (metis word_not_simps(1))
  then show "map msg_body (inlog (nid_show E n) (log_of (exec E (ARead n (frame_of g r) ch) e) g))
       = map msg_body (inlog (nid_show E n) (log_of e g)) @ [msg_body r]"
    unfolding exec_frame_of [OF p]
    by (simp add: group_msg_effect log_of_lg lg_def st) (simp add: seqlog_def in_line_def msg_body_def from_n)
qed

lemma replay_all:
  assumes "receiving E n ch g h e" "list_all (sendable E n) rs" "unat h + length rs < 2 ^ 64"
    and "map gl_seq rs = map (\<lambda>i. h + of_nat i) [1..<Suc (length rs)]"
  defines "e' \<equiv> run E (map (\<lambda>r. ARead n (frame_of g r) ch) rs) e"
  shows "receiving E n ch g (h + of_nat (length rs)) e'
    \<and> map msg_body (inlog (nid_show E n) (log_of e' g)) = map msg_body (inlog (nid_show E n) (log_of e g)) @ map msg_body rs
    \<and> e_out e' = e_out e @ map (\<lambda>r. (ch, GroupAck g (gl_seq r))) rs"
  using assms(1-4) unfolding e'_def
proof (induction rs arbitrary: e h)
  case (Cons r rs)
  have h: "h < h + 1" "unat (h + 1) = Suc (unat h)"
    using Cons.prems(3) by (simp_all add: word_less_nat_alt unat_word_ariths)
  have upt: "[1..<Suc (length (r # rs))] = 1 # map Suc [1..<Suc (length rs)]"
    by (simp add: map_Suc_upt upt_conv_Cons del: upt_Suc)
  have seqs: "gl_seq r = h + 1" "map gl_seq rs = map (\<lambda>i. h + 1 + of_nat i) [1..<Suc (length rs)]"
    using Cons.prems(4) unfolding upt by (simp_all add: comp_def add.assoc del: upt_Suc)
  have r: "sendable E n r" "list_all (sendable E n) rs" using Cons.prems(2) by simp_all
  note one = receive_one [OF Cons.prems(1) r(1) seqs(1) h(1)]
  have "unat (h + 1) + length rs < 2 ^ 64" using Cons.prems(3) h(2) by simp
  from Cons.IH [OF one(1) r(2) this seqs(2)] one(2,3) show ?case by (simp add: run_def add.assoc del: exec.simps)
qed (simp add: run_def)

text \<open>a device that is in step with an author stores an in-order replay of the author's next messages to
  its end, message for message, and acknowledges each.\<close>

theorem replay_completes:
  assumes "receiving E n ch g h e" "list_all (sendable E n) rs" "unat h + length rs < 2 ^ 64"
    and "map gl_seq rs = map (\<lambda>i. h + of_nat i) [1..<Suc (length rs)]"
  defines "e' \<equiv> run E (map (\<lambda>r. ARead n (frame_of g r) ch) rs) e"
  shows "receiving E n ch g (h + of_nat (length rs)) e'
    \<and> map msg_body (inlog (nid_show E n) (log_of e' g)) = map msg_body (inlog (nid_show E n) (log_of e g)) @ map msg_body rs
    \<and> e_out e' = e_out e @ map (\<lambda>r. (ch, GroupAck g (gl_seq r))) rs"
  unfolding e'_def using assms(1-4) by (rule replay_all)

subsection \<open>Examples\<close>

definition demo_frame :: frame where
  "demo_frame = GroupMsg (gs_gid trio) (dev_id 1) 1 ''m1'' 90 ''hi'' None None"

abbreviation demo_after :: engine where
  "demo_after \<equiv> exec ref_ext demo_msg demo_group"

lemma demo_after_log:
  "inlog (dev_id 1) (log_of demo_after (gs_gid trio))
     = [in_line ref_ext (dev 1) (gs_gid trio) 1 ''m1'' 90 ''hi'' None None demo_group]"
  unfolding demo_msg_frame
  by (simp add: group_msg_effect demo_stored log_of_lg lg_def) (simp add: seqlog_def in_line_def)

lemma demo_after_group:
  "map_of (e_groups demo_after) (gs_gid trio) = Some ((new_rec trio_signed)\<lparr>gr_have := [(dev_id 1, 1)]\<rparr>)"
  unfolding demo_msg_frame by (simp add: group_msg_effect demo_stored)

lemma demo_run: "run_reads ref_ext (orderly ref_ext) demo_group {(dev 1, demo_frame)} demo_after"
proof -
  have "orderly ref_ext demo_group (ARead (dev 1) demo_frame 7)"
    by (simp add: orderly_def gid_fresh_def rm_works_def is_restart_def)
  from reads_read [of ref_ext "orderly ref_ext" demo_group, OF reads_start this] show ?thesis by (simp only: demo_msg_def demo_frame_def)
qed

lemma demo_no_log: "inlog a (log_of demo_group g) = []"
  by (simp add: log_of_def)

lemma demo_blank: "blank_device ref_ext demo_group"
  unfolding blank_device_def
proof (intro conjI allI)
  show "delivery_ok demo_group" by (simp add: delivery_ok_def logged_def logged_at_def log_of_def get0_def)
  show "groups_ok ref_ext (e_groups demo_group)" by (rule demo_groups_ok)
qed (simp_all add: demo_no_log)

theorem stored_messages_are_authentic_witness:
  "\<exists>r n. r \<in> set (inlog (dev_id 1) (log_of demo_after (gs_gid trio))) \<and> nid_show ref_ext n = dev_id 1
     \<and> (n, frame_of (gs_gid trio) r) \<in> {(dev 1, demo_frame)}"
proof -
  have "in_line ref_ext (dev 1) (gs_gid trio) 1 ''m1'' 90 ''hi'' None None demo_group
      \<in> set (inlog (dev_id 1) (log_of demo_after (gs_gid trio)))"
    unfolding demo_after_log by (rule list.set_intros)
  from this stored_messages_are_authentic [OF demo_run demo_no_log this] show ?thesis by blast
qed


definition demo_line :: "u64 \<Rightarrow> string \<Rightarrow> group_log_rec" where
  "demo_line s i = \<lparr>gl_seq = s, gl_from = dev_id 1, gl_id = i, gl_ts = 90, gl_ts_eff = 90, gl_dir = ''out'', gl_text = ''hi'',
     gl_reply_to = None, gl_reply_text = None, gl_file = None\<rparr>"

theorem replay_completes_witness:
  "receiving ref_ext (dev 1) 7 (gs_gid trio) 2
     (run ref_ext (map (\<lambda>r. ARead (dev 1) (frame_of (gs_gid trio) r) 7) [demo_line 1 ''m1'', demo_line 2 ''m2'']) demo_group)"
proof -
  have ids: "is_safe_transfer_id ''m1''" "is_safe_transfer_id ''m2''" by code_simp+
  have "receiving ref_ext (dev 1) 7 (gs_gid trio) 0 demo_group"
    by (simp add: receiving_def is_active_member_def demo_proto get0_def tx_ok_def)
  moreover have "list_all (sendable ref_ext (dev 1)) [demo_line 1 ''m1'', demo_line 2 ''m2'']"
    by (simp add: sendable_def demo_line_def MAX_GROUP_TEXT_def ids)
  ultimately show ?thesis
    using replay_completes [of ref_ext "dev 1" 7 "gs_gid trio" 0 demo_group "[demo_line 1 ''m1'', demo_line 2 ''m2'']"]
    by (simp add: demo_line_def)
qed

end
