(* ===== verification/Outbox.thy ===== *)
theory Outbox
  imports Replica
begin

section \<open>Sending group messages\<close>

text \<open>
  The sending side of the group protocol: own messages are numbered 1, 2, ... without gaps, and what is put on a
  member's session after a synchronisation is exactly the next part of this sequence, at most a window of it, so
  a receiver in step stores all of it and the acknowledgements move the window on.
\<close>

subsection \<open>Own messages are numbered\<close>

abbreviation own_pos :: "group_rec \<Rightarrow> u64" where
  "own_pos r \<equiv> sat_sub (gr_next_seq r) 1"

abbreviation outlog :: "string \<Rightarrow> group_log_rec list \<Rightarrow> group_log_rec list" where
  "outlog \<equiv> seqlog ''out''"

text \<open>The counter of the group can be increased once more.\<close>

definition room :: "engine \<Rightarrow> action \<Rightarrow> bool" where
  "room e act = (case act of AGroupSend g _ _ _ _ \<Rightarrow>
     (case map_of (e_groups e) g of None \<Rightarrow> True | Some r \<Rightarrow> gr_next_seq r \<noteq> - 1) | _ \<Rightarrow> True)"

lemma outlog_seqs: "map gl_seq (outlog a l) = filter (\<lambda>s. s \<noteq> 0) (own_seqs a l)"
  by (induction l) (auto simp: seqlog_def own_seqs_def)

lemma one_le_word: "(1 :: u64) \<le> s \<longleftrightarrow> s \<noteq> 0"
  by (auto simp: word_le_nat_alt Suc_le_eq unat_gt_0)

lemma sat_sub_1: "sat_sub s 1 = (if s = 0 then 0 else s - 1)"
  by (simp add: sat_sub_def one_le_word)

lemma sat_sub_one [simp]: "sat_sub 1 1 = 0"
  by (simp add: sat_sub_1)

lemma own_repair:
  assumes "map gl_seq (outlog me l) = first_seqs (own_pos r)"
  shows "own_pos (repair_rec (scan_recs me l) r) = own_pos r"
proof -
  have "ls_own_max (scan_recs me l) = foldl max 0 (own_seqs me l)"
    by (simp add: scan_recs_def log_scan_default_def scan_own)
  also have "\<dots> = own_pos r"
    using assms foldl_max_nz [of 0 "own_seqs me l"] by (simp add: outlog_seqs foldl_max_first)
  finally have "gr_next_seq (repair_rec (scan_recs me l) r) = max (gr_next_seq r) (own_pos r + 1)"
    by (simp add: repair_rec_def)
  also have "\<dots> = (if gr_next_seq r = 0 then 1 else gr_next_seq r)" by (simp add: sat_sub_1 max_def)
  finally show ?thesis by (simp add: sat_sub_1)
qed

definition send_stored :: "string \<Rightarrow> string \<Rightarrow> engine \<Rightarrow> bool" where
  "send_stored g txt e \<longleftrightarrow> trim txt \<noteq> [] \<and> length txt \<le> MAX_GROUP_TEXT \<and> io_ok e
     \<and> (case map_of (e_groups e) g of None \<Rightarrow> False | Some r \<Rightarrow> \<not> gr_removed r)"

lemma send_effect:
  "e_groups (fst (group_send E g txt rt rx rid e))
     = (if send_stored g txt e
        then bt_put g ((the (map_of (e_groups e) g))\<lparr>gr_next_seq := gr_next_seq (the (map_of (e_groups e) g)) + 1\<rparr>) (e_groups e)
        else e_groups e)" (is ?G)
  "d_logs (fst (group_send E g txt rt rx rid e))
     = (if send_stored g txt e
        then hm_put g (log_of e g @ [group_line E g (gr_next_seq (the (map_of (e_groups e) g))) rid txt rt rx e]) (d_logs e)
        else d_logs e)" (is ?L)
proof -
  have "?G \<and> ?L"
  proof (cases "map_of (e_groups e) g")
    case None
    then show ?thesis by (simp add: group_send_def send_stored_def)
  next
    case (Some rec)
    then show ?thesis
      by (simp add: group_send_def send_stored_def Let_def split_beta e_groups_upd log_of_lg)
  qed
  then show ?G ?L by blast+
qed

lemma send_logged:
  assumes ok: "logged ''out'' me own_pos e" and room: "room e (AGroupSend g txt rt rx rid)" and me: "nid_show E (e_me e) = me"
  shows "logged ''out'' me own_pos (fst (group_send E g txt rt rx rid e))"
proof (cases "send_stored g txt e")
  case False
  then have "logged ''out'' me own_pos (fst (group_send E g txt rt rx rid e)) = logged ''out'' me own_pos e"
    by (intro logged_cong) (simp_all add: send_effect)
  with ok show ?thesis by simp
next
  case True
  then obtain rec where rec: "map_of (e_groups e) g = Some rec" by (auto simp: send_stored_def split: option.splits)
  define s where "s = gr_next_seq rec"
  let ?l = "group_line E g s rid txt rt rx e"
  have line: "outlog me [?l] = (if s = 0 then [] else [?l])" "gl_seq ?l = s"
    using me by (simp_all add: seqlog_def group_line_def)
  have "s \<noteq> - 1" using room rec by (simp add: room_def s_def)
  then have s1: "s + 1 \<noteq> 0" using eq_neg_iff_add_eq_0 [of s 1] by simp
  have next_seqs: "first_seqs s = first_seqs (own_pos rec) @ (if s = 0 then [] else [s])"
  proof (cases "s = 0")
    case False
    then have "s - 1 < s" by (simp add: word_less_nat_alt unat_minus_one unat_gt_0)
    with False first_seqs_next [of "s - 1" s] show ?thesis by (simp add: s_def [symmetric] sat_sub_1)
  qed (simp add: s_def [symmetric] sat_sub_1)
  show ?thesis unfolding logged_def
  proof
    fix h
    have "logged_at ''out'' me own_pos e h" using ok by (simp add: logged_def)
    then show "logged_at ''out'' me own_pos (fst (group_send E g txt rt rx rid e)) h"
      using True rec line next_seqs s1
      by (cases "h = g") (auto simp: logged_at_def send_effect log_of_lg s_def [symmetric] sat_sub_1 split: option.splits)
  qed
qed

lemma msg_out_same: "same_dir ''out'' e (on_group_msg E n ch g claimed seq i ts txt rt rx e)"
  by (simp add: same_dir_def log_of_lg group_msg_effect) (simp add: in_line_def seqlog_skip)

lemma msg_out_logged:
  assumes "logged ''out'' me own_pos e"
  shows "logged ''out'' me own_pos (on_group_msg E n ch g claimed seq i ts txt rt rx e)"
  unfolding logged_def
proof
  fix h
  let ?e' = "on_group_msg E n ch g claimed seq i ts txt rt rx e"
  have "logged_at ''out'' me own_pos e h" using assms by (simp add: logged_def)
  moreover have "outlog me (log_of ?e' h) = outlog me (log_of e h)"
    using msg_out_same [of e E n ch g claimed seq i ts "txt" rt rx] by (simp add: same_dir_def)
  moreover have "map_of (e_groups ?e') h = map_of (e_groups e) h \<or> (\<exists>r r'. map_of (e_groups e) h = Some r
      \<and> map_of (e_groups ?e') h = Some r' \<and> gr_next_seq r' = gr_next_seq r \<and> gr_hidden r' = gr_hidden r)"
    by (auto simp: group_msg_effect msg_stored_def is_active_member_def split: option.splits)
  ultimately show "logged_at ''out'' me own_pos ?e' h" by (auto simp: logged_at_def split: option.splits)
qed

interpretation own: numbered "''out''" E me me own_pos room for E :: "'x ext_scheme" and me
  by unfold_locales (simp_all add: SYS_DIR_def own_repair msg_out_logged send_logged)

definition own_ok :: "'a ext_scheme \<Rightarrow> engine \<Rightarrow> bool" where
  "own_ok E e \<longleftrightarrow> groups_ok E (e_groups e) \<and> e_rm e = [] \<and> logged ''out'' (nid_show E (e_me e)) own_pos e"

lemma reach_own:
  assumes "reach E (\<lambda>e a. orderly E e a \<and> room e a) e e'" "own_ok E e"
  shows "own_ok E e'"
proof (rule reach_invariant [where J = "own_ok E", OF assms])
  show "own_ok E (exec E b e1)" if "own_ok E e1" "orderly E e1 b \<and> room e1 b" for e1 b
    using that exec_groups_ok [of E e1 b] own.exec_logged [where E = E and me = "nid_show E (e_me e1)" and e = e1 and act = b] exec_rm [of e1 b E]
    by (simp add: own_ok_def orderly_def)
qed


subsection \<open>The window\<close>

text \<open>The sequence numbers after \<open>lo\<close> up to \<open>hi\<close>.\<close>

definition seqs_between :: "u64 \<Rightarrow> u64 \<Rightarrow> u64 list" where
  "seqs_between lo hi = map of_nat [Suc (unat lo)..<Suc (unat hi)]"

lemma seqs_between_len [simp]: "length (seqs_between lo hi) = unat hi - unat lo"
  by (simp add: seqs_between_def del: upt_Suc)

lemma filter_upt: "filter (\<lambda>i. l \<le> i \<and> i < h) [a..<b] = [max l a..<min h b]"
proof (induction b)
  case (Suc b)
  then show ?case by (cases "a \<le> b") (auto simp: max_def min_def not_le le_Suc_eq)
qed simp

lemma window_seqs:
  assumes "lo \<le> hi" "hi \<le> last_seq"
  shows "filter (\<lambda>s. lo < s \<and> s \<le> hi) (first_seqs last_seq) = seqs_between lo hi"
proof -
  have in_range: "unat (of_nat i :: u64) = i" if "i < Suc (unat last_seq)" for i
    using that unsigned_less [of last_seq, where 'a = nat] by (simp add: unat_of_nat)
  have "filter (\<lambda>s. lo < s \<and> s \<le> hi) (first_seqs last_seq)
      = map of_nat (filter (\<lambda>i. Suc (unat lo) \<le> i \<and> i < Suc (unat hi)) [1..<Suc (unat last_seq)])"
    unfolding first_seqs_def filter_map comp_def
    by (rule arg_cong [of _ _ "map of_nat"], rule filter_cong [OF refl])
      (auto simp: word_le_nat_alt word_less_nat_alt in_range simp del: upt_Suc)
  also have "\<dots> = seqs_between lo hi"
    unfolding seqs_between_def filter_upt using assms by (simp add: word_le_nat_alt min_def max_def)
  finally show ?thesis .
qed

lemma seqs_between_shift:
  assumes "lo \<le> hi"
  shows "seqs_between lo hi = map (\<lambda>i. lo + of_nat i) [1..<Suc (unat hi - unat lo)]"
proof -
  have "[Suc (unat lo)..<Suc (unat hi)] = map (\<lambda>i. i + unat lo) [1..<Suc (unat hi - unat lo)]"
    using assms by (intro nth_equalityI) (auto simp: word_le_nat_alt simp del: upt_Suc)
  then show ?thesis by (simp add: seqs_between_def comp_def add.commute del: upt_Suc)
qed

text \<open>The own messages after \<open>lo\<close> up to \<open>hi\<close>, as stored.\<close>

definition window_of :: "'a ext_scheme \<Rightarrow> engine \<Rightarrow> string \<Rightarrow> u64 \<Rightarrow> u64 \<Rightarrow> group_log_rec list" where
  "window_of E e g lo hi = filter (\<lambda>r. lo < gl_seq r \<and> gl_seq r \<le> hi) (outlog (nid_show E (e_me e)) (log_of e g))"

lemma pump_recs_own:
  assumes "lo < hi"
  shows "pump_recs E e g None (lo + 1) hi = window_of E e g lo hi"
proof -
  have iff: "lo + 1 \<le> s \<longleftrightarrow> lo < s" for s
    using unat_Suc_less [OF assms] by (simp add: word_le_nat_alt word_less_nat_alt Suc_le_eq)
  have nz: "lo < s \<Longrightarrow> s \<noteq> 0" for s by auto
  show ?thesis
    unfolding pump_recs_def window_of_def seqlog_def filter_filter iff option.case if_False
    by (rule filter_cong [OF refl]) (use nz in blast)
qed

lemma window_numbers:
  assumes "map gl_seq (outlog (nid_show E (e_me e)) (log_of e g)) = first_seqs last_seq" "lo \<le> hi" "hi \<le> last_seq"
  shows "map gl_seq (window_of E e g lo hi) = seqs_between lo hi"
proof -
  have "map gl_seq (filter (\<lambda>r. lo < gl_seq r \<and> gl_seq r \<le> hi) l) = filter (\<lambda>s. lo < s \<and> s \<le> hi) (map gl_seq l)"
    for l :: "group_log_rec list" by (simp add: filter_map comp_def)
  then show ?thesis unfolding window_of_def using window_seqs [OF assms(2,3)] assms(1) by simp
qed

lemma pump_out:
  assumes "pump_link E e g n = Some (rec, ch, link)" "tx_ok e ch"
  shows "e_out (pump E g n None e) = e_out e @ map (\<lambda>r. (ch, group_msg_frame g (nid_show E (e_me e)) r))
    (case pump_range E rec link n of (lo, hi) \<Rightarrow> if lo > hi then [] else pump_recs E e g None lo hi)"
proof -
  have "e_out (fold (\<lambda>r. tx_send ch (group_msg_frame g me r)) rs e') = e_out e' @ map (\<lambda>r. (ch, group_msg_frame g me r)) rs"
    if "tx_ok e' ch" for me rs e'
    using that by (induction rs arbitrary: e') (simp_all add: tx_send_def tx_ok_def)
  with assms show ?thesis by (simp add: pump_def Let_def split: prod.splits)
qed

text \<open>A device that serves a member: its log and counters are in order, the member is in the roster and has a
  session of protocol 2.\<close>

definition serving :: "'a ext_scheme \<Rightarrow> node_id \<Rightarrow> nat \<Rightarrow> string \<Rightarrow> group_rec \<Rightarrow> engine \<Rightarrow> bool" where
  "serving E n ch g rec e \<longleftrightarrow> own_ok E e \<and> map_of (e_groups e) g = Some rec \<and> \<not> gr_removed rec \<and> \<not> gr_hidden rec
     \<and> contains E (gr_state rec) n \<and> v2_tx e n = Some ch"

lemma v2_tx_ok: "v2_tx e n = Some ch \<Longrightarrow> tx_ok e ch"
  by (auto simp: v2_tx_def v2_handle_def find_Some_iff bind_eq_Some_conv)

lemma v2_tx_cong:
  assumes "map_option p_live (map_of (e_peers e') n) = map_option p_live (map_of (e_peers e) n)" "e_closed e' = e_closed e"
  shows "v2_tx e' n = v2_tx e n"
  using assms by (cases "map_of (e_peers e) n"; cases "map_of (e_peers e') n") (auto simp: v2_tx_def v2_handle_def tx_ok_def)

text \<open>What a synchronisation of a member on our epoch does before it pumps.\<close>

lemma sync_pumps:
  assumes "serving E n ch2 g rec e"
  obtains e6 where "on_group_sync E n ch g (gs_epoch (gr_state rec)) h name e = pump E g n None e6"
    "d_logs e6 = d_logs e" "e_me e6 = e_me e" "e_out e6 = e_out e" "tx_ok e6 ch2"
    "pump_link E e6 g n = Some (sync_rec E e n (gs_epoch (gr_state rec)) h rec, ch2,
       \<lparr>gk_epoch = gs_epoch (gr_state rec),
        gk_pushed = get0 (gr_sent_cursor (sync_rec E e n (gs_epoch (gr_state rec)) h rec)) (nid_show E n)\<rparr>)"
proof -
  let ?ep = "gs_epoch (gr_state rec)" and ?k = "nid_show E n"
  let ?rec' = "sync_rec E e n ?ep h rec"
  define e1 where "e1 = (if name \<noteq> [] \<and> char_count name \<le> 64
      then upd_peer n (\<lambda>p. if p_kind p = Introduced then p\<lparr>p_name := name\<rparr> else p) e else e)"
  define e3 where "e3 = upd_group g (\<lambda>_. ?rec') (e1\<lparr>e_gone := removeAll (g, n) (e_gone e1)\<rparr>)"
  define e4 where "e4 = (if sync_confirm E e n ?ep rec \<or> sync_advance E n h rec then
      (if io_ok e3 then persist_groups e3 else group_warn E n ''could not save group state'' (persist_groups e3)) else e3)"
  define e5 where "e5 = (if sync_advance E n h rec then emit (EvGroupAck g ?k (sync_acked h rec)) e4 else e4)"
  define e6 where "e6 = e5\<lparr>e_links := hm_put (g, n) \<lparr>gk_epoch = ?ep, gk_pushed = get0 (gr_sent_cursor ?rec') ?k\<rparr> (e_links e5)\<rparr>"
  have s: "map_of (e_groups e) g = Some rec" "\<not> gr_removed rec" "contains E (gr_state rec) n" "v2_tx e n = Some ch2"
    using assms by (simp_all add: serving_def)
  have eq: "on_group_sync E n ch g ?ep h name e = pump E g n None e6"
    using s by (simp add: on_group_sync_def Let_def e1_def e3_def e4_def e5_def e6_def cong: if_cong)
  have keep: "d_logs e6 = d_logs e" "e_me e6 = e_me e" "e_out e6 = e_out e" "e_closed e6 = e_closed e"
    by (simp_all add: e1_def e3_def e4_def e5_def e6_def)
  have "map_option p_live (map_of (e_peers e1) n) = map_option p_live (map_of (e_peers e) n)"
    by (cases "map_of (e_peers e) n") (simp_all add: e1_def)
  then have "map_option p_live (map_of (e_peers e6) n) = map_option p_live (map_of (e_peers e) n)"
    by (simp add: e3_def e4_def e5_def e6_def)
  then have v2: "v2_tx e6 n = Some ch2" using s(4) v2_tx_cong [OF _ keep(4)] by simp
  have grp: "map_of (e_groups e6) g = Some ?rec'"
    using s(1) by (simp add: e1_def e3_def e4_def e5_def e6_def)
  have "(g, n) \<notin> set (e_gone e6)" "map_of (e_links e6) (g, n) = Some \<lparr>gk_epoch = ?ep, gk_pushed = get0 (gr_sent_cursor ?rec') ?k\<rparr>"
    by (simp_all add: e3_def e4_def e5_def e6_def)
  with grp v2 s(2,3) have "pump_link E e6 g n = Some (?rec', ch2, \<lparr>gk_epoch = ?ep, gk_pushed = get0 (gr_sent_cursor ?rec') ?k\<rparr>)"
    by (simp add: pump_link_def)
  with eq keep v2_tx_ok [OF v2] that show ?thesis by blast
qed

lemma synced_cursor:
  assumes "get0 (gr_sent_cursor rec) (nid_show E n) \<le> h" "h \<le> own_pos rec"
  shows "get0 (gr_sent_cursor (sync_rec E e n ep h rec)) (nid_show E n) = h"
  using assms by (auto simp: sync_rec_def sync_advance_def sync_acked_def min_def)

lemma sync_window:
  fixes ch :: nat and name :: string
  assumes "serving E n ch2 g rec e" "get0 (gr_sent_cursor rec) (nid_show E n) \<le> h" "h \<le> sat_sub (gr_next_seq rec) 1"
    and "unat h + 200 < 2 ^ 64"
  defines "e' \<equiv> on_group_sync E n ch g (gs_epoch (gr_state rec)) h name e"
  defines "hi \<equiv> min (sat_sub (gr_next_seq rec) 1) (h + GROUP_WINDOW)"
  shows "e_out e' = e_out e @ map (\<lambda>r. (ch2, frame_of g r)) (window_of E e g h hi)"
    "map gl_seq (window_of E e g h hi) = seqs_between h hi" "h \<le> hi" "unat hi \<le> unat h + 200"
proof -
  let ?me = "nid_show E (e_me e)" and ?rec' = "sync_rec E e n (gs_epoch (gr_state rec)) h rec"
  obtain e6 where e6: "e' = pump E g n None e6" "d_logs e6 = d_logs e" "e_me e6 = e_me e" "e_out e6 = e_out e" "tx_ok e6 ch2"
    and link: "pump_link E e6 g n = Some (?rec', ch2, \<lparr>gk_epoch = gs_epoch (gr_state rec), gk_pushed = get0 (gr_sent_cursor ?rec') (nid_show E n)\<rparr>)"
    using sync_pumps [OF assms(1), of ch h name] unfolding e'_def by blast
  have log: "map gl_seq (outlog ?me (log_of e g)) = first_seqs (own_pos rec)"
    using assms(1) logged_seqs [of "''out''" ?me own_pos e g rec] by (simp add: serving_def own_ok_def)
  have range: "pump_range E ?rec' \<lparr>gk_epoch = gs_epoch (gr_state rec), gk_pushed = get0 (gr_sent_cursor ?rec') (nid_show E n)\<rparr> n = (h + 1, hi)"
    by (simp add: pump_range_def Let_def synced_cursor [OF assms(2,3)] hi_def)
  have h200: "unat (h + GROUP_WINDOW) = unat h + 200"
    using assms(4) by (simp add: GROUP_WINDOW_def unat_word_ariths)
  have hi: "h \<le> hi" "hi \<le> own_pos rec" "unat hi \<le> unat h + 200"
    using assms(3) h200 by (auto simp: hi_def word_le_nat_alt min_def)
  then show "h \<le> hi" "unat hi \<le> unat h + 200" by blast+
  show win: "map gl_seq (window_of E e g h hi) = seqs_between h hi" by (rule window_numbers [OF log hi(1,2)])
  have "(if h + 1 > hi then [] else pump_recs E e6 g None (h + 1) hi) = window_of E e g h hi"
  proof (cases "h < hi")
    case True
    then have "\<not> h + 1 > hi" using inc_le by (simp add: not_less)
    with pump_recs_own [OF True, of E e6 g] e6(2,3) show ?thesis by (simp add: window_of_def log_of_lg)
  next
    case False
    with hi(1) have "h = hi" by simp
    moreover have "h < h + 1" using assms(4) by (simp add: word_less_nat_alt unat_word_ariths)
    ultimately show ?thesis using win by (simp add: seqs_between_def)
  qed
  moreover have "group_msg_frame g ?me r = frame_of g r" if "r \<in> set (window_of E e g h hi)" for r
    using that by (auto simp: window_of_def group_msg_frame_def frame_of_def seqlog_def)
  then have "map (\<lambda>r. (ch2, group_msg_frame g ?me r)) (window_of E e g h hi) = map (\<lambda>r. (ch2, frame_of g r)) (window_of E e g h hi)" by simp
  ultimately show "e_out e' = e_out e @ map (\<lambda>r. (ch2, frame_of g r)) (window_of E e g h hi)"
    using pump_out [OF link e6(5)] unfolding range e6(1) by (simp add: e6(3,4) cong: if_cong)
qed

text \<open>after a member on our epoch reports position \<open>h\<close>, its session gets exactly our messages from \<open>h + 1\<close>
  on, in order, as stored, and never more than the window of 200 ahead of what it has.\<close>

theorem sync_sends_window:
  assumes "serving E n ch2 g rec e" "get0 (gr_sent_cursor rec) (nid_show E n) \<le> h" "h \<le> sat_sub (gr_next_seq rec) 1"
    and "unat h + 200 < 2 ^ 64"
  shows "let hi = min (sat_sub (gr_next_seq rec) 1) (h + GROUP_WINDOW); rs = window_of E e g h hi
    in e_out (on_group_sync E n ch g (gs_epoch (gr_state rec)) h name e) = e_out e @ map (\<lambda>r. (ch2, frame_of g r)) rs
      \<and> map gl_seq rs = seqs_between h hi \<and> length rs \<le> 200"
proof -
  have "length (window_of E e g h hi) = unat hi - unat h" if "map gl_seq (window_of E e g h hi) = seqs_between h hi" for hi
    using arg_cong [OF that, of length] by simp
  with sync_window [OF assms] show ?thesis by (simp add: Let_def)
qed

subsection \<open>A round\<close>

text \<open>C4: one exchange brings a receiver forward: its position is reported, the sender answers with frames, and
  when the receiver has read them its position is the sender's last number, or 200 further, and its log holds the
  sender's messages up to there, as the sender stored them. Repeating the round therefore delivers everything.\<close>

theorem sync_round_delivers:
  fixes ch :: nat and name :: string
  assumes "serving E n ch2 g rec e" "get0 (gr_sent_cursor rec) (nid_show E n) \<le> h" "h \<le> sat_sub (gr_next_seq rec) 1"
    and "unat h + 200 < 2 ^ 64" "list_all (sendable E (e_me e)) (outlog (nid_show E (e_me e)) (log_of e g))"
    and "receiving E (e_me e) ch3 g h d"
  defines "fs \<equiv> map snd (drop (length (e_out e)) (e_out (on_group_sync E n ch g (gs_epoch (gr_state rec)) h name e)))"
  defines "d' \<equiv> run E (map (\<lambda>f. ARead (e_me e) f ch3) fs) d"
  defines "hi \<equiv> min (sat_sub (gr_next_seq rec) 1) (h + GROUP_WINDOW)"
  shows "receiving E (e_me e) ch3 g hi d' \<and> (h < sat_sub (gr_next_seq rec) 1 \<longrightarrow> h < hi)
    \<and> map msg_body (inlog (nid_show E (e_me e)) (log_of d' g))
       = map msg_body (inlog (nid_show E (e_me e)) (log_of d g)) @ map msg_body (window_of E e g h hi)"
proof -
  let ?w = "window_of E e g h hi"
  note win = sync_window [OF assms(1-4), folded hi_def]
  have fs: "fs = map (frame_of g) ?w" by (simp add: fs_def win(1) comp_def)
  have len: "length ?w = unat hi - unat h" using arg_cong [OF win(2), of length] by simp
  then have seqs: "map gl_seq ?w = map (\<lambda>i. h + of_nat i) [1..<Suc (length ?w)]"
    using win(2) seqs_between_shift [OF win(3)] by simp
  have "list_all (sendable E (e_me e)) ?w" using assms(5) by (auto simp: list_all_iff window_of_def)
  moreover have "unat h + length ?w < 2 ^ 64" using len win(4) assms(4) by simp
  moreover have "h + of_nat (length ?w) = hi" using len win(3) by (simp add: of_nat_diff word_le_nat_alt)
  ultimately have "receiving E (e_me e) ch3 g hi d' \<and> map msg_body (inlog (nid_show E (e_me e)) (log_of d' g))
       = map msg_body (inlog (nid_show E (e_me e)) (log_of d g)) @ map msg_body ?w"
    using replay_all [OF assms(6) _ _ seqs] by (simp add: d'_def fs comp_def)
  moreover have "h < h + GROUP_WINDOW" using assms(4) by (simp add: GROUP_WINDOW_def word_less_nat_alt unat_word_ariths)
  then have "h < sat_sub (gr_next_seq rec) 1 \<longrightarrow> h < hi" by (simp add: hi_def)
  ultimately show ?thesis by blast
qed

subsection \<open>Examples\<close>

text \<open>Device 2 after it wrote one message, and device 1 in the same group.\<close>

definition demo_own :: group_log_rec where
  "demo_own = \<lparr>gl_seq = 1, gl_from = dev_id 2, gl_id = ''m1'', gl_ts = 90, gl_ts_eff = 90, gl_dir = ''out'', gl_text = ''hi'',
     gl_reply_to = None, gl_reply_text = None, gl_file = None\<rparr>"

definition demo_sent :: engine where
  "demo_sent = demo_group\<lparr>e_groups := [(gs_gid trio, (new_rec trio_signed)\<lparr>gr_next_seq := 2\<rparr>)], d_logs := [(gs_gid trio, [demo_own])]\<rparr>"

definition demo_peer :: engine where
  "demo_peer = demo_group\<lparr>e_me := dev 1, e_peers := [(dev 2, peer1)]\<rparr>"

lemma demo_sent_fields [simp]:
  "e_groups demo_sent = [(gs_gid trio, (new_rec trio_signed)\<lparr>gr_next_seq := 2\<rparr>)]" "e_me demo_sent = dev 2"
  "e_rm demo_sent = []" "e_out demo_sent = []" "e_peers demo_sent = [(dev 1, peer1)]" "e_closed demo_sent = []"
  "log_of demo_sent g = (if g = gs_gid trio then [demo_own] else [])"
  by (simp_all add: demo_sent_def log_of_def)

lemma demo_outlog: "outlog (dev_id 2) [demo_own] = [demo_own]"
  by (simp add: seqlog_def demo_own_def)

lemma first_seqs_1: "first_seqs 1 = [1]"
  by (simp add: first_seqs_def)

lemma demo_own_ok: "own_ok ref_ext demo_sent"
proof -
  have "rec_ok ref_ext (gs_gid trio) ((new_rec trio_signed)\<lparr>gr_next_seq := 2\<rparr>)"
    by (simp add: rec_ok_def trio_accepted)
  moreover have "sat_sub 2 1 = (1 :: u64)" by (simp add: sat_sub_def)
  ultimately show ?thesis
    by (auto simp: own_ok_def groups_ok_def logged_def logged_at_def demo_outlog first_seqs_1 demo_own_def [THEN arg_cong, of gl_seq])
qed


lemma demo_serving: "serving ref_ext (dev 1) 7 (gs_gid trio) ((new_rec trio_signed)\<lparr>gr_next_seq := 2\<rparr>) demo_sent"
  by (simp add: serving_def demo_own_ok v2_tx_def v2_handle_def peer1_def tx_ok_def)

lemma demo_window: "window_of ref_ext demo_sent (gs_gid trio) 0 1 = [demo_own]"
  by (simp add: window_of_def demo_outlog) (simp add: demo_own_def)

lemma demo_hi: "min (sat_sub 2 1) (0 + GROUP_WINDOW) = (1 :: u64)"
  by (simp add: sat_sub_def GROUP_WINDOW_def min_def)

theorem sync_sends_window_witness:
  "e_out (on_group_sync ref_ext (dev 1) 7 (gs_gid trio) 1 0 [] demo_sent) = [(7, frame_of (gs_gid trio) demo_own)]"
  using sync_sends_window [OF demo_serving, of 0 7 "[]"] demo_window demo_hi by (simp add: Let_def)

theorem sync_round_delivers_witness:
  "receiving ref_ext (dev 2) 7 (gs_gid trio) 1 (run ref_ext [ARead (dev 2) (frame_of (gs_gid trio) demo_own) 7] demo_peer)"
proof -
  have out: "e_out (on_group_sync ref_ext (dev 1) 7 (gs_gid trio) 1 0 [] demo_sent) = [(7, frame_of (gs_gid trio) demo_own)]"
    using sync_window(1) [OF demo_serving, of 0 7 "[]"] demo_window demo_hi by simp
  have "receiving ref_ext (dev 2) 7 (gs_gid trio) 0 demo_peer"
    by (simp add: receiving_def is_active_member_def demo_peer_def session_proto_def peer1_def tx_ok_def)
  moreover have "is_safe_transfer_id ''m1''" by code_simp
  then have "list_all (sendable ref_ext (dev 2)) (outlog (dev_id 2) [demo_own])"
    unfolding demo_outlog by (simp add: sendable_def demo_own_def MAX_GROUP_TEXT_def)
  ultimately show ?thesis
    using sync_round_delivers [OF demo_serving, of 0 7 demo_peer 7 "[]"] demo_hi out by simp
qed

end
