(* ===== verification/Contacts.thy ===== *)
theory Contacts
  imports Outbox
begin

section \<open>What holds of every known device\<close>

text \<open>
  A property of each entry of the peer table, kept by every action: the locale \<open>peer_inv\<close> states what the
  property must tolerate (a session that is added or dropped, a device that becomes paired, an introduced
  member), and the preservation by all operations is proved here once. It is interpreted for the protocol of the
  live sessions (theory Protocol) and for who is paired (theory Pairing).
\<close>

definition peers_all :: "(node_id \<Rightarrow> peer \<Rightarrow> bool) \<Rightarrow> (node_id, peer) hmap \<Rightarrow> bool" where
  "peers_all P ps \<longleftrightarrow> (\<forall>(n, p)\<in>set ps. P n p)"

lemma peers_all_Nil [simp]: "peers_all P []"
  by (simp add: peers_all_def)

lemma peers_all_get: "peers_all P ps \<Longrightarrow> map_of ps n = Some p \<Longrightarrow> P n p"
  by (auto simp: peers_all_def dest: map_of_SomeD)

lemma in_set_put: "x \<in> set (hm_put n p ps) \<Longrightarrow> x = (n, p) \<or> x \<in> set ps"
  by (induction ps) (auto split: if_splits)

lemma peers_all_put: "peers_all P ps \<Longrightarrow> P n p \<Longrightarrow> peers_all P (hm_put n p ps)"
  by (auto simp: peers_all_def dest!: in_set_put)

lemma peers_all_retain: "peers_all P ps \<Longrightarrow> peers_all P (retain f ps)"
  by (auto simp: peers_all_def)

lemma peers_all_del: "peers_all P ps \<Longrightarrow> peers_all P (hm_del n ps)"
  by (simp add: del_retain peers_all_retain)

lemma peers_all_upd:
  assumes "peers_all P (e_peers e)" "\<And>p. map_of (e_peers e) n = Some p \<Longrightarrow> P n p \<Longrightarrow> P n (f p)"
  shows "peers_all P (e_peers (upd_peer n f e))"
  using assms by (auto simp: upd_peer_def intro: peers_all_put peers_all_get split: option.splits)

lemma peers_all_fold:
  assumes "\<And>x e. peers_all P (e_peers e) \<Longrightarrow> peers_all P (e_peers (f x e))" "peers_all P (e_peers e)"
  shows "peers_all P (e_peers (fold f xs e))"
  using assms(2) by (induction xs arbitrary: e) (auto intro: assms(1))

text \<open>The stored contacts: whom \<open>peers.json\<close> makes paired at the next start.\<close>

definition disk_all :: "'a ext_scheme \<Rightarrow> (node_id \<Rightarrow> bool) \<Rightarrow> persisted_peer list option \<Rightarrow> bool" where
  "disk_all E Q dp \<longleftrightarrow> (\<forall>pp n. dp \<noteq> None \<longrightarrow> pp \<in> set (the dp) \<longrightarrow> nid_parse E (pp_node_id pp) = Some n \<longrightarrow> Q n)"

text \<open>Printing a node id and parsing it gives it back.\<close>

definition show_laws :: "'a ext_scheme \<Rightarrow> bool" where
  "show_laws E \<longleftrightarrow> (\<forall>n m. nid_parse E (nid_show E n) = Some m \<longrightarrow> m = n)"

text \<open>Which device an action pairs, and which session it registers.\<close>

definition pairs :: "engine \<Rightarrow> action \<Rightarrow> node_id \<Rightarrow> bool" where
  "pairs e act n = (case act of
     APairConnect m _ _ out _ _ \<Rightarrow> n = m \<and> m \<noteq> e_me e \<and> (\<exists>name. out = Answer (Welcome name))
   | AIncoming m _ _ op expected req ds _ \<Rightarrow> n = m \<and>
       (case incoming_route e m op of
          Pair tok _ _ \<Rightarrow> tok = expected \<or> tok = [] \<and> map_of ds req = Some True
        | _ \<Rightarrow> False)
   | _ \<Rightarrow> False)"

definition registers :: "action \<Rightarrow> (nat \<times> u8) option" where
  "registers act = (case act of
     APairConnect _ _ _ _ proto ch \<Rightarrow> Some (ch, proto)
   | AIncoming _ proto ch _ _ _ _ _ \<Rightarrow> Some (ch, proto)
   | AConnect _ out _ \<Rightarrow> out
   | _ \<Rightarrow> None)"

locale peer_inv =
  fixes E :: "'x ext_scheme" and P :: "node_id \<Rightarrow> peer \<Rightarrow> bool" and handle_ok :: "nat \<Rightarrow> u8 \<Rightarrow> bool" and pair_ok :: "node_id \<Rightarrow> bool"
  assumes weaken: "p_kind p' = p_kind p \<Longrightarrow> set (p_live p') \<subseteq> set (p_live p) \<Longrightarrow> P n p \<Longrightarrow> P n p'"
    and introduced: "P n (blank_peer Introduced name addrs [])"
    and join: "P n p \<Longrightarrow> handle_ok ch proto \<Longrightarrow> p_kind p' = p_kind p \<Longrightarrow>
      set (p_live p') \<subseteq> insert \<lparr>lh_id = i, lh_tx = ch, lh_proto = proto\<rparr> (set (p_live p)) \<Longrightarrow> P n p'"
    and becomes_paired: "P n p \<Longrightarrow> pair_ok n \<Longrightarrow> p_live p' = p_live p \<Longrightarrow> P n p'"
    and new_paired: "pair_ok n \<Longrightarrow> p_live p = [] \<Longrightarrow> P n p"
    and paired_ok: "P n p \<Longrightarrow> p_kind p = Paired \<Longrightarrow> pair_ok n"
begin

lemma keep_upd:
  assumes "peers_all P (e_peers e)" "\<And>p. p_kind (f p) = p_kind p \<and> set (p_live (f p)) \<subseteq> set (p_live p)"
  shows "peers_all P (e_peers (upd_peer n f e))"
proof (rule peers_all_upd [OF assms(1)])
  show "P n (f p)" if "P n p" for p using assms(2) [of p] that weaken by blast
qed

lemma keep_set:
  assumes "peers_all P (e_peers e)" "map_of (e_peers e) n = Some p" "p_kind p' = p_kind p" "set (p_live p') \<subseteq> set (p_live p)"
  shows "peers_all P (e_peers (upd_peer n (\<lambda>_. p') e))"
proof (rule peers_all_upd [OF assms(1)])
  show "P n p'" using weaken [OF assms(3,4)] peers_all_get [OF assms(1,2)] by blast
qed

lemmas keep_simps = keep_upd keep_set

subsection \<open>Sessions and texts\<close>

lemma register_keeps:
  assumes "peers_all P (e_peers e)" "handle_ok ch proto"
  shows "peers_all P (e_peers (register_live E n ch proto e))"
proof -
  have "peers_all P (e_peers (upd_peer n (\<lambda>p. p\<lparr>p_live := p_live p @ [\<lparr>lh_id = i, lh_tx = ch, lh_proto = proto\<rparr>], p_proto := proto\<rparr>) (e\<lparr>e_handle_ids := j\<rparr>)))"
    for i j
  proof (rule peers_all_upd)
    show "P n (p\<lparr>p_live := p_live p @ [\<lparr>lh_id = i, lh_tx = ch, lh_proto = proto\<rparr>], p_proto := proto\<rparr>)" if "P n p" for p
      by (rule join [OF that assms(2)]) auto
  qed (simp add: assms(1))
  then show ?thesis by (simp add: register_live_def Let_def)
qed

lemma prune_live_fields [simp]: "p_kind (prune_live e p) = p_kind p" "set (p_live (prune_live e p)) \<subseteq> set (p_live p)"
  by (auto simp: prune_live_def)

lemma trigger_keeps: "peers_all P (e_peers e) \<Longrightarrow> peers_all P (e_peers (trigger_connect n e))"
  by (simp add: trigger_connect_def Let_def keep_set split: option.splits)

lemma fold_trigger_keeps: "peers_all P (e_peers e) \<Longrightarrow> peers_all P (e_peers (fold trigger_connect ns e))"
  by (rule peers_all_fold [OF trigger_keeps])

lemma dials_keep:
  "peers_all P (e_peers e) \<Longrightarrow> peers_all P (e_peers (maintenance_tick e))"
  "peers_all P (e_peers e) \<Longrightarrow> peers_all P (e_peers (trigger_group_dials E e))"
  "peers_all P (e_peers e) \<Longrightarrow> peers_all P (e_peers (fst (retry E s e)))"
  by (simp_all add: maintenance_tick_def trigger_group_dials_def retry_def fold_trigger_keeps trigger_keeps split: option.splits)

lemma remove_live_keeps: "peers_all P (e_peers e) \<Longrightarrow> peers_all P (e_peers (remove_live E n hid e))"
  by (auto simp: remove_live_def Let_def intro: keep_upd split: option.splits)

lemma flush_keeps: "peers_all P (e_peers e) \<Longrightarrow> peers_all P (e_peers (flush_queue E n ch e))"
  by (simp add: flush_queue_def keep_upd split: option.splits prod.splits)

lemma store_in_keeps: "peers_all P (e_peers e) \<Longrightarrow> peers_all P (e_peers (store_in n row e))"
  by (simp add: store_in_def keep_upd split: option.splits)

lemma on_ack_keeps: "peers_all P (e_peers e) \<Longrightarrow> peers_all P (e_peers (on_ack E n i e))"
  by (simp add: on_ack_def Let_def keep_upd split: option.splits prod.splits)

lemma on_msg_keeps: "peers_all P (e_peers e) \<Longrightarrow> peers_all P (e_peers (on_msg E n ch i ts txt rt rx e))"
  by (simp add: on_msg_def msg_accept_def Let_def store_in_keeps)

lemma send_keeps: "peers_all P (e_peers e) \<Longrightarrow> peers_all P (e_peers (fst (send E s txt rt rx rid e)))"
  by (simp add: send_def Let_def keep_set trigger_keeps split: option.splits list.splits)

lemma connecting_keeps: "peers_all P (e_peers e) \<Longrightarrow> peers_all P (e_peers (set_connecting n v e))"
  by (simp add: set_connecting_def keep_upd)

lemma connect_keeps:
  "peers_all P (e_peers e) \<Longrightarrow> (\<And>ch proto. out = Some (ch, proto) \<Longrightarrow> handle_ok ch proto) \<Longrightarrow>
   peers_all P (e_peers (connect_and_serve E n out err e))"
  by (simp add: connect_and_serve_def connecting_keeps flush_keeps register_keeps split: option.splits prod.splits)

lemma beacon_keeps: "peers_all P (e_peers e) \<Longrightarrow> peers_all P (e_peers (hear_beacon E s name addrs from e))"
  by (simp add: hear_beacon_def Let_def keep_upd split: option.splits)

subsection \<open>Pairing\<close>

lemma add_peer_keeps:
  assumes "peers_all P (e_peers e)" "pair_ok n"
  shows "peers_all P (e_peers (fst (add_peer E n name addrs e)))"
proof (cases "map_of (e_peers e) n")
  case None
  then show ?thesis using assms
    by (auto simp: add_peer_def Let_def blank_peer_def intro!: peers_all_put new_paired)
next
  case (Some p)
  have "P n p'" if "p_live p' = p_live p" for p'
    using peers_all_get [OF assms(1) Some] assms(2) that by (rule becomes_paired)
  then show ?thesis using assms(1) Some
    by (auto simp: add_peer_def Let_def intro!: peers_all_put)
qed

lemma welcomed_keeps:
  assumes "peers_all P (e_peers e)" "pair_ok n" "handle_ok ch proto"
  shows "peers_all P (e_peers (fst (pair_welcomed E n addrs hint proto ch nm e)))"
  using assms by (simp add: pair_welcomed_def Let_def split_beta flush_keeps register_keeps add_peer_keeps split: sum.splits)

lemma pair_connect_keeps:
  assumes "peers_all P (e_peers e)" "\<And>m. pairs e (APairConnect n addrs hint out proto ch) m \<Longrightarrow> pair_ok m" "handle_ok ch proto"
  shows "peers_all P (e_peers (fst (pair_connect E n addrs hint out proto ch e)))"
  using assms by (simp add: pair_connect_def pairs_def welcomed_keeps split: pair_outcome.splits hello.splits)

lemma finish_keeps:
  assumes "peers_all P (e_peers e)" "pair_ok n" "handle_ok ch proto"
  shows "peers_all P (e_peers (fst (pair_finish E n nm addrs proto ch ok e)))"
  using assms by (simp add: pair_finish_def Let_def split_beta flush_keeps register_keeps add_peer_keeps split: sum.splits)

lemma incoming_keeps:
  assumes "peers_all P (e_peers e)" "\<And>m. pairs e (AIncoming n proto ch op expected req ds ok) m \<Longrightarrow> pair_ok m" "handle_ok ch proto"
  shows "peers_all P (e_peers (fst (handle_incoming E n proto ch op expected req ds ok e)))"
proof (cases "incoming_route e n op")
  case (Pair tok name addrs)
  have "peers_all P (e_peers (fst (pair_finish E n name addrs proto ch ok (pair_request E n name req e))))" if "pair_ok n"
    by (rule finish_keeps [OF _ that assms(3)]) (simp add: assms(1))
  with assms Pair show ?thesis
    by (simp add: handle_incoming_def pairs_def check_token_def await_decision_def Let_def finish_keeps
        split: option.splits bool.splits sum.splits if_splits)
qed (use assms in \<open>simp_all add: handle_incoming_def flush_keeps register_keeps\<close>)

subsection \<open>Groups\<close>

lemma intro_member_keeps: "peers_all P ps \<Longrightarrow> peers_all P (intro_member E me m ps)"
  by (auto simp: intro_member_def Let_def introduced intro!: peers_all_put intro: weaken dest: peers_all_get split: option.splits)

lemma rebuild_keeps: "peers_all P ps \<Longrightarrow> peers_all P (rebuild_introduced E groups me ps)"
  unfolding rebuild_introduced_def by (induction "active_members groups" arbitrary: ps) (auto simp: intro_member_keeps fold_invariant)

lemma gc_keeps: "peers_all P ps \<Longrightarrow> peers_all P (gc_introduced E groups ps)"
  unfolding gc_introduced_def by (rule peers_all_retain)

lemma sync_introduced_keeps: "peers_all P (e_peers e) \<Longrightarrow> peers_all P (e_peers (sync_introduced E e))"
  by (simp add: sync_introduced_def gc_keeps rebuild_keeps)

lemma changed_keeps: "peers_all P (e_peers e) \<Longrightarrow> peers_all P (e_peers (groups_changed E e))"
  by (simp add: groups_changed_def sync_introduced_keeps)

lemma purge_keeps: "peers_all P (e_peers e) \<Longrightarrow> peers_all P (e_peers (purge_group E g e))"
  by (simp add: purge_group_def Let_def sync_introduced_keeps changed_keeps)

lemma fold_purge_keeps: "peers_all P (e_peers e) \<Longrightarrow> peers_all P (e_peers (fold (purge_group E) gids e))"
  by (rule peers_all_fold [OF purge_keeps])

lemma edit_keeps: "peers_all P (e_peers e) \<Longrightarrow> peers_all P (e_peers (fst (edit_group_locked E g left edit e)))"
  by (simp add: edit_group_locked_def Let_def changed_keeps split: option.splits sum.splits)

lemma group_ops_keep:
  assumes "peers_all P (e_peers e)"
  shows "peers_all P (e_peers (fst (group_add E g s e)))" "peers_all P (e_peers (fst (group_remove E g s e)))"
    "peers_all P (e_peers (fst (group_rename E g s e)))" "peers_all P (e_peers (fst (group_disband E g e)))"
    "peers_all P (e_peers (fst (group_create E name ids rnd e)))" "peers_all P (e_peers (fst (group_leave E g e)))"
    "peers_all P (e_peers (fst (group_delete E g e)))"
  using assms edit_keeps [OF assms]
  by (simp_all add: edit_ops_defs group_create_def group_leave_def group_delete_def Let_def changed_keeps purge_keeps
      split: option.splits sum.splits)

lemma group_send_keeps: "peers_all P (e_peers e) \<Longrightarrow> peers_all P (e_peers (fst (group_send E g txt rt rx rid e)))"
  by (simp add: group_send_def Let_def split_beta fold_trigger_keeps split: option.splits)

lemma remove_peer_keeps: "peers_all P (e_peers e) \<Longrightarrow> peers_all P (e_peers (fst (remove_peer E s e)))"
  by (simp add: remove_peer_def Let_def sync_introduced_keeps fold_purge_keeps peers_all_del split: option.splits)

lemma send_file_keeps: "peers_all P (e_peers e) \<Longrightarrow> peers_all P (e_peers (fst (send_file E s src name cap rid e)))"
  by (simp add: send_file_def Let_def keep_set split: option.splits sum.splits list.splits)

lemma file_end_keeps: "peers_all P (e_peers e) \<Longrightarrow> peers_all P (e_peers (on_file_end E n ch i e))"
  by (simp add: on_file_end_def Let_def store_in_keeps split: option.splits)

lemma apply_keeps: "peers_all P (e_peers e) \<Longrightarrow> peers_all P (e_peers (fst (apply_state_locked E st n e)))"
proof -
  have tail: "peers_all P (e_peers (fst (apply_tail E g ep sys nr res e)))" if "peers_all P (e_peers e)" for g ep sys nr res e
    using that by (simp add: apply_tail_def Let_def changed_keeps purge_keeps split: option.splits)
  show "peers_all P (e_peers e) \<Longrightarrow> peers_all P (e_peers (fst (apply_state_locked E st n e)))"
    by (simp add: apply_state_locked_def Let_def tail split: option.splits sum.splits evaluation.splits)
qed

lemma sync_keeps: "peers_all P (e_peers e) \<Longrightarrow> peers_all P (e_peers (on_group_sync E n ch g ep h name e))"
  by (simp add: on_group_sync_def Let_def keep_upd split: option.splits)

lemma on_leave_keeps: "peers_all P (e_peers e) \<Longrightarrow> peers_all P (e_peers (on_group_leave E n g e))"
  by (simp add: on_group_leave_def Let_def split_beta edit_keeps split: option.splits sum.splits)

lemma frame_keeps: "peers_all P (e_peers e) \<Longrightarrow> peers_all P (e_peers (handle_frame E n f ch e))"
  by (simp add: handle_frame_def handle_group_frame_def Let_def split_beta apply_keeps sync_keeps on_leave_keeps on_msg_keeps
      on_ack_keeps file_end_keeps split: frame.splits option.splits sum.splits)

subsection \<open>The stored contacts\<close>

lemma persist_disk:
  assumes "peers_all P (e_peers e)" "disk_all E pair_ok (d_peers e)" "show_laws E"
  shows "disk_all E pair_ok (d_peers (persist_peers E e))"
proof -
  have "pair_ok n" if pp: "pp \<in> set (persisted E (e_peers e))" and n: "nid_parse E (pp_node_id pp) = Some n" for pp n
  proof -
    obtain m p where mp: "(m, p) \<in> set (e_peers e)" "p_kind p = Paired" "pp_node_id pp = nid_show E m"
      using pp by (auto simp: persisted_def)
    then have "n = m" using assms(3) n by (simp add: show_laws_def)
    moreover have "P m p" using assms(1) mp(1) by (auto simp: peers_all_def)
    ultimately show ?thesis using paired_ok mp(2) by blast
  qed
  with assms(2) show ?thesis by (simp add: persist_peers_def disk_all_def)
qed

lemma register_disk:
  assumes "peers_all P (e_peers e)" "disk_all E pair_ok (d_peers e)" "show_laws E" "handle_ok ch proto"
  shows "disk_all E pair_ok (d_peers (register_live E n ch proto e))"
proof -
  let ?e1 = "upd_peer n (\<lambda>p. p\<lparr>p_live := p_live p @ [\<lparr>lh_id = e_handle_ids e, lh_tx = ch, lh_proto = proto\<rparr>], p_proto := proto\<rparr>)
    (e\<lparr>e_handle_ids := e_handle_ids e + 1\<rparr>)"
  have "peers_all P (e_peers ?e1)"
    using register_keeps [OF assms(1,4), of n] by (simp add: register_live_def Let_def split: if_splits)
  then show ?thesis using persist_disk [of ?e1] assms(2,3) by (simp add: register_live_def Let_def)
qed

lemma add_peer_disk:
  assumes "peers_all P (e_peers e)" "disk_all E pair_ok (d_peers e)" "show_laws E" "pair_ok n"
  shows "disk_all E pair_ok (d_peers (fst (add_peer E n name addrs e)))"
proof -
  have "peers_all P (e_peers (fst (add_peer E n name addrs e)))" using assms(1,4) by (rule add_peer_keeps)
  with assms(2,3) show ?thesis by (auto simp: add_peer_def Let_def intro!: persist_disk)
qed

lemmas session_disk = register_disk register_keeps add_peer_keeps add_peer_disk

lemma pairing_disk:
  assumes "peers_all P (e_peers e)" "disk_all E pair_ok (d_peers e)" "show_laws E" "pair_ok n" "handle_ok ch proto"
  shows "disk_all E pair_ok (d_peers (fst (pair_welcomed E n addrs hint proto ch nm e)))"
    "disk_all E pair_ok (d_peers (fst (pair_finish E n nm as proto ch ok e)))"
  using assms by (simp_all add: pair_welcomed_def pair_finish_def Let_def split_beta session_disk split: sum.splits)

lemma pair_connect_disk:
  assumes "peers_all P (e_peers e)" "disk_all E pair_ok (d_peers e)" "show_laws E" "handle_ok ch proto"
    and "\<And>m. pairs e (APairConnect n addrs hint out proto ch) m \<Longrightarrow> pair_ok m"
  shows "disk_all E pair_ok (d_peers (fst (pair_connect E n addrs hint out proto ch e)))"
  using assms by (simp add: pair_connect_def pairs_def pairing_disk split: pair_outcome.splits hello.splits)

lemma incoming_disk:
  assumes "peers_all P (e_peers e)" "disk_all E pair_ok (d_peers e)" "show_laws E" "handle_ok ch proto"
    and "\<And>m. pairs e (AIncoming n proto ch op expected req ds ok) m \<Longrightarrow> pair_ok m"
  shows "disk_all E pair_ok (d_peers (fst (handle_incoming E n proto ch op expected req ds ok e)))"
proof (cases "incoming_route e n op")
  case (Pair tok name addrs)
  have "disk_all E pair_ok (d_peers (fst (pair_finish E n name addrs proto ch ok (pair_request E n name req e))))" if "pair_ok n"
    by (rule pairing_disk(2) [OF _ _ assms(3) that assms(4)]) (simp_all add: assms(1,2))
  with assms Pair show ?thesis
    by (simp add: handle_incoming_def pairs_def check_token_def await_decision_def Let_def pairing_disk
        split: option.splits bool.splits sum.splits if_splits)
qed (use assms in \<open>simp_all add: handle_incoming_def register_disk\<close>)

lemma connect_disk:
  assumes "peers_all P (e_peers e)" "disk_all E pair_ok (d_peers e)" "show_laws E" "\<And>ch proto. out = Some (ch, proto) \<Longrightarrow> handle_ok ch proto"
  shows "disk_all E pair_ok (d_peers (connect_and_serve E n out err e))"
  using assms by (simp add: connect_and_serve_def register_disk split: option.splits prod.splits)

lemma beacon_disk:
  assumes "peers_all P (e_peers e)" "disk_all E pair_ok (d_peers e)" "show_laws E"
  shows "disk_all E pair_ok (d_peers (hear_beacon E s name addrs from e))"
  using assms by (simp add: hear_beacon_def Let_def persist_disk keep_upd split: option.splits)

lemma remove_peer_disk:
  assumes "peers_all P (e_peers e)" "disk_all E pair_ok (d_peers e)" "show_laws E"
  shows "disk_all E pair_ok (d_peers (fst (remove_peer E s e)))"
  using assms by (simp add: remove_peer_def Let_def persist_disk peers_all_del split: option.splits)

lemma start_keeps:
  assumes "disk_all E pair_ok (d_peers e)"
  shows "peers_all P (e_peers (start E tok e))"
proof -
  have load: "peers_all P (load_peer E e pp ps)"
    if "peers_all P ps" "\<And>n. nid_parse E (pp_node_id pp) = Some n \<Longrightarrow> pair_ok n" for pp ps
    using that by (auto simp: load_peer_def Let_def blank_peer_def intro!: peers_all_put new_paired split: option.splits)
  have "peers_all P (fold (load_peer E e) pps ps)"
    if "peers_all P ps" "\<forall>pp\<in>set pps. \<forall>n. nid_parse E (pp_node_id pp) = Some n \<longrightarrow> pair_ok n" for pps ps
    using that by (induction pps arbitrary: ps) (simp_all add: load)
  moreover have "pair_ok n" if "pp \<in> set (load_peers e)" "nid_parse E (pp_node_id pp) = Some n" for pp n
    using assms that by (cases "d_peers e") (auto simp: disk_all_def load_peers_def)
  ultimately have "peers_all P (fold (load_peer E e) (load_peers e) [])" by simp
  then show ?thesis by (simp add: start_def Let_def dials_keep fold_trigger_keeps rebuild_keeps)
qed

subsection \<open>Every action\<close>

lemma exec_keeps:
  assumes "peers_all P (e_peers e)" "disk_all E pair_ok (d_peers e)"
    and "\<And>m. pairs e act m \<Longrightarrow> pair_ok m" "\<And>ch proto. registers act = Some (ch, proto) \<Longrightarrow> handle_ok ch proto"
  shows "peers_all P (e_peers (exec E act e))"
  using assms
  by (cases act) (simp_all add: start_keeps send_keeps send_file_keeps remove_peer_keeps dials_keep pair_connect_keeps incoming_keeps
      connect_keeps beacon_keeps group_ops_keep group_send_keeps frame_keeps remove_live_keeps Let_def registers_def)

lemma exec_disk:
  assumes "peers_all P (e_peers e)" "disk_all E pair_ok (d_peers e)" "show_laws E"
    and "\<And>m. pairs e act m \<Longrightarrow> pair_ok m" "\<And>ch proto. registers act = Some (ch, proto) \<Longrightarrow> handle_ok ch proto"
  shows "disk_all E pair_ok (d_peers (exec E act e))"
  using assms
  by (cases act) (simp_all add: start_def pair_connect_disk incoming_disk connect_disk beacon_disk remove_peer_disk Let_def registers_def)

end

end
