(* ===== verification/Pairing.thy ===== *)
theory Pairing
  imports Contacts
begin

section \<open>Who is paired\<close>

text \<open>
  A device becomes a contact in three ways only: it presented the current invite token, the user approved its
  request, or this device dialed it and was welcomed. Frames, beacons, group states and restarts never make a
  device a contact.
\<close>

interpretation paired: peer_inv E "\<lambda>n p. p_kind p = Paired \<longrightarrow> n \<in> A" "\<lambda>_ _. True" "\<lambda>n. n \<in> A"
  for E :: "'x ext_scheme" and A
  by unfold_locales (simp_all add: blank_peer_def)

text \<open>A run with the devices it paired.\<close>

inductive run_pairs :: "'a ext_scheme \<Rightarrow> engine \<Rightarrow> node_id set \<Rightarrow> engine \<Rightarrow> bool" for E :: "'a ext_scheme" and e0 :: engine where
  pairs_start: "run_pairs E e0 {} e0"
| pairs_step: "run_pairs E e0 A e \<Longrightarrow> run_pairs E e0 (A \<union> {n. pairs e act n}) (exec E act e)"

definition contacts :: "engine \<Rightarrow> node_id set" where
  "contacts e = {n. \<exists>p. (n, p) \<in> set (e_peers e) \<and> p_kind p = Paired}"

definition stored_contacts :: "'a ext_scheme \<Rightarrow> engine \<Rightarrow> node_id set" where
  "stored_contacts E e = {n. \<exists>pp\<in>set (load_peers e). nid_parse E (pp_node_id pp) = Some n}"

lemma contacts_sub: "contacts e \<subseteq> A \<longleftrightarrow> peers_all (\<lambda>n p. p_kind p = Paired \<longrightarrow> n \<in> A) (e_peers e)"
  by (auto simp: contacts_def peers_all_def)

lemma stored_sub: "stored_contacts E e \<subseteq> A \<longleftrightarrow> disk_all E (\<lambda>n. n \<in> A) (d_peers e)"
  by (cases "d_peers e") (auto simp: stored_contacts_def load_peers_def disk_all_def)

lemma pairs_exec:
  assumes "contacts e \<subseteq> A" "stored_contacts E e \<subseteq> A" "show_laws E"
  shows "contacts (exec E act e) \<subseteq> A \<union> {n. pairs e act n} \<and> stored_contacts E (exec E act e) \<subseteq> A \<union> {n. pairs e act n}"
proof -
  let ?A = "A \<union> {n. pairs e act n}"
  have "contacts e \<subseteq> ?A" "stored_contacts E e \<subseteq> ?A" using assms by auto
  then show ?thesis
    using paired.exec_keeps [of ?A e E act] paired.exec_disk [of ?A e E act] assms(3)
    unfolding contacts_sub stored_sub by blast
qed


text \<open>Device 3 shows the invite token of device 2.\<close>

definition demo_join :: action where
  "demo_join = AIncoming (dev 3) 2 8 (OpHello (Hello ''t'' ''C'' [])) ''t'' 0 [] True"


end
