(* ===== verification/Protocol.thy ===== *)
theory Protocol
  imports Contacts
begin

section \<open>Old peers see old frames only\<close>

text \<open>
  A version 1 peer ends its session on a frame it cannot decode. \<open>pr ch\<close> is the protocol that was negotiated for
  the connection behind channel \<open>ch\<close>; group frames and typing hints are only ever put on channels where it is 2.
\<close>

definition proto_peer :: "(nat \<Rightarrow> u8) \<Rightarrow> node_id \<Rightarrow> peer \<Rightarrow> bool" where
  "proto_peer pr n p \<longleftrightarrow> (\<forall>h\<in>set (p_live p). lh_proto h = pr (lh_tx h))"

interpretation proto: peer_inv E "proto_peer pr" "\<lambda>ch proto. proto = pr ch" "\<lambda>_. True"
  for E :: "'x ext_scheme" and pr
  by unfold_locales (auto simp: proto_peer_def blank_peer_def)

abbreviation live_ok :: "(nat \<Rightarrow> u8) \<Rightarrow> engine \<Rightarrow> bool" where
  "live_ok pr e \<equiv> peers_all (proto_peer pr) (e_peers e)"

definition out_ok :: "(nat \<Rightarrow> u8) \<Rightarrow> (nat \<times> frame) list \<Rightarrow> bool" where
  "out_ok pr out \<longleftrightarrow> (\<forall>(ch, f)\<in>set out. needs_v2 f \<longrightarrow> pr ch \<ge> 2)"

lemma find_SomeD: "find Q xs = Some x \<Longrightarrow> x \<in> set xs \<and> Q x"
  by (auto simp: find_Some_iff)

lemma v2_tx_proto:
  assumes "live_ok pr e" "v2_tx e n = Some ch"
  shows "pr ch \<ge> 2"
proof -
  obtain p h where "map_of (e_peers e) n = Some p" "h \<in> set (p_live p)" "lh_proto h \<ge> 2" "lh_tx h = ch"
    using assms(2) by (auto simp: v2_tx_def v2_handle_def bind_eq_Some_conv dest: find_SomeD)
  then show ?thesis using peers_all_get [OF assms(1)] by (auto simp: proto_peer_def)
qed

lemma session_proto_pr:
  assumes "live_ok pr e" "session_proto e n ch \<ge> 2"
  shows "pr ch \<ge> 2"
proof -
  obtain p h where "map_of (e_peers e) n = Some p" "find (\<lambda>h. lh_tx h = ch) (p_live p) = Some h" "lh_proto h \<ge> 2"
    using assms(2) by (auto simp: session_proto_def bind_eq_Some_conv split: option.splits)
  then show ?thesis using peers_all_get [OF assms(1)] by (auto simp: proto_peer_def dest: find_SomeD)
qed

lemma out_tx [simp]: "out_ok pr (e_out (tx_send ch f e)) \<longleftrightarrow> out_ok pr (e_out e) \<and> (tx_ok e ch \<and> needs_v2 f \<longrightarrow> pr ch \<ge> 2)"
  by (auto simp: out_ok_def tx_send_def)

lemma out_fold:
  assumes "\<And>x e. live_ok pr e \<Longrightarrow> out_ok pr (e_out e) \<Longrightarrow> live_ok pr (f x e) \<and> out_ok pr (e_out (f x e))"
    and "live_ok pr e" "out_ok pr (e_out e)"
  shows "out_ok pr (e_out (fold f xs e))"
  using assms(2,3) by (induction xs arbitrary: e) (auto dest: assms(1))

lemma needs_v2_simps [simp]:
  "\<not> needs_v2 (Msg i ts txt rt rx)" "\<not> needs_v2 (Ack i)" "\<not> needs_v2 (FileBegin i ts name sz mime cap)"
  "\<not> needs_v2 (FileChunk i data)" "\<not> needs_v2 (FileEnd i)" "\<not> needs_v2 (msg_frame m)"
  by (simp_all add: needs_v2_def msg_frame_def)

subsection \<open>One to one\<close>

lemma flush_out: "out_ok pr (e_out e) \<Longrightarrow> out_ok pr (e_out (flush_queue E n ch e))"
proof -
  have "out_ok pr (e_out (fold (\<lambda>m e. emit (EvMsgState (nid_show E n) (sm_id m) ''sent'') (tx_send ch (msg_frame m) e)) q e))"
    if "out_ok pr (e_out e)" for q e
    using that by (induction q arbitrary: e) auto
  then show "out_ok pr (e_out e) \<Longrightarrow> out_ok pr (e_out (flush_queue E n ch e))"
    by (simp add: flush_queue_def split: option.splits prod.splits)
qed

lemma pairing_out:
  assumes "out_ok pr (e_out e)"
  shows "out_ok pr (e_out (fst (pair_connect E n addrs hint out proto ch e)))"
    "out_ok pr (e_out (fst (handle_incoming E n proto ch op expected req ds ok e)))"
    "out_ok pr (e_out (connect_and_serve E n cs err e))"
  using assms
  by (simp_all add: pair_connect_def pair_welcomed_def handle_incoming_def pair_finish_def connect_and_serve_def Let_def split_beta
      flush_out split: pair_outcome.splits hello.splits sum.splits route.splits token_check.splits option.splits)

lemma send_out: "out_ok pr (e_out e) \<Longrightarrow> out_ok pr (e_out (fst (send E s txt rt rx rid e)))"
  by (simp add: send_def Let_def split: option.splits list.splits)

lemma send_file_out: "out_ok pr (e_out e) \<Longrightarrow> out_ok pr (e_out (fst (send_file E s src name cap rid e)))"
proof -
  have "out_ok pr (e_out (fold (tx_send ch) fs e))" if "out_ok pr (e_out e)" "\<forall>f\<in>set fs. \<not> needs_v2 f" for ch fs e
    using that by (induction fs arbitrary: e) auto
  moreover have "\<forall>f\<in>set (file_frames E i ts name mime cap data). \<not> needs_v2 f" for i ts name mime cap data
    by (auto simp: file_frames_def)
  ultimately show "out_ok pr (e_out e) \<Longrightarrow> out_ok pr (e_out (fst (send_file E s src name cap rid e)))"
    by (simp add: send_file_def Let_def split: option.splits sum.splits list.splits)
qed

lemma typing_peer_out: "live_ok pr e \<Longrightarrow> out_ok pr (e_out e) \<Longrightarrow> out_ok pr (e_out (fst (typing_peer E s on e)))"
  by (auto simp: typing_peer_def dest: v2_tx_proto split: option.splits)

lemma typing_members_out: "live_ok pr e \<Longrightarrow> out_ok pr (e_out e) \<Longrightarrow> out_ok pr (e_out (fst (typing_members E g on ns e)))"
proof (induction E g on ns e rule: typing_members.induct)
  case (2 E g on n ns e)
  then show ?case by (auto simp: split_beta dest: v2_tx_proto split: option.splits)
qed simp

subsection \<open>Groups\<close>

lemma announce_out: "live_ok pr e \<Longrightarrow> out_ok pr (e_out e) \<Longrightarrow> out_ok pr (e_out (announce_state E g extra e))"
proof -
  have "out_ok pr (e_out (announce_one E rec n e))" if "live_ok pr e" "out_ok pr (e_out e)" for rec n e
    using that by (auto simp: announce_one_def Let_def dest: v2_tx_proto split: option.splits)
  then show "live_ok pr e \<Longrightarrow> out_ok pr (e_out e) \<Longrightarrow> out_ok pr (e_out (announce_state E g extra e))"
    by (auto simp: announce_state_def intro!: out_fold split: option.splits)
qed

lemma pump_out_ok: "live_ok pr e \<Longrightarrow> out_ok pr (e_out e) \<Longrightarrow> out_ok pr (e_out (pump E g n hint e))"
proof -
  assume live: "live_ok pr e" and out: "out_ok pr (e_out e)"
  have "out_ok pr (e_out (fold (\<lambda>r. tx_send ch (group_msg_frame g me r)) rs e'))" if "pr ch \<ge> 2" "out_ok pr (e_out e')" for ch me rs e'
    using that by (induction rs arbitrary: e') auto
  moreover have "pr ch \<ge> 2" if "pump_link E e g n = Some (rec, ch, link)" for rec ch link
    using that v2_tx_proto [OF live, of n] by (auto simp: pump_link_def split: option.splits if_splits)
  ultimately show ?thesis using out by (auto simp: pump_def Let_def split: option.splits prod.splits)
qed

lemma pump_all_out: "live_ok pr e \<Longrightarrow> out_ok pr (e_out e) \<Longrightarrow> out_ok pr (e_out (fst (pump_all E g ns hint e)))"
  by (induction E g ns hint e rule: pump_all.induct) (simp_all add: split_beta pump_out_ok)

lemma after_out: "live_ok pr e \<Longrightarrow> out_ok pr (e_out e) \<Longrightarrow> out_ok pr (e_out (after_state_applied E g e))"
proof -
  have "out_ok pr (e_out (send_sync E rec n e))" if "live_ok pr e" "out_ok pr (e_out e)" for rec n e
    using that by (auto simp: send_sync_def dest: v2_tx_proto split: option.splits)
  then have sync: "out_ok pr (e_out (fold (send_sync E rec) ns e))" if "live_ok pr e" "out_ok pr (e_out e)" for rec ns e
    using that by (intro out_fold) auto
  have "out_ok pr (e_out (fold (\<lambda>n. pump E g n None) ns e))" if "live_ok pr e" "out_ok pr (e_out e)" for ns e
    using that by (intro out_fold) (auto simp: pump_out_ok)
  with sync show "live_ok pr e \<Longrightarrow> out_ok pr (e_out e) \<Longrightarrow> out_ok pr (e_out (after_state_applied E g e))"
    by (simp add: after_state_applied_def Let_def split: option.splits)
qed

lemma edit_out: "live_ok pr e \<Longrightarrow> out_ok pr (e_out e) \<Longrightarrow> out_ok pr (e_out (fst (edit_group_locked E g left edit e)))"
  by (simp add: edit_group_locked_def Let_def announce_out proto.changed_keeps split: option.splits sum.splits)

lemma group_leave_out: "live_ok pr e \<Longrightarrow> out_ok pr (e_out e) \<Longrightarrow> out_ok pr (e_out (fst (group_leave E g e)))"
proof -
  assume live: "live_ok pr e" and out: "out_ok pr (e_out e)"
  define e3 where "e3 ep = (log_sys E g ep 0 [(''left-me'', ''You left the group'')]
      (groups_changed E (upd_group g (\<lambda>r. r\<lparr>gr_removed := True, gr_pending_leave := True\<rparr>) e)))
      \<lparr>e_links := retain (\<lambda>(h, _) _. h \<noteq> g) (e_links e)\<rparr>" for ep
  have live3: "live_ok pr (e3 ep)" and out3: "e_out (e3 ep) = e_out e" for ep
    using proto.changed_keeps [of pr "upd_group g (\<lambda>r. r\<lparr>gr_removed := True, gr_pending_leave := True\<rparr>) e" E] live
    by (simp_all add: e3_def)
  have "pr ch \<ge> 2" if "Option.bind c (v2_tx (e3 ep)) = Some ch" for c ep ch
    using that v2_tx_proto [OF live3] by (auto simp: bind_eq_Some_conv)
  with out out3 show ?thesis
    by (auto simp: group_leave_def Let_def e3_def [symmetric] split: option.splits)
qed

lemma group_ops_out:
  assumes "live_ok pr e" "out_ok pr (e_out e)"
  shows "out_ok pr (e_out (fst (group_add E g s e)))" "out_ok pr (e_out (fst (group_remove E g s e)))"
    "out_ok pr (e_out (fst (group_rename E g s e)))" "out_ok pr (e_out (fst (group_disband E g e)))"
    "out_ok pr (e_out (fst (group_create E name ids rnd e)))" "out_ok pr (e_out (fst (typing_group E g on e)))"
    "out_ok pr (e_out (on_group_leave E n g e))"
  using assms edit_out [OF assms, of E]
  by (simp_all add: edit_ops_defs group_create_def typing_group_def on_group_leave_def Let_def split_beta announce_out
      proto.changed_keeps typing_members_out split: option.splits sum.splits)

lemma group_send_out: "live_ok pr e \<Longrightarrow> out_ok pr (e_out e) \<Longrightarrow> out_ok pr (e_out (fst (group_send E g txt rt rx rid e)))"
  by (simp add: group_send_def Let_def split_beta pump_all_out split: option.splits)

lemma apply_out: "live_ok pr e \<Longrightarrow> out_ok pr (e_out e) \<Longrightarrow> out_ok pr (e_out (fst (apply_state_locked E st n e)))"
proof -
  have tail: "out_ok pr (e_out (fst (apply_tail E g ep sys nr res e)))" if "live_ok pr e" "out_ok pr (e_out e)" for g ep sys nr res e
    using that by (simp add: apply_tail_def Let_def proto.changed_keeps after_out split: option.splits)
  show "live_ok pr e \<Longrightarrow> out_ok pr (e_out e) \<Longrightarrow> out_ok pr (e_out (fst (apply_state_locked E st n e)))"
    by (simp add: apply_state_locked_def Let_def tail split: option.splits sum.splits evaluation.splits)
qed

lemma sync_out:
  assumes "live_ok pr e" "out_ok pr (e_out e)" "pr ch \<ge> 2"
  shows "out_ok pr (e_out (on_group_sync E n ch g ep h name e))"
  using assms by (simp add: on_group_sync_def Let_def pump_out_ok proto.keep_upd split: option.splits)

lemma group_frame_out:
  assumes "live_ok pr e" "out_ok pr (e_out e)"
  shows "out_ok pr (e_out (handle_group_frame E n f ch e))"
proof (cases "session_proto e n ch < 2")
  case False
  then have "pr ch \<ge> 2" using session_proto_pr [OF assms(1), of n ch] by simp
  have "out_ok pr (e_out (on_group_msg E n ch g claimed seq i ts body rt rx e))" for g claimed seq i ts body rt rx
    using assms(2) \<open>pr ch \<ge> 2\<close> by (simp add: on_group_msg_def Let_def split: option.splits)
  moreover have "out_ok pr (e_out (on_group_ack E n g h e))" for g h
    using assms by (simp add: on_group_ack_def Let_def pump_out_ok split: option.splits)
  ultimately show ?thesis
    using assms \<open>pr ch \<ge> 2\<close>
    by (simp add: handle_group_frame_def Let_def split_beta apply_out sync_out group_ops_out split: frame.splits option.splits sum.splits)
qed (simp add: handle_group_frame_def assms(2))

lemma frame_out: "live_ok pr e \<Longrightarrow> out_ok pr (e_out e) \<Longrightarrow> out_ok pr (e_out (handle_frame E n f ch e))"
  by (simp add: handle_frame_def group_frame_out on_msg_def msg_accept_def store_in_def on_ack_def on_file_end_def Let_def
      split: frame.splits option.splits)

lemma session_open_out: "live_ok pr e \<Longrightarrow> out_ok pr (e_out e) \<Longrightarrow> out_ok pr (e_out (group_session_open E n ch e))"
proof (cases "session_proto e n ch < 2")
  case False
  assume live: "live_ok pr e" and out: "out_ok pr (e_out e)"
  have ch: "pr ch \<ge> 2" using False session_proto_pr [OF live, of n ch] by simp
  have "out_ok pr (e_out (fold (\<lambda>(g, rec). open_group E n ch rec) gs e'))" if "out_ok pr (e_out e')" for gs :: "(string, group_rec) btmap" and e'
    using that ch by (induction gs arbitrary: e') (auto simp: open_group_def Let_def)
  then show ?thesis using False out ch by (simp add: group_session_open_def)
qed (simp add: group_session_open_def)

subsection \<open>Every action\<close>

text \<open>The connections behind the channels have the protocol \<open>pr\<close> says, and a file is streamed to a channel taken
  from \<open>v2_link\<close>.\<close>

definition negotiated :: "(nat \<Rightarrow> u8) \<Rightarrow> engine \<Rightarrow> action \<Rightarrow> bool" where
  "negotiated pr e act \<longleftrightarrow> (\<forall>ch proto. registers act = Some (ch, proto) \<longrightarrow> proto = pr ch)
     \<and> (\<forall>ch f. act = AStream ch f \<longrightarrow> (\<exists>n h. v2_link e n = Some (ch, h)))"

lemma exec_live: "live_ok pr e \<Longrightarrow> negotiated pr e act \<Longrightarrow> live_ok pr (exec E act e)"
  by (rule proto.exec_keeps) (auto simp: negotiated_def disk_all_def)

lemma exec_out:
  assumes "live_ok pr e" "out_ok pr (e_out e)" "negotiated pr e act"
  shows "out_ok pr (e_out (exec E act e))"
proof (cases act)
  case (AStream ch f)
  then obtain n h where "v2_link e n = Some (ch, h)" using assms(3) by (auto simp: negotiated_def)
  then have "v2_tx e n = Some ch" by (auto simp: v2_link_def v2_tx_def)
  with AStream assms(2) v2_tx_proto [OF assms(1)] show ?thesis by auto
next
  case (ARestart tok)
  then show ?thesis by (simp add: start_def Let_def out_ok_def)
qed (use assms in \<open>simp_all add: pairing_out send_out send_file_out typing_peer_out group_ops_out group_leave_out group_send_out
    frame_out session_open_out Let_def\<close>)

text \<open>C7: in every run, a group frame or a typing hint is only ever put on a session whose negotiated protocol is
  2: a version 1 peer, which would end its session on such a frame, never sees one.\<close>

theorem v2_frames_on_v2_sessions:
  assumes "reach E (negotiated pr) e e'" "peers_all (proto_peer pr) (e_peers e)" "e_out e = []"
    and "(ch, f) \<in> set (e_out e')" "needs_v2 f"
  shows "pr ch \<ge> 2"
proof -
  have "live_ok pr e' \<and> out_ok pr (e_out e')"
  proof (rule reach_invariant [OF assms(1)])
    show "live_ok pr e \<and> out_ok pr (e_out e)" using assms(2,3) by (simp add: out_ok_def)
  qed (simp add: exec_live exec_out del: exec.simps)
  with assms(4,5) show ?thesis by (auto simp: out_ok_def)
qed

theorem v2_frames_on_v2_sessions_witness:
  "(\<lambda>ch. if ch = 7 then 2 else 1) (7 :: nat) \<ge> (2 :: u8)
    \<and> (7, Typing None True) \<in> set (e_out (exec ref_ext (ATypingPeer (dev_id 1) True) demo))"
proof -
  let ?pr = "\<lambda>ch :: nat. if ch = 7 then 2 else 1 :: u8"
  have "reach ref_ext (negotiated ?pr) demo (exec ref_ext (ATypingPeer (dev_id 1) True) demo)"
    by (rule reach_step [OF reach_refl]) (simp add: negotiated_def registers_def)
  moreover have "peers_all (proto_peer ?pr) (e_peers demo)" by (simp add: peers_all_def proto_peer_def peer1_def)
  moreover have sent: "(7, Typing None True) \<in> set (e_out (exec ref_ext (ATypingPeer (dev_id 1) True) demo))"
    by (simp add: typing_peer_def v2_tx_def v2_handle_def peer1_def tx_ok_def tx_send_def)
  moreover have "needs_v2 (Typing None True)" by (auto simp: needs_v2_def)
  ultimately show ?thesis using v2_frames_on_v2_sessions [of ref_ext ?pr demo _ 7 "Typing None True"] by simp
qed

end
