(* ===== verification/Ledger.thy ===== *)
theory Ledger
  imports Outbox
begin

section \<open>The engine as a replicated ledger\<close>

text \<open>
  The abstract specification of what the engine keeps of the other members' messages: for each group it is in, a
  list of messages per author. A group appears with empty lists, a list grows by the author's next message, and a
  group disappears as a whole. The engine, with its log files, counters, sessions, failing writes and restarts,
  refines it.
\<close>

type_synonym entry = "u64 \<times> string \<times> u64 \<times> string \<times> string option \<times> string option"
type_synonym ledger = "string \<Rightarrow> (string \<Rightarrow> entry list) option"

text \<open>What one step may do to one group.\<close>

inductive ledger_step :: "(string \<Rightarrow> entry list) option \<Rightarrow> (string \<Rightarrow> entry list) option \<Rightarrow> bool" where
  ledger_keep: "ledger_step x x"
| ledger_join: "ledger_step None (Some (\<lambda>_. []))"
| ledger_deliver: "fst b = of_nat (length (l a)) + 1 \<Longrightarrow> ledger_step (Some l) (Some (l(a := l a @ [b])))"
| ledger_drop: "ledger_step x None"

inductive_cases ledger_stepE: "ledger_step x y"

definition abs_ledger :: "engine \<Rightarrow> ledger" where
  "abs_ledger e g = (case map_of (e_groups e) g of
     None \<Rightarrow> None
   | Some r \<Rightarrow> if gr_hidden r then None else Some (\<lambda>a. map msg_body (inlog a (log_of e g))))"

text \<open>A group that survives an action: a hidden one stays hidden, positions do not go back.\<close>

lemma exec_record:
  assumes "groups_ok E (e_groups e)" "delivery_ok e" "orderly E e act" "map_of (e_groups e) g = Some r"
    and "map_of (e_groups (exec E act e)) g = Some r'"
  shows "gr_hidden r \<longrightarrow> gr_hidden r'" "\<not> gr_hidden r \<Longrightarrow> have_of a r \<le> have_of a r'"
proof -
  have "(gr_hidden r \<longrightarrow> gr_hidden r') \<and> (\<not> gr_hidden r \<longrightarrow> have_of a r \<le> have_of a r')"
  proof (cases "is_restart act")
    case True
    then obtain tok where "act = ARestart tok" by (auto simp: is_restart_def split: action.splits)
    moreover have "saved e" using assms(3) True by (simp add: orderly_def)
    ultimately have "r' = repair_rec (scan_recs (nid_show E (e_me e)) (log_of e g)) r"
      using saved_reload [OF assms(1)] assms(4,5) by simp
    then show ?thesis using delivery_seqs [OF assms(2,4)] by (simp add: repair_keeps) (simp add: repair_rec_def)
  next
    case False
    then have "evolves E (e_groups e) (e_groups (exec E act e))"
      using exec_evolves [OF assms(1)] assms(3) by (simp add: orderly_def)
    with assms(4,5) show ?thesis unfolding evolves_def succeeds_rec_def by blast
  qed
  then show "gr_hidden r \<longrightarrow> gr_hidden r'" "\<not> gr_hidden r \<Longrightarrow> have_of a r \<le> have_of a r'" by blast+
qed

lemma read_needs_group:
  assumes "map_of (e_groups e) g = None"
  shows "map_of (e_groups (exec E (ARead n (frame_of g r) ch) e)) g = None"
  using assms by (simp add: handle_frame_def frame_of_def handle_group_frame_def group_msg_effect msg_stored_def is_active_member_def)

lemma seqs_snoc:
  assumes "map gl_seq (l @ [r]) = first_seqs h"
  shows "gl_seq r = of_nat (length l) + 1"
proof -
  have h: "unat h = Suc (length l)" using arg_cong [OF assms, of length] by simp
  have "gl_seq r = last (first_seqs h)" using arg_cong [OF assms, of last] by simp
  also have "\<dots> = of_nat (Suc (length l))" by (simp add: first_seqs_def h)
  finally show ?thesis by simp
qed

lemma no_group_no_messages: "delivery_ok e \<Longrightarrow> map_of (e_groups e) g = None \<Longrightarrow> inlog a (log_of e g) = []"
proof -
  assume "delivery_ok e" and none: "map_of (e_groups e) g = None"
  then have "logged_at ''in'' a (have_of a) e g" by (simp add: delivery_ok_def logged_def)
  with none show ?thesis by (simp add: logged_at_def)
qed

lemma surviving_group_step:
  assumes "groups_ok E (e_groups e)" "delivery_ok e" "e_rm e = []" "orderly E e act"
    and r: "map_of (e_groups e) g = Some r" "\<not> gr_hidden r"
    and r': "map_of (e_groups (exec E act e)) g = Some r'" "\<not> gr_hidden r'"
  shows "ledger_step (Some (\<lambda>a. map msg_body (inlog a (log_of e g)))) (Some (\<lambda>a. map msg_body (inlog a (log_of (exec E act e) g))))"
proof -
  let ?e' = "exec E act e"
  note seqs = delivery_seqs [OF assms(2) r]
  note seqs' = delivery_seqs [OF exec_delivery [OF assms(2,1,3,4)] r']
  from exec_inlog [of E act e g] show ?thesis
  proof (elim disjE exE conjE)
    assume "\<forall>a. inlog a (log_of ?e' g) = inlog a (log_of e g)"
    then show ?thesis by (simp add: ledger_keep del: exec.simps)
  next
    assume nil: "\<forall>a. inlog a (log_of ?e' g) = []"
    have "inlog a (log_of e g) = []" for a
    proof -
      have "unat (have_of a r') = 0" using seqs' [of a] nil first_seqs_len [of "have_of a r'"] by (simp del: exec.simps)
      then have "unat (have_of a r) = 0"
        using exec_record(2) [OF assms(1,2,4) r(1) r'(1) r(2), of a] by (simp add: word_le_nat_alt)
      then show ?thesis using arg_cong [OF seqs [of a], of length] by simp
    qed
    with nil show ?thesis by (simp add: ledger_keep del: exec.simps)
  next
    fix n ch x
    assume "\<forall>a. inlog a (log_of ?e' g) = inlog a (log_of e g) @ (if a = gl_from x then [x] else [])"
    then have add: "inlog a (log_of ?e' g) = inlog a (log_of e g) @ (if a = gl_from x then [x] else [])" for a by blast
    let ?l = "\<lambda>a. map msg_body (inlog a (log_of e g))"
    have "map gl_seq (inlog (gl_from x) (log_of e g) @ [x]) = first_seqs (have_of (gl_from x) r')"
      using seqs' [of "gl_from x"] by (simp add: add del: exec.simps)
    then have "fst (msg_body x) = of_nat (length (?l (gl_from x))) + 1"
      using seqs_snoc by (simp add: msg_body_def)
    then have "ledger_step (Some ?l) (Some (?l(gl_from x := ?l (gl_from x) @ [msg_body x])))" by (rule ledger_deliver)
    moreover have "?l(gl_from x := ?l (gl_from x) @ [msg_body x]) = (\<lambda>a. map msg_body (inlog a (log_of ?e' g)))"
      by (auto simp: add simp del: exec.simps)
    ultimately show ?thesis by simp
  qed
qed



end
