(* ===== verification/Transfers.thy ===== *)
theory Transfers
  imports Contacts
begin

section \<open>Receiving files\<close>

text \<open>
  What a device can make another one keep while it sends files, in every reachable state, and what becomes of the
  frames of a file: the locale \<open>chunk_sink\<close> is the contract the one-to-one and the group receiver share (a chunk
  that fits is appended to the partial file and counted), the transfer of a whole file is proved in it once and
  used for both.
\<close>

subsection \<open>The open transfers\<close>

definition rx_cap :: "file_rx \<Rightarrow> u64" where
  "rx_cap t = (if rx_gid t = None then MAX_FILE_BYTES else MAX_GROUP_FILE_BYTES)"

definition rx_bounded :: "file_rx \<Rightarrow> bool" where
  "rx_bounded t \<longleftrightarrow> rx_got t \<le> rx_size t \<and> rx_size t \<le> rx_cap t"

definition rx_ok :: "(node_id \<times> string, file_rx) hmap \<Rightarrow> bool" where
  "rx_ok m \<longleftrightarrow> hm_ok m \<and> length m \<le> MAX_INBOUND_FILES_TOTAL
     \<and> (\<forall>n. length (filter (\<lambda>x. fst (fst x) = n) m) \<le> MAX_INBOUND_FILES_PER_PEER)
     \<and> (\<forall>(k, t)\<in>set m. rx_bounded t)"

lemma rx_ok_Nil [simp]: "rx_ok []"
  by (simp add: rx_ok_def)

lemma rx_ok_retain [simp]: "rx_ok m \<Longrightarrow> rx_ok (retain P m)"
  using length_retain_le [of P m] count_retain_le [of _ P m]
  by (fastforce simp: rx_ok_def intro: order_trans)

lemma rx_ok_del [simp]: "rx_ok m \<Longrightarrow> rx_ok (hm_del k m)"
  by (simp add: del_retain)

lemma rx_bounded_get: "rx_ok m \<Longrightarrow> map_of m k = Some t \<Longrightarrow> rx_bounded t"
  by (auto simp: rx_ok_def dest: map_of_SomeD)

lemma put_old_shape:
  "map_of m k \<noteq> None \<Longrightarrow> length (filter (\<lambda>x. P (fst x)) (hm_put k v m)) = length (filter (\<lambda>x. P (fst x)) m)"
  by (induction m) (auto split: if_splits)

lemma rx_ok_put_old:
  assumes "rx_ok m" "map_of m k \<noteq> None" "rx_bounded t"
  shows "rx_ok (hm_put k t m)"
proof -
  have "length (hm_put k t m) = length m"
    using put_old_shape [of m k "\<lambda>_. True" t] assms(2) by simp
  moreover have "length (filter (\<lambda>x. fst (fst x) = n) (hm_put k t m)) = length (filter (\<lambda>x. fst (fst x) = n) m)" for n
    using put_old_shape [of m k "\<lambda>k. fst k = n" t] assms(2) by simp
  ultimately show ?thesis
    using assms by (auto simp: rx_ok_def dest!: in_set_put)
qed

lemma rx_ok_put_new:
  assumes "rx_ok m" "map_of m (n, i) = None" "rx_bounded t" "length m < MAX_INBOUND_FILES_TOTAL"
    and "length (filter (\<lambda>x. fst (fst x) = n) m) < MAX_INBOUND_FILES_PER_PEER"
  shows "rx_ok (hm_put (n, i) t m)"
proof -
  have "length (hm_put (n, i) t m) = Suc (length m)"
    using count_put_new [of m "(n, i)" "\<lambda>_. True" t] assms(2) by simp
  moreover have "length (filter (\<lambda>x. fst (fst x) = p) (hm_put (n, i) t m))
      = length (filter (\<lambda>x. fst (fst x) = p) m) + (if p = n then 1 else 0)" for p
    using count_put_new [of m "(n, i)" "\<lambda>x. fst (fst x) = p" t] assms(2) by auto
  ultimately show ?thesis
    using assms by (auto simp: rx_ok_def dest!: in_set_put)
qed

lemma rx_ok_put:
  assumes "rx_ok m" "rx_bounded t"
    and "map_of m (n, i) = None \<Longrightarrow> length m < MAX_INBOUND_FILES_TOTAL
      \<and> length (filter (\<lambda>x. fst (fst x) = n) m) < MAX_INBOUND_FILES_PER_PEER"
  shows "rx_ok (hm_put (n, i) t m)"
  using assms rx_ok_put_old rx_ok_put_new by (cases "map_of m (n, i)") auto

lemma rx_for_peer_eq: "rx_for_peer n e = length (filter (\<lambda>x. fst (fst x) = n) (e_rx_files e))"
  unfolding rx_for_peer_def by (rule arg_cong [where f = length]) (auto intro: filter_cong)

lemma put_rx_files [simp]: "e_rx_files (put_rx k t e) = hm_put k t (e_rx_files e)"
  by (simp add: put_rx_def)

lemma del_rx_files [simp]: "e_rx_files (del_rx k e) = hm_del k (e_rx_files e)"
  by (simp add: del_rx_def)

lemma dropped_rx [simp]: "e_rx_files (drop_group_inbound P e) = retain (\<lambda>k t. \<not> (rx_gid t \<noteq> None \<and> P (fst k) (snd k))) (e_rx_files e)"
  by (simp add: drop_group_inbound_def Let_def split_beta)

lemma begin_rx:
  assumes "rx_ok (e_rx_files e)"
  shows "rx_ok (e_rx_files (on_file_begin E n i ts name sz mime cap e))"
    "rx_ok (e_rx_files (on_group_file_begin E n g i ts name sz mime cap e))"
proof -
  have "rx_bounded t" if "rx_got t = 0" "rx_size t \<le> rx_cap t" for t
    using that by (simp add: rx_bounded_def)
  then show "rx_ok (e_rx_files (on_file_begin E n i ts name sz mime cap e))"
    "rx_ok (e_rx_files (on_group_file_begin E n g i ts name sz mime cap e))"
    using assms
    by (auto simp: on_file_begin_def on_group_file_begin_def Let_def rx_cap_def rx_for_peer_eq intro!: rx_ok_put)
qed

lemma chunk_rx:
  assumes "rx_ok (e_rx_files e)"
  shows "rx_ok (e_rx_files (on_file_chunk E n i data e))" "rx_ok (e_rx_files (on_group_file_chunk E n g i data e))"
proof -
  have "rx_ok (hm_put (n, i) (t\<lparr>rx_got := x\<rparr>) (e_rx_files e))" if "map_of (e_rx_files e) (n, i) = Some t" "\<not> x > rx_size t" for t x
    using that assms rx_bounded_get [OF assms that(1)] by (intro rx_ok_put_old) (auto simp: rx_bounded_def rx_cap_def)
  then show "rx_ok (e_rx_files (on_file_chunk E n i data e))" "rx_ok (e_rx_files (on_group_file_chunk E n g i data e))"
    using assms by (auto simp: on_file_chunk_def on_group_file_chunk_def Let_def split: option.splits)
qed

lemma end_rx:
  assumes "rx_ok (e_rx_files e)"
  shows "rx_ok (e_rx_files (on_file_end E n ch i e))" "rx_ok (e_rx_files (on_group_file_end E n g i e))"
  using assms by (simp_all add: on_file_end_def on_group_file_end_def Let_def split: option.splits)

lemma blobs_rx [simp]: "rx_ok (e_rx_files e) \<Longrightarrow> rx_ok (e_rx_files (delete_group_blobs g e))"
  by (simp add: delete_group_blobs_def Let_def)

lemma purge_rx [simp]: "rx_ok (e_rx_files e) \<Longrightarrow> rx_ok (e_rx_files (purge_group E g e))"
  by (simp add: purge_group_def Let_def)

lemma purge_all_rx [simp]: "rx_ok (e_rx_files e) \<Longrightarrow> rx_ok (e_rx_files (fold (purge_group E) gs e))"
  by (induction gs arbitrary: e) auto

lemma remove_live_rx [simp]: "rx_ok (e_rx_files e) \<Longrightarrow> rx_ok (e_rx_files (remove_live E n hid e))"
  by (simp add: remove_live_def Let_def)

lemma apply_rx [simp]: "rx_ok (e_rx_files e) \<Longrightarrow> rx_ok (e_rx_files (fst (apply_state_locked E st n e)))"
  by (simp add: apply_state_locked_def apply_tail_def Let_def split: option.splits sum.splits evaluation.splits)

lemma group_frame_rx: "rx_ok (e_rx_files e) \<Longrightarrow> rx_ok (e_rx_files (handle_group_frame E n f ch e))"
  by (simp add: handle_group_frame_def Let_def split_beta split: frame.splits option.splits sum.splits)

lemma frame_rx: "rx_ok (e_rx_files e) \<Longrightarrow> rx_ok (e_rx_files (handle_frame E n f ch e))"
  by (simp add: handle_frame_def on_group_file_def Let_def begin_rx chunk_rx end_rx group_frame_rx split: frame.splits option.splits)

lemma exec_rx: "rx_ok (e_rx_files e) \<Longrightarrow> rx_ok (e_rx_files (exec E act e))"
  by (cases act) (simp_all add: frame_rx start_def remove_peer_def group_delete_def Let_def split: option.splits sum.splits)



subsection \<open>The chunks of a file\<close>

lemma concat_chunks: "n > 0 \<Longrightarrow> concat (chunks n xs) = xs"
proof (induction n xs rule: chunks.induct)
  case (1 n xs)
  then show ?case by (subst chunks.simps) auto
qed

text \<open>A transfer that is open, with its partial file holding what was counted, and every write succeeding.\<close>

definition rx_open :: "node_id \<times> string \<Rightarrow> file_rx \<Rightarrow> byte list \<Rightarrow> engine \<Rightarrow> bool" where
  "rx_open k t bs e \<longleftrightarrow> map_of (e_rx_files e) k = Some t \<and> map_of (d_files e) (rx_partial t) = Some bs
     \<and> rx_got t = of_nat (length bs) \<and> length bs \<le> unat (rx_size t) \<and> e_io e = []"

text \<open>The state after a piece of the file: events aside, only the transfer and its partial file change.\<close>

definition rx_more :: "node_id \<times> string \<Rightarrow> file_rx \<Rightarrow> byte list \<Rightarrow> ui_event list \<Rightarrow> engine \<Rightarrow> engine" where
  "rx_more k t bs evs e = e\<lparr>e_rx_files := hm_put k (t\<lparr>rx_got := of_nat (length bs)\<rparr>) (e_rx_files e),
     d_files := hm_put (rx_partial t) bs (d_files e), e_events := e_events e @ evs\<rparr>"

lemma rx_more_open:
  "rx_open k t bs e \<Longrightarrow> length bs' \<le> unat (rx_size t) \<Longrightarrow>
   rx_open k (t\<lparr>rx_got := of_nat (length bs')\<rparr>) bs' (rx_more k t bs' evs e)"
  by (simp add: rx_open_def rx_more_def)

lemma rx_more_more:
  "rx_more k (t\<lparr>rx_got := x\<rparr>) cs evs' (rx_more k t bs evs e) = rx_more k t cs (evs @ evs') e"
  by (simp add: rx_more_def)

locale chunk_sink =
  fixes E :: "'x ext_scheme" and k :: "node_id \<times> string" and gid :: "string option" and recv :: "string \<Rightarrow> engine \<Rightarrow> engine"
  assumes law_chunk: "rx_open k t bs e \<Longrightarrow> rx_gid t = gid \<Longrightarrow> b64_dec E d = Some cs \<Longrightarrow> length (bs @ cs) \<le> unat (rx_size t) \<Longrightarrow>
    \<exists>evs. recv d e = rx_more k t (bs @ cs) evs e"
begin

lemma recv_chunks:
  assumes "b64_laws E" "rx_open k t bs e" "rx_gid t = gid" "length (bs @ concat css) \<le> unat (rx_size t)" "css \<noteq> []"
  shows "\<exists>evs. fold recv (map (b64_enc E) css) e = rx_more k t (bs @ concat css) evs e"
  using assms(2-)
proof (induction css arbitrary: t bs e)
  case (Cons cs css)
  obtain evs where step: "recv (b64_enc E cs) e = rx_more k t (bs @ cs) evs e"
    using law_chunk [OF Cons.prems(1,2), of "b64_enc E cs" cs] assms(1) Cons.prems(3) by (auto simp: b64_laws_def)
  show ?case
  proof (cases "css = []")
    case False
    have "rx_open k (t\<lparr>rx_got := of_nat (length (bs @ cs))\<rparr>) (bs @ cs) (rx_more k t (bs @ cs) evs e)"
      using Cons.prems by (intro rx_more_open) auto
    from Cons.IH [OF this] Cons.prems False obtain evs' where
      "fold recv (map (b64_enc E) css) (rx_more k t (bs @ cs) evs e)
        = rx_more k (t\<lparr>rx_got := of_nat (length (bs @ cs))\<rparr>) ((bs @ cs) @ concat css) evs' (rx_more k t (bs @ cs) evs e)"
      by auto
    then show ?thesis using step by (auto simp: rx_more_more)
  qed (use step in auto)
qed simp

lemma recv_file:
  assumes "b64_laws E" "rx_open k t [] e" "rx_gid t = gid" "length data \<le> unat (rx_size t)" "n > 0"
  shows "\<exists>evs. rx_open k (t\<lparr>rx_got := of_nat (length data)\<rparr>) data (fold recv (map (b64_enc E) (chunks n data)) e)
    \<and> fold recv (map (b64_enc E) (chunks n data)) e
       = e\<lparr>e_rx_files := hm_put k (t\<lparr>rx_got := of_nat (length data)\<rparr>) (e_rx_files e),
           d_files := hm_put (rx_partial t) data (d_files e), e_events := e_events e @ evs\<rparr>"
proof -
  have "\<exists>evs. fold recv (map (b64_enc E) (chunks n data)) e = rx_more k t data evs e"
  proof (cases "chunks n data = []")
    case True
    then have "data = []" using concat_chunks [OF assms(5), of data] by simp
    moreover have "rx_more k t [] [] e = e" using assms(2)
      by (auto simp: rx_more_def rx_open_def update_triv)
    ultimately show ?thesis using True by (metis fold_simps(1) list.simps(8))
  next
    case False
    then show ?thesis using recv_chunks [of t "[]" e "chunks n data"] assms concat_chunks [of n data] by auto
  qed
  with rx_more_open [OF assms(2,4)] show ?thesis by (metis rx_more_def)
qed

end

lemma small_u64: "x \<le> 256 * 1024 * 1024 \<Longrightarrow> unat (of_nat x :: u64) = x"
  by (simp add: unat_of_nat)

lemma chunk_fits:
  assumes "rx_got t = of_nat (length bs)" "length (bs @ cs) \<le> unat (rx_size t)"
  shows "(of_nat (length (bs @ cs)) > rx_size t) = False" "rx_got t + of_nat (length cs) = of_nat (length (bs @ cs))"
  using assms unsigned_less [of "rx_size t", where 'a = nat] by (simp_all add: word_le_nat_alt unat_of_nat linorder_not_less flip: of_nat_add)

text \<open>The pieces both receivers are made of, on an open transfer.\<close>

lemma open_append:
  assumes "rx_open k t bs e"
  shows "map_of (e_rx_files e) k = Some t" "exists_file e (rx_partial t)" "append_ok (rx_partial t) e"
    "file_append (rx_partial t) cs e = e\<lparr>d_files := hm_put (rx_partial t) (bs @ cs) (d_files e)\<rparr>"
  using assms by (simp_all add: rx_open_def exists_file_def append_ok_def file_append_def file_content_def io_ok_def)

lemma emit_open: "rx_open k t bs (emit ev e) = rx_open k t bs e"
  by (simp add: rx_open_def)

interpretation one_to_one: chunk_sink E "(n, i)" None "on_file_chunk E n i"
  for E :: "'x ext_scheme" and n i
proof
  fix t bs e d cs
  assume op: "rx_open (n, i) t bs e" and "rx_gid t = None" "b64_dec E d = Some cs" and len: "length (bs @ cs) \<le> unat (rx_size t)"
  moreover have "rx_got t = of_nat (length bs)" using op by (simp add: rx_open_def)
  note fits = chunk_fits [OF this len]
  define ev where "ev = EvFileProgress (nid_show E n) i ''recv'' (rx_got t) (rx_size t)"
  have "rx_open (n, i) t bs (emit ev e)" using op by (simp add: emit_open)
  note app = open_append [OF op] open_append [OF this]
  ultimately have "on_file_chunk E n i d e = rx_more (n, i) t (bs @ cs) [ev] e"
    by (simp only: on_file_chunk_def ev_def [symmetric] Let_def app fits option.case if_True if_False not_True_eq_False simp_thms)
       (rule engine.equality, simp_all add: rx_more_def put_rx_def emit_def)
  then show "\<exists>evs. on_file_chunk E n i d e = rx_more (n, i) t (bs @ cs) evs e" by blast
qed

interpretation in_group: chunk_sink E "(n, i)" "Some g" "on_group_file_chunk E n g i"
  for E :: "'x ext_scheme" and n g i
proof
  fix t bs e d cs
  assume op: "rx_open (n, i) t bs e" and "rx_gid t = Some g" "b64_dec E d = Some cs" and len: "length (bs @ cs) \<le> unat (rx_size t)"
  moreover have "rx_got t = of_nat (length bs)" using op by (simp add: rx_open_def)
  note fits = chunk_fits [OF this len]
  ultimately have "on_group_file_chunk E n g i d e
      = rx_more (n, i) t (bs @ cs) [EvGroupFileRecv g (nid_show E n) i (of_nat (length (bs @ cs))) (rx_size t)] e"
    by (simp only: on_group_file_chunk_def Let_def open_append [OF op] fits option.case if_True if_False not_True_eq_False simp_thms)
       (simp add: rx_more_def put_rx_def emit_def)
  then show "\<exists>evs. on_group_file_chunk E n g i d e = rx_more (n, i) t (bs @ cs) evs e" by blast
qed

subsection \<open>A file from one contact to another\<close>

lemma tx_fold: "tx_ok e ch \<Longrightarrow> fold (tx_send ch) fs e = e\<lparr>e_out := e_out e @ map (\<lambda>f. (ch, f)) fs\<rparr>"
  by (induction fs arbitrary: e) (simp_all add: tx_send_def tx_ok_def)

lemma send_file_sends:
  assumes "send_file E s (Some data) name cap rid a = (a', Inr r)"
  shows "\<exists>c. e_out a' = e_out a @ map (\<lambda>f. (c, f)) (file_frames E rid (e_now a) (sanitize_name E name) (mime_for (sanitize_name E name)) cap data)
    \<and> length data \<le> 256 * 1024 * 1024"
  using assms by (auto simp: send_file_def Let_def tx_fold split: option.splits sum.splits if_splits list.splits)

lemma chunk_peers [simp]: "e_peers (on_file_chunk E n i d e) = e_peers e"
  by (simp add: on_file_chunk_def put_rx_def del_rx_def Let_def split: option.splits)

lemma frames_are_chunks:
  "\<not> introduced e n \<Longrightarrow> fold (\<lambda>f. handle_frame E n f ch) (map (FileChunk i) ds) e = fold (on_file_chunk E n i) ds e"
  by (induction ds arbitrary: e) (simp_all add: handle_frame_def introduced_def)

lemma begin_opens:
  assumes "is_safe_transfer_id i" "sz \<le> MAX_FILE_BYTES" "map_of (e_rx_files e) (n, i) = None" "e_io e = []"
    and "rx_for_peer n e < 3" "length (e_rx_files e) < 8"
  obtains t where "on_file_begin E n i ts name sz mime cap e
      = e\<lparr>d_files := hm_put (rx_partial t) [] (d_files e), e_rx_files := hm_put (n, i) t (e_rx_files e)\<rparr>"
    "rx_size t = sz" "rx_got t = 0" "rx_gid t = None" "rx_caption t = cap" "rx_ts t = ts"
proof -
  let ?dir = "join (e_blobs e) (nid_show E n)"
  let ?t = "\<lparr>rx_partial = join ?dir (''partial-'' @ i), rx_dir = ?dir, rx_name = sanitize_name E name, rx_size = sz,
    rx_mime = mime, rx_caption = cap, rx_ts = ts, rx_got = 0, rx_gid = None\<rparr>"
  have "\<not> is_group_rx e (n, i)" "io_ok e" "\<not> sz > MAX_FILE_BYTES" using assms by (simp_all add: is_group_rx_def io_ok_def)
  moreover have "\<not> (rx_for_peer n e \<ge> MAX_INBOUND_FILES_PER_PEER \<or> length (e_rx_files e) \<ge> MAX_INBOUND_FILES_TOTAL)"
    using assms by (simp add: limit_defs)
  ultimately have "on_file_begin E n i ts name sz mime cap e = put_rx (n, i) ?t (file_create (rx_partial ?t) e)"
    using assms(1) by (simp add: on_file_begin_def Let_def)
  also have "\<dots> = e\<lparr>d_files := hm_put (rx_partial ?t) [] (d_files e), e_rx_files := hm_put (n, i) ?t (e_rx_files e)\<rparr>"
    using assms(4) by (simp add: put_rx_def file_create_def io_ok_def)
  finally show thesis by (intro that [of ?t]) simp_all
qed

text \<open>A file is on disk with the bytes \<open>data\<close>, and the history of \<open>n\<close> (before: \<open>ms\<close>) has a row that refers to it as a
  file of \<open>len\<close> bytes.\<close>

definition file_arrived :: "node_id \<Rightarrow> string \<Rightarrow> u64 \<Rightarrow> string \<Rightarrow> nat \<Rightarrow> byte list \<Rightarrow> stored_msg list \<Rightarrow> engine \<Rightarrow> bool" where
  "file_arrived n i ts cap len data ms e \<longleftrightarrow> (\<exists>f p. map_of (d_files e) (sf_path f) = Some data \<and> sf_size f = of_nat len
     \<and> map_of (e_peers e) n = Some p
     \<and> p_msgs p = ms @ [\<lparr>sm_id = i, sm_ts = ts, sm_dir = ''in'', sm_state = ''acked'', sm_text = cap,
          sm_reply_to = None, sm_reply_text = None, sm_file = Some f\<rparr>])"

lemma end_stores:
  assumes "map_of (e_rx_files e) (n, i) = Some t" "map_of (d_files e) (rx_partial t) = Some data" "e_io e = []" "rx_gid t = None"
    and "rx_got t = of_nat len" "rx_size t = of_nat len" "map_of (e_peers e) n = Some p"
  shows "file_arrived n i (rx_ts t) (rx_caption t) len data (p_msgs p) (on_file_end E n ch i e)"
    "map_of (e_rx_files (on_file_end E n ch i e)) (n, i) = None"
    "tx_ok e ch \<Longrightarrow> (ch, Ack i) \<in> set (e_out (on_file_end E n ch i e))"
proof -
  let ?e1 = "del_rx (n, i) e"
  define q where "q = e_unique_path ?e1 (rx_dir t) (rx_name t)"
  define f where "f = \<lparr>sf_name = e_unique_name ?e1 (rx_dir t) (rx_name t), sf_size = rx_got t, sf_mime = rx_mime t, sf_path = q\<rparr>"
  define row where "row = \<lparr>sm_id = i, sm_ts = rx_ts t, sm_dir = ''in'', sm_state = ''acked'', sm_text = rx_caption t,
    sm_reply_to = None, sm_reply_text = None, sm_file = Some f\<rparr>"
  have r: "rename_ok (rx_partial t) ?e1"
    using assms by (simp add: rename_ok_def exists_file_def del_rx_def io_ok_def)
  have res: "on_file_end E n ch i e = emit (EvMessage (nid_show E n) i (rx_ts t) (rx_caption t) None None (Some f))
      (tx_send ch (Ack i) (store_in n row (file_rename (rx_partial t) q ?e1)))"
    using assms(1,4,5,6) r by (simp add: on_file_end_def Let_def q_def f_def row_def)
  have "map_of (d_files (file_rename (rx_partial t) q ?e1)) q = Some data"
    using assms r by (simp add: file_rename_def file_content_def del_rx_def)
  moreover have peers: "e_peers ?e1 = e_peers e" "e_closed ?e1 = e_closed e" by (simp_all add: del_rx_def)
  ultimately show "file_arrived n i (rx_ts t) (rx_caption t) len data (p_msgs p) (on_file_end E n ch i e)"
    using assms(5,7) unfolding res file_arrived_def
    by (intro exI [of _ f] exI [of _ "p\<lparr>p_msgs := p_msgs p @ [row]\<rparr>"]) (simp add: store_in_def f_def row_def)
  show "map_of (e_rx_files (on_file_end E n ch i e)) (n, i) = None" by (simp add: res)
  show "tx_ok e ch \<Longrightarrow> (ch, Ack i) \<in> set (e_out (on_file_end E n ch i e))"
    by (simp add: res tx_send_def tx_ok_def peers)
qed

lemma file_frames_arrive:
  fixes ts :: u64 and name mime cap :: string and ch :: nat
  assumes "b64_laws E" "length data \<le> 256 * 1024 * 1024" "is_safe_transfer_id i"
    and "\<not> introduced e n" "map_of (e_peers e) n = Some p" "map_of (e_rx_files e) (n, i) = None" "e_io e = []"
    and "rx_for_peer n e < 3" "length (e_rx_files e) < 8"
  defines "e' \<equiv> fold (\<lambda>f. handle_frame E n f ch) (file_frames E i ts name mime cap data) e"
  shows "file_arrived n i ts cap (length data) data (p_msgs p) e' \<and> map_of (e_rx_files e') (n, i) = None
    \<and> (tx_ok e ch \<longrightarrow> (ch, Ack i) \<in> set (e_out e'))"
proof -
  define sz :: u64 where "sz = of_nat (length data)"
  define ds where "ds = map (b64_enc E) (chunks (96 * 1024) data)"
  have sz: "unat sz = length data" "sz \<le> MAX_FILE_BYTES"
    using small_u64 [OF assms(2)] assms(2) by (simp_all add: sz_def word_le_nat_alt MAX_FILE_BYTES_def)
  obtain t where b: "on_file_begin E n i ts name sz mime cap e
      = e\<lparr>d_files := hm_put (rx_partial t) [] (d_files e), e_rx_files := hm_put (n, i) t (e_rx_files e)\<rparr>" (is "_ = ?e1")
    and t: "rx_size t = sz" "rx_got t = 0" "rx_gid t = None" "rx_caption t = cap" "rx_ts t = ts"
    by (rule begin_opens [OF assms(3) sz(2) assms(6-9)])
  define e2 where "e2 = fold (on_file_chunk E n i) ds ?e1"
  have "rx_open (n, i) t [] ?e1" using t assms(7) by (simp add: rx_open_def)
  from one_to_one.recv_file [OF assms(1) this t(3), of data "96 * 1024"] t(1) sz(1)
  have op: "rx_open (n, i) (t\<lparr>rx_got := sz\<rparr>) data e2" and same: "e_peers e2 = e_peers e" "e_closed e2 = e_closed e"
    by (auto simp: e2_def ds_def sz_def)
  have "\<not> introduced ?e1 n" "\<not> introduced e2 n" using assms(4) same by (simp_all add: introduced_def)
  then have "e' = on_file_end E n ch i e2"
    using assms(4) frames_are_chunks [of ?e1 n E ch i ds] b
    by (simp add: e'_def e2_def ds_def file_frames_def handle_frame_def comp_def flip: sz_def)
  with end_stores [of e2 n i "t\<lparr>rx_got := sz\<rparr>" data "length data" p, where E = E and ch = ch] show ?thesis
    using op t assms(5) by (simp add: rx_open_def same tx_ok_def sz_def)
qed

text \<open>a file that \<open>send_file\<close> put on a session arrives: the frames it sent, handled by the other device with no
  failing write and room for one more transfer, leave a file with the same bytes, a history row that refers to it
  with the sender's time and caption, no open transfer, and an acknowledgement.\<close>

theorem file_transfer_round_trip:
  assumes "b64_laws E" "send_file E s (Some data) name cap rid a = (a', Inr r)" "is_safe_transfer_id rid"
    and "\<not> introduced e n" "map_of (e_peers e) n = Some p" "map_of (e_rx_files e) (n, rid) = None" "e_io e = []"
    and "rx_for_peer n e < 3" "length (e_rx_files e) < 8"
  shows "\<exists>c fs. e_out a' = e_out a @ map (\<lambda>f. (c, f)) fs
    \<and> (let e' = fold (\<lambda>f. handle_frame E n f ch) fs e in
        file_arrived n rid (e_now a) cap (length data) data (p_msgs p) e' \<and> map_of (e_rx_files e') (n, rid) = None
      \<and> (tx_ok e ch \<longrightarrow> (ch, Ack rid) \<in> set (e_out e')))"
proof -
  obtain c where "e_out a' = e_out a @ map (\<lambda>f. (c, f))
      (file_frames E rid (e_now a) (sanitize_name E name) (mime_for (sanitize_name E name)) cap data)"
    and len: "length data \<le> 256 * 1024 * 1024"
    using send_file_sends [OF assms(2)] by blast
  then show ?thesis
    using file_frames_arrive [OF assms(1) len assms(3-9)] unfolding Let_def by blast
qed

theorem file_transfer_round_trip_witness:
  "\<exists>c fs. e_out (fst (send_file ref_ext (dev_id 1) (Some [1, 2, 3]) ''n'' ''c'' ''a'' demo)) = map (\<lambda>f. (c, f)) fs
    \<and> file_arrived (dev 1) ''a'' 100 ''c'' 3 [1, 2, 3] [] (fold (\<lambda>f. handle_frame ref_ext (dev 1) f 7) fs demo)"
proof -
  have "is_safe_transfer_id ''a''" by code_simp
  moreover have "\<exists>r. snd (send_file ref_ext (dev_id 1) (Some [1, 2, 3]) ''n'' ''c'' ''a'' demo) = Inr r"
    by (simp add: send_file_def require_paired_def peer1_def Let_def prune_live_def tx_ok_def)
  then obtain a' r where "send_file ref_ext (dev_id 1) (Some [1, 2, 3]) ''n'' ''c'' ''a'' demo = (a', Inr r)"
    by (metis prod.collapse)
  moreover have "\<not> introduced demo (dev 1)" "rx_for_peer (dev 1) demo = 0" "e_now demo = 100" "p_msgs peer1 = []"
    by (simp_all add: introduced_def peer1_def rx_for_peer_def demo_def)
  ultimately show ?thesis
    using file_transfer_round_trip [of ref_ext "dev_id 1" "[1, 2, 3]" "''n''" "''c''" "''a''" demo a' r demo "dev 1" peer1 7]
    by (auto simp: Let_def numeral_3_eq_3)
qed

text \<open>C22: the one-to-one receiver counts a chunk as received whether or not it could be written. When the last
  chunk of a file cannot be written (a full disk), the file is still renamed into place, recorded with the announced
  size and acknowledged, so that the sender shows it as delivered, while its last bytes are missing.\<close>

theorem unwritten_chunk_is_acknowledged:
  assumes "rx_open (n, i) t bs e" "rx_gid t = None" "b64_dec E d = Some cs" "rx_size t = of_nat (length (bs @ cs))"
    and "length (bs @ cs) \<le> 256 * 1024 * 1024" "map_of (e_peers e) n = Some p" "tx_ok e ch"
  defines "e' \<equiv> on_file_end E n ch i (on_file_chunk E n i d (e\<lparr>e_io := [False]\<rparr>))"
  shows "file_arrived n i (rx_ts t) (rx_caption t) (length (bs @ cs)) bs (p_msgs p) e' \<and> (ch, Ack i) \<in> set (e_out e')"
proof -
  define e0 where "e0 = e\<lparr>e_io := [False]\<rparr>"
  define ev where "ev = EvFileProgress (nid_show E n) i ''recv'' (rx_got t) (rx_size t)"
  have "unat (rx_size t) = length (bs @ cs)" unfolding assms(4) by (rule small_u64 [OF assms(5)])
  then have fits: "(of_nat (length (bs @ cs)) > rx_size t) = False" "rx_got t + of_nat (length cs) = of_nat (length (bs @ cs))"
    using chunk_fits [of t bs cs] assms(1) by (simp_all add: rx_open_def)
  have e0: "map_of (e_rx_files e0) (n, i) = Some t" "exists_file (emit ev e0) (rx_partial t)"
    "\<not> append_ok (rx_partial t) (emit ev e0)" "map_of (d_files e0) (rx_partial t) = Some bs" "e_io e0 = [False]"
    using assms(1) by (simp_all add: e0_def rx_open_def exists_file_def append_ok_def io_ok_def)
  have r: "on_file_chunk E n i d e0 = put_rx (n, i) (t\<lparr>rx_got := of_nat (length (bs @ cs))\<rparr>) (file_append (rx_partial t) cs (emit ev e0))"
    using assms(2,3) by (simp only: on_file_chunk_def ev_def [symmetric] Let_def e0 fits option.case if_True if_False not_True_eq_False simp_thms)
  have "map_of (e_rx_files (on_file_chunk E n i d e0)) (n, i) = Some (t\<lparr>rx_got := of_nat (length (bs @ cs))\<rparr>)"
    "map_of (d_files (on_file_chunk E n i d e0)) (rx_partial t) = Some bs" "e_io (on_file_chunk E n i d e0) = []"
    "e_closed (on_file_chunk E n i d e0) = e_closed e"
    using e0 unfolding r by (simp_all add: put_rx_def file_append_def emit_def) (simp add: e0_def)
  with end_stores [of "on_file_chunk E n i d e0" n i "t\<lparr>rx_got := of_nat (length (bs @ cs))\<rparr>" bs "length (bs @ cs)" p, where E = E and ch = ch] assms
  show "file_arrived n i (rx_ts t) (rx_caption t) (length (bs @ cs)) bs (p_msgs p) e' \<and> (ch, Ack i) \<in> set (e_out e')"
    by (simp_all add: e'_def tx_ok_def flip: e0_def) (simp_all add: e0_def)
qed

theorem unwritten_chunk_is_acknowledged_witness:
  "\<exists>e. file_arrived (dev 1) ''a'' 5 ''c'' 3 [1] [] (on_file_end ref_ext (dev 1) 7 ''a'' (on_file_chunk ref_ext (dev 1) ''a''
     (b64_enc ref_ext [2, 3]) e))"
proof -
  let ?t = "\<lparr>rx_partial = ''p'', rx_dir = ''d'', rx_name = ''n'', rx_size = 3, rx_mime = ''m'', rx_caption = ''c'', rx_ts = 5, rx_got = 1,
    rx_gid = None\<rparr>"
  let ?e = "demo\<lparr>e_rx_files := [((dev 1, ''a''), ?t)], d_files := [(''p'', [1])]\<rparr>"
  have "b64_dec ref_ext (b64_enc ref_ext [2, 3]) = Some [2, 3]" using ref_b64_laws by (simp add: b64_laws_def)
  moreover have "rx_open (dev 1, ''a'') ?t [1] ?e" by (simp add: rx_open_def)
  ultimately show ?thesis
    using unwritten_chunk_is_acknowledged [of "dev 1" "''a''" ?t "[1]" ?e ref_ext "b64_enc ref_ext [2, 3]" "[2, 3]" peer1 7]
    by (auto simp: tx_ok_def peer1_def numeral_3_eq_3)
qed

subsection \<open>A file to a group\<close>

lemma group_chunk_frame [simp]:
  "e_peers (on_group_file_chunk E n g i d e) = e_peers e" "e_groups (on_group_file_chunk E n g i d e) = e_groups e"
  by (simp_all add: on_group_file_chunk_def put_rx_def del_rx_def Let_def split: option.splits)

lemma may_send_cong:
  assumes "e_peers e' = e_peers e" "e_groups e' = e_groups e"
  shows "session_proto e' n ch = session_proto e n ch" "is_active_member E e' g n = is_active_member E e g n"
  using assms by (simp_all add: session_proto_def is_active_member_def)

lemma group_frames_are_chunks:
  "session_proto e n ch \<ge> 2 \<Longrightarrow> is_active_member E e g n \<Longrightarrow>
   fold (\<lambda>f. handle_frame E n f ch) (map (GroupFileChunk g i) ds) e = fold (on_group_file_chunk E n g i) ds e"
proof (induction ds arbitrary: e)
  case (Cons d ds)
  then have "handle_frame E n (GroupFileChunk g i d) ch e = on_group_file_chunk E n g i d e"
    by (simp add: handle_frame_def on_group_file_def)
  with Cons show ?case
    using may_send_cong(1) [of "on_group_file_chunk E n g i d e" e] may_send_cong(2) [of "on_group_file_chunk E n g i d e" e E] by simp
qed simp

text \<open>No file with this sender and id is in the group's log yet.\<close>

definition file_unknown :: "'a ext_scheme \<Rightarrow> engine \<Rightarrow> node_id \<Rightarrow> string \<Rightarrow> string \<Rightarrow> bool" where
  "file_unknown E e n g i \<longleftrightarrow> \<not> list_ex (\<lambda>r. gl_from r = nid_show E n \<and> gl_id r = i \<and> gl_file r \<noteq> None) (log_of e g)"

lemma group_begin_opens:
  assumes "is_safe_transfer_id i" "sz \<le> MAX_GROUP_FILE_BYTES" "map_of (e_rx_files e) (n, i) = None" "e_io e = []"
    and "rx_for_peer n e < 3" "length (e_rx_files e) < 8" "file_unknown E e n g i"
  obtains t where "on_group_file_begin E n g i ts name sz mime cap e
      = e\<lparr>d_files := hm_put (rx_partial t) [] (d_files e), e_rx_files := hm_put (n, i) t (e_rx_files e)\<rparr>"
    "rx_size t = sz" "rx_got t = 0" "rx_gid t = Some g" "rx_caption t = cap" "rx_ts t = ts"
proof -
  let ?dir = "join (e_blobs e) (''g-'' @ g)"
  let ?t = "\<lparr>rx_partial = join ?dir (''partial-'' @ nid_show E n @ ''-'' @ i), rx_dir = ?dir, rx_name = sanitize_name E name, rx_size = sz,
    rx_mime = mime, rx_caption = cap, rx_ts = ts, rx_got = 0, rx_gid = Some g\<rparr>"
  have "io_ok e" "\<not> sz > MAX_GROUP_FILE_BYTES" using assms by (simp_all add: io_ok_def)
  moreover have "\<not> (rx_for_peer n e - 0 \<ge> MAX_INBOUND_FILES_PER_PEER \<or> length (e_rx_files e) - 0 \<ge> MAX_INBOUND_FILES_TOTAL)"
    using assms by (simp add: limit_defs)
  ultimately have "on_group_file_begin E n g i ts name sz mime cap e = put_rx (n, i) ?t (file_create (rx_partial ?t) e)"
    using assms(1,3,7) by (simp add: on_group_file_begin_def Let_def file_unknown_def)
  also have "\<dots> = e\<lparr>d_files := hm_put (rx_partial ?t) [] (d_files e), e_rx_files := hm_put (n, i) ?t (e_rx_files e)\<rparr>"
    using assms(4) by (simp add: put_rx_def file_create_def io_ok_def)
  finally show thesis by (intro that [of ?t]) simp_all
qed

text \<open>The log of the group (before: \<open>l\<close>) ends with a row for the file, whose bytes are on disk.\<close>

definition group_file_arrived :: "'a ext_scheme \<Rightarrow> node_id \<Rightarrow> string \<Rightarrow> string \<Rightarrow> u64 \<Rightarrow> string \<Rightarrow> byte list \<Rightarrow> group_log_rec list \<Rightarrow> engine \<Rightarrow> bool" where
  "group_file_arrived E n g i ts cap data l e \<longleftrightarrow> (\<exists>f r. map_of (d_files e) (gf_path f) = Some data \<and> gf_size f = of_nat (length data)
     \<and> log_of e g = l @ [r] \<and> gl_file r = Some f \<and> gl_from r = nid_show E n \<and> gl_id r = i \<and> gl_ts r = ts \<and> gl_text r = cap
     \<and> gl_dir r = ''in'' \<and> gl_seq r = 0)"

lemma log_of_cong: "d_logs e' = d_logs e \<Longrightarrow> log_of e' g = log_of e g"
  by (simp add: log_of_def)

lemma group_end_stores:
  assumes "rx_open (n, i) t data e" "rx_gid t = Some g" "rx_size t = of_nat (length data)" "is_active_member E e g n"
  shows "group_file_arrived E n g i (rx_ts t) (rx_caption t) data (log_of e g) (on_group_file_end E n g i e)"
    "map_of (e_rx_files (on_group_file_end E n g i e)) (n, i) = None"
proof -
  let ?e1 = "del_rx (n, i) e"
  define q where "q = e_unique_path ?e1 (rx_dir t) (rx_name t)"
  define e2 where "e2 = file_rename (rx_partial t) q ?e1"
  define ts_eff where "ts_eff = eff_ts (last_ts E e2 g) (rx_ts t) (e_now e2)"
  define f where "f = \<lparr>gf_name = e_unique_name ?e1 (rx_dir t) (rx_name t), gf_size = rx_got t, gf_mime = rx_mime t, gf_path = q\<rparr>"
  define r where "r = \<lparr>gl_seq = 0, gl_from = nid_show E n, gl_id = i, gl_ts = rx_ts t, gl_ts_eff = ts_eff, gl_dir = ''in'',
     gl_text = rx_caption t, gl_reply_to = None, gl_reply_text = None, gl_file = Some f\<rparr>"
  define e3 where "e3 = e_append_log g r (group_last_ts E g e2)"
  have got: "rx_got t = rx_size t" and open_t: "map_of (e_rx_files e) (n, i) = Some t" and io: "e_io e = []"
    using assms by (simp_all add: rx_open_def)
  have ren: "rename_ok (rx_partial t) ?e1"
    using assms by (simp add: rx_open_def rename_ok_def exists_file_def del_rx_def io_ok_def)
  have same: "e_peers e2 = e_peers e" "e_groups e2 = e_groups e" "d_logs e2 = d_logs e" "e_io e2 = []"
    using io by (simp_all add: e2_def del_rx_def file_rename_def)
  have "is_active_member E e2 g n" "io_ok e2" using same assms(4) by (simp_all add: is_active_member_def io_ok_def)
  then have res: "on_group_file_end E n g i e = emit (EvGroupMessage g (nid_show E n) (group_name_of E e3 n) i 0 (rx_ts t) ts_eff (rx_caption t) None None (Some f))
      (e3\<lparr>e_ts_eff := hm_put g ts_eff (e_ts_eff e3)\<rparr>)"
    using assms(2) got open_t ren
    by (simp add: on_group_file_end_def Let_def q_def e2_def ts_eff_def f_def r_def e3_def)
  have "map_of (d_files e2) q = Some data"
    using assms ren by (simp add: e2_def file_rename_def file_content_def rx_open_def del_rx_def)
  moreover have "log_of e3 g = log_of e g @ [r]"
    using same log_of_cong [of "group_last_ts E g e2" e g] by (simp add: e3_def io_ok_def)
  ultimately show "group_file_arrived E n g i (rx_ts t) (rx_caption t) data (log_of e g) (on_group_file_end E n g i e)"
    using assms(3) got unfolding group_file_arrived_def res
    by (intro exI [of _ f] exI [of _ r]) (simp add: f_def r_def e3_def log_of_def)
  show "map_of (e_rx_files (on_group_file_end E n g i e)) (n, i) = None" by (simp add: res e3_def e2_def)
qed

lemma group_file_frames_arrive:
  fixes ch :: nat
  assumes "b64_laws E" "length data \<le> 32 * 1024 * 1024" "gx_size x = of_nat (length data)" "is_safe_transfer_id i"
    and "session_proto e n ch \<ge> 2" "is_active_member E e g n" "map_of (e_rx_files e) (n, i) = None" "e_io e = []"
    and "rx_for_peer n e < 3" "length (e_rx_files e) < 8" "file_unknown E e n g i"
  defines "e' \<equiv> fold (\<lambda>f. handle_frame E n f ch) (group_file_frames E g i x data) e"
  shows "group_file_arrived E n g i (gx_ts x) (gx_caption x) data (log_of e g) e' \<and> map_of (e_rx_files e') (n, i) = None"
proof -
  define ds where "ds = map (b64_enc E) (chunks GROUP_FILE_CHUNK data)"
  have sz: "unat (gx_size x) = length data" "gx_size x \<le> MAX_GROUP_FILE_BYTES"
    using small_u64 [of "length data"] assms(2,3) by (simp_all add: word_le_nat_alt MAX_GROUP_FILE_BYTES_def)
  obtain t where b: "on_group_file_begin E n g i (gx_ts x) (gx_name x) (gx_size x) (gx_mime x) (gx_caption x) e
      = e\<lparr>d_files := hm_put (rx_partial t) [] (d_files e), e_rx_files := hm_put (n, i) t (e_rx_files e)\<rparr>" (is "_ = ?e1")
    and t: "rx_size t = gx_size x" "rx_got t = 0" "rx_gid t = Some g" "rx_caption t = gx_caption x" "rx_ts t = gx_ts x"
    by (rule group_begin_opens [OF assms(4) sz(2) assms(7-11)])
  define e2 where "e2 = fold (on_group_file_chunk E n g i) ds ?e1"
  have "rx_open (n, i) t [] ?e1" using t assms(8) by (simp add: rx_open_def)
  from in_group.recv_file [OF assms(1) this t(3), of data GROUP_FILE_CHUNK] t(1) sz(1)
  have op: "rx_open (n, i) (t\<lparr>rx_got := gx_size x\<rparr>) data e2" and same: "e_peers e2 = e_peers e" "e_groups e2 = e_groups e" "d_logs e2 = d_logs e"
    by (auto simp: e2_def ds_def assms(3) GROUP_FILE_CHUNK_def)
  have may: "session_proto ?e1 n ch = session_proto e n ch" "is_active_member E ?e1 g n = is_active_member E e g n"
    "session_proto e2 n ch = session_proto e n ch" "is_active_member E e2 g n = is_active_member E e g n"
    by (rule may_send_cong; simp add: same)+
  have "e' = on_group_file_end E n g i e2"
    using assms(5,6) group_frames_are_chunks [of ?e1 n ch E g i ds] b may
    by (simp add: e'_def e2_def ds_def group_file_frames_def handle_frame_def on_group_file_def comp_def)
  with group_end_stores [OF op, of g E] show ?thesis
    using t assms(3,6) may log_of_cong [OF same(3)] by simp
qed

lemma group_send_file_keeps:
  assumes "group_send_file E g (Some data) name cap rid a = (a', Inr r)"
  shows "\<exists>x. map_of (e_group_xfers a') rid = Some x \<and> map_of (d_files a') (gx_path x) = Some data
    \<and> gx_size x = of_nat (length data) \<and> gx_ts x = e_now a \<and> gx_caption x = cap \<and> length data \<le> 32 * 1024 * 1024"
  using assms
  by (auto simp: group_send_file_def Let_def remember_xfer_def MAX_GROUP_FILE_BYTES_def split: option.splits sum.splits if_splits)

text \<open>C20: a file sent to a group arrives at each member it is streamed to: the frames made from the copy that
  \<open>group_send_file\<close> stored, read by an active member on a protocol 2 session with no failing write and room for one
  more transfer, append a row to the member's log, with the sender's time and caption, that refers to a file with the
  same bytes.\<close>

theorem group_file_round_trip:
  assumes "b64_laws E" "group_send_file E g (Some data) name cap rid a = (a', Inr r)" "is_safe_transfer_id rid"
    and "session_proto e n ch \<ge> 2" "is_active_member E e g n" "map_of (e_rx_files e) (n, rid) = None" "e_io e = []"
    and "rx_for_peer n e < 3" "length (e_rx_files e) < 8" "file_unknown E e n g rid"
  shows "\<exists>x copy. map_of (e_group_xfers a') rid = Some x \<and> map_of (d_files a') (gx_path x) = Some copy
    \<and> (let e' = fold (\<lambda>f. handle_frame E n f ch) (group_file_frames E g rid x copy) e in
        group_file_arrived E n g rid (e_now a) cap data (log_of e g) e' \<and> map_of (e_rx_files e') (n, rid) = None)"
proof -
  obtain x where x: "map_of (e_group_xfers a') rid = Some x" "map_of (d_files a') (gx_path x) = Some data"
    "gx_size x = of_nat (length data)" "gx_ts x = e_now a" "gx_caption x = cap" "length data \<le> 32 * 1024 * 1024"
    using group_send_file_keeps [OF assms(2)] by blast
  from group_file_frames_arrive [OF assms(1) x(6,3) assms(3-10)] x show ?thesis unfolding Let_def by metis
qed

theorem group_file_round_trip_witness:
  "\<exists>x copy. group_file_arrived ref_ext (dev 1) (gs_gid trio) ''a'' 100 ''c'' [1, 2] []
     (fold (\<lambda>f. handle_frame ref_ext (dev 1) f 7) (group_file_frames ref_ext (gs_gid trio) ''a'' x copy) demo_group)"
proof -
  have "is_safe_transfer_id ''a''" by code_simp
  moreover have "\<exists>r. snd (group_send_file ref_ext (gs_gid trio) (Some [1, 2]) ''n'' ''c'' ''a'' demo_group) = Inr r"
    by (simp add: group_send_file_def group_file_targets_def other_members_def List.map_filter_def trio_def v2_link_def v2_handle_def
        peer1_def tx_ok_def MAX_GROUP_TEXT_def MAX_GROUP_FILE_BYTES_def Let_def io_ok_def file_create_def)
  then obtain a' r where "group_send_file ref_ext (gs_gid trio) (Some [1, 2]) ''n'' ''c'' ''a'' demo_group = (a', Inr r)"
    by (metis prod.collapse)
  moreover have "session_proto demo_group (dev 1) 7 \<ge> 2" "rx_for_peer (dev 1) demo_group = 0" "e_now demo_group = 100"
    "is_active_member ref_ext demo_group (gs_gid trio) (dev 1)" "file_unknown ref_ext demo_group (dev 1) (gs_gid trio) ''a''"
    "log_of demo_group (gs_gid trio) = []"
    by (simp_all add: session_proto_def peer1_def rx_for_peer_def is_active_member_def file_unknown_def log_of_def)
       (simp add: demo_group_def demo_def)
  ultimately show ?thesis
    using group_file_round_trip [of ref_ext "gs_gid trio" "[1, 2]" "''n''" "''c''" "''a''" demo_group a' r demo_group "dev 1" 7]
    by (auto simp: Let_def)
qed

end
