(* ===== verification/Streaming.thy ===== *)
theory Streaming
  imports Transfers
begin

section \<open>Streaming files over a session\<close>

text \<open>
  The tasks of \<open>stream_group_file\<close> (\<open>velta-app/src-tauri/src/p2p.rs\<close>) that send files over one session, and the
  session's writer, as a step relation: each task reads a chunk of the stored copy, waits for one of the session's
  credits and queues the chunk; the writer puts the queue on the wire and hands the credit of a chunk back. The tasks
  and the writer interleave freely. The queue never holds more than four chunks, every run ends, and when reads and
  writes succeed it ends with each file complete on the wire, in order.
\<close>

datatype phase = SBegin | SChunks | SDone | SFailed

record stream =
  tk_gid :: string
  tk_id :: string
  tk_x :: group_xfer
  tk_rest :: "byte list"
  tk_total :: u64
  tk_phase :: phase

record pipe =
  pp_credits :: nat
  pp_open :: bool
  pp_queue :: "frame list"
  pp_wire :: "frame list"

definition fresh_pipe :: pipe where
  "fresh_pipe = \<lparr>pp_credits = GROUP_FILE_CREDITS, pp_open = True, pp_queue = [], pp_wire = []\<rparr>"

definition new_stream :: "string \<Rightarrow> string \<Rightarrow> group_xfer \<Rightarrow> byte list \<Rightarrow> stream" where
  "new_stream g i x data = \<lparr>tk_gid = g, tk_id = i, tk_x = x, tk_rest = data, tk_total = 0, tk_phase = SBegin\<rparr>"

definition push :: "frame \<Rightarrow> pipe \<Rightarrow> pipe" where
  "push f p = p\<lparr>pp_queue := pp_queue p @ [f]\<rparr>"

definition begin_frame :: "stream \<Rightarrow> frame" where
  "begin_frame s = (let x = tk_x s in
     GroupFileBegin (tk_gid s) (tk_id s) (gx_ts x) (gx_name x) (gx_size x) (gx_mime x) (gx_caption x))"

text \<open>An error ends the task; the receiver is told to drop what it has, if the session still takes frames.\<close>

definition stream_fail :: "stream \<times> pipe \<Rightarrow> stream \<times> pipe" where
  "stream_fail sp = (let (s, p) = sp in
     (s\<lparr>tk_phase := SFailed\<rparr>, if pp_open p then push (GroupFileEnd (tk_gid s) (tk_id s)) p else p))"

text \<open>One turn of a task; \<open>ok\<close> tells whether opening or reading the stored copy succeeds. \<open>None\<close> when the task waits
  for a credit or has ended.\<close>

definition stream_step :: "'a ext_scheme \<Rightarrow> bool \<Rightarrow> stream \<times> pipe \<Rightarrow> (stream \<times> pipe) option" where
  "stream_step E ok sp = (let (s, p) = sp in
     case tk_phase s of
       SBegin \<Rightarrow>
         if \<not> ok \<or> \<not> pp_open p then Some (stream_fail sp)
         else Some (s\<lparr>tk_phase := SChunks\<rparr>, push (begin_frame s) p)
     | SChunks \<Rightarrow>
         let c = take GROUP_FILE_CHUNK (tk_rest s); total = tk_total s + of_nat (length c) in
         if \<not> ok then Some (stream_fail sp)
         else if c = [] then
           if tk_total s \<noteq> gx_size (tk_x s) \<or> \<not> pp_open p then Some (stream_fail sp)
           else Some (s\<lparr>tk_phase := SDone\<rparr>, push (GroupFileEnd (tk_gid s) (tk_id s)) p)
         else if total > gx_size (tk_x s) \<or> \<not> pp_open p then Some (stream_fail sp)
         else if pp_credits p = 0 then None
         else Some (s\<lparr>tk_rest := drop GROUP_FILE_CHUNK (tk_rest s), tk_total := total\<rparr>,
                    push (GroupFileChunk (tk_gid s) (tk_id s) (b64_enc E c)) (p\<lparr>pp_credits := pp_credits p - 1\<rparr>))
     | _ \<Rightarrow> None)"

definition is_chunk :: "frame \<Rightarrow> bool" where
  "is_chunk f = (case f of GroupFileChunk _ _ _ \<Rightarrow> True | _ \<Rightarrow> False)"

text \<open>One turn of the session's writer; a failed write ends the session and closes its credits.\<close>

definition writer_step :: "bool \<Rightarrow> pipe \<Rightarrow> pipe option" where
  "writer_step ok p =
     (if \<not> pp_open p then None
      else (case pp_queue p of
        [] \<Rightarrow> None
      | f # q \<Rightarrow>
          if \<not> ok then Some (p\<lparr>pp_open := False\<rparr>)
          else Some (p\<lparr>pp_queue := q, pp_wire := pp_wire p @ [f], pp_credits := pp_credits p + (if is_chunk f then 1 else 0)\<rparr>)))"

text \<open>The tasks of a session and its writer; \<open>faults\<close> allows failing reads and writes.\<close>

inductive pipe_step :: "'a ext_scheme \<Rightarrow> bool \<Rightarrow> stream list \<times> pipe \<Rightarrow> stream list \<times> pipe \<Rightarrow> bool"
  for E :: "'a ext_scheme" and faults :: bool where
  stream_turn: "k < length ss \<Longrightarrow> ok \<or> faults \<Longrightarrow> stream_step E ok (ss ! k, p) = Some (s', p') \<Longrightarrow> pipe_step E faults (ss, p) (ss[k := s'], p')"
| writer_turn: "ok \<or> faults \<Longrightarrow> writer_step ok p = Some p' \<Longrightarrow> pipe_step E faults (ss, p) (ss, p')"

inductive_cases pipe_stepE: "pipe_step E faults (ss, p) y"

text \<open>What a turn of a task does, case by case.\<close>

lemma stream_step_cases [consumes 1, case_names start chunk last fail]:
  assumes "stream_step E ok (s, p) = Some (s', p')"
  obtains
    "tk_phase s = SBegin" "ok" "pp_open p" "s' = s\<lparr>tk_phase := SChunks\<rparr>" "p' = push (begin_frame s) p"
  | "tk_phase s = SChunks" "ok" "pp_open p" "tk_rest s \<noteq> []" "pp_credits p > 0"
      "s' = s\<lparr>tk_rest := drop GROUP_FILE_CHUNK (tk_rest s), tk_total := tk_total s + of_nat (length (take GROUP_FILE_CHUNK (tk_rest s)))\<rparr>"
      "p' = push (GroupFileChunk (tk_gid s) (tk_id s) (b64_enc E (take GROUP_FILE_CHUNK (tk_rest s)))) (p\<lparr>pp_credits := pp_credits p - 1\<rparr>)"
  | "tk_phase s = SChunks" "ok" "pp_open p" "tk_rest s = []" "tk_total s = gx_size (tk_x s)"
      "s' = s\<lparr>tk_phase := SDone\<rparr>" "p' = push (GroupFileEnd (tk_gid s) (tk_id s)) p"
  | "tk_phase s \<in> {SBegin, SChunks}" "(s', p') = stream_fail (s, p)"
      "\<not> ok \<or> \<not> pp_open p \<or> tk_phase s = SChunks \<and> (tk_rest s = [] \<and> tk_total s \<noteq> gx_size (tk_x s)
         \<or> tk_rest s \<noteq> [] \<and> tk_total s + of_nat (length (take GROUP_FILE_CHUNK (tk_rest s))) > gx_size (tk_x s))"
  using assms
  by (auto simp: stream_step_def Let_def GROUP_FILE_CHUNK_def split: phase.splits if_splits)

lemma writer_step_cases [consumes 1, case_names written broken]:
  assumes "writer_step ok p = Some p'"
  obtains f q where "pp_open p" "ok" "pp_queue p = f # q"
      "p' = p\<lparr>pp_queue := q, pp_wire := pp_wire p @ [f], pp_credits := pp_credits p + (if is_chunk f then 1 else 0)\<rparr>"
  | "pp_open p" "\<not> ok" "p' = p\<lparr>pp_open := False\<rparr>"
  using assms by (auto simp: writer_step_def split: if_splits list.splits)

lemma push_fields [simp]:
  "pp_queue (push f p) = pp_queue p @ [f]" "pp_wire (push f p) = pp_wire p" "pp_credits (push f p) = pp_credits p" "pp_open (push f p) = pp_open p"
  by (simp_all add: push_def)

lemma is_chunk_simps [simp]:
  "is_chunk (GroupFileChunk g i d)" "\<not> is_chunk (GroupFileEnd g i)" "\<not> is_chunk (begin_frame s)"
  by (simp_all add: is_chunk_def begin_frame_def Let_def)

subsection \<open>Memory\<close>

definition credits_ok :: "pipe \<Rightarrow> bool" where
  "credits_ok p \<longleftrightarrow> pp_credits p + length (filter is_chunk (pp_queue p)) = GROUP_FILE_CREDITS"

lemma pipe_step_credits:
  assumes "pipe_step E faults x y" "credits_ok (snd x)"
  shows "credits_ok (snd y)"
  using assms
proof (induction rule: pipe_step.induct)
  case (stream_turn k ss ok p s' p')
  from stream_turn(3,4) show ?case
    by (cases rule: stream_step_cases) (auto simp: credits_ok_def stream_fail_def split: if_splits)
next
  case (writer_turn ok p p' ss)
  from writer_turn(2,3) show ?case
    by (cases rule: writer_step_cases) (auto simp: credits_ok_def split: if_splits)
qed

text \<open>however many files are streamed over a session, however large they are and however slowly the session
  writes, its queue never holds more than four chunks.\<close>

theorem queued_chunks_bounded:
  assumes "(pipe_step E faults)\<^sup>*\<^sup>* (ss, fresh_pipe) (ss', p)"
  shows "length (filter is_chunk (pp_queue p)) \<le> 4"
proof -
  have "credits_ok (snd (ss', p))"
    using assms
  proof (induction rule: rtranclp_induct)
    case base
    show ?case by (simp add: credits_ok_def fresh_pipe_def)
  qed (rule pipe_step_credits)
  then show ?thesis by (simp add: credits_ok_def GROUP_FILE_CREDITS_def)
qed

definition demo_xfer :: group_xfer where
  "demo_xfer = \<lparr>gx_gid = ''g'', gx_path = ''p'', gx_name = ''n'', gx_size = 2, gx_mime = ''m'', gx_caption = ''c'', gx_ts = 5, gx_members = []\<rparr>"

theorem queued_chunks_bounded_witness:
  "\<exists>ss p. (pipe_step ref_ext True)\<^sup>*\<^sup>* ([new_stream ''g'' ''a'' demo_xfer [1, 2]], fresh_pipe) (ss, p)
    \<and> filter is_chunk (pp_queue p) \<noteq> [] \<and> length (filter is_chunk (pp_queue p)) \<le> 4"
proof -
  let ?s = "new_stream ''g'' ''a'' demo_xfer [1, 2]"
  let ?s1 = "?s\<lparr>tk_phase := SChunks\<rparr>"
  let ?p1 = "push (begin_frame ?s) fresh_pipe"
  have "pipe_step ref_ext True ([?s], fresh_pipe) ([?s1], ?p1)"
    using stream_turn [of 0 "[?s]" True True ref_ext fresh_pipe ?s1 ?p1] by (simp add: stream_step_def new_stream_def fresh_pipe_def)
  moreover obtain s2 p2 where st: "stream_step ref_ext True (?s1, ?p1) = Some (s2, p2)" and chunk: "filter is_chunk (pp_queue p2) \<noteq> []"
    by (auto simp: stream_step_def new_stream_def fresh_pipe_def demo_xfer_def GROUP_FILE_CHUNK_def GROUP_FILE_CREDITS_def Let_def)
  then have "pipe_step ref_ext True ([?s1], ?p1) ([s2], p2)"
    using stream_turn [of 0 "[?s1]" True True ref_ext ?p1 s2 p2] by simp
  ultimately have "(pipe_step ref_ext True)\<^sup>*\<^sup>* ([?s], fresh_pipe) ([s2], p2)" by simp
  with chunk queued_chunks_bounded [OF this] show ?thesis by blast
qed

subsection \<open>Termination\<close>

definition stream_work :: "stream \<Rightarrow> nat" where
  "stream_work s = (case tk_phase s of SBegin \<Rightarrow> 2 * length (tk_rest s) + 4 | SChunks \<Rightarrow> 2 * length (tk_rest s) + 2 | _ \<Rightarrow> 0)"

definition pipe_work :: "stream list \<times> pipe \<Rightarrow> nat" where
  "pipe_work x = sum_list (map stream_work (fst x)) + length (pp_queue (snd x)) + of_bool (pp_open (snd x))"

lemma stream_step_work:
  assumes "stream_step E ok (s, p) = Some (s', p')"
  shows "stream_work s' + length (pp_queue p') < stream_work s + length (pp_queue p)" "pp_open p' = pp_open p"
  using assms
  by (cases rule: stream_step_cases; auto simp: stream_work_def stream_fail_def GROUP_FILE_CHUNK_def; cases "tk_rest s"; auto)+

lemma sum_list_upd: "k < length xs \<Longrightarrow> sum_list (map f (xs[k := y])) + f (xs ! k) = sum_list (map f xs) + (f y :: nat)"
  by (induction xs arbitrary: k) (auto split: nat.splits)

lemma pipe_step_work:
  assumes "pipe_step E faults x y"
  shows "pipe_work y < pipe_work x"
  using assms
proof (induction rule: pipe_step.induct)
  case (stream_turn k ss ok p s' p')
  from stream_step_work [OF stream_turn(3)] sum_list_upd [OF stream_turn(1), of stream_work s'] show ?case
    by (simp add: pipe_work_def)
next
  case (writer_turn ok p p' ss)
  from writer_turn(2) show ?case by (cases rule: writer_step_cases) (auto simp: pipe_work_def)
qed

lemma runs_to_end: "\<exists>y. (pipe_step E faults)\<^sup>*\<^sup>* x y \<and> (\<nexists>z. pipe_step E faults y z)"
proof (induction "pipe_work x" arbitrary: x rule: less_induct)
  case less
  then show ?case by (metis pipe_step_work converse_rtranclp_into_rtranclp rtranclp.rtrancl_refl)
qed

text \<open>C35: streaming always comes to an end: whatever fails and however the tasks and the writer take turns, there
  is no infinite run.\<close>

theorem streaming_terminates: "wfp (\<lambda>y x. pipe_step E faults x y)"
  by (rule wfp_if_convertible_to_nat [of _ pipe_work]) (rule pipe_step_work)

subsection \<open>Completion\<close>

definition for_id :: "string \<Rightarrow> frame \<Rightarrow> bool" where
  "for_id i f = (case f of GroupFileBegin _ j _ _ _ _ _ \<Rightarrow> j = i | GroupFileChunk _ j _ \<Rightarrow> j = i | GroupFileEnd _ j \<Rightarrow> j = i | _ \<Rightarrow> False)"

text \<open>The frames a task has yet to queue.\<close>

definition pending :: "'a ext_scheme \<Rightarrow> stream \<Rightarrow> frame list" where
  "pending E s =
     (let rest = map (\<lambda>c. GroupFileChunk (tk_gid s) (tk_id s) (b64_enc E c)) (chunks GROUP_FILE_CHUNK (tk_rest s)) @ [GroupFileEnd (tk_gid s) (tk_id s)]
      in case tk_phase s of SBegin \<Rightarrow> begin_frame s # rest | SChunks \<Rightarrow> rest | _ \<Rightarrow> [])"

lemma pending_new: "pending E (new_stream g i x data) = group_file_frames E g i x data"
  by (simp add: pending_def new_stream_def group_file_frames_def begin_frame_def)

lemma chunks_step: "xs \<noteq> [] \<Longrightarrow> n > 0 \<Longrightarrow> chunks n xs = take n xs # chunks n (drop n xs)"
  by (subst chunks.simps) simp

lemma chunks_Nil [simp]: "chunks n [] = []"
  by (subst chunks.simps) simp

text \<open>A task that has not failed and whose file has the announced size.\<close>

definition on_course :: "stream \<Rightarrow> bool" where
  "on_course s \<longleftrightarrow> tk_phase s \<noteq> SFailed \<and> (tk_phase s \<in> {SBegin, SChunks} \<longrightarrow> unat (tk_total s) + length (tk_rest s) = unat (gx_size (tk_x s)))"

lemma course_fits:
  assumes "on_course s" "tk_phase s \<in> {SBegin, SChunks}"
  shows "unat (tk_total s + of_nat (length (take n (tk_rest s)))) = unat (tk_total s) + length (take n (tk_rest s))"
    "\<not> tk_total s + of_nat (length (take n (tk_rest s))) > gx_size (tk_x s)"
    "tk_rest s = [] \<Longrightarrow> tk_total s = gx_size (tk_x s)"
proof -
  have sum: "unat (tk_total s) + length (tk_rest s) = unat (gx_size (tk_x s))" using assms by (auto simp: on_course_def)
  moreover have "unat (gx_size (tk_x s)) < 2 ^ 64" using unsigned_less [of "gx_size (tk_x s)", where 'a = nat] by simp
  ultimately have small: "unat (tk_total s) + length (take n (tk_rest s)) < 2 ^ 64" by (simp add: min_def)
  then show u: "unat (tk_total s + of_nat (length (take n (tk_rest s)))) = unat (tk_total s) + length (take n (tk_rest s))"
    by (simp add: unat_word_ariths unat_of_nat)
  show "\<not> tk_total s + of_nat (length (take n (tk_rest s))) > gx_size (tk_x s)"
    using u sum by (simp add: word_less_nat_alt min_def)
  show "tk_rest s = [] \<Longrightarrow> tk_total s = gx_size (tk_x s)" using sum by (simp add: word_unat_eq_iff)
qed

text \<open>A turn of a task on course moves frames from what is pending to the queue.\<close>

lemma stream_step_moves:
  assumes "stream_step E True (s, p) = Some (s', p')" "on_course s" "pp_open p"
  shows "on_course s'" "pp_open p'" "pp_wire p' = pp_wire p" "tk_id s' = tk_id s"
    "\<exists>fs. pp_queue p' = pp_queue p @ fs \<and> pending E s = fs @ pending E s' \<and> (\<forall>f\<in>set fs. \<forall>i. for_id i f \<longleftrightarrow> i = tk_id s)"
proof -
  have "on_course s' \<and> pp_open p' \<and> pp_wire p' = pp_wire p \<and> tk_id s' = tk_id s
     \<and> (\<exists>fs. pp_queue p' = pp_queue p @ fs \<and> pending E s = fs @ pending E s' \<and> (\<forall>f\<in>set fs. \<forall>i. for_id i f \<longleftrightarrow> i = tk_id s))"
    using assms(1)
  proof (cases rule: stream_step_cases)
    case chunk
    then have "on_course s'" using course_fits(1) [OF assms(2), of GROUP_FILE_CHUNK] assms(2) by (auto simp: on_course_def)
    with chunk assms(3) show ?thesis
      by (auto simp: pending_def chunks_step GROUP_FILE_CHUNK_def for_id_def)
  next
    case fail
    then show ?thesis using course_fits [OF assms(2)] assms(3) by auto
  qed (use assms(2,3) in \<open>auto simp: on_course_def pending_def for_id_def begin_frame_def Let_def\<close>)
  then show "on_course s'" "pp_open p'" "pp_wire p' = pp_wire p" "tk_id s' = tk_id s"
    "\<exists>fs. pp_queue p' = pp_queue p @ fs \<and> pending E s = fs @ pending E s' \<and> (\<forall>f\<in>set fs. \<forall>i. for_id i f \<longleftrightarrow> i = tk_id s)" by auto
qed

text \<open>The frames of each file that are written, queued or pending are always the same list \<open>F i\<close>.\<close>

definition flowing :: "'a ext_scheme \<Rightarrow> string list \<Rightarrow> (string \<Rightarrow> frame list) \<Rightarrow> stream list \<times> pipe \<Rightarrow> bool" where
  "flowing E ids F x \<longleftrightarrow> (let (ss, p) = x in pp_open p \<and> credits_ok p \<and> map tk_id ss = ids \<and> distinct ids \<and> (\<forall>s\<in>set ss. on_course s
     \<and> filter (for_id (tk_id s)) (pp_wire p @ pp_queue p) @ pending E s = F (tk_id s)))"

lemma flowing_step:
  assumes "pipe_step E False x y" "flowing E ids F x"
  shows "flowing E ids F y"
  using assms(1)
proof (cases rule: pipe_step.cases)
  case (stream_turn k ss ok p s' p')
  let ?s = "ss ! k"
  have s: "?s \<in> set ss" using stream_turn by simp
  have fl: "on_course s" "filter (for_id (tk_id s)) (pp_wire p @ pp_queue p) @ pending E s = F (tk_id s)" if "s \<in> set ss" for s
    using assms(2) stream_turn that by (auto simp: flowing_def)
  have op: "pp_open p" "distinct (map tk_id ss)" "map tk_id ss = ids" using assms(2) stream_turn by (auto simp: flowing_def)
  note mv = stream_step_moves [of E ?s p s' p', OF _ fl(1) [OF s] op(1)]
  obtain fs where fs: "pp_queue p' = pp_queue p @ fs" "pending E ?s = fs @ pending E s'" "\<forall>f\<in>set fs. \<forall>i. for_id i f \<longleftrightarrow> i = tk_id ?s"
    using mv(5) stream_turn by auto
  have keep: "filter (for_id i) fs = (if i = tk_id ?s then fs else [])" for i
    using fs(3) by (auto simp: filter_empty_conv)
  have "filter (for_id (tk_id s)) (pp_wire p' @ pp_queue p') @ pending E s = F (tk_id s)" "on_course s" if new: "s \<in> set (ss[k := s'])" for s
  proof -
    have mv': "pp_wire p' = pp_wire p" "tk_id s' = tk_id ?s" "on_course s'" using mv stream_turn by auto
    show "on_course s" using that mv'(3) fl(1) set_update_subset_insert [of ss k s'] by auto
    show "filter (for_id (tk_id s)) (pp_wire p' @ pp_queue p') @ pending E s = F (tk_id s)"
    proof (cases "s = s'")
      case True
      then show ?thesis using fl(2) [OF s] fs mv' keep by simp
    next
      case False
      then obtain j where j: "j < length ss" "j \<noteq> k" "s = ss ! j"
        using new by (metis in_set_conv_nth length_list_update nth_list_update_eq nth_list_update_neq)
      then have "tk_id s \<noteq> tk_id ?s" using op(2) stream_turn by (auto simp: distinct_conv_nth)
      then show ?thesis using fl(2) [of s] j fs mv' keep by simp
    qed
  qed
  moreover have "map tk_id (ss[k := s']) = map tk_id ss"
    using mv(4) stream_turn by (simp add: map_update list_update_same_conv)
  moreover have "credits_ok p'" using pipe_step_credits [OF assms(1)] assms(2) stream_turn by (simp add: flowing_def)
  ultimately show ?thesis using mv(2) op stream_turn by (simp add: flowing_def)
next
  case (writer_turn ok p p' ss)
  moreover have "credits_ok p'" using pipe_step_credits [OF assms(1)] assms(2) writer_turn by (simp add: flowing_def)
  moreover have "pp_wire p' @ pp_queue p' = pp_wire p @ pp_queue p" "pp_open p'"
    using writer_turn by (auto elim!: writer_step_cases)
  ultimately show ?thesis
    using assms(2) by (simp add: flowing_def del: filter_append)
qed

lemma stuck_complete:
  assumes "flowing E ids F (ss, p)" "\<nexists>y. pipe_step E False (ss, p) y" "s \<in> set ss"
  shows "tk_phase s = SDone \<and> filter (for_id (tk_id s)) (pp_wire p) = F (tk_id s)"
proof -
  have op: "pp_open p" "credits_ok p" and course: "on_course s"
    and flow: "filter (for_id (tk_id s)) (pp_wire p @ pp_queue p) @ pending E s = F (tk_id s)"
    using assms(1,3) by (auto simp: flowing_def)
  have "writer_step True p = None"
    using assms(2) writer_turn [of True False p _ E ss] by (metis option.exhaust)
  then have q: "pp_queue p = []" using op by (auto simp: writer_step_def split: list.splits)
  then have "pp_credits p \<noteq> 0" using op by (simp add: credits_ok_def GROUP_FILE_CREDITS_def)
  moreover obtain k where "k < length ss" "s = ss ! k" using assms(3) by (auto simp: in_set_conv_nth)
  then have "stream_step E True (s, p) = None"
    using assms(2) stream_turn [of k ss True False E p] by (metis option.exhaust surj_pair)
  ultimately have "tk_phase s = SDone" using op course
    by (auto simp: stream_step_def Let_def on_course_def split: phase.splits if_splits)
  with q flow show ?thesis by (simp add: pending_def)
qed

text \<open>C34: when the files have the announced sizes and no read and no write fails, streaming stops only when every
  file is complete: the wire then carries, for each transfer, exactly the frames of its file in order, whatever the
  tasks of the other transfers did in between. (That it stops is the previous property.)\<close>

theorem streaming_completes:
  assumes "(pipe_step E False)\<^sup>*\<^sup>* (map (\<lambda>(g, i, x, data). new_stream g i x data) ts, fresh_pipe) (ss, p)"
    and "\<nexists>y. pipe_step E False (ss, p) y" "distinct (map (\<lambda>(g, i, x, data). i) ts)"
    and "\<forall>(g, i, x, data)\<in>set ts. unat (gx_size x) = length data" "(g, i, x, data) \<in> set ts"
  shows "filter (for_id i) (pp_wire p) = group_file_frames E g i x data"
proof -
  define L where "L = map (\<lambda>(g, i, x, data). (i, group_file_frames E g i x data)) ts"
  let ?F = "\<lambda>i. the (map_of L i)"
  let ?ss = "map (\<lambda>(g, i, x, data). new_stream g i x data) ts"
  define ids where "ids = map (\<lambda>(g, i, x, data). i) ts"
  have "map fst L = ids" by (auto simp: L_def ids_def)
  then have F: "?F i = group_file_frames E g i x data" if "(g, i, x, data) \<in> set ts" for g i x data
  proof -
    have "(i, group_file_frames E g i x data) \<in> set L" using that by (force simp: L_def)
    then show ?thesis using assms(3) \<open>map fst L = ids\<close> by (simp add: ids_def)
  qed
  have "map tk_id ?ss = ids" by (auto simp: ids_def new_stream_def)
  then have "flowing E ids ?F (?ss, fresh_pipe)"
    using assms(3,4) F by (auto simp: flowing_def fresh_pipe_def credits_ok_def on_course_def ids_def pending_new)
      (auto simp: new_stream_def)
  with assms(1) have fl: "flowing E ids ?F (ss, p)"
    by (induction rule: rtranclp_induct) (auto intro: flowing_step)
  then have "map tk_id ss = ids" by (simp add: flowing_def)
  moreover have "i \<in> set ids" using assms(5) by (force simp: ids_def)
  ultimately obtain s where "s \<in> set ss" "tk_id s = i" by (metis (mono_tags) in_set_conv_nth length_map nth_map)
  with stuck_complete [OF fl assms(2), of s] F [OF assms(5)] show ?thesis by simp
qed

theorem streaming_completes_witness:
  "\<exists>ss p. (pipe_step ref_ext False)\<^sup>*\<^sup>* ([new_stream ''g'' ''a'' demo_xfer [1, 2]], fresh_pipe) (ss, p)
    \<and> filter (for_id ''a'') (pp_wire p) = group_file_frames ref_ext ''g'' ''a'' demo_xfer [1, 2]"
proof -
  obtain ss p where run: "(pipe_step ref_ext False)\<^sup>*\<^sup>* ([new_stream ''g'' ''a'' demo_xfer [1, 2]], fresh_pipe) (ss, p)"
    "\<nexists>z. pipe_step ref_ext False (ss, p) z"
    using runs_to_end [of ref_ext False "([new_stream ''g'' ''a'' demo_xfer [1, 2]], fresh_pipe)"] by (metis surj_pair)
  with streaming_completes [of ref_ext "[(''g'', ''a'', demo_xfer, [1, 2])]" ss p "''g''" "''a''" demo_xfer "[1, 2]"]
  show ?thesis by (auto simp: demo_xfer_def)
qed

end
