(* ===== verification/Json.thy ===== *)
theory Json
  imports Maps Complex_Main
begin

section \<open>JSON values\<close>

text \<open>
  \<open>serde_json::Value\<close> as the code uses it: objects are maps sorted by key, a number is an integer (of \<open>i64\<close> or
  \<open>u64\<close>) or a float, which as a finite binary fraction is a rational, indexing a missing key or something that is
  not an object gives \<open>Null\<close>, and assigning to a key inserts it.
\<close>

datatype json = JNull | JBool bool | JInt int | JFloat rat | JStr string | JArr "json list" | JObj "(string, json) btmap"

fun jget :: "json \<Rightarrow> string \<Rightarrow> json" where
  "jget (JObj m) k = (case map_of m k of None \<Rightarrow> JNull | Some v \<Rightarrow> v)"
| "jget _ k = JNull"

text \<open>Assigning to a key of a value that is neither an object nor \<open>Null\<close> panics; the code only does it to objects.\<close>

fun jset :: "json \<Rightarrow> string \<Rightarrow> json \<Rightarrow> json" where
  "jset (JObj m) k v = JObj (bt_put k v m)"
| "jset JNull k v = JObj [(k, v)]"
| "jset j k v = j"

fun is_obj :: "json \<Rightarrow> bool" where
  "is_obj (JObj _) = True"
| "is_obj _ = False"

fun is_str :: "json \<Rightarrow> bool" where
  "is_str (JStr _) = True"
| "is_str _ = False"

fun as_str :: "json \<Rightarrow> string option" where
  "as_str (JStr s) = Some s"
| "as_str _ = None"

fun as_bool :: "json \<Rightarrow> bool option" where
  "as_bool (JBool b) = Some b"
| "as_bool _ = None"

fun as_array :: "json \<Rightarrow> json list option" where
  "as_array (JArr xs) = Some xs"
| "as_array _ = None"

abbreviation i64_max :: int where "i64_max \<equiv> 9223372036854775807"
abbreviation i64_min :: int where "i64_min \<equiv> -9223372036854775808"

fun as_i64 :: "json \<Rightarrow> int option" where
  "as_i64 (JInt n) = (if i64_min \<le> n \<and> n \<le> i64_max then Some n else None)"
| "as_i64 _ = None"

text \<open>\<open>f as i64\<close> saturates; \<open>f64::round\<close> rounds halves away from zero. An integer beyond \<open>i64\<close> reads as a float.\<close>

definition sat_i64 :: "int \<Rightarrow> int" where
  "sat_i64 n = max i64_min (min i64_max n)"

definition round_away :: "rat \<Rightarrow> int" where
  "round_away q = (if q < 0 then - \<lfloor>- q + 1 / 2\<rfloor> else \<lfloor>q + 1 / 2\<rfloor>)"

definition as_f64_round :: "json \<Rightarrow> int option" where
  "as_f64_round j = (case j of JInt n \<Rightarrow> Some (sat_i64 n) | JFloat q \<Rightarrow> Some (sat_i64 (round_away q)) | _ \<Rightarrow> None)"

text \<open>Arithmetic on \<open>i64\<close> wraps around in a release build.\<close>

definition wrap64 :: "int \<Rightarrow> int" where
  "wrap64 n = (n + 2 ^ 63) mod 2 ^ 64 - 2 ^ 63"

lemma wrap64_id [simp]: "i64_min \<le> n \<Longrightarrow> n \<le> i64_max \<Longrightarrow> wrap64 n = n"
  by (simp add: wrap64_def)

lemma wrap64_range [simp]: "i64_min \<le> wrap64 n" "wrap64 n \<le> i64_max"
  by (simp_all add: wrap64_def)

lemma jget_jset [simp]: "is_obj j \<Longrightarrow> jget (jset j k v) k' = (if k' = k then v else jget j k')"
  by (cases j) (auto split: option.splits)

lemma is_obj_jset [simp]: "is_obj j \<Longrightarrow> is_obj (jset j k v)"
  by (cases j) auto

lemma is_str_obj: "is_str (jget j k) \<Longrightarrow> is_obj j"
  by (cases j) auto

lemma is_str_iff: "is_str j \<longleftrightarrow> (\<exists>s. j = JStr s)"
  by (cases j) auto

lemma as_str_iff [simp]: "as_str j = Some s \<longleftrightarrow> j = JStr s"
  by (cases j) auto

definition str_or :: "json \<Rightarrow> string \<Rightarrow> string" where
  "str_or j d = (case as_str j of None \<Rightarrow> d | Some s \<Rightarrow> s)"

definition bool_or :: "json \<Rightarrow> bool \<Rightarrow> bool" where
  "bool_or j d = (case as_bool j of None \<Rightarrow> d | Some b \<Rightarrow> b)"

definition i64_or :: "json \<Rightarrow> int \<Rightarrow> int" where
  "i64_or j d = (case as_i64 j of None \<Rightarrow> d | Some n \<Rightarrow> n)"

lemma or_simps [simp]:
  "str_or (JStr s) d = s" "bool_or (JBool b) e = b" "str_or JNull d = d" "bool_or JNull e = e" "i64_or JNull n = n"
  by (simp_all add: str_or_def bool_or_def i64_or_def)

lemma i64_or_int [simp]: "i64_min \<le> n \<Longrightarrow> n \<le> i64_max \<Longrightarrow> i64_or (JInt n) d = n"
  by (simp add: i64_or_def)

definition jobj :: "(string \<times> json) list \<Rightarrow> json" where
  "jobj kvs = JObj (fold (\<lambda>(k, v). bt_put k v) kvs [])"

lemma jget_jobj: "jget (jobj kvs) k = (case map_of (rev kvs) k of None \<Rightarrow> JNull | Some v \<Rightarrow> v)"
proof -
  have "map_of (fold (\<lambda>(k, v). bt_put k v) kvs m) = map_of m ++ map_of (rev kvs)" for m :: "(string, json) btmap"
    by (induction kvs arbitrary: m) (auto simp: fun_eq_iff map_add_def split: option.splits)
  then show ?thesis by (simp add: jobj_def)
qed

lemma map_of_rev_distinct: "distinct (map fst kvs) \<Longrightarrow> map_of (rev kvs) = map_of kvs"
proof (rule ext)
  fix k
  assume d: "distinct (map fst kvs)"
  then have "distinct (map fst (rev kvs))" by (simp add: rev_map [symmetric])
  then show "map_of (rev kvs) k = map_of kvs k"
    using d by (metis map_of_eq_Some_iff not_Some_eq set_rev)
qed

lemma jget_jobj_distinct [simp]:
  "distinct (map fst kvs) \<Longrightarrow> jget (jobj kvs) k = (case map_of kvs k of None \<Rightarrow> JNull | Some v \<Rightarrow> v)"
  by (simp add: jget_jobj map_of_rev_distinct)

lemma is_obj_jobj [simp]: "is_obj (jobj kvs)"
  by (simp add: jobj_def)

end
