(* ===== verification/Scheduled.thy ===== *)
theory Scheduled
  imports Json "HOL-Library.Product_Lexorder" "HOL-Library.Multiset"
begin

section \<open>Scheduled messages\<close>

text \<open>
  The \<open>Send later\<close> queue: \<open>velta-app/src-tauri/src/scheduled_store.rs\<close> (the rules over the JSON document) and
  \<open>scheduled.rs\<close> (the document's file and the Android send loop \<open>run_due\<close>). Documents, items and operations are JSON
  values as in the code. The file is the document read back from it (\<open>None\<close>: missing or unreadable); it is replaced
  by a write and a rename, so a failed write leaves it as it was.
\<close>

subsection \<open>The document\<close>

definition TEXT_MAX :: nat where "TEXT_MAX = 64 * 1024"
definition STALE_SENDING_MS :: int where "STALE_SENDING_MS = 2 * 60 * 1000"
definition BACKOFF_MS :: "int list" where "BACKOFF_MS = [60000, 5 * 60000, 15 * 60000, 60 * 60000]"

definition empty_doc :: json where
  "empty_doc = jobj [(''version'', JInt 1), (''items'', JArr [])]"

definition backoff_ms :: "int \<Rightarrow> int" where
  "backoff_ms attempts = BACKOFF_MS ! nat (max 1 (min (int (length BACKOFF_MS)) attempts) - 1)"

definition normalize :: "json \<Rightarrow> json" where
  "normalize doc = (case as_array (jget doc ''items'') of
     Some xs \<Rightarrow> jobj [(''version'', JInt 1), (''items'', JArr (filter (\<lambda>it. is_str (jget it ''id'')) xs))]
   | None \<Rightarrow> empty_doc)"

definition items :: "json \<Rightarrow> json list" where
  "items doc = (case as_array (jget doc ''items'') of Some xs \<Rightarrow> xs | None \<Rightarrow> [])"

text \<open>What \<open>items_mut\<close> leaves behind, and the document with other items.\<close>

definition items_mut :: "json \<Rightarrow> json" where
  "items_mut doc = (if as_array (jget doc ''items'') = None then jset doc ''items'' (JArr []) else doc)"

definition put_items :: "json list \<Rightarrow> json \<Rightarrow> json" where
  "put_items xs doc = jset doc ''items'' (JArr xs)"

definition item_status :: "json \<Rightarrow> string" where
  "item_status it = str_or (jget it ''status'') []"

definition uncertain :: "json \<Rightarrow> bool" where
  "uncertain it = bool_or (jget it ''uncertain'') False"

definition num :: "json \<Rightarrow> int option" where
  "num v = (case as_i64 v of Some n \<Rightarrow> Some n | None \<Rightarrow> as_f64_round v)"

text \<open>\<open>encode_utf16().count()\<close>: two units for a character of four bytes.\<close>

definition utf16_count :: "string \<Rightarrow> nat" where
  "utf16_count s = sum_list (map (\<lambda>c. if length c = 4 then 2 else 1) (chars s))"

definition valid_text :: "string \<Rightarrow> bool" where
  "valid_text t \<longleftrightarrow> trim t \<noteq> [] \<and> utf16_count t \<le> TEXT_MAX"

lemma valid_text_code [code]: "valid_text t \<longleftrightarrow> trim t \<noteq> [] \<and> int (utf16_count t) \<le> 65536"
  by (auto simp: valid_text_def TEXT_MAX_def)

definition item_id :: "json \<Rightarrow> string option" where
  "item_id it = as_str (jget it ''id'')"

fun position :: "('a \<Rightarrow> bool) \<Rightarrow> 'a list \<Rightarrow> nat option" where
  "position P [] = None"
| "position P (x # xs) = (if P x then Some 0 else map_option Suc (position P xs))"

definition find_item :: "string \<Rightarrow> json \<Rightarrow> nat option" where
  "find_item i doc = position (\<lambda>it. item_id it = Some i) (items doc)"

subsection \<open>The operations\<close>

definition new_item :: "string \<Rightarrow> int \<Rightarrow> int \<Rightarrow> string \<Rightarrow> int option \<Rightarrow> int \<Rightarrow> int \<Rightarrow> json" where
  "new_item nid acc chat body quote due now = jobj
     [(''id'', JStr nid), (''accountId'', JInt acc), (''chatId'', JInt chat), (''text'', JStr body),
      (''quoteId'', case quote of None \<Rightarrow> JNull | Some q \<Rightarrow> JInt q), (''dueAt'', JInt due), (''createdAt'', JInt now),
      (''status'', JStr ''pending''), (''error'', JNull), (''attempts'', JInt 0), (''retryAt'', JNull),
      (''claimedAt'', JNull), (''uncertain'', JBool False)]"

definition op_add :: "json \<Rightarrow> json \<Rightarrow> int \<Rightarrow> string \<Rightarrow> json \<times> json" where
  "op_add doc op now nid =
     (let src = jget op ''item''; body = str_or (jget src ''text'') [] in
      case (num (jget src ''dueAt''), num (jget src ''accountId''), num (jget src ''chatId'')) of
        (Some due, Some acc, Some chat) \<Rightarrow>
          if \<not> valid_text body \<or> due \<le> 0 then (doc, jobj [(''error'', JStr ''empty or too long'')])
          else (put_items (items doc @ [new_item nid acc chat body (num (jget src ''quoteId'')) due now]) (items_mut doc),
                jobj [(''id'', JStr nid)])
      | _ \<Rightarrow> (doc, jobj [(''error'', JStr ''bad item'')]))"

text \<open>An update that is refused because of its time keeps the text it already replaced.\<close>

definition rearmed :: "json \<Rightarrow> json" where
  "rearmed it = jset (jset (jset (jset it ''status'' (JStr ''pending'')) ''error'' JNull) ''retryAt'' JNull) ''uncertain'' (JBool False)"

definition update_item :: "json \<Rightarrow> json \<Rightarrow> json \<times> bool" where
  "update_item op it =
     (if item_status it = ''sending'' then (it, False)
      else
        let (it1, ok) = (case as_str (jget op ''text'') of
              None \<Rightarrow> (it, True)
            | Some t \<Rightarrow> if valid_text t then (jset it ''text'' (JStr t), True) else (it, False))
        in if \<not> ok then (it1, False)
           else if jget op ''dueAt'' = JNull then (rearmed it1, True)
           else (case num (jget op ''dueAt'') of
                   Some d \<Rightarrow> if d > 0 then (rearmed (jset it1 ''dueAt'' (JInt d)), True) else (it1, False)
                 | None \<Rightarrow> (it1, False)))"

definition claim_item :: "int \<Rightarrow> json \<Rightarrow> json \<times> bool" where
  "claim_item now it =
     (if item_status it = ''sending'' \<or> uncertain it then (it, False)
      else (jset (jset it ''status'' (JStr ''sending'')) ''claimedAt'' (JInt now), True))"

definition fail_item :: "json \<Rightarrow> int \<Rightarrow> json \<Rightarrow> json" where
  "fail_item op now it =
     (let unc = bool_or (jget op ''uncertain'') False;
          err = concat (take 300 (chars (str_or (jget op ''error'') ''Send failed'')));
          attempts = wrap64 (i64_or (jget it ''attempts'') 0 + 1)
      in jset (jset (jset (jset (jset (jset it ''attempts'' (JInt attempts)) ''status'' (JStr ''error'')) ''error'' (JStr err))
            ''claimedAt'' JNull) ''uncertain'' (JBool unc))
           ''retryAt'' (if unc then JNull else JInt (wrap64 (now + backoff_ms attempts))))"

definition stale :: "int \<Rightarrow> json \<Rightarrow> bool" where
  "stale now it \<longleftrightarrow> item_status it = ''sending'' \<and> wrap64 (now - i64_or (jget it ''claimedAt'') 0) \<ge> STALE_SENDING_MS"

definition recover_item :: "json \<Rightarrow> json" where
  "recover_item it =
     jset (jset (jset (jset (jset it ''status'' (JStr ''error''))
       ''error'' (JStr (''Interrupted while sending '' @ [CHR 0xE2, CHR 0x80, CHR 0x94] @ '' check the chat before sending again'')))
       ''uncertain'' (JBool True)) ''retryAt'' JNull) ''claimedAt'' JNull"

definition drop_nth :: "nat \<Rightarrow> 'a list \<Rightarrow> 'a list" where
  "drop_nth k xs = take k xs @ drop (Suc k) xs"

definition apply_op :: "json \<Rightarrow> json \<Rightarrow> int \<Rightarrow> string \<Rightarrow> json \<times> json" where
  "apply_op doc op now nid =
     (let kind = str_or (jget op ''op'') []; i = str_or (jget op ''id'') [];
          on_item = (\<lambda>f. case find_item i doc of None \<Rightarrow> (items_mut doc, JBool False) | Some k \<Rightarrow> f k (items doc ! k))
      in
      if kind = ''list'' then (doc, JBool True)
      else if kind = ''add'' then op_add doc op now nid
      else if kind = ''update'' then on_item (\<lambda>k it.
        let (it', ok) = update_item op it in (put_items ((items doc)[k := it']) doc, JBool ok))
      else if kind = ''remove'' then on_item (\<lambda>k it.
        if item_status it = ''sending'' then (doc, JBool False) else (put_items (drop_nth k (items doc)) doc, JBool True))
      else if kind = ''claim'' then on_item (\<lambda>k it.
        let (it', ok) = claim_item now it in (put_items ((items doc)[k := it']) doc, JBool ok))
      else if kind = ''done'' then on_item (\<lambda>k it. (put_items (drop_nth k (items doc)) doc, JBool True))
      else if kind = ''fail'' then on_item (\<lambda>k it. (put_items ((items doc)[k := fail_item op now it]) doc, JBool True))
      else if kind = ''recover'' then
        (put_items (map (\<lambda>it. if stale now it then recover_item it else it) (items doc)) (items_mut doc),
         JInt (int (length (filter (stale now) (items doc)))))
      else (doc, JBool False))"

subsection \<open>Queries\<close>

definition item_due :: "int \<Rightarrow> bool \<Rightarrow> json \<Rightarrow> bool" where
  "item_due now wake it \<longleftrightarrow> i64_or (jget it ''dueAt'') i64_max \<le> now
     \<and> (item_status it = ''pending'' \<or> item_status it = ''error'' \<and> \<not> uncertain it \<and> (wake \<or> i64_or (jget it ''retryAt'') 0 \<le> now))"

definition due_key :: "json \<Rightarrow> int \<times> int" where
  "due_key it = (i64_or (jget it ''dueAt'') 0, i64_or (jget it ''createdAt'') 0)"

definition due :: "json \<Rightarrow> int \<Rightarrow> bool \<Rightarrow> json list" where
  "due doc now wake = sort_key due_key (filter (item_due now wake) (items doc))"

definition wake_at :: "json \<Rightarrow> int option" where
  "wake_at it = (case as_i64 (jget it ''dueAt'') of
     None \<Rightarrow> None
   | Some d \<Rightarrow>
       if item_status it = ''pending'' then Some d
       else if item_status it = ''error'' \<and> \<not> uncertain it then Some (max d (i64_or (jget it ''retryAt'') d))
       else None)"

definition next_wake :: "json \<Rightarrow> int option" where
  "next_wake doc = (case List.map_filter wake_at (items doc) of [] \<Rightarrow> None | x # xs \<Rightarrow> Some (foldl min x xs))"

definition send_params :: "json \<Rightarrow> json" where
  "send_params it = JArr [jget it ''accountId'', jget it ''chatId'',
     jobj [(''text'', jget it ''text''), (''quotedMessageId'', jget it ''quoteId''), (''quoted_message_id'', jget it ''quoteId'')]]"

fun contains_str :: "string \<Rightarrow> string \<Rightarrow> bool" where
  "contains_str p [] = (p = [])"
| "contains_str p (c # cs) = (take (length p) (c # cs) = p \<or> contains_str p cs)"

definition is_uncertain_error :: "string \<Rightarrow> bool" where
  "is_uncertain_error e = list_ex (\<lambda>k. contains_str k (map ascii_lower e))
     [''timed out'', ''timeout'', ''dropped'', ''closed'', ''restart'', ''not running'', ''disconnect'']"

subsection \<open>The file\<close>

definition read_doc :: "json option \<Rightarrow> json" where
  "read_doc file = (case file of None \<Rightarrow> empty_doc | Some d \<Rightarrow> normalize d)"

text \<open>One operation under the file lock; \<open>ok\<close> tells whether the write succeeds.\<close>

definition op_at :: "json \<Rightarrow> int \<Rightarrow> string \<Rightarrow> bool \<Rightarrow> json option \<Rightarrow> json option \<times> (unit + json \<times> json)" where
  "op_at op now nid ok file =
     (let (doc, r) = apply_op (read_doc file) op now nid in
      if as_str (jget op ''op'') = Some ''list'' then (file, Inr (doc, r))
      else if ok then (Some doc, Inr (doc, r)) else (file, Inl ()))"

subsection \<open>Sending what is due\<close>

text \<open>
  \<open>run_due\<close> between two of its awaits: not running, about to look at the next item of its list, or waiting for the
  core's answer to \<open>send_msg\<close>. The log records the calls of \<open>send_msg\<close>, the sends the core refused for certain, and
  the items the user edited.
\<close>

datatype runner = Idle | Looping "json list" | InFlight string "json list"

datatype sched_event = Sent string json | Refused string | Edited string

record sched =
  sc_file :: "json option"
  sc_run :: runner
  sc_log :: "sched_event list"

abbreviation ids_of :: "json option \<Rightarrow> string option list" where
  "ids_of file \<equiv> map item_id (items (read_doc file))"

fun event_id :: "sched_event \<Rightarrow> string" where
  "event_id (Sent i p) = i" | "event_id (Refused i) = i" | "event_id (Edited i) = i"

definition plain_op :: "string \<Rightarrow> string \<Rightarrow> json" where
  "plain_op kind i = jobj [(''op'', JStr kind), (''id'', JStr i)]"

definition fail_op :: "string \<Rightarrow> string \<Rightarrow> json" where
  "fail_op i err = jobj [(''op'', JStr ''fail''), (''id'', JStr i), (''error'', JStr err), (''uncertain'', JBool (is_uncertain_error err))]"

definition run_start :: "int \<Rightarrow> int \<Rightarrow> bool \<Rightarrow> bool \<Rightarrow> sched \<Rightarrow> sched" where
  "run_start now now' wake ok s =
     (case op_at (jobj [(''op'', JStr ''recover'')]) now [] ok (sc_file s) of
        (f, Inl _) \<Rightarrow> s\<lparr>sc_file := f, sc_run := Idle\<rparr>
      | (f, Inr (doc, _)) \<Rightarrow> s\<lparr>sc_file := f, sc_run := Looping (due doc now' wake)\<rparr>)"

definition run_claim :: "json \<Rightarrow> json list \<Rightarrow> int \<Rightarrow> bool \<Rightarrow> sched \<Rightarrow> sched" where
  "run_claim it rest now ok s =
     (let i = str_or (jget it ''id'') [] in
      case op_at (plain_op ''claim'' i) now [] ok (sc_file s) of
        (f, Inl _) \<Rightarrow> s\<lparr>sc_file := f, sc_run := Idle\<rparr>
      | (f, Inr (_, won)) \<Rightarrow>
          if won \<noteq> JBool True then s\<lparr>sc_file := f, sc_run := Looping rest\<rparr>
          else s\<lparr>sc_file := f, sc_run := InFlight i rest, sc_log := sc_log s @ [Sent i (send_params it)]\<rparr>)"

definition run_sent :: "string \<Rightarrow> json list \<Rightarrow> int \<Rightarrow> bool \<Rightarrow> sched \<Rightarrow> sched" where
  "run_sent i rest now ok s =
     (case op_at (plain_op ''done'' i) now [] ok (sc_file s) of
        (f, Inl _) \<Rightarrow> s\<lparr>sc_file := f, sc_run := Idle\<rparr>
      | (f, Inr _) \<Rightarrow> s\<lparr>sc_file := f, sc_run := Looping rest\<rparr>)"

definition run_failed :: "string \<Rightarrow> json list \<Rightarrow> string \<Rightarrow> int \<Rightarrow> bool \<Rightarrow> sched \<Rightarrow> sched" where
  "run_failed i rest err now ok s =
     (case op_at (fail_op i err) now [] ok (sc_file s) of
        (f, Inl _) \<Rightarrow> s\<lparr>sc_file := f, sc_run := Idle\<rparr>
      | (f, Inr _) \<Rightarrow> s\<lparr>sc_file := f, sc_run := Looping rest, sc_log := sc_log s @ (if is_uncertain_error err then [] else [Refused i])\<rparr>)"

text \<open>An operation of the page (on Android the page edits; sending is the loop's).\<close>

definition page_kinds :: "string list" where
  "page_kinds = [''list'', ''add'', ''update'', ''remove'', ''recover'']"

definition page_op :: "json \<Rightarrow> int \<Rightarrow> string \<Rightarrow> bool \<Rightarrow> sched \<Rightarrow> sched" where
  "page_op op now nid ok s =
     (case op_at op now nid ok (sc_file s) of
        (f, Inl _) \<Rightarrow> s\<lparr>sc_file := f\<rparr>
      | (f, Inr (_, r)) \<Rightarrow> s\<lparr>sc_file := f, sc_log := sc_log s
          @ (if str_or (jget op ''op'') [] = ''update'' \<and> r = JBool True then [Edited (str_or (jget op ''id'') [])] else [])\<rparr>)"

inductive sched_step :: "sched \<Rightarrow> sched \<Rightarrow> bool" where
  step_page: "str_or (jget op ''op'') [] \<in> set page_kinds \<Longrightarrow> Some nid \<notin> set (ids_of (sc_file s)) \<Longrightarrow> nid \<notin> event_id ` set (sc_log s)
     \<Longrightarrow> sched_step s (page_op op now nid ok s)"
| step_start: "sc_run s = Idle \<Longrightarrow> sched_step s (run_start now now' wake ok s)"
| step_claim: "sc_run s = Looping (it # rest) \<Longrightarrow> sched_step s (run_claim it rest now ok s)"
| step_sent: "sc_run s = InFlight i rest \<Longrightarrow> sched_step s (run_sent i rest now ok s)"
| step_failed: "sc_run s = InFlight i rest \<Longrightarrow> sched_step s (run_failed i rest err now ok s)"
| step_end: "sc_run s = Looping [] \<Longrightarrow> sched_step s (s\<lparr>sc_run := Idle\<rparr>)"
| step_crash: "sched_step s (s\<lparr>sc_run := Idle\<rparr>)"

subsection \<open>Items of a document\<close>

lemma items_normalize [simp]: "items (normalize doc) = filter (\<lambda>it. is_str (jget it ''id'')) (items doc)"
  by (simp add: normalize_def items_def empty_doc_def split: option.splits)

lemma items_empty [simp]: "items empty_doc = []"
  by (simp add: items_def empty_doc_def)

lemma read_ids: "it \<in> set (items (read_doc f)) \<Longrightarrow> is_str (jget it ''id'')"
  by (auto simp: read_doc_def split: option.splits)

lemma read_is_doc [simp]: "is_obj (read_doc f)" "items_mut (read_doc f) = read_doc f"
  by (simp_all add: read_doc_def normalize_def empty_doc_def items_mut_def split: option.splits)

lemma items_put [simp]: "is_obj doc \<Longrightarrow> items (put_items xs doc) = xs"
  by (simp add: items_def put_items_def)

lemma position_Some: "position P xs = Some k \<Longrightarrow> k < length xs \<and> P (xs ! k)"
  by (induction xs arbitrary: k) (auto split: if_splits)

lemma find_item_Some: "find_item i doc = Some k \<Longrightarrow> k < length (items doc) \<and> item_id (items doc ! k) = Some i"
  using position_Some [of "\<lambda>it. item_id it = Some i"] by (simp add: find_item_def)

lemma set_drop_nth: "set (drop_nth k xs) \<subseteq> set xs"
  by (auto simp: drop_nth_def dest: in_set_takeD in_set_dropD)

lemma drop_nth_map: "map f (drop_nth k xs) = drop_nth k (map f xs)"
  by (simp add: drop_nth_def take_map drop_map)

lemma distinct_drop_nth: "distinct xs \<Longrightarrow> distinct (drop_nth k xs)"
  unfolding drop_nth_def
  by (metis append_take_drop_id distinct_append distinct_drop distinct_take set_drop_subset_set_drop set_take_disj_set_drop_if_distinct
      Suc_n_not_le_n nat_le_linear disjoint_iff subsetD)

subsection \<open>At most once\<close>

text \<open>A call of \<open>send_msg\<close> for an item that was not refused and not edited since: the core may have sent it.\<close>

definition open_send :: "string \<Rightarrow> sched_event list \<Rightarrow> bool" where
  "open_send i evs \<longleftrightarrow> (\<exists>a p b. evs = a @ Sent i p # b \<and> Refused i \<notin> set b \<and> Edited i \<notin> set b)"

lemma open_send_Nil [simp]: "\<not> open_send i []"
  by (simp add: open_send_def)

lemma open_send_snoc [simp]:
  "open_send i (evs @ [ev]) \<longleftrightarrow> (case ev of Sent j p \<Rightarrow> i = j \<or> open_send i evs | Refused j \<Rightarrow> i \<noteq> j \<and> open_send i evs | Edited j \<Rightarrow> i \<noteq> j \<and> open_send i evs)"
proof
  assume "open_send i (evs @ [ev])"
  then obtain a p b where l: "evs @ [ev] = a @ Sent i p # b" "Refused i \<notin> set b" "Edited i \<notin> set b" by (auto simp: open_send_def)
  show "case ev of Sent j p \<Rightarrow> i = j \<or> open_send i evs | Refused j \<Rightarrow> i \<noteq> j \<and> open_send i evs | Edited j \<Rightarrow> i \<noteq> j \<and> open_send i evs"
    using l by (cases b rule: rev_cases) (auto simp: open_send_def split: sched_event.splits)
next
  assume r: "case ev of Sent j p \<Rightarrow> i = j \<or> open_send i evs | Refused j \<Rightarrow> i \<noteq> j \<and> open_send i evs | Edited j \<Rightarrow> i \<noteq> j \<and> open_send i evs"
  have "open_send i (evs @ [ev])" if "open_send i evs" "ev \<noteq> Refused i" "ev \<noteq> Edited i"
    using that unfolding open_send_def by (metis append_Cons append_assoc in_set_conv_decomp_first rotate1.simps(2) set_ConsD set_rotate1)
  moreover have "open_send i (evs @ [Sent i p])" for p
    unfolding open_send_def by (intro exI [of _ evs] exI [of _ p] exI [of _ "[]"]) simp
  ultimately show "open_send i (evs @ [ev])" using r by (auto split: sched_event.splits)
qed

lemma open_send_id: "open_send i evs \<Longrightarrow> i \<in> event_id ` set evs"
  by (force simp: open_send_def)

definition blocked :: "json \<Rightarrow> bool" where
  "blocked it \<longleftrightarrow> item_status it = ''sending'' \<or> uncertain it"

text \<open>The items have distinct ids, and what may have been sent is not up for sending.\<close>

definition guarded :: "sched_event list \<Rightarrow> json list \<Rightarrow> bool" where
  "guarded evs xs \<longleftrightarrow> distinct (map item_id xs) \<and> (\<forall>it\<in>set xs. is_str (jget it ''id''))
     \<and> (\<forall>it\<in>set xs. \<forall>i. item_id it = Some i \<and> open_send i evs \<longrightarrow> blocked it)"

lemma guarded_read: "guarded evs xs \<Longrightarrow> filter (\<lambda>it. is_str (jget it ''id'')) xs = xs"
  by (auto simp: guarded_def intro: filter_True)

lemma guarded_subset:
  assumes "guarded evs xs" "set ys \<subseteq> set xs" "distinct (map item_id ys)"
  shows "guarded evs ys"
  using assms unfolding guarded_def by blast

lemma guarded_drop: "guarded evs xs \<Longrightarrow> guarded evs (drop_nth k xs)"
  by (rule guarded_subset) (auto simp: drop_nth_map distinct_drop_nth guarded_def dest: subsetD [OF set_drop_nth])

lemma guarded_add:
  assumes "guarded evs xs" "Some nid \<notin> set (map item_id xs)" "nid \<notin> event_id ` set evs"
  shows "guarded evs (xs @ [new_item nid acc chat body quote d now])"
proof -
  have "item_id (new_item nid acc chat body quote d now) = Some nid" "is_str (jget (new_item nid acc chat body quote d now) ''id'')"
    by (simp_all add: item_id_def new_item_def)
  then show ?thesis using assms open_send_id [of nid evs] by (auto simp: guarded_def)
qed

lemma guarded_upd:
  assumes "guarded evs xs" "k < length xs" "jget it' ''id'' = jget (xs ! k) ''id''"
    and "\<And>i. item_id (xs ! k) = Some i \<Longrightarrow> open_send i evs' \<Longrightarrow> blocked it'"
    and "\<And>j. open_send j evs' \<Longrightarrow> item_id (xs ! k) \<noteq> Some j \<Longrightarrow> open_send j evs"
  shows "guarded evs' (xs[k := it'])"
proof -
  have ids: "item_id it' = item_id (xs ! k)" using assms(3) by (simp add: item_id_def)
  have "map item_id (xs[k := it']) = map item_id xs"
    using assms(2) by (simp add: map_update ids list_update_same_conv)
  moreover have "is_str (jget it ''id'')" if "it \<in> set (xs[k := it'])" for it
    using that assms(1,2,3) set_update_subset_insert [of xs k it'] by (auto simp: guarded_def)
  moreover have "blocked it" if new: "it \<in> set (xs[k := it'])" "item_id it = Some i" "open_send i evs'" for it i
  proof (cases "it = it'")
    case True
    then show ?thesis using assms(4) new ids by simp
  next
    case False
    then obtain j where j: "j < length xs" "j \<noteq> k" "it = xs ! j"
      using new by (metis in_set_conv_nth length_list_update nth_list_update_eq nth_list_update_neq)
    then have "item_id (xs ! k) \<noteq> Some i"
      using assms(1,2) new(2) by (metis distinct_conv_nth guarded_def length_map nth_map)
    then show ?thesis using assms(1,5) new j by (auto simp: guarded_def)
  qed
  ultimately show ?thesis using assms(1) by (simp add: guarded_def)
qed

lemma guarded_map:
  assumes "guarded evs xs" "\<And>it. it \<in> set xs \<Longrightarrow> jget (f it) ''id'' = jget it ''id'' \<and> (blocked it \<longrightarrow> blocked (f it))"
  shows "guarded evs (map f xs)"
proof -
  have "map item_id (map f xs) = map item_id xs" using assms(2) by (simp add: item_id_def)
  moreover have "item_id (f it) = item_id it" if "it \<in> set xs" for it using assms(2) that by (simp add: item_id_def)
  ultimately show ?thesis using assms unfolding guarded_def by (metis (no_types, lifting) imageE set_map)
qed

text \<open>What the operations do to an item.\<close>

lemma item_obj: "guarded evs xs \<Longrightarrow> it \<in> set xs \<Longrightarrow> is_obj it"
  by (auto simp: guarded_def intro: is_str_obj)

lemma update_item_effect:
  assumes "is_obj it"
  shows "jget (fst (update_item op it)) ''id'' = jget it ''id''" "snd (update_item op it) \<or> blocked (fst (update_item op it)) = blocked it"
  using assms by (auto simp: update_item_def rearmed_def Let_def blocked_def item_status_def uncertain_def split: option.splits)

lemma claim_item_effect:
  assumes "is_obj it"
  shows "jget (fst (claim_item now it)) ''id'' = jget it ''id''" "snd (claim_item now it) \<longleftrightarrow> \<not> blocked it" "blocked (fst (claim_item now it))"
  using assms by (auto simp: claim_item_def blocked_def item_status_def)

lemma fail_item_effect:
  assumes "is_obj it"
  shows "jget (fail_item op now it) ''id'' = jget it ''id''" "blocked (fail_item op now it) = bool_or (jget op ''uncertain'') False"
  using assms by (simp_all add: fail_item_def blocked_def item_status_def uncertain_def Let_def)

lemma recover_item_effect:
  assumes "is_obj it"
  shows "jget (recover_item it) ''id'' = jget it ''id''" "blocked (recover_item it)"
  using assms by (simp_all add: recover_item_def blocked_def uncertain_def)

text \<open>What an operation leaves on disk, given what it makes of the items.\<close>

lemma op_at_items:
  assumes "guarded evs (items (read_doc f))"
    and "guarded evs' (items (fst (apply_op (read_doc f) op now nid)))"
    and "op_at op now nid ok f = (f', Inr (doc, r))"
  shows "as_str (jget op ''op'') = Some ''list'' \<and> f' = f \<or> guarded evs' (items (read_doc f'))"
  using assms guarded_read [OF assms(2)] by (auto simp: op_at_def Let_def read_doc_def split: prod.splits if_splits)

lemma op_at_Inl: "op_at op now nid ok f = (f', Inl u) \<Longrightarrow> f' = f"
  by (auto simp: op_at_def Let_def split: prod.splits if_splits)

lemma op_at_Inr: "op_at op now nid ok f = (f', Inr (doc, r)) \<Longrightarrow> (doc, r) = apply_op (read_doc f) op now nid"
  by (auto simp: op_at_def Let_def split: prod.splits if_splits)

lemmas found = find_item_Some nth_mem item_obj

lemma recover_guarded:
  "guarded evs (items (read_doc f)) \<Longrightarrow> str_or (jget op ''op'') [] = ''recover'' \<Longrightarrow>
   guarded evs (items (fst (apply_op (read_doc f) op now nid)))"
  using recover_item_effect item_obj by (auto simp: apply_op_def Let_def intro!: guarded_map)

lemma page_guarded:
  assumes "guarded evs (items (read_doc f))" "str_or (jget op ''op'') [] \<in> set page_kinds"
    and "Some nid \<notin> set (ids_of f)" "nid \<notin> event_id ` set evs"
  shows "guarded (evs @ (if str_or (jget op ''op'') [] = ''update'' \<and> snd (apply_op (read_doc f) op now nid) = JBool True
      then [Edited (str_or (jget op ''id'') [])] else [])) (items (fst (apply_op (read_doc f) op now nid)))"
proof -
  let ?xs = "items (read_doc f)" and ?i = "str_or (jget op ''id'') []"
  consider "str_or (jget op ''op'') [] = ''list''" | "str_or (jget op ''op'') [] = ''add''" | "str_or (jget op ''op'') [] = ''update''"
    | "str_or (jget op ''op'') [] = ''remove''" | "str_or (jget op ''op'') [] = ''recover''"
    using assms(2) by (auto simp: page_kinds_def)
  then show ?thesis
  proof cases
    case 2
    then show ?thesis using assms by (auto simp: apply_op_def op_add_def Let_def guarded_add split: option.splits)
  next
    case 3
    show ?thesis
    proof (cases "find_item ?i (read_doc f)")
      case (Some k)
      note k = find_item_Some [OF Some]
      have ob: "is_obj (?xs ! k)" using k assms(1) by (auto intro: item_obj)
      have "guarded (evs @ (if snd (update_item op (?xs ! k)) then [Edited ?i] else [])) (?xs[k := fst (update_item op (?xs ! k))])"
        by (rule guarded_upd [OF assms(1)])
          (use k update_item_effect [OF ob] assms(1) in \<open>auto simp: guarded_def split: if_splits\<close>)
      then show ?thesis using 3 Some by (simp add: apply_op_def Let_def split_beta)
    qed (use 3 assms(1) in \<open>simp add: apply_op_def Let_def\<close>)
  qed (use assms(1) recover_guarded [OF assms(1), of op] in
      \<open>auto simp: apply_op_def Let_def guarded_drop split: option.splits\<close>)
qed

lemma guarded_mono: "guarded evs xs \<Longrightarrow> (\<And>j. open_send j evs' \<Longrightarrow> open_send j evs) \<Longrightarrow> guarded evs' xs"
  by (auto simp: guarded_def)

lemma op_fields [simp]:
  "jget (plain_op kind i) ''op'' = JStr kind" "jget (plain_op kind i) ''id'' = JStr i"
  "jget (fail_op i err) ''op'' = JStr ''fail''" "jget (fail_op i err) ''id'' = JStr i"
  "jget (fail_op i err) ''uncertain'' = JBool (is_uncertain_error err)"
  by (simp_all add: plain_op_def fail_op_def)

lemma claim_guarded:
  assumes "guarded evs (items (read_doc f))" "apply_op (read_doc f) (plain_op ''claim'' i) now [] = (doc, r)"
  shows "r = JBool True \<Longrightarrow> \<not> open_send i evs \<and> guarded (evs @ [Sent i p]) (items doc)" "guarded evs (items doc)"
proof -
  let ?xs = "items (read_doc f)"
  have "(r = JBool True \<longrightarrow> \<not> open_send i evs \<and> guarded (evs @ [Sent i p]) (items doc)) \<and> guarded evs (items doc)"
  proof (cases "find_item i (read_doc f)")
    case (Some k)
    note k = find_item_Some [OF Some]
    have ob: "is_obj (?xs ! k)" using k assms(1) by (auto intro: item_obj)
    note eff = claim_item_effect [OF ob, of now]
    have "guarded (evs @ [Sent i p]) (?xs[k := fst (claim_item now (?xs ! k))])"
      by (rule guarded_upd [OF assms(1)]) (use k eff in auto)
    moreover have "guarded evs (?xs[k := fst (claim_item now (?xs ! k))])"
      by (rule guarded_upd [OF assms(1)]) (use k eff in auto)
    moreover have "\<not> open_send i evs" if "snd (claim_item now (?xs ! k))"
      using that eff(2) k assms(1) by (auto simp: guarded_def)
    ultimately show ?thesis using Some assms(2) by (auto simp: apply_op_def Let_def split_beta)
  qed (use assms in \<open>auto simp: apply_op_def Let_def\<close>)
  then show "r = JBool True \<Longrightarrow> \<not> open_send i evs \<and> guarded (evs @ [Sent i p]) (items doc)" "guarded evs (items doc)" by auto
qed

lemma done_guarded:
  "guarded evs (items (read_doc f)) \<Longrightarrow> guarded evs (items (fst (apply_op (read_doc f) (plain_op ''done'' i) now [])))"
  by (simp add: apply_op_def Let_def guarded_drop split: option.splits)

lemma fail_guarded:
  assumes "guarded evs (items (read_doc f))"
  shows "guarded (evs @ (if is_uncertain_error err then [] else [Refused i])) (items (fst (apply_op (read_doc f) (fail_op i err) now [])))"
proof (cases "find_item i (read_doc f)")
  case (Some k)
  let ?xs = "items (read_doc f)"
  note k = find_item_Some [OF Some]
  have ob: "is_obj (?xs ! k)" using k assms(1) by (auto intro: item_obj)
  have "guarded (evs @ (if is_uncertain_error err then [] else [Refused i])) (?xs[k := fail_item (fail_op i err) now (?xs ! k)])"
    by (rule guarded_upd [OF assms(1)]) (use k fail_item_effect [OF ob] in \<open>auto split: if_splits\<close>)
  then show ?thesis using Some by (simp add: apply_op_def Let_def)
qed (use assms in \<open>auto simp: apply_op_def Let_def intro: guarded_mono\<close>)

definition once :: "sched_event list \<Rightarrow> bool" where
  "once evs \<longleftrightarrow> (\<forall>a b c i p q. evs = a @ Sent i p # b @ Sent i q # c \<longrightarrow> Refused i \<in> set b \<or> Edited i \<in> set b)"

lemma once_snoc:
  assumes "once evs" "\<And>i p. ev = Sent i p \<Longrightarrow> \<not> open_send i evs"
  shows "once (evs @ [ev])"
  unfolding once_def
proof (intro allI impI)
  fix a b c i p q
  assume l: "evs @ [ev] = a @ Sent i p # b @ Sent i q # c"
  show "Refused i \<in> set b \<or> Edited i \<in> set b"
  proof (cases c rule: rev_cases)
    case Nil
    then have "evs = a @ Sent i p # b" "ev = Sent i q" using l by (simp_all flip: append_Cons append_assoc)
    then show ?thesis using assms(2) by (auto simp: open_send_def)
  next
    case (snoc c' x)
    then have "evs = a @ Sent i p # b @ Sent i q # c'" using l by (simp flip: append_Cons append_assoc)
    with assms(1) show ?thesis unfolding once_def by blast
  qed
qed

definition sched_ok :: "sched \<Rightarrow> bool" where
  "sched_ok s \<longleftrightarrow> guarded (sc_log s) (items (read_doc (sc_file s))) \<and> once (sc_log s)"

lemma sched_step_ok:
  assumes "sched_step s s'" "sched_ok s"
  shows "sched_ok s'"
  using assms
proof (induction rule: sched_step.induct)
  case (step_page op nid s now ok)
  then have g: "guarded (sc_log s) (items (read_doc (sc_file s)))" "once (sc_log s)" by (simp_all add: sched_ok_def)
  note pg = page_guarded [OF g(1) step_page(1,2,3), of now]
  obtain f' res where r: "op_at op now nid ok (sc_file s) = (f', res)" by (meson surj_pair)
  show ?case
  proof (cases res)
    case (Inl u)
    then show ?thesis using r g op_at_Inl [of op now nid ok "sc_file s" f' u] by (simp add: page_op_def sched_ok_def)
  next
    case (Inr dr)
    obtain doc v where dr: "dr = (doc, v)" by (cases dr)
    have a: "(doc, v) = apply_op (read_doc (sc_file s)) op now nid" using op_at_Inr r Inr dr by blast
    have "guarded (sc_log s @ (if str_or (jget op ''op'') [] = ''update'' \<and> v = JBool True then [Edited (str_or (jget op ''id'') [])] else []))
        (items (read_doc f'))"
      using op_at_items [OF g(1) pg, of ok f' doc v] r Inr dr g(1) a [symmetric] by (auto simp: str_or_def)
    then show ?thesis using r Inr dr g(2) by (auto simp: page_op_def sched_ok_def intro!: once_snoc)
  qed
next
  case (step_start s now now' wake ok)
  then show ?case
    using recover_guarded [of "sc_log s" "sc_file s" "jobj [(''op'', JStr ''recover'')]" now "[]"]
    by (auto simp: run_start_def sched_ok_def split: prod.splits sum.splits dest: op_at_Inl op_at_items)
next
  case (step_claim s it rest now ok)
  then have g: "guarded (sc_log s) (items (read_doc (sc_file s)))" "once (sc_log s)" by (simp_all add: sched_ok_def)
  define i where "i = str_or (jget it ''id'') []"
  obtain doc v where a: "apply_op (read_doc (sc_file s)) (plain_op ''claim'' i) now [] = (doc, v)" by (meson surj_pair)
  note cg = claim_guarded [OF g(1) a]
  show ?case
    using g cg(2) cg(1) [of "send_params it"] a guarded_read [OF cg(2)]
    by (auto simp: run_claim_def sched_ok_def op_at_def read_doc_def i_def Let_def split: if_splits intro!: once_snoc)
next
  case (step_sent s i rest now ok)
  then show ?case
    using done_guarded [of "sc_log s" "sc_file s" i now]
    by (auto simp: run_sent_def sched_ok_def split: prod.splits sum.splits dest: op_at_Inl op_at_items)
next
  case (step_failed s i rest err now ok)
  then have g: "guarded (sc_log s) (items (read_doc (sc_file s)))" "once (sc_log s)" by (simp_all add: sched_ok_def)
  note fg = fail_guarded [OF g(1), of err i now]
  show ?case
    using g op_at_items [OF g(1) fg]
    by (auto simp: run_failed_def sched_ok_def split: prod.splits sum.splits dest: op_at_Inl intro!: once_snoc)
qed (simp_all add: sched_ok_def)

text \<open>C10: whatever the user edits, whichever writes fail and wherever the process dies, the send loop never hands an
  item to the core a second time unless the core refused the first attempt for certain or the user edited the item
  in between.\<close>

theorem scheduled_sent_at_most_once:
  assumes "sched_step\<^sup>*\<^sup>* s s'" "distinct (ids_of (sc_file s))" "sc_log s = []"
    and "sc_log s' = a @ Sent i p # b @ Sent i q # c"
  shows "Refused i \<in> set b \<or> Edited i \<in> set b"
proof -
  have "sched_ok s"
    using assms(2,3) read_ids by (auto simp: sched_ok_def guarded_def once_def)
  with assms(1) have "sched_ok s'" by (induction rule: rtranclp_induct) (auto intro: sched_step_ok)
  then show ?thesis using assms(4) unfolding sched_ok_def once_def by blast
qed

definition demo_item :: json where
  "demo_item = new_item ''a'' 1 10 ''hi'' None 5 0"

definition demo_sched :: sched where
  "demo_sched = \<lparr>sc_file = Some (jobj [(''version'', JInt 1), (''items'', JArr [demo_item])]), sc_run = Idle, sc_log = []\<rparr>"

definition demo_start :: sched where
  "demo_start = run_start 9 9 True True demo_sched"

definition demo_refused :: sched where
  "demo_refused = run_failed ''a'' [] ''no chat'' 11 True (run_claim demo_item [] 10 True demo_start)"

definition demo_again :: sched where
  "demo_again = run_start 20 20 True True (demo_refused\<lparr>sc_run := Idle\<rparr>)"

lemma demo_first: "sched_step\<^sup>*\<^sup>* demo_sched demo_start" "sc_run demo_start = Looping [demo_item]"
proof -
  show "sched_step\<^sup>*\<^sup>* demo_sched demo_start"
    unfolding demo_start_def by (rule r_into_rtranclp) (rule step_start, code_simp)
qed code_simp

lemma demo_sends:
  "\<exists>it. sched_step\<^sup>*\<^sup>* demo_sched (run_claim it [] 20 True demo_again)
     \<and> sc_log (run_claim it [] 20 True demo_again) = [Sent ''a'' (send_params demo_item), Refused ''a'', Sent ''a'' (send_params demo_item)]"
proof -
  have "sched_step demo_start (run_claim demo_item [] 10 True demo_start)" by (rule step_claim) (rule demo_first)
  moreover have "sched_step (run_claim demo_item [] 10 True demo_start) demo_refused"
    unfolding demo_refused_def by (rule step_failed) code_simp
  moreover have "sched_step demo_refused (demo_refused\<lparr>sc_run := Idle\<rparr>)" by (rule step_crash)
  moreover have "sched_step (demo_refused\<lparr>sc_run := Idle\<rparr>) demo_again" unfolding demo_again_def by (rule step_start) simp
  ultimately have run: "sched_step\<^sup>*\<^sup>* demo_sched demo_again" using demo_first(1) by (meson rtranclp.rtrancl_into_rtrancl)
  define it where "it = fail_item (fail_op ''a'' ''no chat'') 11 (fst (claim_item 10 demo_item))"
  have "sc_run demo_again = Looping [it]" unfolding it_def by code_simp
  then have "sched_step demo_again (run_claim it [] 20 True demo_again)" by (rule step_claim)
  moreover have "sc_log (run_claim it [] 20 True demo_again) = [Sent ''a'' (send_params demo_item), Refused ''a'', Sent ''a'' (send_params demo_item)]"
    unfolding it_def by code_simp
  ultimately show ?thesis using run by (meson rtranclp.rtrancl_into_rtrancl)
qed

theorem scheduled_sent_at_most_once_witness:
  "\<exists>s' a b c p q. sched_step\<^sup>*\<^sup>* demo_sched s' \<and> sc_log s' = a @ Sent ''a'' p # b @ Sent ''a'' q # c
     \<and> (Refused ''a'' \<in> set b \<or> Edited ''a'' \<in> set b)"
proof -
  obtain s' where run: "sched_step\<^sup>*\<^sup>* demo_sched s'" and evs: "sc_log s' = [] @ Sent ''a'' (send_params demo_item) # [Refused ''a''] @ Sent ''a'' (send_params demo_item) # []"
    using demo_sends by auto
  moreover have "distinct (ids_of (sc_file demo_sched))" "sc_log demo_sched = []" by code_simp+
  ultimately show ?thesis using scheduled_sent_at_most_once [OF run _ _ evs] by blast
qed

text \<open>the loop sends what it read before it started sending. An item that the user edits while an earlier item
  is being sent (the edit is accepted: the item is not claimed yet) is sent with its old text, at once even if it was
  postponed, and then removed.\<close>

theorem accepted_edit_is_not_sent:
  "\<exists>s s' op. sched_step\<^sup>*\<^sup>* demo_sched s \<and> sched_step\<^sup>*\<^sup>* s s'
     \<and> jget (hd (items (read_doc (sc_file s)))) ''text'' = JStr ''new'' \<and> jget (hd (items (read_doc (sc_file s)))) ''dueAt'' = JInt 1000000
     \<and> sc_log s = [Edited ''a''] \<and> sc_log s' = [Edited ''a'', Sent ''a'' (send_params demo_item)] \<and> items (read_doc (sc_file s')) = []"
proof -
  define op where "op = jobj [(''op'', JStr ''update''), (''id'', JStr ''a''), (''text'', JStr ''new''), (''dueAt'', JInt 1000000)]"
  define s where "s = page_op op 10 ''b'' True demo_start"
  define s1 where "s1 = run_claim demo_item [] 11 True s"
  define s' where "s' = run_sent ''a'' [] 12 True s1"
  have "sched_step demo_start s" unfolding s_def op_def by (rule step_page) code_simp+
  then have run: "sched_step\<^sup>*\<^sup>* demo_sched s" using demo_first(1) by (rule rtranclp.rtrancl_into_rtrancl [rotated])
  have "sched_step s s1" unfolding s1_def s_def op_def by (rule step_claim) code_simp
  moreover have "sched_step s1 s'" unfolding s'_def s1_def s_def op_def by (rule step_sent) code_simp
  ultimately have run': "sched_step\<^sup>*\<^sup>* s s'" by simp
  have "jget (hd (items (read_doc (sc_file s)))) ''text'' = JStr ''new''" "jget (hd (items (read_doc (sc_file s)))) ''dueAt'' = JInt 1000000"
    "sc_log s = [Edited ''a'']" "sc_log s' = [Edited ''a'', Sent ''a'' (send_params demo_item)]" "items (read_doc (sc_file s')) = []"
    unfolding s'_def s1_def s_def op_def by code_simp+
  with run run' show ?thesis by blast
qed

subsection \<open>When something is due\<close>

lemma foldl_min: "foldl min (x :: int) xs \<le> t \<longleftrightarrow> (\<exists>y\<in>set (x # xs). y \<le> t)"
  by (induction xs arbitrary: x) (simp_all add: min_le_iff_disj)

lemma next_wake_le: "(\<exists>w. next_wake doc = Some w \<and> w \<le> now) \<longleftrightarrow> (\<exists>it\<in>set (items doc). \<exists>w. wake_at it = Some w \<and> w \<le> now)"
proof -
  have mem: "w \<in> set (List.map_filter wake_at (items doc)) \<longleftrightarrow> (\<exists>it\<in>set (items doc). wake_at it = Some w)" for w
    by (force simp: map_filter_def)
  show ?thesis
  proof (cases "List.map_filter wake_at (items doc)")
    case Nil
    then show ?thesis using mem by (simp add: next_wake_def)
  next
    case (Cons x xs)
    then have "(\<exists>w. next_wake doc = Some w \<and> w \<le> now) \<longleftrightarrow> (\<exists>w\<in>set (List.map_filter wake_at (items doc)). w \<le> now)"
      by (simp only: next_wake_def list.case option.inject foldl_min simp_thms ex_simps)
    then show ?thesis using mem by blast
  qed
qed

lemma item_due_iff: "0 \<le> now \<Longrightarrow> now < i64_max \<Longrightarrow> item_due now False it \<longleftrightarrow> (\<exists>w. wake_at it = Some w \<and> w \<le> now)"
  by (auto simp: item_due_def wake_at_def i64_or_def split: option.splits)

text \<open>\<open>next_wake\<close> is the first instant at which something is due: at any time, an item is due (the retry delays
  of failed items counted) exactly if the next wake-up is not in the future. The items due are exactly the eligible
  ones, the oldest first.\<close>

theorem next_wake_is_first_due:
  assumes "0 \<le> now" "now < i64_max"
  shows "(due doc now False \<noteq> [] \<longleftrightarrow> (\<exists>w. next_wake doc = Some w \<and> w \<le> now))
    \<and> mset (due doc now wake) = mset (filter (item_due now wake) (items doc)) \<and> sorted (map due_key (due doc now wake))"
proof -
  have "due doc now False \<noteq> [] \<longleftrightarrow> (\<exists>it\<in>set (items doc). item_due now False it)"
    by (auto simp: due_def filter_empty_conv simp flip: set_empty)
  then have "due doc now False \<noteq> [] \<longleftrightarrow> (\<exists>w. next_wake doc = Some w \<and> w \<le> now)"
    unfolding next_wake_le using item_due_iff [OF assms] by simp
  then show ?thesis by (simp add: due_def)
qed

theorem next_wake_is_first_due_witness:
  "due (read_doc (sc_file demo_sched)) 7 False \<noteq> [] \<longleftrightarrow> (\<exists>w. next_wake (read_doc (sc_file demo_sched)) = Some w \<and> w \<le> 7)"
  using next_wake_is_first_due [of 7 "read_doc (sc_file demo_sched)" False] by simp

subsection \<open>Typed documents\<close>

definition is_i64 :: "json \<Rightarrow> bool" where
  "is_i64 j \<longleftrightarrow> (\<exists>n. j = JInt n \<and> i64_min \<le> n \<and> n \<le> i64_max)"

text \<open>The fields of an item and how they go together: only a claimed item has a claim time, only a failed one is
  uncertain, and a failed item that is certain has a time for its retry.\<close>

definition data_ok :: "json \<Rightarrow> json \<Rightarrow> json \<Rightarrow> json \<Rightarrow> json \<Rightarrow> json \<Rightarrow> json \<Rightarrow> bool" where
  "data_ok i acc chat body quote d created \<longleftrightarrow> is_str i \<and> is_i64 acc \<and> is_i64 chat \<and> (\<exists>t. body = JStr t \<and> valid_text t)
     \<and> (quote = JNull \<or> is_i64 quote) \<and> is_i64 d \<and> i64_or d 0 > 0 \<and> is_i64 created"

definition state_ok :: "json \<Rightarrow> json \<Rightarrow> json \<Rightarrow> json \<Rightarrow> json \<Rightarrow> json \<Rightarrow> bool" where
  "state_ok st err attempts retry claimed unc \<longleftrightarrow> is_i64 attempts \<and> (err = JNull \<or> is_str err) \<and> (retry = JNull \<or> is_i64 retry)
     \<and> (\<exists>b. unc = JBool b \<and> (b \<longrightarrow> st = JStr ''error'')
        \<and> (if st = JStr ''sending'' then is_i64 claimed
           else claimed = JNull \<and> (st = JStr ''pending'' \<and> retry = JNull \<and> err = JNull \<or> st = JStr ''error'' \<and> (b \<longleftrightarrow> retry = JNull))))"

definition item_ok :: "json \<Rightarrow> bool" where
  "item_ok it \<longleftrightarrow> is_obj it
     \<and> data_ok (jget it ''id'') (jget it ''accountId'') (jget it ''chatId'') (jget it ''text'') (jget it ''quoteId'') (jget it ''dueAt'') (jget it ''createdAt'')
     \<and> state_ok (jget it ''status'') (jget it ''error'') (jget it ''attempts'') (jget it ''retryAt'') (jget it ''claimedAt'') (jget it ''uncertain'')"

definition doc_ok :: "json \<Rightarrow> bool" where
  "doc_ok doc \<longleftrightarrow> is_obj doc \<and> (\<exists>xs. jget doc ''items'' = JArr xs \<and> list_all item_ok xs)"

lemma num_i64: "num v = Some n \<Longrightarrow> i64_min \<le> n \<and> n \<le> i64_max"
  by (cases v) (auto simp: num_def as_f64_round_def sat_i64_def split: if_splits)

lemma doc_ok_items: "doc_ok doc \<Longrightarrow> list_all item_ok (items doc)" "doc_ok doc \<Longrightarrow> is_obj doc" "doc_ok doc \<Longrightarrow> items_mut doc = doc"
  by (auto simp: doc_ok_def items_def items_mut_def)

lemma doc_ok_put: "is_obj doc \<Longrightarrow> list_all item_ok xs \<Longrightarrow> doc_ok (put_items xs doc)"
  by (simp add: doc_ok_def put_items_def)

lemma item_ok_new:
  assumes "valid_text body" "0 < d" "d \<le> i64_max" "is_i64 (JInt acc)" "is_i64 (JInt chat)" "is_i64 (JInt now)" "\<And>q. quote = Some q \<Longrightarrow> is_i64 (JInt q)"
  shows "item_ok (new_item nid acc chat body quote d now)"
proof -
  let ?q = "case quote of None \<Rightarrow> JNull | Some q \<Rightarrow> JInt q"
  have "data_ok (JStr nid) (JInt acc) (JInt chat) (JStr body) ?q (JInt d) (JInt now)"
    using assms by (auto simp: data_ok_def is_i64_def split: option.splits)
  moreover have "state_ok (JStr ''pending'') JNull (JInt 0) JNull JNull (JBool False)" by (auto simp: state_ok_def is_i64_def)
  ultimately show ?thesis by (simp add: item_ok_def new_item_def)
qed

lemma sending_iff: "item_status it = ''sending'' \<longleftrightarrow> jget it ''status'' = JStr ''sending''"
  by (cases "jget it ''status''") (auto simp: item_status_def str_or_def)

lemma item_ok_body: "item_ok it \<Longrightarrow> valid_text t \<Longrightarrow> item_ok (jset it ''text'' (JStr t))"
  by (simp add: item_ok_def) (simp add: data_ok_def)

lemma item_ok_date: "item_ok it \<Longrightarrow> num v = Some d \<Longrightarrow> d > 0 \<Longrightarrow> item_ok (jset it ''dueAt'' (JInt d))"
  by (drule num_i64) (simp add: item_ok_def, simp add: data_ok_def is_i64_def)

lemma item_ok_rearmed: "item_ok it \<Longrightarrow> item_status it \<noteq> ''sending'' \<Longrightarrow> item_ok (rearmed it)"
  unfolding sending_iff by (simp add: item_ok_def rearmed_def) (auto simp: state_ok_def)

lemma item_ok_update:
  assumes "item_ok it"
  shows "item_ok (fst (update_item op it))"
proof -
  have st: "is_obj x \<Longrightarrow> item_status (jset x ''dueAt'' v) = item_status x" "is_obj x \<Longrightarrow> item_status (jset x ''text'' v) = item_status x" for x v
    by (simp_all add: item_status_def)
  have "is_obj it" using assms by (simp add: item_ok_def)
  with assms show ?thesis
    using st item_ok_body item_ok_date item_ok_rearmed by (simp add: update_item_def Let_def split: option.splits)
qed

lemma item_ok_claim: "item_ok it \<Longrightarrow> is_i64 (JInt now) \<Longrightarrow> item_ok (fst (claim_item now it))"
proof -
  assume ok: "item_ok it" "is_i64 (JInt now)"
  then have "\<not> uncertain it \<Longrightarrow> jget it ''uncertain'' = JBool False" by (auto simp: item_ok_def state_ok_def uncertain_def)
  with ok show ?thesis by (simp add: claim_item_def item_ok_def) (auto simp: state_ok_def)
qed

lemma item_ok_fail: "item_ok it \<Longrightarrow> item_ok (fail_item op now it)"
  by (simp add: item_ok_def fail_item_def Let_def) (auto simp: state_ok_def is_i64_def)

lemma item_ok_recover: "item_ok it \<Longrightarrow> item_ok (recover_item it)"
  by (simp add: item_ok_def recover_item_def) (auto simp: state_ok_def)

lemma list_all_upd: "list_all P xs \<Longrightarrow> P y \<Longrightarrow> list_all P (xs[k := y])"
  by (simp add: list_all_iff) (metis insertE set_update_subset_insert subsetD)

lemma list_all_drop_nth: "list_all P xs \<Longrightarrow> list_all P (drop_nth k xs)"
  using set_drop_nth by (force simp: list_all_iff)

text \<open>C36: every operation, whatever JSON it carries, keeps a document well typed: each item has an id, a text and times
  of the right kinds, and its state, claim time, retry time and uncertainty fit together.\<close>

theorem apply_op_typed:
  assumes "doc_ok doc" "i64_min \<le> now" "now \<le> i64_max"
  shows "doc_ok (fst (apply_op doc op now nid))"
proof -
  note ok = doc_ok_items [OF assms(1)]
  have now: "is_i64 (JInt now)" using assms by (simp add: is_i64_def)
  have it: "item_ok (items doc ! k)" if "find_item i doc = Some k" for i k
    using find_item_Some [OF that] ok(1) by (simp add: list_all_length)
  have "doc_ok (fst (op_add doc op now nid))"
    using assms(1) ok now num_i64
    by (auto simp: op_add_def Let_def is_i64_def split: option.splits intro!: doc_ok_put item_ok_new)
  moreover have "list_all item_ok (map (\<lambda>it. if stale now it then recover_item it else it) (items doc))"
    using ok(1) item_ok_recover by (auto simp: list_all_iff)
  ultimately show ?thesis
    using assms(1) ok it now
    by (auto simp: apply_op_def Let_def split_beta split: option.splits
        intro!: doc_ok_put list_all_upd list_all_drop_nth item_ok_update item_ok_claim item_ok_fail)
qed

theorem apply_op_typed_witness: "doc_ok (fst (apply_op empty_doc (jobj [(''op'', JStr ''recover'')]) 5 ''x''))"
  by (rule apply_op_typed) (simp_all add: doc_ok_def empty_doc_def)

end
