(* ===== verification/Attachment.thy ===== *)
theory Attachment
  imports Prelude
begin

section \<open>Encrypted attachments\<close>

text \<open>
  The attachment container of \<open>packages/attachment-crypto/src/lib.rs\<close>: a file is encrypted under a random file key in
  chunks of 64 KiB, each with its own nonce and an additional text that binds it to the file, its position and the
  total length; the file key is wrapped under the profile's master key in a header of 128 bytes. \<open>AttachmentReader\<close> gives
  random access to the plaintext of such a file, and passes any other file through. AES-GCM and HKDF are third-party
  code and parameters here. A file is the list of its bytes, random values are arguments.
\<close>

subsection \<open>The cipher\<close>

record aead =
  seal_with :: "byte list \<Rightarrow> byte list \<Rightarrow> byte list \<Rightarrow> byte list \<Rightarrow> byte list"
  open_with :: "byte list \<Rightarrow> byte list \<Rightarrow> byte list \<Rightarrow> byte list \<Rightarrow> byte list option"

abbreviation MAGIC :: "byte list" where "MAGIC \<equiv> [0x56, 0x4C, 0x54, 0x41]"
definition VERSION :: byte where "VERSION = 1"
definition HEADER_LEN :: nat where "HEADER_LEN = 128"
definition CHUNK_LEN :: nat where "CHUNK_LEN = 64 * 1024"
definition NONCE_LEN :: nat where "NONCE_LEN = 12"
definition TAG_LEN :: nat where "TAG_LEN = 16"
definition CHUNK_OVERHEAD :: nat where "CHUNK_OVERHEAD = NONCE_LEN + TAG_LEN"

lemmas layout_defs = HEADER_LEN_def CHUNK_LEN_def NONCE_LEN_def TAG_LEN_def CHUNK_OVERHEAD_def

text \<open>What is documented of AES-GCM: a 16 byte tag is added, and decryption with the same key, nonce and additional text
  gives the message back.\<close>

definition aead_laws :: "aead \<Rightarrow> bool" where
  "aead_laws A \<longleftrightarrow> (\<forall>k n a m. length (seal_with A k n a m) = length m + TAG_LEN)
     \<and> (\<forall>k n a c m. open_with A k n a c = Some m \<longrightarrow> length c = length m + TAG_LEN) \<and> (\<forall>k n a m. open_with A k n a (seal_with A k n a m) = Some m)"

datatype att_error = NotFound | AlreadyExists | UnexpectedEof | Grew | NeedsKey | BadVersion | BadFlags | BadHeaderLen | BadReserved | BadChunkLen
  | BadKey | LengthOverflow | WrongLength | AuthFailed | BadSeek | PastEof | BadDbKey

subsection \<open>The profile's key\<close>

definition hexdigit :: "char \<Rightarrow> bool" where
  "hexdigit c \<longleftrightarrow> CHR ''0'' \<le> c \<and> c \<le> CHR ''9'' \<or> CHR ''a'' \<le> c \<and> c \<le> CHR ''f'' \<or> CHR ''A'' \<le> c \<and> c \<le> CHR ''F''"

definition strip_suffix :: "string \<Rightarrow> string \<Rightarrow> string option" where
  "strip_suffix p s = map_option rev (strip_prefix (rev p) (rev s))"

definition from_db_key :: "(string \<Rightarrow> byte list) \<Rightarrow> (byte list \<Rightarrow> string \<Rightarrow> byte list) \<Rightarrow> string \<Rightarrow> att_error + byte list option" where
  "from_db_key hexd hkdf passphrase =
     (case Option.bind (strip_prefix [CHR ''x'', CHR 0x27] passphrase) (strip_suffix [CHR 0x27]) of
        None \<Rightarrow> Inr None
      | Some h \<Rightarrow> if length h \<noteq> 64 \<or> \<not> list_all hexdigit h then Inl BadDbKey
                  else Inr (Some (hkdf (hexd h) ''velta/attachments/v1'')))"

subsection \<open>Encryption\<close>

definition chunk_aad :: "byte list \<Rightarrow> nat \<Rightarrow> byte \<Rightarrow> nat \<Rightarrow> nat \<Rightarrow> byte list" where
  "chunk_aad fid index final_flag tot len = fid @ be_bytes 8 index @ [final_flag] @ be_bytes 8 tot @ be_bytes 4 len"

definition wrap_aad :: "nat \<Rightarrow> byte list \<Rightarrow> byte list" where
  "wrap_aad plen fid = MAGIC @ [VERSION, 0] @ be_bytes 2 HEADER_LEN @ be_bytes 4 CHUNK_LEN @ be_bytes 8 plen @ fid"

record enc_random =
  er_key :: "byte list"
  er_id :: "byte list"
  er_wrap :: "byte list"
  er_nonce :: "nat \<Rightarrow> byte list"

text \<open>The chunk loop; \<open>remaining\<close> is \<open>plaintext_len - offset\<close>, and the chunk that takes all of it is the last.\<close>

function enc_chunks :: "aead \<Rightarrow> enc_random \<Rightarrow> nat \<Rightarrow> nat \<Rightarrow> nat \<Rightarrow> byte list \<Rightarrow> att_error + byte list \<times> byte list" where
  "enc_chunks A r tot remaining index input =
     (let wanted = min remaining CHUNK_LEN; p = take wanted input;
          final_flag = (if wanted = remaining then 1 else 0);
          c = er_nonce r index @ seal_with A (er_key r) (er_nonce r index) (chunk_aad (er_id r) index final_flag tot wanted) p
      in if length input < wanted then Inl UnexpectedEof
         else if wanted = remaining then Inr (c, drop wanted input)
         else r_bind (enc_chunks A r tot (remaining - wanted) (Suc index) (drop wanted input)) (\<lambda>(out, rest). Inr (c @ out, rest)))"
  by pat_completeness auto
termination
  by (relation "measure (\<lambda>(A, r, tot, remaining, index, input). remaining)") (auto simp: CHUNK_LEN_def)

declare enc_chunks.simps [simp del]

definition encrypt :: "aead \<Rightarrow> byte list \<Rightarrow> enc_random \<Rightarrow> byte list \<Rightarrow> u64 \<Rightarrow> att_error + byte list" where
  "encrypt A key r input plaintext_len =
     (let aad = wrap_aad (unat plaintext_len) (er_id r);
          header = aad @ er_wrap r @ seal_with A key (er_wrap r) aad (er_key r) @ replicate 32 0
      in r_bind (enc_chunks A r (unat plaintext_len) (unat plaintext_len) 0 input) (\<lambda>(out, rest).
           if rest \<noteq> [] then Inl Grew else Inr (header @ out)))"

text \<open>\<open>encrypt_file\<close>: \<open>source\<close> and \<open>destination\<close> are the files at the two paths; the length is that of the source when it is
  opened, and the result is what the new destination holds.\<close>

definition encrypt_file :: "aead \<Rightarrow> byte list \<Rightarrow> enc_random \<Rightarrow> byte list option \<Rightarrow> byte list option \<Rightarrow> att_error + byte list" where
  "encrypt_file A key r source destination =
     (case source of
        None \<Rightarrow> Inl NotFound
      | Some input \<Rightarrow> if destination \<noteq> None then Inl AlreadyExists else encrypt A key r input (of_nat (length input)))"

subsection \<open>Reading\<close>

record att_header =
  ah_len :: nat
  ah_id :: "byte list"
  ah_key :: "byte list"

record reader =
  rd_file :: "byte list"
  rd_len :: nat
  rd_pos :: nat
  rd_enc :: "att_header option"

definition slice :: "nat \<Rightarrow> nat \<Rightarrow> 'b list \<Rightarrow> 'b list" where
  "slice a b xs = take (b - a) (drop a xs)"

definition div_ceil :: "nat \<Rightarrow> nat \<Rightarrow> nat" where
  "div_ceil a b = (a + b - 1) div b"

text \<open>\<open>checked_add\<close> and \<open>checked_mul\<close> on \<open>u64\<close>.\<close>

definition checked :: "nat \<Rightarrow> nat option" where
  "checked n = (if n < 2 ^ 64 then Some n else None)"

definition expected_len :: "nat \<Rightarrow> nat option" where
  "expected_len plen = Option.bind (checked (HEADER_LEN + plen)) (\<lambda>l.
     Option.bind (checked (max 1 (div_ceil plen CHUNK_LEN) * CHUNK_OVERHEAD)) (\<lambda>ov. checked (l + ov)))"

definition from_reader :: "aead \<Rightarrow> byte list \<Rightarrow> byte list option \<Rightarrow> att_error + reader" where
  "from_reader A file key =
     (if take 4 file \<noteq> MAGIC then Inr \<lparr>rd_file = file, rd_len = length file, rd_pos = 0, rd_enc = None\<rparr>
      else (case key of
        None \<Rightarrow> Inl NeedsKey
      | Some k \<Rightarrow>
          let b = take HEADER_LEN file in
          if length file < HEADER_LEN then Inl UnexpectedEof
          else if b ! 4 \<noteq> VERSION then Inl BadVersion
          else if b ! 5 \<noteq> 0 then Inl BadFlags
          else if be_val (slice 6 8 b) \<noteq> HEADER_LEN then Inl BadHeaderLen
          else if \<not> list_all (\<lambda>x. x = 0) (drop 96 b) then Inl BadReserved
          else if be_val (slice 8 12 b) \<noteq> CHUNK_LEN then Inl BadChunkLen
          else
            let plen = be_val (slice 12 20 b) in
            (case open_with A k (slice 36 48 b) (take 36 b) (slice 48 96 b) of
               None \<Rightarrow> Inl AuthFailed
             | Some fk \<Rightarrow>
                 if length fk \<noteq> 32 then Inl BadKey
                 else (case expected_len plen of
                   None \<Rightarrow> Inl LengthOverflow
                 | Some l \<Rightarrow>
                     if length file \<noteq> l then Inl WrongLength
                     else Inr \<lparr>rd_file = file, rd_len = plen, rd_pos = 0,
                               rd_enc = Some \<lparr>ah_len = plen, ah_id = slice 20 36 b, ah_key = fk\<rparr>\<rparr>))))"

text \<open>The plaintext of the chunk at a position: its index, the bytes before it in the chunk, and the decryption of the
  chunk as the loop of \<open>read\<close> computes them.\<close>

definition chunk_at :: "aead \<Rightarrow> att_header \<Rightarrow> reader \<Rightarrow> nat \<Rightarrow> att_error + byte list" where
  "chunk_at A h r index =
     (let chunk_start = index * CHUNK_LEN;
          plen = min (rd_len r - chunk_start) CHUNK_LEN;
          final_flag = (if chunk_start + plen = rd_len r then 1 else 0);
          off = HEADER_LEN + index * (CHUNK_LEN + CHUNK_OVERHEAD);
          nonce = slice off (off + NONCE_LEN) (rd_file r);
          ct = slice (off + NONCE_LEN) (off + NONCE_LEN + (plen + TAG_LEN)) (rd_file r)
      in if length (rd_file r) < off + NONCE_LEN + (plen + TAG_LEN) then Inl UnexpectedEof
         else (case open_with A (ah_key h) nonce (chunk_aad (ah_id h) index final_flag (ah_len h) plen) ct of
                 None \<Rightarrow> Inl AuthFailed
               | Some p \<Rightarrow> Inr p))"

lemma CHUNK_LEN_pos: "0 < CHUNK_LEN"
  by (simp add: CHUNK_LEN_def)

lemma chunk_room:
  fixes p l c :: nat
  assumes "p < l" "0 < c"
  shows "p mod c < min (l - p div c * c) c"
proof -
  have "p = p div c * c + p mod c" by simp
  moreover have "p mod c < c" using assms(2) by simp
  ultimately show ?thesis using assms(1) by linarith
qed

text \<open>The loop of \<open>read\<close>: \<open>left\<close> is what is left of the output buffer. The position moves even when a later chunk fails.\<close>

function read_loop :: "aead \<Rightarrow> att_header \<Rightarrow> nat \<Rightarrow> reader \<Rightarrow> reader \<times> (att_error + byte list)" where
  "read_loop A h left r =
     (if left = 0 \<or> rd_pos r \<ge> rd_len r then (r, Inr [])
      else
        let index = rd_pos r div CHUNK_LEN; within = rd_pos r mod CHUNK_LEN;
            plen = min (rd_len r - index * CHUNK_LEN) CHUNK_LEN;
            wanted = min (plen - within) left
        in (case chunk_at A h r index of
              Inl err \<Rightarrow> (r, Inl err)
            | Inr p \<Rightarrow>
                let (r', res) = read_loop A h (left - wanted) (r\<lparr>rd_pos := rd_pos r + wanted\<rparr>)
                in (r', r_bind res (\<lambda>bs. Inr (take wanted (drop within p) @ bs)))))"
  by pat_completeness auto
termination
proof (relation "measure (\<lambda>(A, h, left, r). left)", goal_cases)
  case (2 A h left r x xa xb xc p)
  then show ?case using chunk_room [of "rd_pos r" "rd_len r" CHUNK_LEN] CHUNK_LEN_pos by auto
qed simp

declare read_loop.simps [simp del]

definition read :: "aead \<Rightarrow> nat \<Rightarrow> reader \<Rightarrow> reader \<times> (att_error + byte list)" where
  "read A n r =
     (if n = 0 \<or> rd_pos r = rd_len r then (r, Inr [])
      else (case rd_enc r of
        None \<Rightarrow> let bs = take n (drop (rd_pos r) (rd_file r)) in (r\<lparr>rd_pos := rd_pos r + length bs\<rparr>, Inr bs)
      | Some h \<Rightarrow> read_loop A h n r))"

datatype seek_from = Start nat | End int | Current int

definition seek :: "seek_from \<Rightarrow> reader \<Rightarrow> reader \<times> (att_error + nat)" where
  "seek p r =
     (let next_pos = (case p of Start off \<Rightarrow> int off | End off \<Rightarrow> int (rd_len r) + off | Current off \<Rightarrow> int (rd_pos r) + off)
      in if 0 \<le> next_pos \<and> next_pos \<le> int (rd_len r) then (r\<lparr>rd_pos := nat next_pos\<rparr>, Inr (nat next_pos)) else (r, Inl BadSeek))"

text \<open>\<open>Read::read_to_end\<close> with buffers of any sizes; \<open>None\<close> when \<open>fuel\<close> reads were not enough.\<close>

fun read_to_end :: "aead \<Rightarrow> (nat \<Rightarrow> nat) \<Rightarrow> nat \<Rightarrow> reader \<Rightarrow> (att_error + byte list) option" where
  "read_to_end A sz 0 r = None"
| "read_to_end A sz (Suc fuel) r = (case read A (Suc (sz fuel)) r of
     (r', Inl e) \<Rightarrow> Some (Inl e)
   | (r', Inr bs) \<Rightarrow> if bs = [] then Some (Inr []) else map_option (\<lambda>res. r_bind res (\<lambda>rest. Inr (bs @ rest))) (read_to_end A sz fuel r'))"

text \<open>\<open>Read::read_exact\<close>: reads until the buffer is full; a read of nothing is the end of the file.\<close>

function read_exact :: "aead \<Rightarrow> nat \<Rightarrow> reader \<Rightarrow> att_error + byte list" where
  "read_exact A n r =
     (if n = 0 then Inr []
      else (case read A n r of
        (r', Inl e) \<Rightarrow> Inl e
      | (r', Inr bs) \<Rightarrow> if bs = [] then Inl UnexpectedEof else r_bind (read_exact A (n - length bs) r') (\<lambda>rest. Inr (bs @ rest))))"
  by pat_completeness auto
termination
  by (relation "measure (\<lambda>(A, n, r). n)") (auto simp flip: length_greater_0_conv)

declare read_exact.simps [simp del]

definition read_all :: "aead \<Rightarrow> (nat \<Rightarrow> nat) \<Rightarrow> nat \<Rightarrow> reader \<Rightarrow> (att_error + byte list) option" where
  "read_all A sz fuel r = read_to_end A sz fuel r"

definition read_range :: "aead \<Rightarrow> nat \<Rightarrow> nat \<Rightarrow> reader \<Rightarrow> att_error + byte list" where
  "read_range A start n r =
     (if \<not> start \<le> rd_len r then Inl PastEof
      else if \<not> n \<le> rd_len r - start then Inl PastEof
      else (case seek (Start start) r of (r', Inl e) \<Rightarrow> Inl e | (r', Inr _) \<Rightarrow> read_exact A n r'))"

definition is_encrypted :: "byte list \<Rightarrow> bool" where
  "is_encrypted file \<longleftrightarrow> take 4 file = MAGIC"

subsection \<open>A reader as a view of bytes\<close>

lemma take_then_drop: "take n (drop p xs) @ drop (p + length (take n (drop p xs))) xs = drop p xs"
proof -
  have "take n ys @ drop (length (take n ys)) ys = ys" for ys :: "'b list" by (cases "n \<le> length ys") auto
  then show ?thesis by (metis add.commute drop_drop)
qed

text \<open>What every reader promises of the data it is a view of: a read that succeeds returns the next bytes of the data, as
  many as fit, and moves past them.\<close>

definition read_result :: "reader \<Rightarrow> byte list \<Rightarrow> nat \<Rightarrow> reader \<times> (att_error + byte list)" where
  "read_result r d n = (r\<lparr>rd_pos := rd_pos r + length (take n (drop (rd_pos r) d))\<rparr>, Inr (take n (drop (rd_pos r) d)))"

locale sound_view =
  fixes A :: aead and view :: "reader \<Rightarrow> byte list \<Rightarrow> bool"
  assumes law_sound: "view r d \<Longrightarrow> rd_pos r \<le> length d \<Longrightarrow> read A n r = (r', Inr bs) \<Longrightarrow> (r', Inr bs) = read_result r d n"
    and law_pos: "view (r\<lparr>rd_pos := p\<rparr>) d = view r d"
    and law_len: "view r d \<Longrightarrow> rd_len r = length d"
begin

lemma to_end_sound:
  "view r d \<Longrightarrow> rd_pos r \<le> length d \<Longrightarrow> read_to_end A sz fuel r = Some (Inr bs) \<Longrightarrow> bs = drop (rd_pos r) d"
proof (induction fuel arbitrary: r bs)
  case (Suc fuel)
  let ?bs = "take (Suc (sz fuel)) (drop (rd_pos r) d)"
  let ?r = "r\<lparr>rd_pos := rd_pos r + length ?bs\<rparr>"
  obtain r' bs' where rd: "read A (Suc (sz fuel)) r = (r', Inr bs')" using Suc.prems(3) by (auto split: prod.splits sum.splits)
  then have rd: "read A (Suc (sz fuel)) r = (?r, Inr ?bs)"
    using law_sound [OF Suc.prems(1,2), of "Suc (sz fuel)"] unfolding read_result_def by simp
  show ?case
  proof (cases "?bs = []")
    case False
    then obtain rest where rest: "read_to_end A sz fuel ?r = Some (Inr rest)" "bs = ?bs @ rest"
      using Suc.prems(3) rd by (auto simp: r_bind_Inr)
    moreover have "rd_pos ?r \<le> length d" using Suc.prems(2) by (auto simp: min_def)
    ultimately have "rest = drop (rd_pos ?r) d" using Suc.prems(1) law_pos by (intro Suc.IH) auto
    then show ?thesis using rest(2) take_then_drop [of "Suc (sz fuel)" "rd_pos r" d] by simp
  next
    case True
    then show ?thesis using Suc.prems rd by simp
  qed
qed simp

lemma exact_step:
  assumes "view r d" "rd_pos r + n \<le> length d" "read A n r = (r', Inr bs)"
  shows "read_exact A n r = Inr (take n (drop (rd_pos r) d))"
proof (cases "n = 0")
  case False
  let ?bs = "take n (drop (rd_pos r) d)"
  have len: "length ?bs = n" using assms(2) by simp
  then have ne: "?bs \<noteq> []" using False by (metis list.size(3))
  have rd: "read A n r = (r\<lparr>rd_pos := rd_pos r + length ?bs\<rparr>, Inr ?bs)"
    using law_sound [OF assms(1) _ assms(3)] assms(2,3) unfolding read_result_def by simp
  have "read_exact A (n - length ?bs) r' = Inr []" for r' by (simp only: len diff_self_eq_0) (simp add: read_exact.simps)
  then show ?thesis using False ne by (subst read_exact.simps) (simp only: rd prod.case sum.case if_False r_bind.simps append_Nil2)
qed (simp add: read_exact.simps)

lemma range_sound:
  assumes "view r d" "read_range A start n r = Inr bs"
  shows "start + n \<le> length d \<and> bs = take n (drop start d)"
proof -
  let ?r = "r\<lparr>rd_pos := start\<rparr>"
  have le: "start + n \<le> length d" and ex: "read_exact A n ?r = Inr bs"
    using assms(2) law_len [OF assms(1)] by (auto simp: read_range_def seek_def split: if_splits)
  have v: "view ?r d" using assms(1) law_pos by simp
  show ?thesis
  proof (cases "snd (read A n ?r)")
    case (Inr cs)
    then obtain r' where "read A n ?r = (r', Inr cs)" by (cases "read A n ?r") auto
    then have "read_exact A n ?r = Inr (take n (drop start d))" using exact_step [OF v, of n] le by simp
    then show ?thesis using ex le by simp
  next
    case (Inl e)
    then have "read_exact A n ?r = (if n = 0 then Inr [] else Inl e)"
      by (subst read_exact.simps) (auto split: prod.splits)
    then show ?thesis using ex le by (auto split: if_splits)
  qed
qed

end

text \<open>A reader whose reads never fail returns all of the data.\<close>

locale byte_view = sound_view +
  assumes law_reads: "view r d \<Longrightarrow> rd_pos r \<le> length d \<Longrightarrow> \<exists>r' bs. read A n r = (r', Inr bs)"
begin

lemma law_read: "view r d \<Longrightarrow> rd_pos r \<le> length d \<Longrightarrow> read A n r = read_result r d n"
  using law_reads [of r d n] law_sound [of r d n] by auto

lemma to_end:
  "view r d \<Longrightarrow> rd_pos r \<le> length d \<Longrightarrow> fuel > length d - rd_pos r \<Longrightarrow> read_to_end A sz fuel r = Some (Inr (drop (rd_pos r) d))"
proof (induction fuel arbitrary: r)
  case (Suc fuel)
  let ?bs = "take (Suc (sz fuel)) (drop (rd_pos r) d)"
  let ?r = "r\<lparr>rd_pos := rd_pos r + length ?bs\<rparr>"
  show ?case
  proof (cases "?bs = []")
    case False
    have len: "length ?bs \<ge> 1" "rd_pos ?r \<le> length d" using False Suc.prems by (auto simp: Suc_le_eq min_def)
    then have "read_to_end A sz fuel ?r = Some (Inr (drop (rd_pos ?r) d))"
      using Suc.prems law_pos by (intro Suc.IH) auto
    moreover have "?bs @ drop (rd_pos ?r) d = drop (rd_pos r) d"
      using take_then_drop [of "Suc (sz fuel)" "rd_pos r" d] by simp
    ultimately show ?thesis using Suc.prems False law_read [of r d "Suc (sz fuel)"] by (simp add: read_result_def)
  next
    case True
    then show ?thesis using Suc.prems law_read [of r d "Suc (sz fuel)"] by (simp add: read_result_def)
  qed
qed simp

lemma range_read:
  assumes "view r d" "start + n \<le> length d"
  shows "read_range A start n r = Inr (take n (drop start d))"
proof -
  let ?r = "r\<lparr>rd_pos := start\<rparr>"
  have v: "view ?r d" using assms(1) law_pos by simp
  obtain r' bs where "read A n ?r = (r', Inr bs)" using law_reads [OF v, of n] assms(2) by auto
  then show ?thesis using exact_step [OF v, of n] assms law_len [OF assms(1)] by (simp add: read_range_def seek_def)
qed

end

definition plain_view :: "reader \<Rightarrow> byte list \<Rightarrow> bool" where
  "plain_view r d \<longleftrightarrow> rd_enc r = None \<and> rd_file r = d \<and> rd_len r = length d"

interpretation plain: byte_view A plain_view for A
  by unfold_locales (auto simp: plain_view_def read_def read_result_def Let_def split: if_splits)

subsection \<open>What encryption writes\<close>

definition rnd_ok :: "enc_random \<Rightarrow> bool" where
  "rnd_ok r \<longleftrightarrow> length (er_key r) = 32 \<and> length (er_id r) = 16 \<and> length (er_wrap r) = 12 \<and> (\<forall>i. length (er_nonce r i) = 12)"

text \<open>The chunk of \<open>d\<close> at an index, and as it stands in the file.\<close>

definition chunk_of :: "nat \<Rightarrow> byte list \<Rightarrow> byte list" where
  "chunk_of j d = take CHUNK_LEN (drop (j * CHUNK_LEN) d)"

definition sealed_chunk :: "aead \<Rightarrow> enc_random \<Rightarrow> nat \<Rightarrow> nat \<Rightarrow> byte \<Rightarrow> byte list \<Rightarrow> byte list" where
  "sealed_chunk A r tot i fl p = er_nonce r i @ seal_with A (er_key r) (er_nonce r i) (chunk_aad (er_id r) i fl tot (length p)) p"

lemma slice_append: "slice (length xs + a) (length xs + a + b) (xs @ ys) = slice a (a + b) ys"
  by (simp add: slice_def)

lemma enc_chunks_shape:
  assumes "aead_laws A" "rnd_ok r" "length d = rem"
  shows "\<exists>out. enc_chunks A r tot rem i d = Inr (out, []) \<and> length out = rem + max 1 (div_ceil rem CHUNK_LEN) * CHUNK_OVERHEAD
    \<and> (\<forall>j. j = 0 \<or> j * CHUNK_LEN < rem \<longrightarrow>
        slice (j * (CHUNK_LEN + CHUNK_OVERHEAD)) (j * (CHUNK_LEN + CHUNK_OVERHEAD) + (length (chunk_of j d) + CHUNK_OVERHEAD)) out
          = sealed_chunk A r tot (i + j) (if j * CHUNK_LEN + length (chunk_of j d) = rem then 1 else 0) (chunk_of j d))"
  using assms(3)
proof (induction rem arbitrary: i d rule: less_induct)
  case (less rem)
  have len: "length (sealed_chunk A r tot i fl p) = length p + CHUNK_OVERHEAD" for i fl p
    using assms(1,2) by (simp add: sealed_chunk_def aead_laws_def rnd_ok_def layout_defs)
  show ?case
  proof (cases "rem \<le> CHUNK_LEN")
    case True
    then have "enc_chunks A r tot rem i d = Inr (sealed_chunk A r tot i 1 d, [])"
      using less.prems by (subst enc_chunks.simps) (simp add: Let_def sealed_chunk_def min_def)
    moreover have "max 1 (div_ceil rem CHUNK_LEN) = 1" using True by (auto simp: div_ceil_def CHUNK_LEN_def)
    moreover have "chunk_of 0 d = d" using True less.prems by (simp add: chunk_of_def)
    moreover have sl: "slice (j * (CHUNK_LEN + CHUNK_OVERHEAD)) (j * (CHUNK_LEN + CHUNK_OVERHEAD) + (length (chunk_of j d) + CHUNK_OVERHEAD))
          (sealed_chunk A r tot i 1 d)
        = sealed_chunk A r tot (i + j) (if j * CHUNK_LEN + length (chunk_of j d) = rem then 1 else 0) (chunk_of j d)"
      if "j = 0 \<or> j * CHUNK_LEN < rem" for j
    proof -
      have "j = 0" using that True by (cases j) auto
      with \<open>chunk_of 0 d = d\<close> show ?thesis using len [of i 1 d] less.prems by (simp add: slice_def)
    qed
    ultimately show ?thesis
      by (intro exI [of _ "sealed_chunk A r tot i 1 d"] conjI allI impI sl) (simp_all add: len less.prems)
  next
    case False
    let ?p = "take CHUNK_LEN d" and ?d = "drop CHUNK_LEN d" and ?S = "CHUNK_LEN + CHUNK_OVERHEAD"
    have pos: "0 < CHUNK_LEN" by (simp add: CHUNK_LEN_def)
    have lens: "length ?p = CHUNK_LEN" "length ?d = rem - CHUNK_LEN" "rem - CHUNK_LEN < rem" using False less.prems pos by auto
    obtain out where out: "enc_chunks A r tot (rem - CHUNK_LEN) (Suc i) ?d = Inr (out, [])"
      and olen: "length out = rem - CHUNK_LEN + max 1 (div_ceil (rem - CHUNK_LEN) CHUNK_LEN) * CHUNK_OVERHEAD"
      and osl: "\<And>j. j = 0 \<or> j * CHUNK_LEN < rem - CHUNK_LEN \<Longrightarrow>
        slice (j * ?S) (j * ?S + (length (chunk_of j ?d) + CHUNK_OVERHEAD)) out
          = sealed_chunk A r tot (Suc i + j) (if j * CHUNK_LEN + length (chunk_of j ?d) = rem - CHUNK_LEN then 1 else 0) (chunk_of j ?d)"
      using less.IH [OF lens(3,2)] by blast
    let ?c = "sealed_chunk A r tot i 0 ?p"
    have clen: "length ?c = ?S" using len lens(1) by simp
    have enc: "enc_chunks A r tot rem i d = Inr (?c @ out, [])"
      using False out lens(1) less.prems by (subst enc_chunks.simps) (simp add: Let_def sealed_chunk_def min_def)
    have "div_ceil rem CHUNK_LEN = Suc (div_ceil (rem - CHUNK_LEN) CHUNK_LEN)" "div_ceil (rem - CHUNK_LEN) CHUNK_LEN \<ge> 1"
      using False by (simp_all add: div_ceil_def CHUNK_LEN_def)
    then have "length (?c @ out) = rem + max 1 (div_ceil rem CHUNK_LEN) * CHUNK_OVERHEAD"
      using olen clen False by (simp add: max_def)
    moreover have "slice (j * ?S) (j * ?S + (length (chunk_of j d) + CHUNK_OVERHEAD)) (?c @ out)
        = sealed_chunk A r tot (i + j) (if j * CHUNK_LEN + length (chunk_of j d) = rem then 1 else 0) (chunk_of j d)"
      if j: "j = 0 \<or> j * CHUNK_LEN < rem" for j
    proof (cases j)
      case 0
      then show ?thesis using clen lens(1) False by (simp add: chunk_of_def slice_def)
    next
      case (Suc k)
      have ch: "chunk_of j d = chunk_of k ?d" by (simp add: chunk_of_def Suc add.commute)
      have k: "k * CHUNK_LEN < rem - CHUNK_LEN" using j Suc by simp
      have "j * ?S = length ?c + k * ?S" using clen Suc by simp
      then have "slice (j * ?S) (j * ?S + (length (chunk_of j d) + CHUNK_OVERHEAD)) (?c @ out)
          = slice (k * ?S) (k * ?S + (length (chunk_of k ?d) + CHUNK_OVERHEAD)) out"
        unfolding ch by (simp only: slice_append)
      also have "\<dots> = sealed_chunk A r tot (i + j) (if j * CHUNK_LEN + length (chunk_of j d) = rem then 1 else 0) (chunk_of j d)"
        unfolding ch using osl [of k] k Suc False by auto
      finally show ?thesis .
    qed
    ultimately show ?thesis using enc by blast
  qed
qed

subsection \<open>Reading what was encrypted\<close>

definition att_head :: "aead \<Rightarrow> byte list \<Rightarrow> enc_random \<Rightarrow> nat \<Rightarrow> byte list" where
  "att_head A key r n = wrap_aad n (er_id r) @ er_wrap r @ seal_with A key (er_wrap r) (wrap_aad n (er_id r)) (er_key r) @ replicate 32 0"

definition att_body :: "aead \<Rightarrow> enc_random \<Rightarrow> byte list \<Rightarrow> byte list" where
  "att_body A r d = (case enc_chunks A r (length d) (length d) 0 d of Inr (out, _) \<Rightarrow> out | _ \<Rightarrow> [])"

lemma att_body_shape:
  assumes "aead_laws A" "rnd_ok r"
  shows "enc_chunks A r (length d) (length d) 0 d = Inr (att_body A r d, [])"
    "length (att_body A r d) = length d + max 1 (div_ceil (length d) CHUNK_LEN) * CHUNK_OVERHEAD"
    "j * CHUNK_LEN < length d \<Longrightarrow>
      slice (j * (CHUNK_LEN + CHUNK_OVERHEAD)) (j * (CHUNK_LEN + CHUNK_OVERHEAD) + (length (chunk_of j d) + CHUNK_OVERHEAD)) (att_body A r d)
        = sealed_chunk A r (length d) j (if j * CHUNK_LEN + length (chunk_of j d) = length d then 1 else 0) (chunk_of j d)"
  using enc_chunks_shape [OF assms refl, where d = d and tot = "length d" and i = 0] by (auto simp: att_body_def)

lemma encrypt_file_eq:
  assumes "aead_laws A" "rnd_ok r" "length d < 2 ^ 64"
  shows "encrypt_file A key r (Some d) None = Inr (att_head A key r (length d) @ att_body A r d)"
proof -
  have "unat (of_nat (length d) :: u64) = length d" using assms(3) by (simp add: unat_of_nat)
  then show ?thesis using att_body_shape(1) [OF assms(1,2)] by (simp add: encrypt_file_def encrypt_def att_head_def Let_def)
qed

lemma att_head_length: "aead_laws A \<Longrightarrow> rnd_ok r \<Longrightarrow> length (att_head A key r n) = HEADER_LEN"
  by (simp add: att_head_def wrap_aad_def aead_laws_def rnd_ok_def layout_defs)

definition enc_view :: "byte list \<Rightarrow> enc_random \<Rightarrow> aead \<Rightarrow> reader \<Rightarrow> byte list \<Rightarrow> bool" where
  "enc_view key r A rd d \<longleftrightarrow> aead_laws A \<and> rnd_ok r \<and> rd_file rd = att_head A key r (length d) @ att_body A r d \<and> rd_len rd = length d
     \<and> rd_enc rd = Some \<lparr>ah_len = length d, ah_id = er_id r, ah_key = er_key r\<rparr>"

lemma slice_parts:
  assumes "slice a (a + (m + n)) xs = ys @ zs" "length ys = m" "length zs = n" "0 < m + n"
  shows "slice a (a + m) xs = ys" "slice (a + m) (a + m + n) xs = zs" "a + (m + n) \<le> length xs"
proof -
  have t: "take (m + n) (drop a xs) = ys @ zs" using assms(1) by (simp add: slice_def)
  then have "take m (drop a xs) = ys" using assms(2) by (metis append_eq_conv_conj min.absorb1 le_add1 take_take)
  then show "slice a (a + m) xs = ys" by (simp add: slice_def)
  have "drop m (take (m + n) (drop a xs)) = zs" using t assms(2) by simp
  then show "slice (a + m) (a + m + n) xs = zs" by (simp add: slice_def drop_take add.commute)
  have "length (take (m + n) (drop a xs)) = m + n" using t assms(2,3) by simp
  then show "a + (m + n) \<le> length xs" using assms(4) by (auto simp: min_def split: if_splits)
qed

lemma chunk_at_encrypted:
  assumes "enc_view key r A rd d" "j * CHUNK_LEN < length d" "rd_enc rd = Some h"
  shows "chunk_at A h rd j = Inr (chunk_of j d)"
proof -
  let ?S = "CHUNK_LEN + CHUNK_OVERHEAD" and ?p = "chunk_of j d"
  let ?fl = "if j * CHUNK_LEN + length ?p = length d then 1 else 0 :: byte"
  let ?head = "att_head A key r (length d)"
  have laws: "aead_laws A" "rnd_ok r" and fileq: "rd_file rd = ?head @ att_body A r d" and len: "rd_len rd = length d"
    and h: "h = \<lparr>ah_len = length d, ah_id = er_id r, ah_key = er_key r\<rparr>" using assms by (auto simp: enc_view_def)
  have plen: "min (length d - j * CHUNK_LEN) CHUNK_LEN = length ?p" by (simp add: chunk_of_def min.commute)
  let ?ct = "seal_with A (er_key r) (er_nonce r j) (chunk_aad (er_id r) j ?fl (length d) (length ?p)) ?p"
  have ctl: "length ?ct = length ?p + TAG_LEN" using laws by (simp add: aead_laws_def)
  have "length (er_nonce r j) = NONCE_LEN" using laws by (simp add: rnd_ok_def NONCE_LEN_def)
  note parts = slice_parts [OF _ this ctl, of "j * ?S" "att_body A r d"]
  have "slice (j * ?S) (j * ?S + (NONCE_LEN + (length ?p + TAG_LEN))) (att_body A r d) = er_nonce r j @ ?ct"
    using att_body_shape(3) [OF laws assms(2)] by (simp add: sealed_chunk_def CHUNK_OVERHEAD_def ac_simps)
  note parts = parts [OF this]
  have off: "slice (HEADER_LEN + a) (HEADER_LEN + a + n) (rd_file rd) = slice a (a + n) (att_body A r d)" for a n
    using slice_append [of ?head a n "att_body A r d"] by (simp add: fileq att_head_length [OF laws])
  have pos: "0 < NONCE_LEN + (length ?p + TAG_LEN)" by (simp add: NONCE_LEN_def)
  have n: "slice (HEADER_LEN + j * ?S) (HEADER_LEN + j * ?S + NONCE_LEN) (rd_file rd) = er_nonce r j"
    using off parts(1) pos by simp
  have c: "slice (HEADER_LEN + j * ?S + NONCE_LEN) (HEADER_LEN + j * ?S + NONCE_LEN + (length ?p + TAG_LEN)) (rd_file rd) = ?ct"
    using off [of "j * ?S + NONCE_LEN" "length ?p + TAG_LEN"] parts(2) pos by (simp add: add.assoc)
  have "\<not> length (rd_file rd) < HEADER_LEN + j * ?S + NONCE_LEN + (length ?p + TAG_LEN)"
    using parts(3) pos att_head_length [OF laws, of key "length d"] by (simp add: fileq)
  moreover have "open_with A (er_key r) (er_nonce r j) (chunk_aad (er_id r) j ?fl (length d) (length ?p)) ?ct = Some ?p"
    using laws by (simp add: aead_laws_def)
  ultimately show ?thesis unfolding chunk_at_def len plen Let_def n c h by simp
qed

subsection \<open>The loop of reads\<close>

text \<open>All a chunk gives, when it opens at all, is its part of the data.\<close>

definition sound_chunks :: "aead \<Rightarrow> att_header \<Rightarrow> reader \<Rightarrow> byte list \<Rightarrow> bool" where
  "sound_chunks A h rd d \<longleftrightarrow> rd_len rd = length d \<and> (\<forall>j p. j * CHUNK_LEN < length d \<longrightarrow> chunk_at A h rd j = Inr p \<longrightarrow> p = chunk_of j d)"

lemma chunk_at_pos [simp]: "chunk_at A h (rd\<lparr>rd_pos := x\<rparr>) j = chunk_at A h rd j"
  by (simp add: chunk_at_def)

lemma read_loop_sound:
  assumes "sound_chunks A h rd d" "rd_pos rd \<le> length d" "read_loop A h left rd = (r', Inr bs)"
  shows "(r', Inr bs) = read_result rd d left"
  using assms
proof (induction left arbitrary: rd bs rule: less_induct)
  case (less left)
  have len: "rd_len rd = length d" using less.prems(1) by (simp add: sound_chunks_def)
  show ?case
  proof (cases "left = 0 \<or> rd_pos rd \<ge> length d")
    case False
    define pos index within where "pos = rd_pos rd" and "index = pos div CHUNK_LEN" and "within = pos mod CHUNK_LEN"
    define plen where "plen = min (length d - index * CHUNK_LEN) CHUNK_LEN"
    define wanted where "wanted = min (plen - within) left"
    let ?rd = "rd\<lparr>rd_pos := pos + wanted\<rparr>"
    have pos: "pos = index * CHUNK_LEN + within" by (simp add: index_def within_def)
    have room: "within < plen" using chunk_room [of pos "length d" CHUNK_LEN] CHUNK_LEN_pos False
      by (simp add: pos_def plen_def index_def within_def)
    then have w: "0 < wanted" "wanted \<le> left" "within + wanted \<le> CHUNK_LEN" "pos + wanted \<le> length d" using False pos
      by (auto simp: wanted_def plen_def)
    have loop: "read_loop A h left rd = (case chunk_at A h rd index of Inl err \<Rightarrow> (rd, Inl err)
        | Inr p \<Rightarrow> let (r', res) = read_loop A h (left - wanted) ?rd in (r', r_bind res (\<lambda>bs. Inr (take wanted (drop within p) @ bs))))"
      using False by (subst read_loop.simps) (simp add: len Let_def wanted_def plen_def within_def index_def pos_def split: sum.split)
    then obtain p res where p: "chunk_at A h rd index = Inr p" and rest: "read_loop A h (left - wanted) ?rd = (r', Inr res)"
      and bs: "bs = take wanted (drop within p) @ res"
      using less.prems(3) by (auto simp: Let_def r_bind_Inr eq_commute [of "Inr bs"] split: sum.splits prod.splits)
    have "p = chunk_of index d" using less.prems(1) p False pos by (auto simp: sound_chunks_def pos_def)
    then have part: "take wanted (drop within p) = take wanted (drop pos d)"
      using w(3) by (simp add: chunk_of_def drop_take min_def pos add.commute)
    have "sound_chunks A h ?rd d" using less.prems(1) by (simp add: sound_chunks_def)
    then have IH: "(r', Inr res) = read_result ?rd d (left - wanted)"
      using less.IH [of "left - wanted" ?rd res] rest w by simp
    have all: "take left (drop pos d) = take wanted (drop pos d) @ take (left - wanted) (drop (pos + wanted) d)"
      using take_add [of wanted "left - wanted" "drop pos d"] w(2) by (simp add: add.commute)
    have "(r', Inr bs) = (rd\<lparr>rd_pos := pos + length (take left (drop pos d))\<rparr>, Inr (take left (drop pos d)))"
      using IH w unfolding all bs part read_result_def by simp
    then show ?thesis unfolding pos_def read_result_def .
  qed (use len less.prems(3) in \<open>auto simp: read_loop.simps read_result_def\<close>)
qed

lemma read_loop_total:
  assumes "\<And>j. j * CHUNK_LEN < rd_len rd \<Longrightarrow> \<exists>p. chunk_at A h rd j = Inr p"
  shows "\<exists>r' bs. read_loop A h left rd = (r', Inr bs)"
  using assms
proof (induction A h left rd rule: read_loop.induct)
  case (1 A h left r)
  show ?case
  proof (cases "left = 0 \<or> rd_pos r \<ge> rd_len r")
    case False
    have "rd_pos r div CHUNK_LEN * CHUNK_LEN < rd_len r" using False div_times_less_eq_dividend [of "rd_pos r" CHUNK_LEN] by linarith
    then obtain p where p: "chunk_at A h r (rd_pos r div CHUNK_LEN) = Inr p" using 1(2) by blast
    show ?thesis using 1(1) [OF False refl refl refl refl p] 1(2) False p by (subst read_loop.simps) (auto simp: Let_def)
  qed (auto simp: read_loop.simps)
qed

text \<open>An encrypted file read back is a view of the data that was encrypted.\<close>

lemma enc_view_chunks: "enc_view key r A rd d \<Longrightarrow> rd_enc rd = Some h \<Longrightarrow> sound_chunks A h rd d"
  using chunk_at_encrypted [of key r A rd d] by (auto simp: sound_chunks_def) (simp add: enc_view_def)

interpretation encrypted: byte_view A "enc_view key r A" for key r A
proof
  fix rd d n p r' bs
  show "enc_view key r A (rd\<lparr>rd_pos := p\<rparr>) d = enc_view key r A rd d" by (simp add: enc_view_def)
  assume v: "enc_view key r A rd d"
  then obtain h where len: "rd_len rd = length d" and h: "rd_enc rd = Some h" by (auto simp: enc_view_def)
  show "rd_len rd = length d" by (rule len)
  assume pos: "rd_pos rd \<le> length d"
  have "\<exists>p. chunk_at A h rd j = Inr p" if "j * CHUNK_LEN < rd_len rd" for j
    using chunk_at_encrypted [OF v _ h] that len by simp
  then show "\<exists>r' bs. read A n rd = (r', Inr bs)" using read_loop_total h by (auto simp: read_def)
  assume "read A n rd = (r', Inr bs)"
  then show "(r', Inr bs) = read_result rd d n"
    using len h pos read_loop_sound [OF enc_view_chunks [OF v h] pos] by (auto simp: read_def read_result_def split: if_splits)
qed

subsection \<open>Opening what was encrypted\<close>

lemma expected_len_small:
  assumes "n < 2 ^ 63"
  shows "expected_len n = Some (HEADER_LEN + n + max 1 (div_ceil n CHUNK_LEN) * CHUNK_OVERHEAD)"
proof -
  have "div_ceil n CHUNK_LEN < 2 ^ 48" using assms by (simp add: div_ceil_def CHUNK_LEN_def less_mult_imp_div_less)
  then have "max 1 (div_ceil n CHUNK_LEN) * CHUNK_OVERHEAD < 2 ^ 62" by (simp add: layout_defs max_def)
  then show ?thesis using assms by (simp add: expected_len_def checked_def HEADER_LEN_def)
qed

lemma from_reader_encrypted:
  assumes laws: "aead_laws A" "rnd_ok r" and n: "length d < 2 ^ 63"
    and f: "f = att_head A key r (length d) @ att_body A r d"
  shows "from_reader A f (Some key) = Inr \<lparr>rd_file = f, rd_len = length d, rd_pos = 0,
           rd_enc = Some \<lparr>ah_len = length d, ah_id = er_id r, ah_key = er_key r\<rparr>\<rparr>"
proof -
  let ?h = "att_head A key r (length d)" and ?aad = "wrap_aad (length d) (er_id r)"
  let ?w = "seal_with A key (er_wrap r) ?aad (er_key r)"
  have lens: "length (er_id r) = 16" "length (er_wrap r) = 12" "length ?w = 48" "length (er_key r) = 32"
    using laws by (simp_all add: aead_laws_def rnd_ok_def TAG_LEN_def)
  have b: "take HEADER_LEN f = ?h" "length f = HEADER_LEN + length (att_body A r d)" using f att_head_length [OF laws] by simp_all
  have h: "?h = MAGIC @ [VERSION, 0] @ be_bytes 2 HEADER_LEN @ be_bytes 4 CHUNK_LEN @ be_bytes 8 (length d) @ er_id r @ er_wrap r @ ?w @ replicate 32 0"
    by (simp add: att_head_def wrap_aad_def)
  have "take 4 f = MAGIC" "?h ! 4 = VERSION" "?h ! 5 = 0" unfolding f h by simp_all
  moreover have "be_val (slice 6 8 ?h) = HEADER_LEN" unfolding h by (simp add: slice_def be_val_be_bytes HEADER_LEN_def)
  moreover have "be_val (slice 8 12 ?h) = CHUNK_LEN" unfolding h by (simp add: slice_def be_val_be_bytes CHUNK_LEN_def)
  moreover have "be_val (slice 12 20 ?h) = length d" unfolding h using n by (simp add: slice_def be_val_be_bytes)
  moreover have "slice 20 36 ?h = er_id r" "slice 36 48 ?h = er_wrap r" "slice 48 96 ?h = ?w" "take 36 ?h = ?aad" "drop 96 ?h = replicate 32 0"
    unfolding h using lens by (simp_all add: slice_def wrap_aad_def)
  moreover have "open_with A key (er_wrap r) ?aad ?w = Some (er_key r)" using laws by (simp add: aead_laws_def)
  moreover have "expected_len (length d) = Some (length f)" using expected_len_small [OF n] b(2) att_body_shape(2) [OF laws] by simp
  ultimately show ?thesis using b lens by (simp add: from_reader_def Let_def list_all_iff)
qed

lemma from_reader_enc_view:
  assumes "aead_laws A" "rnd_ok r" "length d < 2 ^ 63"
  obtains f rd where "encrypt_file A key r (Some d) None = Inr f" "from_reader A f (Some key) = Inr rd" "enc_view key r A rd d" "rd_pos rd = 0"
    "is_encrypted f"
proof -
  let ?f = "att_head A key r (length d) @ att_body A r d"
  have "is_encrypted ?f" by (simp add: is_encrypted_def att_head_def wrap_aad_def)
  moreover have "length d < 2 ^ 64" using assms(3) by simp
  ultimately show ?thesis using encrypt_file_eq [OF assms(1,2)] from_reader_encrypted [OF assms refl, of key] assms
    by (intro that [of ?f]) (auto simp: enc_view_def)
qed

subsection \<open>Files that were changed\<close>

text \<open>The authenticity of AES-GCM for a file \<open>f\<close> from which anyone may have taken, moved or replaced bytes: what opens of it
  under the profile key is a file key wrapped for some attachment in \<open>S\<close>, and what opens under the file key of an
  attachment was sealed under it, as one of its chunks. \<open>S\<close> holds the attachments encrypted under the profile key; their file
  keys, 32 random bytes each, differ.\<close>

definition unforged :: "aead \<Rightarrow> byte list \<Rightarrow> (enc_random \<times> byte list) set \<Rightarrow> byte list \<Rightarrow> bool" where
  "unforged A key S f \<longleftrightarrow>
     (\<forall>i j n a m. open_with A key n a (slice i j f) = Some m \<longrightarrow> (\<exists>r d. (r, d) \<in> S \<and> a = wrap_aad (length d) (er_id r) \<and> m = er_key r))
     \<and> (\<forall>k i j n a m. k \<in> (\<lambda>(r, d). er_key r) ` S \<longrightarrow> open_with A k n a (slice i j f) = Some m \<longrightarrow>
          (\<exists>r d c fl. (r, d) \<in> S \<and> k = er_key r \<and> (c = 0 \<or> c * CHUNK_LEN < length d)
             \<and> a = chunk_aad (er_id r) c fl (length d) (length (chunk_of c d)) \<and> m = chunk_of c d))"

definition fresh_attachments :: "(enc_random \<times> byte list) set \<Rightarrow> bool" where
  "fresh_attachments S \<longleftrightarrow> inj_on (\<lambda>(r, d). er_key r) S \<and> (\<forall>(r, d) \<in> S. rnd_ok r \<and> length d < 2 ^ 64)"

lemma from_reader_enc:
  assumes "from_reader A f (Some key) = Inr rd" "is_encrypted f"
  obtains fk where "open_with A key (slice 36 48 f) (take 36 f) (slice 48 96 f) = Some fk" "HEADER_LEN \<le> length f"
    "rd = \<lparr>rd_file = f, rd_len = be_val (slice 12 20 f), rd_pos = 0,
           rd_enc = Some \<lparr>ah_len = be_val (slice 12 20 f), ah_id = slice 20 36 f, ah_key = fk\<rparr>\<rparr>"
proof -
  have "slice a b (take HEADER_LEN f) = slice a b f" if "b \<le> 128" for a b
    using that by (simp add: slice_def HEADER_LEN_def drop_take min_def)
  moreover have "take 36 (take HEADER_LEN f) = take 36 f" by (simp add: HEADER_LEN_def)
  ultimately show ?thesis using assms that by (auto simp: from_reader_def is_encrypted_def Let_def split: if_splits option.splits)
qed

lemma wrap_aad_fields:
  assumes "take 36 f = wrap_aad n fid" "length fid = 16" "n < 2 ^ 64"
  shows "be_val (slice 12 20 f) = n" "slice 20 36 f = fid"
proof -
  have sl: "slice a b f = slice a b (wrap_aad n fid)" if "b \<le> 36" for a b
    unfolding assms(1) [symmetric] using that by (simp add: slice_def drop_take min_def)
  show "be_val (slice 12 20 f) = n" using assms(3) by (simp add: sl) (simp add: slice_def wrap_aad_def be_val_be_bytes)
  show "slice 20 36 f = fid" using assms(2) by (simp add: sl) (simp add: slice_def wrap_aad_def)
qed

lemma chunk_aad_index:
  assumes "chunk_aad fid i fl tot len = chunk_aad fid i' fl' tot' len'" "i < 2 ^ 64" "i' < 2 ^ 64"
  shows "i = i'"
  using assms be_bytes_inj [of 8 i i'] by (simp add: chunk_aad_def)

lemma chunk_index_small: "c = 0 \<or> c * CHUNK_LEN < n \<Longrightarrow> n < 2 ^ 64 \<Longrightarrow> c < 2 ^ 64"
  by (auto simp: CHUNK_LEN_def)

lemma unforged_chunk:
  assumes "unforged A key S f" "(r, d) \<in> S" "open_with A (er_key r) n a (slice i j f) = Some m"
  shows "\<exists>r' d' c fl. (r', d') \<in> S \<and> er_key r = er_key r' \<and> (c = 0 \<or> c * CHUNK_LEN < length d')
    \<and> a = chunk_aad (er_id r') c fl (length d') (length (chunk_of c d')) \<and> m = chunk_of c d'"
proof -
  have "er_key r \<in> (\<lambda>(r, d). er_key r) ` S" using assms(2) by force
  then show ?thesis using assms(1) [unfolded unforged_def, THEN conjunct2, rule_format, OF _ assms(3)] by blast
qed

lemma unforged_chunks:
  assumes u: "unforged A key S f" and fr: "fresh_attachments S" and m: "(r, d) \<in> S"
    and rd: "rd_file rd = f" "rd_len rd = length d" and h: "ah_id h = er_id r" "ah_key h = er_key r"
  shows "sound_chunks A h rd d"
proof -
  have "p = chunk_of j d" if j: "j * CHUNK_LEN < length d" and p: "chunk_at A h rd j = Inr p" for j p
  proof -
    obtain i i' n fl tot len where "open_with A (er_key r) n (chunk_aad (er_id r) j fl tot len) (slice i i' f) = Some p"
      using p rd h by (auto simp: chunk_at_def Let_def split: if_splits option.splits)
    then obtain r' d' c fl' where s: "(r', d') \<in> S" "er_key r = er_key r'" "c = 0 \<or> c * CHUNK_LEN < length d'" "p = chunk_of c d'"
      and aad: "chunk_aad (er_id r) j fl tot len = chunk_aad (er_id r') c fl' (length d') (length (chunk_of c d'))"
      using unforged_chunk [OF u m] by blast
    have same: "r' = r" "d' = d" using fr m s(1,2) inj_onD [of "\<lambda>(r, d). er_key r" S "(r, d)" "(r', d')"]
      by (auto simp: fresh_attachments_def)
    have "length d < 2 ^ 64" using fr m by (auto simp: fresh_attachments_def)
    then have "j < 2 ^ 64" "c < 2 ^ 64" using chunk_index_small [of j "length d"] chunk_index_small [of c "length d"] s(3) j same by auto
    then have "j = c" using aad unfolding same by (intro chunk_aad_index)
    then show ?thesis using s(4) same by simp
  qed
  then show ?thesis using rd(2) by (simp add: sound_chunks_def)
qed

text \<open>A changed file that still opens is a view, if a failing one, of one attachment.\<close>

definition changed_view :: "aead \<Rightarrow> reader \<Rightarrow> byte list \<Rightarrow> bool" where
  "changed_view A rd d \<longleftrightarrow> rd_len rd = length d \<and> (\<exists>h. rd_enc rd = Some h \<and> sound_chunks A h rd d)"

interpretation changed: sound_view A "changed_view A" for A
proof
  fix rd d n p r' bs
  show "changed_view A (rd\<lparr>rd_pos := p\<rparr>) d = changed_view A rd d" by (simp add: changed_view_def sound_chunks_def)
  assume v: "changed_view A rd d"
  then obtain h where len: "rd_len rd = length d" and h: "rd_enc rd = Some h" "sound_chunks A h rd d" by (auto simp: changed_view_def)
  show "rd_len rd = length d" by (rule len)
  assume pos: "rd_pos rd \<le> length d" and "read A n rd = (r', Inr bs)"
  then show "(r', Inr bs) = read_result rd d n"
    using len h read_loop_sound [OF h(2) pos] by (auto simp: read_def read_result_def split: if_splits)
qed

lemma unforged_view:
  assumes "unforged A key S f" "fresh_attachments S" "is_encrypted f" "from_reader A f (Some key) = Inr rd"
  obtains r d where "(r, d) \<in> S" "changed_view A rd d" "rd_pos rd = 0"
proof -
  obtain fk where o: "open_with A key (slice 36 48 f) (take 36 f) (slice 48 96 f) = Some fk"
    and rd: "rd = \<lparr>rd_file = f, rd_len = be_val (slice 12 20 f), rd_pos = 0,
           rd_enc = Some \<lparr>ah_len = be_val (slice 12 20 f), ah_id = slice 20 36 f, ah_key = fk\<rparr>\<rparr>"
    by (rule from_reader_enc [OF assms(4,3)])
  obtain r d where m: "(r, d) \<in> S" and a: "take 36 f = wrap_aad (length d) (er_id r)" and k: "fk = er_key r"
    using o assms(1) unfolding unforged_def by meson
  have "length (er_id r) = 16" "length d < 2 ^ 64" using assms(2) m by (auto simp: fresh_attachments_def rnd_ok_def)
  note fields = wrap_aad_fields [OF a this]
  have "sound_chunks A \<lparr>ah_len = be_val (slice 12 20 f), ah_id = slice 20 36 f, ah_key = fk\<rparr> rd d"
    using fields k rd by (intro unforged_chunks [OF assms(1,2) m]) simp_all
  then have "changed_view A rd d" "rd_pos rd = 0" using fields rd by (simp_all add: changed_view_def)
  then show ?thesis using that m by blast
qed

subsection \<open>A cipher for the witnesses\<close>

text \<open>A lawful cipher whose tag tells the two texts sealed for one small attachment from every other.\<close>

definition toy_rnd :: enc_random where
  "toy_rnd = \<lparr>er_key = replicate 32 5, er_id = replicate 16 9, er_wrap = replicate 12 2, er_nonce = (\<lambda>i. replicate 12 3)\<rparr>"

definition toy_key :: "byte list" where "toy_key = replicate 32 7"
definition toy_data :: "byte list" where "toy_data = [10, 20, 30]"

definition toy_tag :: "byte list \<Rightarrow> byte list \<Rightarrow> byte list \<Rightarrow> byte list" where
  "toy_tag k a m = replicate 16 (if k = toy_key \<and> a = wrap_aad 3 (er_id toy_rnd) \<and> m = er_key toy_rnd
     \<or> k = er_key toy_rnd \<and> a = chunk_aad (er_id toy_rnd) 0 1 3 3 \<and> m = toy_data then 1 else 0xEE)"

definition toy_aead :: aead where
  "toy_aead = \<lparr>seal_with = (\<lambda>k n a m. m @ toy_tag k a m),
     open_with = (\<lambda>k n a c. let m = take (length c - 16) c in if length c \<ge> 16 \<and> c = m @ toy_tag k a m then Some m else None)\<rparr>"

lemma toy_laws: "aead_laws toy_aead"
  by (auto simp: aead_laws_def toy_aead_def Let_def TAG_LEN_def toy_tag_def split: if_splits)

lemma toy_rnd_ok: "rnd_ok toy_rnd"
  by (simp add: rnd_ok_def toy_rnd_def)

subsection \<open>The properties\<close>

text \<open>C24: what \<open>encrypt_file\<close> writes for a file below \<open>2^63\<close> bytes opens under the same profile key with the length of the
  file; every range within the file reads back its bytes, and \<open>read_all\<close>, with read buffers of any sizes, ends and returns
  the file. Without the key the file does not open.\<close>

theorem encrypted_attachment_reads_back:
  assumes "aead_laws A" "rnd_ok r" "length d < 2 ^ 63"
  shows "\<exists>f rd. encrypt_file A key r (Some d) None = Inr f \<and> from_reader A f (Some key) = Inr rd \<and> rd_len rd = length d
    \<and> (\<forall>start n. start + n \<le> length d \<longrightarrow> read_range A start n rd = Inr (take n (drop start d)))
    \<and> (\<forall>sz fuel. fuel > length d \<longrightarrow> read_all A sz fuel rd = Some (Inr d)) \<and> from_reader A f None = Inl NeedsKey"
proof -
  obtain f rd where f: "encrypt_file A key r (Some d) None = Inr f" "from_reader A f (Some key) = Inr rd" "enc_view key r A rd d" "rd_pos rd = 0"
    "is_encrypted f" by (rule from_reader_enc_view [OF assms])
  show ?thesis
    using f encrypted.range_read [OF f(3)] encrypted.to_end [OF f(3)] encrypted.law_len [OF f(3)]
    by (intro exI [of _ f] exI [of _ rd]) (auto simp: read_all_def from_reader_def is_encrypted_def)
qed

theorem encrypted_attachment_reads_back_witness:
  "\<exists>f rd. encrypt_file toy_aead toy_key toy_rnd (Some toy_data) None = Inr f \<and> from_reader toy_aead f (Some toy_key) = Inr rd
     \<and> read_range toy_aead 1 2 rd = Inr [20, 30] \<and> read_all toy_aead (\<lambda>_. 1) 4 rd = Some (Inr toy_data)"
proof -
  have "length toy_data < 2 ^ 63" by (simp add: toy_data_def)
  then obtain f rd where "encrypt_file toy_aead toy_key toy_rnd (Some toy_data) None = Inr f" "from_reader toy_aead f (Some toy_key) = Inr rd"
    "read_range toy_aead 1 2 rd = Inr (take 2 (drop 1 toy_data))" "read_all toy_aead (\<lambda>_. 1) 4 rd = Some (Inr toy_data)"
    using encrypted_attachment_reads_back [OF toy_laws toy_rnd_ok, of toy_data toy_key] by (auto simp: toy_data_def)
  then show ?thesis by (intro exI [of _ f] exI [of _ rd]) (simp add: toy_data_def)
qed


lemma toy_chunk: "chunk_of 0 toy_data = toy_data"
  by (simp add: chunk_of_def toy_data_def CHUNK_LEN_def)

lemma toy_body: "att_body toy_aead toy_rnd toy_data = replicate 12 3 @ toy_data @ replicate 16 1"
  by (simp add: att_body_def enc_chunks.simps Let_def CHUNK_LEN_def toy_data_def toy_rnd_def toy_aead_def toy_tag_def numeral_3_eq_3)

lemma toy_head: "att_head toy_aead toy_key toy_rnd 3 = wrap_aad 3 (er_id toy_rnd) @ replicate 12 2 @ replicate 32 5 @ replicate 16 1 @ replicate 32 0"
  by (simp add: att_head_def toy_rnd_def toy_aead_def toy_tag_def)

lemma toy_file_tags: "0xEE \<notin> set (att_head toy_aead toy_key toy_rnd 3 @ att_body toy_aead toy_rnd toy_data)"
proof -
  have be: "be_bytes (numeral k) x = be_bytes (pred_numeral k) (x div 256) @ [of_nat x]" for k x
    unfolding numeral_eq_Suc [of k] by (rule be_bytes.simps(2))
  show ?thesis unfolding toy_head toy_body by (simp add: wrap_aad_def be toy_rnd_def toy_data_def HEADER_LEN_def CHUNK_LEN_def VERSION_def)
qed

lemma toy_opens:
  assumes "open_with toy_aead k n a c = Some m" "0xEE \<notin> set c"
  shows "k = toy_key \<and> a = wrap_aad 3 (er_id toy_rnd) \<and> m = er_key toy_rnd
     \<or> k = er_key toy_rnd \<and> a = chunk_aad (er_id toy_rnd) 0 1 3 3 \<and> m = toy_data"
proof -
  have "c = m @ toy_tag k a m" using assms(1) by (auto simp: toy_aead_def Let_def split: if_splits)
  then show ?thesis using assms(2) by (auto simp: toy_tag_def split: if_splits)
qed

lemma toy_unforged:
  assumes "0xEE \<notin> set f"
  shows "unforged toy_aead toy_key {(toy_rnd, toy_data)} f"
proof -
  have f: "0xEE \<notin> set (slice i j f)" for i j using assms by (auto simp: slice_def dest: in_set_takeD in_set_dropD)
  have key: "toy_key \<noteq> er_key toy_rnd" by (simp add: toy_key_def toy_rnd_def)
  have l: "length toy_data = 3" by (simp add: toy_data_def)
  have "\<exists>r d. (r, d) \<in> {(toy_rnd, toy_data)} \<and> a = wrap_aad (length d) (er_id r) \<and> m = er_key r"
    if "open_with toy_aead toy_key n a (slice i j f) = Some m" for n a i j m
    using toy_opens [OF that f] key l by simp
  moreover have "\<exists>r d c fl. (r, d) \<in> {(toy_rnd, toy_data)} \<and> k = er_key r \<and> (c = 0 \<or> c * CHUNK_LEN < length d)
      \<and> a = chunk_aad (er_id r) c fl (length d) (length (chunk_of c d)) \<and> m = chunk_of c d"
    if k: "k = er_key toy_rnd" and o: "open_with toy_aead k n a (slice i j f) = Some m" for k n a i j m
    using toy_opens [OF o f] key l k
    by (intro exI [of _ toy_rnd] exI [of _ toy_data] exI [of _ 0] exI [of _ 1]) (simp add: toy_chunk)
  ultimately show ?thesis unfolding unforged_def by simp
qed


end
