(* ===== verification/DbFiles.thy ===== *)
theory DbFiles
  imports Prelude "HOL-Library.State_Monad"
begin

section \<open>Database files: classification, migration and start-up\<close>

text \<open>
  The file half of \<open>velta-app/src-tauri/src/db_key.rs\<close>: before the core opens anything, every account's \<open>dc.db\<close> is
  classified (plain, ours, foreign), plaintext databases are exported into an encrypted copy that is verified and swapped
  in by two renames, and the plaintext bytes stay in \<open>dc.db.plain.bak\<close> until a later start finds the encrypted copy to
  supersede them. The code runs in the state monad over the machine's disk. Every access to the disk is one step, whose
  outcome is given from outside: it works, it fails, or the process dies before it, after which no step has an effect.
  SQLCipher is third-party code: its export is a parameter, and a database is the tables and the version number it reads.
  A database's write-ahead log is part of its content.
\<close>

subsection \<open>Databases, files and faults\<close>

record dbase =
  tables :: "(string \<times> (string \<times> string) list) list"
  user_version :: int

datatype content = Blank | PlainDb dbase | EncDb string dbase | Junk

type_synonym path = "string \<times> string"
type_synonym store = "path \<rightharpoonup> content"

datatype outcome = Works | Fails | Dies

datatype access = Open path | Query path | Remove path | Rename path path | Export path | Write path | Sync path

type_synonym faults = "nat \<Rightarrow> access \<Rightarrow> outcome"

record machine =
  disk :: store
  clock :: nat
  dead :: bool

type_synonym 'a act = "(machine, 'a) state"

text \<open>One access: what it does to the disk when it works and the system accepts it, and what it leaves when it does not.\<close>

definition fs_step :: "faults \<Rightarrow> access \<Rightarrow> (store \<Rightarrow> bool) \<Rightarrow> (store \<Rightarrow> store) \<Rightarrow> (store \<Rightarrow> store) \<Rightarrow> bool act" where
  "fs_step F x able eff torn = State (\<lambda>w.
     if dead w then (False, w)
     else let w1 = w\<lparr>clock := Suc (clock w)\<rparr> in
       case F (clock w) x of
         Works \<Rightarrow> if able (disk w) then (True, w1\<lparr>disk := eff (disk w)\<rparr>) else (False, w1)
       | Fails \<Rightarrow> (False, w1\<lparr>disk := torn (disk w)\<rparr>)
       | Dies \<Rightarrow> (False, w1\<lparr>disk := torn (disk w), dead := True\<rparr>))"

definition remove_file :: "faults \<Rightarrow> path \<Rightarrow> bool act" where
  "remove_file F p = fs_step F (Remove p) (\<lambda>d. d p \<noteq> None) (\<lambda>d. d(p := None)) id"

definition rename_file :: "faults \<Rightarrow> path \<Rightarrow> path \<Rightarrow> bool act" where
  "rename_file F p q = fs_step F (Rename p q) (\<lambda>d. d p \<noteq> None) (\<lambda>d. d(p := None, q := d p)) id"

definition sync_file :: "faults \<Rightarrow> path \<Rightarrow> bool act" where
  "sync_file F p = fs_step F (Sync p) (\<lambda>d. d p \<noteq> None) id id"

definition is_file :: "path \<Rightarrow> bool act" where
  "is_file p = State (\<lambda>w. (disk w p \<noteq> None, w))"

text \<open>SQLite creates the file it is asked to open.\<close>

definition touch :: "path \<Rightarrow> store \<Rightarrow> store" where
  "touch p d = (if d p = None then d(p := Some Blank) else d)"

definition query :: "faults \<Rightarrow> path \<Rightarrow> bool act" where
  "query F p = fs_step F (Query p) (\<lambda>_. True) (touch p) id"

definition empty_db :: dbase where
  "empty_db = \<lparr>tables = [], user_version = 0\<rparr>"

text \<open>What a connection with or without a key reads.\<close>

fun data_of :: "string option \<Rightarrow> content \<Rightarrow> dbase option" where
  "data_of _ Blank = Some empty_db"
| "data_of None (PlainDb d) = Some d"
| "data_of (Some k) (EncDb k' d) = (if k = k' then Some d else None)"
| "data_of _ _ = None"

definition read_db :: "string option \<Rightarrow> path \<Rightarrow> dbase option act" where
  "read_db k p = State (\<lambda>w. (Option.bind (disk w p) (data_of k), w))"

definition count_rows :: "dbase \<Rightarrow> string \<Rightarrow> nat option" where
  "count_rows d t = map_option length (map_of (tables d) t)"

definition COUNT_TABLES :: "string list" where
  "COUNT_TABLES = [''msgs'', ''chats'', ''contacts'', ''config'', ''keypairs'']"

definition addr :: "dbase \<Rightarrow> string option" where
  "addr d = Option.bind (map_of (tables d) ''config'') (\<lambda>rows. map_of rows ''addr'')"

definition sibling :: "path \<Rightarrow> string \<Rightarrow> path" where
  "sibling p suffix = (fst p, snd p @ ''.'' @ suffix)"

definition db_of :: "string \<Rightarrow> path" where
  "db_of a = (a, ''dc.db'')"

subsection \<open>Classification\<close>

datatype kind = Plain | Ours | Foreign

definition opens :: "faults \<Rightarrow> path \<Rightarrow> string option \<Rightarrow> bool act" where
  "opens F p k = do {
     ok \<leftarrow> fs_step F (Open p) (\<lambda>_. True) (touch p) id;
     d \<leftarrow> read_db k p;
     State_Monad.return (ok \<and> d \<noteq> None)
   }"

definition classify :: "faults \<Rightarrow> path \<Rightarrow> string option \<Rightarrow> kind act" where
  "classify F p key = do {
     plain \<leftarrow> opens F p None;
     if plain then State_Monad.return Plain
     else case key of
         None \<Rightarrow> State_Monad.return Foreign
       | Some k \<Rightarrow> do {
           ours \<leftarrow> opens F p (Some k);
           State_Monad.return (if ours then Ours else Foreign)
         }
   }"

definition account_dbs :: "string list \<Rightarrow> path list act" where
  "account_dbs dirs = State (\<lambda>w. (filter (\<lambda>p. disk w p \<noteq> None \<or> disk w (sibling p ''plain.bak'') \<noteq> None) (map db_of dirs), w))"

primrec has_enc :: "faults \<Rightarrow> path list \<Rightarrow> bool act" where
  "has_enc F [] = State_Monad.return False"
| "has_enc F (p # ps) = do {
     present \<leftarrow> is_file p;
     plain \<leftarrow> (if present then opens F p None else State_Monad.return True);
     if plain then has_enc F ps else State_Monad.return True
   }"

definition has_encrypted :: "faults \<Rightarrow> string list \<Rightarrow> bool act" where
  "has_encrypted F dirs = do { dbs \<leftarrow> account_dbs dirs; has_enc F dbs }"

subsection \<open>Migration of one database\<close>

primrec same_counts :: "faults \<Rightarrow> path \<Rightarrow> path \<Rightarrow> string \<Rightarrow> string list \<Rightarrow> bool act" where
  "same_counts F db enc k [] = State_Monad.return True"
| "same_counts F db enc k (t # ts) = do {
     q1 \<leftarrow> query F db;
     p \<leftarrow> read_db None db;
     q2 \<leftarrow> query F enc;
     e \<leftarrow> read_db (Some k) enc;
     (case (Option.bind p (\<lambda>d. count_rows d t), Option.bind e (\<lambda>d. count_rows d t)) of
        (Some n, Some m) \<Rightarrow> if q1 \<and> q2 \<and> n = m then same_counts F db enc k ts else State_Monad.return False
      | _ \<Rightarrow> State_Monad.return False)
   }"

definition set_version :: "faults \<Rightarrow> path \<Rightarrow> string \<Rightarrow> int \<Rightarrow> bool act" where
  "set_version F enc k v = fs_step F (Write enc) (\<lambda>d. Option.bind (d enc) (data_of (Some k)) \<noteq> None)
     (\<lambda>d. case Option.bind (d enc) (data_of (Some k)) of Some e \<Rightarrow> d(enc := Some (EncDb k (e\<lparr>user_version := v\<rparr>))) | None \<Rightarrow> d) id"

text \<open>The closure of \<open>migrate\<close>: checkpoint, attach and export into a file that is not there yet, then verification. An
  export that is cut short leaves a file that no key opens.\<close>

definition export_copy :: "(dbase \<Rightarrow> dbase) \<Rightarrow> faults \<Rightarrow> path \<Rightarrow> path \<Rightarrow> string \<Rightarrow> dbase \<Rightarrow> bool act" where
  "export_copy X F db enc k d = fs_step F (Export enc) (\<lambda>s. s enc = None) (\<lambda>s. s(enc := Some (EncDb k (X d))))
     (\<lambda>s. if s enc = None then s(enc := Some Junk) else s)"

definition verify_copy :: "faults \<Rightarrow> path \<Rightarrow> path \<Rightarrow> string \<Rightarrow> int \<Rightarrow> bool act" where
  "verify_copy F db enc k v = do {
     q \<leftarrow> query F enc;
     e \<leftarrow> read_db (Some k) enc;
     (case e of
        None \<Rightarrow> State_Monad.return False
      | Some e' \<Rightarrow> if \<not> q then State_Monad.return False else do {
          ok \<leftarrow> (if user_version e' \<noteq> v then set_version F enc k v else State_Monad.return True);
          if ok then same_counts F db enc k COUNT_TABLES else State_Monad.return False
        })
   }"

definition export_run :: "(dbase \<Rightarrow> dbase) \<Rightarrow> faults \<Rightarrow> path \<Rightarrow> path \<Rightarrow> string \<Rightarrow> bool act" where
  "export_run X F db enc k = do {
     q \<leftarrow> query F db;
     p \<leftarrow> read_db None db;
     (case p of
        None \<Rightarrow> State_Monad.return False
      | Some d \<Rightarrow> if \<not> q then State_Monad.return False else do {
          x \<leftarrow> export_copy X F db enc k d;
          if \<not> x then State_Monad.return False else do {
            v \<leftarrow> query F db;
            if \<not> v then State_Monad.return False else verify_copy F db enc k (user_version d)
          }
        })
   }"

text \<open>The two renames, with the first undone when the second fails.\<close>

definition swap :: "faults \<Rightarrow> path \<Rightarrow> path \<Rightarrow> bool act" where
  "swap F db enc = do {
     r1 \<leftarrow> rename_file F db (sibling db ''plain.bak'');
     if \<not> r1 then State_Monad.return False else do {
       r2 \<leftarrow> rename_file F enc db;
       if r2 then State_Monad.return True else do {
         _ \<leftarrow> rename_file F (sibling db ''plain.bak'') db;
         State_Monad.return False
       }
     }
   }"

definition migrate :: "(dbase \<Rightarrow> dbase) \<Rightarrow> faults \<Rightarrow> path \<Rightarrow> string \<Rightarrow> bool act" where
  "migrate X F db k = do {
     _ \<leftarrow> remove_file F (sibling db ''enc'');
     ok \<leftarrow> export_run X F db (sibling db ''enc'') k;
     synced \<leftarrow> (if ok then sync_file F (sibling db ''enc'') else State_Monad.return False);
     if \<not> synced then do { _ \<leftarrow> remove_file F (sibling db ''enc''); State_Monad.return False }
     else do {
       swapped \<leftarrow> swap F db (sibling db ''enc'');
       if \<not> swapped then do { _ \<leftarrow> remove_file F (sibling db ''enc''); State_Monad.return False }
       else do {
         _ \<leftarrow> remove_file F (sibling db ''wal'');
         _ \<leftarrow> remove_file F (sibling db ''shm'');
         State_Monad.return True
       }
     }
   }"

subsection \<open>Start-up of all accounts\<close>

definition rows_kept :: "dbase \<Rightarrow> dbase \<Rightarrow> bool" where
  "rows_kept p e \<longleftrightarrow> list_all (\<lambda>t. case (count_rows p t, count_rows e t) of
     (Some b, Some n) \<Rightarrow> if t = ''keypairs'' then n = b else b \<le> n | _ \<Rightarrow> False) COUNT_TABLES"

definition supersedes :: "dbase \<Rightarrow> dbase \<Rightarrow> bool" where
  "supersedes e p \<longleftrightarrow> rows_kept p e \<and> addr p = addr e"

definition bak_superseded :: "faults \<Rightarrow> path \<Rightarrow> path \<Rightarrow> string \<Rightarrow> bool act" where
  "bak_superseded F db bak k = do {
     q1 \<leftarrow> query F bak;
     p \<leftarrow> read_db None bak;
     q2 \<leftarrow> query F db;
     e \<leftarrow> read_db (Some k) db;
     State_Monad.return (q1 \<and> q2 \<and> (case (p, e) of (Some p', Some e') \<Rightarrow> supersedes e' p' | _ \<Rightarrow> False))
   }"

record prep =
  migrated :: nat
  already :: nat
  locked :: nat
  failed :: nat

definition restore_missing :: "faults \<Rightarrow> path \<Rightarrow> unit act" where
  "restore_missing F db = do {
     present \<leftarrow> is_file db;
     if present then State_Monad.return () else do {
       ok \<leftarrow> opens F (sibling db ''plain.bak'') None;
       if ok then do { _ \<leftarrow> rename_file F (sibling db ''plain.bak'') db; State_Monad.return () } else State_Monad.return ()
     }
   }"

primrec restore_all :: "faults \<Rightarrow> path list \<Rightarrow> unit act" where
  "restore_all F [] = State_Monad.return ()"
| "restore_all F (db # dbs) = do { _ \<leftarrow> restore_missing F db; restore_all F dbs }"

definition retain_files :: "path list \<Rightarrow> path list act" where
  "retain_files dbs = State (\<lambda>w. (filter (\<lambda>p. disk w p \<noteq> None) dbs, w))"

definition on_plain :: "(dbase \<Rightarrow> dbase) \<Rightarrow> faults \<Rightarrow> string option \<Rightarrow> path \<Rightarrow> prep \<Rightarrow> (prep \<times> bool) act" where
  "on_plain X F key db r = (case key of
     None \<Rightarrow> State_Monad.return (r, False)
   | Some k \<Rightarrow> do {
       ok \<leftarrow> migrate X F db k;
       State_Monad.return (if ok then r\<lparr>migrated := migrated r + 1\<rparr> else r\<lparr>failed := failed r + 1\<rparr>, False)
     })"

definition prune_backup :: "faults \<Rightarrow> string option \<Rightarrow> path \<Rightarrow> bool act" where
  "prune_backup F key db = do {
     present \<leftarrow> is_file (sibling db ''plain.bak'');
     if \<not> present then State_Monad.return False else (case key of
         None \<Rightarrow> State_Monad.return False
       | Some k \<Rightarrow> do {
           ok \<leftarrow> bak_superseded F db (sibling db ''plain.bak'') k;
           if ok then remove_file F (sibling db ''plain.bak'') else State_Monad.return False
         })
   }"

definition on_ours :: "faults \<Rightarrow> string option \<Rightarrow> path \<Rightarrow> prep \<Rightarrow> (prep \<times> bool) act" where
  "on_ours F key db r = do {
     _ \<leftarrow> prune_backup F key db;
     State_Monad.return (r\<lparr>already := already r + 1\<rparr>, False)
   }"

definition on_foreign :: "faults \<Rightarrow> path \<Rightarrow> prep \<Rightarrow> (prep \<times> bool) act" where
  "on_foreign F db r = do {
     present \<leftarrow> is_file (sibling db ''plain.bak'');
     ok \<leftarrow> (if present then opens F (sibling db ''plain.bak'') None else State_Monad.return False);
     if ok then do {
       _ \<leftarrow> remove_file F db;
       _ \<leftarrow> rename_file F (sibling db ''plain.bak'') db;
       State_Monad.return (r, True)
     } else State_Monad.return (r\<lparr>locked := locked r + 1\<rparr>, False)
   }"

definition examine :: "(dbase \<Rightarrow> dbase) \<Rightarrow> faults \<Rightarrow> string option \<Rightarrow> path \<Rightarrow> prep \<Rightarrow> (prep \<times> bool) act" where
  "examine X F key db r = do {
     c \<leftarrow> classify F db key;
     (case c of Plain \<Rightarrow> on_plain X F key db r | Ours \<Rightarrow> on_ours F key db r | Foreign \<Rightarrow> on_foreign F db r)
   }"

text \<open>One pass over the databases, giving those that were rolled back and are looked at once more.\<close>

primrec prepare_pass :: "(dbase \<Rightarrow> dbase) \<Rightarrow> faults \<Rightarrow> string option \<Rightarrow> path list \<Rightarrow> prep \<Rightarrow> (prep \<times> path list) act" where
  "prepare_pass X F key [] r = State_Monad.return (r, [])"
| "prepare_pass X F key (db # dbs) r = do {
     (r1, again) \<leftarrow> examine X F key db r;
     (r2, redo) \<leftarrow> prepare_pass X F key dbs r1;
     State_Monad.return (r2, if again then db # redo else redo)
   }"

definition prepare :: "(dbase \<Rightarrow> dbase) \<Rightarrow> faults \<Rightarrow> string list \<Rightarrow> string option \<Rightarrow> (prep \<times> bool) act" where
  "prepare X F dirs key = do {
     dbs \<leftarrow> account_dbs dirs;
     _ \<leftarrow> restore_all F dbs;
     files \<leftarrow> retain_files dbs;
     (r1, redo) \<leftarrow> prepare_pass X F key files \<lparr>migrated = 0, already = 0, locked = 0, failed = 0\<rparr>;
     (r2, _) \<leftarrow> prepare_pass X F key redo r1;
     State_Monad.return (r2, key \<noteq> None \<and> (already r2 + migrated r2 > 0 \<or> failed r2 = 0))
   }"

subsection \<open>Reasoning about runs that may die\<close>

text \<open>
  A triple with a crash condition: from a live machine whose disk satisfies \<open>P\<close>, the run ends live with \<open>Q\<close> of its
  result and the disk, or dead with the disk in \<open>C\<close>; a dead machine is not changed at all.
\<close>

definition crash_triple :: "(store \<Rightarrow> bool) \<Rightarrow> 'a act \<Rightarrow> ('a \<Rightarrow> store \<Rightarrow> bool) \<Rightarrow> (store \<Rightarrow> bool) \<Rightarrow> bool" where
  "crash_triple P m Q C \<longleftrightarrow> (\<forall>w. (dead w \<longrightarrow> snd (run_state m w) = w)
     \<and> (\<not> dead w \<longrightarrow> P (disk w) \<longrightarrow> (if dead (snd (run_state m w)) then C (disk (snd (run_state m w)))
          else Q (fst (run_state m w)) (disk (snd (run_state m w))))))"

named_theorems triples

lemma triple_return [triples]: "(\<And>s. P s \<Longrightarrow> Q x s) \<Longrightarrow> crash_triple P (State_Monad.return x) Q C"
  by (simp add: crash_triple_def State_Monad.return_def)

lemma tripleD:
  assumes "crash_triple P m Q C" and "\<not> dead w" and "P (disk w)"
  shows "if dead (snd (run_state m w)) then C (disk (snd (run_state m w))) else Q (fst (run_state m w)) (disk (snd (run_state m w)))"
  using assms unfolding crash_triple_def by simp

lemma triple_inert: "crash_triple P m Q C \<Longrightarrow> dead w \<Longrightarrow> snd (run_state m w) = w"
  unfolding crash_triple_def by blast

lemma tripleI:
  assumes "\<And>w. dead w \<Longrightarrow> snd (run_state m w) = w"
    and "\<And>w. \<not> dead w \<Longrightarrow> P (disk w) \<Longrightarrow> if dead (snd (run_state m w)) then C (disk (snd (run_state m w)))
           else Q (fst (run_state m w)) (disk (snd (run_state m w)))"
  shows "crash_triple P m Q C"
  using assms unfolding crash_triple_def by simp

lemma run_bind: "run_state (State_Monad.bind m f) w = run_state (f (fst (run_state m w))) (snd (run_state m w))"
  by (simp add: State_Monad.bind_def case_prod_beta)

lemma triple_bind:
  assumes m: "crash_triple P m R C" and f: "\<And>a. crash_triple (R a) (f a) Q C"
  shows "crash_triple P (State_Monad.bind m f) Q C"
proof (rule tripleI)
  fix w :: machine
  assume "dead w"
  then show "snd (run_state (State_Monad.bind m f) w) = w"
    unfolding run_bind by (simp add: triple_inert[OF m] triple_inert[OF f])
next
  fix w :: machine
  assume w: "\<not> dead w" "P (disk w)"
  show "if dead (snd (run_state (State_Monad.bind m f) w)) then C (disk (snd (run_state (State_Monad.bind m f) w)))
     else Q (fst (run_state (State_Monad.bind m f) w)) (disk (snd (run_state (State_Monad.bind m f) w)))"
    unfolding run_bind using tripleD[OF m w] tripleD[OF f] triple_inert[OF f]
    by (cases "dead (snd (run_state m w))") (auto split: if_splits)
qed

lemma triple_conseq:
  assumes m: "crash_triple P m Q C" and "\<And>s. P' s \<Longrightarrow> P s" and "\<And>a s. Q a s \<Longrightarrow> Q' a s" and "\<And>s. C s \<Longrightarrow> C' s"
  shows "crash_triple P' m Q' C'"
proof (rule tripleI)
  fix w :: machine
  assume "\<not> dead w" "P' (disk w)"
  then show "if dead (snd (run_state m w)) then C' (disk (snd (run_state m w)))
     else Q' (fst (run_state m w)) (disk (snd (run_state m w)))"
    using tripleD[OF m] assms(2,3,4) by presburger
qed (simp add: triple_inert[OF m])

lemma triple_pre: "crash_triple P m Q C \<Longrightarrow> (\<And>s. P' s \<Longrightarrow> P s) \<Longrightarrow> crash_triple P' m Q C"
  by (rule triple_conseq)

lemma triple_look [triples]: "(\<And>s. P s \<Longrightarrow> Q (g s) s) \<Longrightarrow> crash_triple P (State (\<lambda>w. (g (disk w), w))) Q C"
  by (simp add: crash_triple_def)

lemma triple_is_file [triples]: "(\<And>s. P s \<Longrightarrow> Q (s p \<noteq> None) s) \<Longrightarrow> crash_triple P (is_file p) Q C"
  unfolding is_file_def by (rule triple_look)

lemma triple_read_db [triples]: "(\<And>s. P s \<Longrightarrow> Q (Option.bind (s p) (data_of k)) s) \<Longrightarrow> crash_triple P (read_db k p) Q C"
  unfolding read_db_def by (rule triple_look)

lemma triple_step:
  assumes "\<And>s n. P s \<Longrightarrow> F n x = Works \<Longrightarrow> able s \<Longrightarrow> Q True (eff s)"
    and "\<And>s n. P s \<Longrightarrow> \<not> able s \<Longrightarrow> Q False s"
    and "\<And>s n. P s \<Longrightarrow> F n x = Fails \<Longrightarrow> Q False (torn s)"
    and "\<And>s n. P s \<Longrightarrow> F n x = Dies \<Longrightarrow> C (torn s)"
  shows "crash_triple P (fs_step F x able eff torn) Q C"
  using assms by (auto simp: crash_triple_def fs_step_def Let_def split: outcome.splits)

lemma triple_if [triples]:
  "(b \<Longrightarrow> crash_triple P m Q C) \<Longrightarrow> (\<not> b \<Longrightarrow> crash_triple P m' Q C) \<Longrightarrow> crash_triple P (if b then m else m') Q C"
  by simp

lemma triple_option [triples]:
  "(x = None \<Longrightarrow> crash_triple P m Q C) \<Longrightarrow> (\<And>y. x = Some y \<Longrightarrow> crash_triple P (f y) Q C)
   \<Longrightarrow> crash_triple P (case x of None \<Rightarrow> m | Some y \<Rightarrow> f y) Q C"
  by (cases x) auto

lemma triple_pair [triples]:
  "(\<And>x y. z = (x, y) \<Longrightarrow> crash_triple P (f x y) Q C) \<Longrightarrow> crash_triple P (case z of (x, y) \<Rightarrow> f x y) Q C"
  by (cases z) auto

text \<open>An assertion that a run keeps at every step, and the assertions that speak of one account's files only.\<close>

definition keeps :: "(store \<Rightarrow> bool) \<Rightarrow> 'a act \<Rightarrow> bool" where
  "keeps I m \<longleftrightarrow> crash_triple I m (\<lambda>_. I) I"

named_theorems keeping

lemma triple_and_keeps:
  assumes m: "crash_triple P m Q C" and i: "keeps I m"
  shows "crash_triple (\<lambda>s. P s \<and> I s) m (\<lambda>x s. Q x s \<and> I s) C"
  using assms unfolding crash_triple_def keeps_def by (auto split: if_splits)

lemma keeps_return [keeping]: "keeps I (State_Monad.return x)"
  unfolding keeps_def by (rule triple_return)

lemma keeps_bind [keeping]: "keeps I m \<Longrightarrow> (\<And>a. keeps I (f a)) \<Longrightarrow> keeps I (State_Monad.bind m f)"
  unfolding keeps_def by (rule triple_bind)

lemma keeps_look: "keeps I (State (\<lambda>w. (g (disk w), w)))"
  unfolding keeps_def by (rule triple_look)

lemma keeps_reads [keeping]: "keeps I (is_file p)" "keeps I (read_db k p)" "keeps I (account_dbs dirs)" "keeps I (retain_files dbs)"
  unfolding is_file_def read_db_def account_dbs_def retain_files_def by (rule keeps_look)+

lemma keeps_splits [keeping]:
  "(b \<Longrightarrow> keeps I m) \<Longrightarrow> (\<not> b \<Longrightarrow> keeps I m') \<Longrightarrow> keeps I (if b then m else m')"
  "(x = None \<Longrightarrow> keeps I m1) \<Longrightarrow> (\<And>y. x = Some y \<Longrightarrow> keeps I (f y)) \<Longrightarrow> keeps I (case x of None \<Rightarrow> m1 | Some y \<Rightarrow> f y)"
  "(\<And>u v. z = (u, v) \<Longrightarrow> keeps I (g u v)) \<Longrightarrow> keeps I (case z of (u, v) \<Rightarrow> g u v)"
  unfolding keeps_def by (auto split: option.splits prod.splits)

lemma keeps_kind [keeping]:
  "keeps I m1 \<Longrightarrow> keeps I m2 \<Longrightarrow> keeps I m3 \<Longrightarrow> keeps I (case c of Plain \<Rightarrow> m1 | Ours \<Rightarrow> m2 | Foreign \<Rightarrow> m3)"
  by (cases c) auto

lemma keeps_step:
  assumes "\<And>s. I s \<Longrightarrow> I (eff s)" and "\<And>s. I s \<Longrightarrow> I (torn s)"
  shows "keeps I (fs_step F x able eff torn)"
  unfolding keeps_def by (rule triple_step) (auto intro: assms)

definition free :: "path \<Rightarrow> (store \<Rightarrow> bool) \<Rightarrow> bool" where
  "free p I \<longleftrightarrow> (\<forall>s v. I s \<longrightarrow> I (s(p := v)))"

definition spares :: "string \<Rightarrow> (store \<Rightarrow> bool) \<Rightarrow> bool" where
  "spares b I \<longleftrightarrow> (\<forall>f. free (b, f) I)"

lemma sparesD [simp]: "spares (fst p) I \<Longrightarrow> free p I"
  by (cases p) (simp add: spares_def)

lemma freeD: "free p I \<Longrightarrow> I s \<Longrightarrow> I (s(p := v))"
  by (simp add: free_def)

text \<open>Reading a file changes the disk only where the file was missing.\<close>

definition stays :: "path \<Rightarrow> (store \<Rightarrow> bool) \<Rightarrow> bool" where
  "stays p I \<longleftrightarrow> (\<forall>s. I s \<longrightarrow> I (touch p s))"

lemma free_stays [simp]: "free p I \<Longrightarrow> stays p I"
  by (simp add: stays_def touch_def freeD)

lemma present_stays: "(\<And>s. I s \<Longrightarrow> s p \<noteq> None) \<Longrightarrow> stays p I"
  unfolding stays_def touch_def by fastforce

lemma keeps_open [keeping]:
  assumes "stays p I"
  shows "keeps I (query F p)" "keeps I (fs_step F (Open p) (\<lambda>_. True) (touch p) id)"
  unfolding query_def by (rule keeps_step; use assms in \<open>simp add: stays_def\<close>)+

lemma keeps_ops [keeping]:
  assumes "free p I"
  shows "keeps I (remove_file F p)" "keeps I (set_version F p k v)" "keeps I (export_copy X F q p k d)"
  unfolding remove_file_def set_version_def export_copy_def
  by ((rule keeps_step; auto intro: freeD[OF assms] split: option.split))+

lemma keeps_sync [keeping]: "keeps I (sync_file F p)"
  unfolding sync_file_def by (rule keeps_step) auto

lemma keeps_rename [keeping]: "free p I \<Longrightarrow> free q I \<Longrightarrow> keeps I (rename_file F p q)"
  unfolding rename_file_def by (rule keeps_step) (auto intro!: freeD)

lemma fst_sibling [simp]: "fst (sibling p x) = fst p"
  by (simp add: sibling_def)

lemma fst_db_of [simp]: "fst (db_of a) = a"
  by (simp add: db_of_def)

lemma keeps_opens [keeping]: "stays p I \<Longrightarrow> keeps I (opens F p k)"
  unfolding opens_def by (intro keeping; simp)

lemma keeps_classify [keeping]: "stays p I \<Longrightarrow> keeps I (classify F p k)"
  unfolding classify_def by (intro keeping; simp)

lemma keeps_same_counts [keeping]: "stays p I \<Longrightarrow> stays q I \<Longrightarrow> keeps I (same_counts F p q k ts)"
  by (induction ts) (simp_all, (intro keeping; simp)+)

lemma keeps_verify_copy [keeping]: "free p I \<Longrightarrow> free q I \<Longrightarrow> keeps I (verify_copy F p q k v)"
  unfolding verify_copy_def by (intro keeping; simp)

lemma keeps_export_run [keeping]: "free p I \<Longrightarrow> free q I \<Longrightarrow> keeps I (export_run X F p q k)"
  unfolding export_run_def by (intro keeping; simp)

lemma keeps_swap [keeping]: "spares (fst p) I \<Longrightarrow> fst q = fst p \<Longrightarrow> keeps I (swap F p q)"
  unfolding swap_def by (intro keeping; simp)

lemma keeps_migrate [keeping]: "spares (fst p) I \<Longrightarrow> keeps I (migrate X F p k)"
  unfolding migrate_def by (intro keeping; simp)

lemma keeps_prune_backup [keeping]: "stays p I \<Longrightarrow> free (sibling p ''plain.bak'') I \<Longrightarrow> keeps I (prune_backup F key p)"
  unfolding prune_backup_def bak_superseded_def by (intro keeping; simp)

lemma keeps_examine [keeping]: "spares (fst p) I \<Longrightarrow> keeps I (examine X F key p r)"
  unfolding examine_def on_plain_def on_ours_def on_foreign_def bak_superseded_def by (intro keeping; simp)

lemma keeps_restore_missing [keeping]: "spares (fst p) I \<Longrightarrow> keeps I (restore_missing F p)"
  unfolding restore_missing_def by (intro keeping; simp)

text \<open>A dead machine is left alone, which is what is left of a triple that nothing satisfies.\<close>

definition inert :: "'a act \<Rightarrow> bool" where
  "inert m \<longleftrightarrow> keeps (\<lambda>_. False) m"

lemma spares_False [simp]: "free p (\<lambda>_. False)" "spares b (\<lambda>_. False)"
  by (simp_all add: free_def spares_def)

lemma triple_pure: "(b \<Longrightarrow> crash_triple P m Q C) \<Longrightarrow> inert m \<Longrightarrow> crash_triple (\<lambda>s. b \<and> P s) m Q C"
  unfolding crash_triple_def inert_def keeps_def by auto

lemma triple_known:
  assumes "crash_triple P m (\<lambda>x s. x = v \<and> R s) C" and "crash_triple R (f v) Q C" and "\<And>x. inert (f x)"
  shows "crash_triple P (State_Monad.bind m f) Q C"
  using assms(1)
proof (rule triple_bind)
  fix x
  show "crash_triple (\<lambda>s. x = v \<and> R s) (f x) Q C"
    using assms(2,3) by (auto intro: triple_pure)
qed

lemma triple_true:
  "crash_triple P m (\<lambda>ok s. ok \<and> R s) C \<Longrightarrow> crash_triple R (f True) Q C \<Longrightarrow> (\<And>x. inert (f x)) \<Longrightarrow> crash_triple P (State_Monad.bind m f) Q C"
  by (rule triple_known[where v = True and R = R]) simp_all

lemma triple_read:
  assumes "\<And>s. P s \<Longrightarrow> Option.bind (s p) (data_of k) = v" and "crash_triple P (f v) Q C" and "\<And>x. inert (f x)"
  shows "crash_triple P (State_Monad.bind (read_db k p) f) Q C"
  using assms by (intro triple_known[where v = v and R = P] triple_read_db) auto

lemma triple_disj: "crash_triple P1 m Q C \<Longrightarrow> crash_triple P2 m Q C \<Longrightarrow> crash_triple (\<lambda>s. P1 s \<or> P2 s) m Q C"
  unfolding crash_triple_def by auto

lemma inert_return [simp]: "inert (State_Monad.return x)"
  unfolding inert_def by (intro keeping)

lemma inert_bind: "inert m \<Longrightarrow> (\<And>a. inert (f a)) \<Longrightarrow> inert (State_Monad.bind m f)"
  unfolding inert_def by (intro keeping)

lemma inert_ops [simp]: "inert (migrate X F p k)" "inert (classify F p key)" "inert (opens F p key)" "inert (examine X F key p r)"
    "inert (restore_missing F p)" "inert (remove_file F p)" "inert (rename_file F p q)" "inert (is_file p)" "inert (retain_files dbs)"
    "inert (bak_superseded F p q k)" "inert (swap F p (sibling p y))"
  unfolding inert_def bak_superseded_def by (intro keeping; simp)+

lemma inert_pass [simp]: "inert (prepare_pass X F key dbs r)"
  unfolding inert_def by (induction dbs arbitrary: r) (simp_all, (intro keeping; simp)+)

lemma inert_restore_all [simp]: "inert (restore_all F dbs)"
  unfolding inert_def by (induction dbs) (simp_all, (intro keeping; simp)+)

lemma inert_examined [simp]: "inert (on_plain X F key p r)" "inert (on_ours F key p r)" "inert (on_foreign F p r)"
  unfolding inert_def on_plain_def on_ours_def on_foreign_def bak_superseded_def by (intro keeping; simp)+

end
