(* ===== verification/DbStart.thy ===== *)
theory DbStart
  imports DbFiles
begin

section \<open>What survives a start\<close>

text \<open>
  The guarantees of \<open>prepare\<close> in \<open>db_key.rs\<close>: with the same key at every start no account loses data, wherever the
  process dies and whatever fails short of a restore; a start without faults encrypts every account; a database no key
  opens is left alone. The guarantee does not extend to a start without the key: then a plaintext backup of an earlier
  migration replaces the encrypted database and what was written to it since.
\<close>

subsection \<open>Where an account's data is\<close>

abbreviation bak_of :: "string \<Rightarrow> path" where "bak_of a \<equiv> sibling (db_of a) ''plain.bak''"
abbreviation enc_of :: "string \<Rightarrow> path" where "enc_of a \<equiv> sibling (db_of a) ''enc''"

definition holds :: "string \<Rightarrow> string \<Rightarrow> dbase \<Rightarrow> store \<Rightarrow> bool" where
  "holds k a d s \<longleftrightarrow> s (db_of a) = Some (PlainDb d) \<or> s (db_of a) = Some (EncDb k d)"

definition parked :: "string \<Rightarrow> dbase \<Rightarrow> store \<Rightarrow> bool" where
  "parked a d s \<longleftrightarrow> s (db_of a) = None \<and> s (bak_of a) = Some (PlainDb d)"

definition kept :: "string \<Rightarrow> string \<Rightarrow> dbase \<Rightarrow> store \<Rightarrow> bool" where
  "kept k a d s \<longleftrightarrow> holds k a d s \<or> parked a d s"

text \<open>The faults that a start is proof against: everything may fail or end the process, except that probing a
  database reports failure only for what cannot be read, and that a rename which puts a backup back does not fail.\<close>

definition gentle :: "faults \<Rightarrow> bool" where
  "gentle F \<longleftrightarrow> (\<forall>n p. F n (Open p) \<noteq> Fails) \<and> (\<forall>n p. F n (Rename (sibling p ''plain.bak'') p) \<noteq> Fails)"

lemma gentleD [simp]: "gentle F \<Longrightarrow> F n (Open p) \<noteq> Fails" "gentle F \<Longrightarrow> F n (Rename (sibling p ''plain.bak'') p) \<noteq> Fails"
  by (cases p; simp add: gentle_def)+

text \<open>What is documented of \<open>sqlcipher_export\<close>: it copies every table.\<close>

definition copies_tables :: "(dbase \<Rightarrow> dbase) \<Rightarrow> bool" where
  "copies_tables X \<longleftrightarrow> (\<forall>d. tables (X d) = tables d)"

lemma sibling_neq [simp]: "sibling p x \<noteq> p" "p \<noteq> sibling p x"
  by (simp_all add: sibling_def prod_eq_iff)

lemma sibling_inject [simp]: "sibling p x = sibling p y \<longleftrightarrow> x = y"
  by (simp add: sibling_def)

lemma db_of_inject [simp]: "db_of a = db_of b \<longleftrightarrow> a = b"
  by (simp add: db_of_def)

lemma free_other [simp]: "p \<noteq> q \<Longrightarrow> free p (\<lambda>s. s q = v)"
  by (simp add: free_def)

lemma stays_present [simp]: "stays p (\<lambda>s. s p = Some c)"
  by (rule present_stays) simp

subsection \<open>Migration\<close>

lemma keeps_triple: "keeps I m \<Longrightarrow> (\<And>s. P s \<Longrightarrow> I s) \<Longrightarrow> (\<And>a s. I s \<Longrightarrow> Q a s) \<Longrightarrow> (\<And>s. I s \<Longrightarrow> C s) \<Longrightarrow> crash_triple P m Q C"
  unfolding keeps_def by (rule triple_conseq)

lemma dbase_eqI: "tables d = tables e \<Longrightarrow> user_version d = user_version e \<Longrightarrow> (d :: dbase) = e"
  by (simp add: dbase.equality)

definition copied :: "path \<Rightarrow> path \<Rightarrow> string \<Rightarrow> dbase \<Rightarrow> dbase \<Rightarrow> store \<Rightarrow> bool" where
  "copied db enc k d e s \<longleftrightarrow> s db = Some (PlainDb d) \<and> s enc = Some (EncDb k e) \<and> tables e = tables d"

definition checked_copy :: "path \<Rightarrow> path \<Rightarrow> string \<Rightarrow> dbase \<Rightarrow> bool \<Rightarrow> store \<Rightarrow> bool" where
  "checked_copy db enc k d ok s \<longleftrightarrow> s db = Some (PlainDb d) \<and> (ok \<longrightarrow> s enc = Some (EncDb k d))"

lemma copied_stays [simp]: "stays db (copied db enc k d e)" "stays enc (copied db enc k d e)"
  by (rule present_stays; simp add: copied_def)+

lemma same_counts_triple:
  "crash_triple (copied db enc k d d) (same_counts F db enc k ts) (checked_copy db enc k d) (\<lambda>s. s db = Some (PlainDb d))"
  by (rule keeps_triple[where I = "copied db enc k d d"], rule keeps_same_counts) (auto simp: copied_def checked_copy_def)

lemma set_version_triple:
  "enc \<noteq> db \<Longrightarrow> crash_triple (copied db enc k d e) (set_version F enc k (user_version d)) (checked_copy db enc k d) (\<lambda>s. s db = Some (PlainDb d))"
  unfolding set_version_def by (intro triple_step) (auto simp: copied_def checked_copy_def intro: dbase_eqI)

lemma verify_copy_triple:
  assumes "enc \<noteq> db"
  shows "crash_triple (copied db enc k d e) (verify_copy F db enc k (user_version d)) (checked_copy db enc k d) (\<lambda>s. s db = Some (PlainDb d))"
  unfolding verify_copy_def
proof (rule triple_bind[where R = "\<lambda>_. copied db enc k d e"])
  show "crash_triple (copied db enc k d e) (query F enc) (\<lambda>_. copied db enc k d e) (\<lambda>s. s db = Some (PlainDb d))"
    by (rule keeps_triple[where I = "copied db enc k d e"], intro keeping) (auto simp: copied_def[abs_def] intro!: present_stays)
next
  fix q
  show "crash_triple (copied db enc k d e) (read_db (Some k) enc \<bind> (\<lambda>x. case x of None \<Rightarrow> State_Monad.return False
      | Some e' \<Rightarrow> if \<not> q then State_Monad.return False else do {
          ok \<leftarrow> (if user_version e' \<noteq> user_version d then set_version F enc k (user_version d) else State_Monad.return True);
          if ok then same_counts F db enc k COUNT_TABLES else State_Monad.return False })) (checked_copy db enc k d) (\<lambda>s. s db = Some (PlainDb d))"
  proof (rule triple_read[where v = "Some e"], goal_cases)
    case 2
    show ?case
      by (simp, intro conjI impI triple_return triple_bind[where R = "checked_copy db enc k d"] set_version_triple[OF assms])
        (auto simp: copied_def checked_copy_def intro!: triples triple_conseq[OF same_counts_triple] dbase_eqI)
  next
    case (3 x)
    show ?case unfolding inert_def by (intro keeping; simp)
  qed (simp add: copied_def)
qed

definition unmigrated :: "path \<Rightarrow> dbase \<Rightarrow> store \<Rightarrow> bool" where
  "unmigrated db d s \<longleftrightarrow> s db = Some (PlainDb d)"

lemma unmigrated_stays [simp]: "stays db (unmigrated db d)"
  by (rule present_stays) (simp add: unmigrated_def)

lemma unmigrated_free [simp]: "p \<noteq> db \<Longrightarrow> free p (unmigrated db d)"
  by (simp add: unmigrated_def free_def)

lemma triple_query: "stays p I \<Longrightarrow> (\<And>s. I s \<Longrightarrow> C s) \<Longrightarrow> crash_triple I (query F p) (\<lambda>_. I) C"
  by (rule keeps_triple[where I = I], intro keeping) auto

lemma export_run_triple:
  assumes "enc \<noteq> db" and "copies_tables X"
  shows "crash_triple (unmigrated db d) (export_run X F db enc k) (checked_copy db enc k d) (unmigrated db d)"
proof -
  have export: "crash_triple (unmigrated db d) (export_copy X F db enc k d)
      (\<lambda>ok s. unmigrated db d s \<and> (ok \<longrightarrow> copied db enc k d (X d) s)) (unmigrated db d)"
    unfolding export_copy_def using assms by (intro triple_step) (auto simp: unmigrated_def copied_def copies_tables_def)
  have verify: "crash_triple (copied db enc k d (X d)) (do { v \<leftarrow> query F db; if \<not> v then State_Monad.return False
      else verify_copy F db enc k (user_version d) }) (checked_copy db enc k d) (unmigrated db d)"
    by (rule triple_bind[OF triple_query]; (intro triples triple_conseq[OF verify_copy_triple[OF assms(1)]])?)
      (auto simp: unmigrated_def copied_def checked_copy_def)
  show ?thesis
    unfolding export_run_def
  proof (rule triple_bind[OF triple_query], goal_cases)
    case (3 q)
    show ?case
    proof (rule triple_read[where v = "Some d"], goal_cases)
      case 2
      show ?case
        by (simp, intro conjI impI triple_return triple_bind[OF export])
          (auto simp: unmigrated_def checked_copy_def intro!: triples triple_conseq[OF verify])
    next
      case (3 x)
      show ?case unfolding inert_def by (intro keeping; simp)
    qed (simp add: unmigrated_def)
  qed auto
qed

lemma swap_triple:
  assumes "gentle F"
  shows "crash_triple (checked_copy (db_of a) (enc_of a) k d True) (swap F (db_of a) (enc_of a)) (\<lambda>_. holds k a d) (kept k a d)"
proof -
  have first: "crash_triple (checked_copy (db_of a) (enc_of a) k d True) (rename_file F (db_of a) (bak_of a))
      (\<lambda>ok s. if ok then parked a d s \<and> s (enc_of a) = Some (EncDb k d) else holds k a d s) (kept k a d)"
    unfolding rename_file_def by (intro triple_step) (auto simp: checked_copy_def parked_def holds_def kept_def)
  have second: "crash_triple (\<lambda>s. parked a d s \<and> s (enc_of a) = Some (EncDb k d)) (rename_file F (enc_of a) (db_of a))
      (\<lambda>ok s. if ok then holds k a d s else parked a d s) (kept k a d)"
    unfolding rename_file_def by (intro triple_step) (auto simp: parked_def holds_def kept_def)
  have undo: "crash_triple (parked a d) (rename_file F (bak_of a) (db_of a)) (\<lambda>_. holds k a d) (kept k a d)"
    unfolding rename_file_def using assms by (intro triple_step) (auto simp: parked_def holds_def kept_def)
  show ?thesis
    unfolding swap_def
    by (intro triple_bind[OF first] triple_if triple_return triple_bind[OF triple_pre[OF second]] triple_bind[OF triple_pre[OF undo]]) auto
qed

lemma migrate_triple:
  assumes "gentle F" and "copies_tables X"
  shows "crash_triple (unmigrated (db_of a) d) (migrate X F (db_of a) k) (\<lambda>_. holds k a d) (kept k a d)"
proof -
  let ?enc = "enc_of a" and ?db = "db_of a"
  have drop: "crash_triple (holds k a d) (remove_file F (sibling ?db x)) (\<lambda>_. holds k a d) (kept k a d)" for x
    by (rule keeps_triple[where I = "holds k a d"], intro keeping) (auto simp: free_def holds_def kept_def)
  have start: "crash_triple (unmigrated ?db d) (remove_file F ?enc) (\<lambda>_. unmigrated ?db d) (kept k a d)"
    by (rule keeps_triple[where I = "unmigrated ?db d"], intro keeping) (auto simp: unmigrated_def holds_def kept_def)
  have export: "crash_triple (unmigrated ?db d) (export_run X F ?db ?enc k) (checked_copy ?db ?enc k d) (kept k a d)"
    by (rule triple_conseq[OF export_run_triple[OF _ assms(2)]]) (auto simp: unmigrated_def holds_def kept_def)
  have sync: "crash_triple (checked_copy ?db ?enc k d ok) (if ok then sync_file F ?enc else State_Monad.return False)
      (checked_copy ?db ?enc k d) (kept k a d)" for ok
    by (intro triple_if triple_return keeps_triple[where I = "checked_copy ?db ?enc k d ok"] keeping)
      (auto simp: checked_copy_def holds_def kept_def)
  show ?thesis
    unfolding migrate_def
    by (intro triple_bind[OF start] triple_bind[OF export] triple_bind[OF sync] triple_if triple_bind[OF triple_pre[OF drop]]
          triple_bind[OF triple_pre[OF swap_triple[OF assms(1)]]] triple_return triple_bind[OF drop])
      (auto simp: checked_copy_def holds_def)
qed

subsection \<open>A start with the key\<close>

lemma opens_triple:
  assumes "gentle F" and "\<And>s. P s \<Longrightarrow> s p = Some c" and "\<And>s. P s \<Longrightarrow> C s"
  shows "crash_triple P (opens F p key) (\<lambda>ok s. ok = (data_of key c \<noteq> None) \<and> P s) C"
  unfolding opens_def
proof (rule triple_bind[where R = "\<lambda>ok s. ok \<and> P s"])
  show "crash_triple P (fs_step F (Open p) (\<lambda>_. True) (touch p) id) (\<lambda>ok s. ok \<and> P s) C"
    using assms(1,3) by (intro triple_step) (auto simp: touch_def dest: assms(2))
  show "crash_triple (\<lambda>s. ok \<and> P s) (do { d \<leftarrow> read_db key p; State_Monad.return (ok \<and> d \<noteq> None) })
      (\<lambda>ok s. ok = (data_of key c \<noteq> None) \<and> P s) C" for ok
    by (intro triple_bind[OF triple_read_db[where Q = "\<lambda>x s. x = data_of key c \<and> ok \<and> P s"]] triple_return) (auto dest: assms(2))
qed

fun kind_of :: "string option \<Rightarrow> content \<Rightarrow> kind" where
  "kind_of key c = (if data_of None c \<noteq> None then Plain else if key \<noteq> None \<and> data_of key c \<noteq> None then Ours else Foreign)"

lemma classify_triple:
  assumes "gentle F" and "\<And>s. P s \<Longrightarrow> s p = Some c" and "\<And>s. P s \<Longrightarrow> C s"
  shows "crash_triple P (classify F p key) (\<lambda>x s. x = kind_of key c \<and> P s) C"
  unfolding classify_def
  by (intro triple_known[OF opens_triple[OF assms]] triples triple_bind[OF opens_triple[OF assms]])
    (auto split: option.splits if_splits intro!: inert_bind)

lemma examine_triple:
  assumes "gentle F" and "copies_tables X"
  shows "crash_triple (holds k a d) (examine X F (Some k) (db_of b) r) (\<lambda>_. holds k a d) (kept k a d)"
proof (cases "b = a")
  case False
  then have "spares b (holds k a d)"
    by (auto simp: spares_def free_def holds_def db_of_def)
  then show ?thesis
    by (intro keeps_triple[where I = "holds k a d"] keeping) (auto simp: kept_def)
next
  case True
  let ?ours = "\<lambda>s. s (db_of a) = Some (EncDb k d)"
  have plain: "crash_triple (unmigrated (db_of a) d) (examine X F (Some k) (db_of a) r) (\<lambda>_. holds k a d) (kept k a d)"
    unfolding examine_def
  proof (rule triple_known[OF classify_triple[OF assms(1)]])
    show "crash_triple (unmigrated (db_of a) d) (case kind_of (Some k) (PlainDb d) of Plain \<Rightarrow> on_plain X F (Some k) (db_of a) r
        | Ours \<Rightarrow> on_ours F (Some k) (db_of a) r | Foreign \<Rightarrow> on_foreign F (db_of a) r) (\<lambda>_. holds k a d) (kept k a d)"
      unfolding on_plain_def by (simp, intro triple_bind[OF migrate_triple[OF assms]] triple_return)
  qed (auto simp: unmigrated_def holds_def kept_def split: kind.split)
  have ours: "crash_triple ?ours (examine X F (Some k) (db_of a) r) (\<lambda>_. holds k a d) (kept k a d)"
    unfolding examine_def
  proof (rule triple_known[OF classify_triple[OF assms(1)]])
    have "keeps ?ours (on_ours F (Some k) (db_of a) r)"
      unfolding on_ours_def by (intro keeping; simp)
    then show "crash_triple ?ours (case kind_of (Some k) (EncDb k d) of Plain \<Rightarrow> on_plain X F (Some k) (db_of a) r
        | Ours \<Rightarrow> on_ours F (Some k) (db_of a) r | Foreign \<Rightarrow> on_foreign F (db_of a) r) (\<lambda>_. holds k a d) (kept k a d)"
      by (auto intro!: keeps_triple[where I = ?ours] simp: holds_def kept_def)
  qed (auto simp: holds_def kept_def split: kind.split)
  show ?thesis
    using triple_disj[OF plain ours] True by (simp add: unmigrated_def[abs_def] holds_def[abs_def])
qed

lemma pass_triple:
  assumes "gentle F" and "copies_tables X"
  shows "set dbs \<subseteq> range db_of \<Longrightarrow> crash_triple (holds k a d) (prepare_pass X F (Some k) dbs r)
     (\<lambda>x s. set (snd x) \<subseteq> range db_of \<and> holds k a d s) (kept k a d)"
proof (induction dbs arbitrary: r)
  case (Cons db dbs)
  then obtain b where [simp]: "db = db_of b" by auto
  show ?case
    using Cons by (auto intro!: triple_bind[OF examine_triple[OF assms]] triple_bind[OF Cons.IH] triples split: if_splits)
qed (auto intro!: triple_return)

lemma pass_listed:
  "gentle F \<Longrightarrow> copies_tables X \<Longrightarrow> crash_triple (\<lambda>s. set dbs \<subseteq> range db_of \<and> holds k a d s) (prepare_pass X F (Some k) dbs r)
     (\<lambda>x s. set (snd x) \<subseteq> range db_of \<and> holds k a d s) (kept k a d)"
  by (rule triple_pure[OF pass_triple]) simp_all

lemma restore_missing_holds: "crash_triple (holds k a d) (restore_missing F (db_of b)) (\<lambda>_. holds k a d) (kept k a d)"
proof (cases "b = a")
  case False
  then show ?thesis
    by (intro keeps_triple[where I = "holds k a d"] keeping) (auto simp: kept_def spares_def free_def holds_def db_of_def)
next
  case True
  then show ?thesis
    unfolding restore_missing_def
    by (intro triple_known[where v = True and R = "holds k a d"] triple_is_file) (auto simp: holds_def intro!: triples inert_bind)
qed

lemma restore_missing_triple:
  assumes "gentle F"
  shows "crash_triple (kept k a d) (restore_missing F (db_of b)) (\<lambda>_ s. if b = a then holds k a d s else kept k a d s) (kept k a d)"
proof (cases "b = a")
  case False
  then have "spares b (kept k a d)"
    by (auto simp: kept_def parked_def spares_def free_def holds_def db_of_def sibling_def)
  with False show ?thesis
    by (intro keeps_triple[where I = "kept k a d"] keeping) auto
next
  case True
  have put: "crash_triple (parked a d) (rename_file F (bak_of a) (db_of a)) (\<lambda>_. holds k a d) (kept k a d)"
    unfolding rename_file_def using assms by (intro triple_step) (auto simp: parked_def holds_def kept_def)
  have "crash_triple (parked a d) (restore_missing F (db_of a)) (\<lambda>_. holds k a d) (kept k a d)"
    unfolding restore_missing_def
  proof (rule triple_known[where v = False and R = "parked a d", OF triple_is_file], goal_cases)
    case 2
    show ?case
      by simp (rule triple_known[OF opens_triple[OF assms, where c = "PlainDb d"]];
        auto simp: parked_def kept_def intro!: inert_bind triple_bind[OF triple_pre[OF put]] triple_return)
  qed (auto simp: parked_def intro!: inert_bind)
  from triple_disj[OF restore_missing_holds[of k a d F a] this] True show ?thesis
    by (simp add: kept_def[abs_def])
qed

lemma restore_all_holds: "set dbs \<subseteq> range db_of \<Longrightarrow> crash_triple (holds k a d) (restore_all F dbs) (\<lambda>_. holds k a d) (kept k a d)"
  by (induction dbs) (auto intro!: triple_return triple_bind[OF restore_missing_holds])

lemma restore_all_triple:
  assumes "gentle F"
  shows "set dbs \<subseteq> range db_of \<Longrightarrow> db_of a \<in> set dbs \<Longrightarrow> crash_triple (kept k a d) (restore_all F dbs) (\<lambda>_. holds k a d) (kept k a d)"
proof (induction dbs)
  case (Cons db dbs)
  then obtain b where [simp]: "db = db_of b" by auto
  have "crash_triple (\<lambda>s. if b = a then holds k a d s else kept k a d s) (restore_all F dbs) (\<lambda>_. holds k a d) (kept k a d)"
    using Cons restore_all_holds[of dbs k a d F] by (cases "b = a") simp_all
  then show ?case
    by (auto intro!: triple_bind[OF restore_missing_triple[OF assms]])
qed simp

theorem prepare_triple:
  assumes "gentle F" and "copies_tables X" and "a \<in> set dirs"
  shows "crash_triple (kept k a d) (prepare X F dirs (Some k)) (\<lambda>_. holds k a d) (kept k a d)"
  unfolding prepare_def
proof (rule triple_bind)
  show "crash_triple (kept k a d) (account_dbs dirs) (\<lambda>dbs s. (set dbs \<subseteq> range db_of \<and> db_of a \<in> set dbs) \<and> kept k a d s) (kept k a d)"
    unfolding account_dbs_def using assms(3)
    by (rule_tac triple_look[where g = "\<lambda>s. filter (\<lambda>p. s p \<noteq> None \<or> s (sibling p ''plain.bak'') \<noteq> None) (map db_of dirs)"])
      (auto simp: kept_def holds_def parked_def)
  show "crash_triple (\<lambda>s. (set dbs \<subseteq> range db_of \<and> db_of a \<in> set dbs) \<and> kept k a d s)
      (do { _ \<leftarrow> restore_all F dbs; files \<leftarrow> retain_files dbs;
        (r1, redo) \<leftarrow> prepare_pass X F (Some k) files \<lparr>migrated = 0, already = 0, locked = 0, failed = 0\<rparr>;
        (r2, _) \<leftarrow> prepare_pass X F (Some k) redo r1;
        State_Monad.return (r2, Some k \<noteq> None \<and> (already r2 + migrated r2 > 0 \<or> failed r2 = 0)) })
      (\<lambda>_. holds k a d) (kept k a d)" for dbs
  proof (rule triple_pure, elim conjE, rule triple_bind[OF restore_all_triple[OF assms(1)]], goal_cases)
    case (3 u)
    have "crash_triple (holds k a d) (retain_files dbs) (\<lambda>files s. set files \<subseteq> range db_of \<and> holds k a d s) (kept k a d)"
      unfolding retain_files_def using 3 by (intro triple_look[where g = "\<lambda>s. filter (\<lambda>p. s p \<noteq> None) dbs"]) auto
    then show ?case
      by (intro triple_bind[OF _ triple_bind[OF pass_listed[OF assms(1,2)]]] triple_pair triple_bind[OF triple_pre[OF pass_listed[OF assms(1,2)]]] triple_return) auto
  qed (auto intro!: inert_bind)
qed

subsection \<open>Starts and sessions\<close>

text \<open>
  After a start that was not cut short the core runs: it reads and writes the databases that the handed key opens, leaves
  the others closed, and creates a database where none is. The last element of the state is what the accounts hold.
\<close>

definition seal_db :: "string option \<Rightarrow> dbase \<Rightarrow> content" where
  "seal_db key d = (case key of None \<Rightarrow> PlainDb d | Some k \<Rightarrow> EncDb k d)"

definition core_session :: "string list \<Rightarrow> string option \<Rightarrow> (string \<Rightarrow> dbase \<Rightarrow> dbase) \<Rightarrow> store \<Rightarrow> store" where
  "core_session dirs key core s = (\<lambda>p. if p \<in> set (map db_of dirs) then (case s p of
       None \<Rightarrow> Some (seal_db key (core (fst p) empty_db))
     | Some c \<Rightarrow> (case data_of key c of None \<Rightarrow> Some c | Some d \<Rightarrow> Some (seal_db key (core (fst p) d)))) else s p)"

definition written :: "string option \<Rightarrow> (string \<Rightarrow> dbase \<Rightarrow> dbase) \<Rightarrow> store \<Rightarrow> (string \<Rightarrow> dbase) \<Rightarrow> string \<Rightarrow> dbase" where
  "written key core s latest a = (case Option.bind (s (db_of a)) (data_of key) of None \<Rightarrow> latest a | Some d \<Rightarrow> core a d)"

definition app_start :: "(dbase \<Rightarrow> dbase) \<Rightarrow> string list \<Rightarrow> string option \<Rightarrow> faults \<times> (string \<Rightarrow> dbase \<Rightarrow> dbase)
    \<Rightarrow> machine \<times> (string \<Rightarrow> dbase) \<Rightarrow> machine \<times> (string \<Rightarrow> dbase)" where
  "app_start X dirs key x y = (case run_state (prepare X (fst x) dirs key) ((fst y)\<lparr>dead := False\<rparr>) of ((r, use), w) \<Rightarrow>
     let handed = (if use then key else None) in
     if dead w then (w, snd y)
     else (w\<lparr>disk := core_session dirs handed (snd x) (disk w)\<rparr>, written handed (snd x) (disk w) (snd y)))"

lemma session_holds:
  assumes "holds k a (latest a) s" and "a \<in> set dirs" and "handed = None \<or> handed = Some k"
  shows "kept k a (written handed core s latest a) (core_session dirs handed core s)"
  using assms by (auto simp: kept_def holds_def written_def core_session_def seal_db_def)

lemma start_kept:
  assumes "copies_tables X" and "gentle (fst x)" and "a \<in> set dirs" and "kept k a (snd y a) (disk (fst y))"
  shows "kept k a (snd (app_start X dirs (Some k) x y) a) (disk (fst (app_start X dirs (Some k) x y)))"
proof -
  obtain r use w where run: "run_state (prepare X (fst x) dirs (Some k)) ((fst y)\<lparr>dead := False\<rparr>) = ((r, use), w)"
    by (metis surj_pair)
  have "if dead w then kept k a (snd y a) (disk w) else holds k a (snd y a) (disk w)"
    using tripleD[OF prepare_triple[OF assms(2,1,3)], of "(fst y)\<lparr>dead := False\<rparr>" k "snd y a"] assms(4) unfolding run by (auto split: if_splits)
  then show ?thesis
    using session_holds[OF _ assms(3)] by (auto simp: app_start_def run Let_def)
qed


definition demo_db :: dbase where
  "demo_db = \<lparr>tables = [(''msgs'', [(''1'', ''hello'')]), (''chats'', []), (''contacts'', []), (''config'', [(''addr'', ''ann'')]), (''keypairs'', [(''1'', ''key'')])],
     user_version = 7\<rparr>"

definition demo_machine :: "(string \<times> content) list \<Rightarrow> machine" where
  "demo_machine fs = \<lparr>disk = (\<lambda>p. if fst p = ''acc'' then map_of fs (snd p) else None), clock = 0, dead = False\<rparr>"

text \<open>The process dies between the two renames of a migration.\<close>

definition dies_in_swap :: faults where
  "dies_in_swap = (\<lambda>_ x. if x = Rename (enc_of ''acc'') (db_of ''acc'') then Dies else Works)"


subsection \<open>A database that no key opens\<close>

definition closed_db :: "string option \<Rightarrow> string \<Rightarrow> content \<Rightarrow> store \<Rightarrow> bool" where
  "closed_db key a c s \<longleftrightarrow> s (db_of a) = Some c \<and> s (bak_of a) = None \<and> data_of None c = None \<and> data_of key c = None"

lemma closed_stays [simp]: "stays (db_of a) (closed_db key a c)"
  by (rule present_stays) (simp add: closed_db_def)

lemma opens_closed:
  "k' = None \<or> k' = key \<Longrightarrow> crash_triple (closed_db key a c) (opens F (db_of a) k') (\<lambda>ok s. \<not> ok \<and> closed_db key a c s) (closed_db key a c)"
  unfolding opens_def
  by (intro triple_bind[OF keeps_triple[where I = "closed_db key a c" and Q = "\<lambda>_. closed_db key a c"]] keeping
      triple_bind[OF triple_read_db[where Q = "\<lambda>x s. x = None \<and> closed_db key a c s"]] triple_return)
    (auto simp: closed_db_def[of key a c])

lemma examine_closed: "keeps (closed_db key a c) (examine X F key (db_of b) r)"
proof (cases "b = a")
  case False
  then show ?thesis
    by (intro keeping) (auto simp: spares_def free_def closed_db_def db_of_def sibling_def)
next
  case True
  let ?I = "closed_db key a c"
  have classify: "crash_triple ?I (classify F (db_of a) key) (\<lambda>x s. x = Foreign \<and> ?I s) ?I"
    unfolding classify_def
    by (intro triple_bind[OF opens_closed[of None key]] triple_if triple_option triple_return triple_bind[OF triple_pre[OF opens_closed]]) auto
  have foreign: "crash_triple ?I (on_foreign F (db_of a) r) (\<lambda>_. ?I) ?I"
    unfolding on_foreign_def
    by (intro triple_known[where v = False and R = ?I] triple_is_file) (auto simp: closed_db_def intro!: triples inert_bind triple_known[where v = False and R = ?I])
  show ?thesis
    unfolding keeps_def examine_def True
    by (rule triple_known[OF classify]) (auto simp: foreign split: kind.split)
qed

lemma keeps_list:
  assumes "\<And>b r. keeps I (examine X F key (db_of b) r)"
  shows "set dbs \<subseteq> range db_of \<Longrightarrow> crash_triple I (prepare_pass X F key dbs r) (\<lambda>x s. set (snd x) \<subseteq> range db_of \<and> I s) I"
proof (induction dbs arbitrary: r)
  case (Cons db dbs)
  then obtain b where [simp]: "db = db_of b" by auto
  show ?case
    using Cons by (auto intro!: triple_bind[OF assms[unfolded keeps_def]] triple_bind[OF Cons.IH] triples split: if_splits)
qed (auto intro!: triple_return)

lemma prepare_keeps:
  assumes "\<And>b r. keeps I (examine X F key (db_of b) r)" and "\<And>b. keeps I (restore_missing F (db_of b))"
  shows "keeps I (prepare X F dirs key)"
  unfolding keeps_def prepare_def
proof (rule triple_bind[where R = "\<lambda>dbs s. set dbs \<subseteq> range db_of \<and> I s"])
  show "crash_triple I (account_dbs dirs) (\<lambda>dbs s. set dbs \<subseteq> range db_of \<and> I s) I"
    unfolding account_dbs_def
    by (rule triple_look[where g = "\<lambda>s. filter (\<lambda>p. s p \<noteq> None \<or> s (sibling p ''plain.bak'') \<noteq> None) (map db_of dirs)"]) auto
  fix dbs :: "path list"
  have restore: "set dbs \<subseteq> range db_of \<Longrightarrow> keeps I (restore_all F dbs)"
    by (induction dbs) (auto intro!: keeps_return keeps_bind assms(2))
  have listed: "crash_triple (\<lambda>s. set xs \<subseteq> range db_of \<and> I s) (prepare_pass X F key xs r) (\<lambda>x s. set (snd x) \<subseteq> range db_of \<and> I s) I" for xs r
    by (rule triple_pure[OF keeps_list[OF assms(1)]]) simp_all
  show "crash_triple (\<lambda>s. set dbs \<subseteq> range db_of \<and> I s)
      (do { _ \<leftarrow> restore_all F dbs; files \<leftarrow> retain_files dbs;
        (r1, redo) \<leftarrow> prepare_pass X F key files \<lparr>migrated = 0, already = 0, locked = 0, failed = 0\<rparr>;
        (r2, _) \<leftarrow> prepare_pass X F key redo r1;
        State_Monad.return (r2, key \<noteq> None \<and> (already r2 + migrated r2 > 0 \<or> failed r2 = 0)) }) (\<lambda>_. I) I"
  proof (rule triple_pure, rule triple_bind[OF restore[unfolded keeps_def]], goal_cases)
    case (2 u)
    have "crash_triple I (retain_files dbs) (\<lambda>files s. set files \<subseteq> range db_of \<and> I s) I"
      unfolding retain_files_def using 2 by (intro triple_look[where g = "\<lambda>s. filter (\<lambda>p. s p \<noteq> None) dbs"]) auto
    then show ?case
      by (intro triple_bind[OF _ triple_bind[OF listed]] triple_pair triple_bind[OF triple_pre[OF listed]] triple_return) auto
  qed (auto intro!: inert_bind)
qed

text \<open>C14: a database that opens neither without a key nor with the key of this start, and has no backup, is not touched
  by the start, whatever fails and wherever it dies.\<close>

theorem locked_database_untouched:
  assumes "data_of None c = None" and "data_of key c = None" and "disk w (db_of a) = Some c" and "disk w (bak_of a) = None"
  shows "disk (snd (run_state (prepare X F dirs key) w)) (db_of a) = Some c"
proof -
  have "keeps (closed_db key a c) (restore_missing F (db_of b))" for b
  proof (cases "b = a")
    case True
    then show ?thesis
      unfolding restore_missing_def keeps_def
      by (intro triple_known[where v = True and R = "closed_db key a c"] triple_is_file) (auto simp: closed_db_def intro!: triples inert_bind)
  next
    case False
    then show ?thesis by (intro keeping) (auto simp: spares_def free_def closed_db_def db_of_def sibling_def)
  qed
  then have kp: "keeps (closed_db key a c) (prepare X F dirs key)"
    by (intro prepare_keeps examine_closed)
  have "closed_db key a c (disk w)"
    using assms by (simp add: closed_db_def)
  then have "closed_db key a c (disk (snd (run_state (prepare X F dirs key) w)))"
    using tripleD[OF kp[unfolded keeps_def], of w] triple_inert[OF kp[unfolded keeps_def], of w] by (cases "dead w") (auto split: if_splits)
  then show ?thesis by (simp add: closed_db_def)
qed

theorem locked_database_untouched_witness:
  "disk (snd (run_state (prepare id dies_in_swap [''acc''] (Some ''k'')) (demo_machine [(''dc.db'', EncDb ''lost'' demo_db)]))) (db_of ''acc'')
     = Some (EncDb ''lost'' demo_db)"
  by (rule locked_database_untouched) (simp_all add: demo_machine_def db_of_def sibling_def)

subsection \<open>A start without faults\<close>

definition works :: faults where
  "works = (\<lambda>_ _. Works)"

lemma works_simps [simp]: "works n x \<noteq> Fails" "works n x \<noteq> Dies" "gentle works"
  by (simp_all add: works_def gentle_def)

definition has_tables :: "dbase \<Rightarrow> bool" where
  "has_tables d \<longleftrightarrow> (\<forall>t\<in>set COUNT_TABLES. count_rows d t \<noteq> None)"

text \<open>Without faults the process does not die, so what is asserted of a crash does not matter here.\<close>

abbreviation anywhere :: "store \<Rightarrow> bool" where "anywhere \<equiv> \<lambda>_. True"

definition survives :: "'a act \<Rightarrow> bool" where
  "survives m \<longleftrightarrow> (\<forall>w. dead (snd (run_state m w)) = dead w)"

named_theorems surviving

lemma survives_basic [surviving]:
  "survives (State_Monad.return x)" "survives (fs_step works y able eff torn)" "survives (is_file p)" "survives (read_db k p)"
  "survives (account_dbs dirs)" "survives (retain_files dbs)"
  by (simp_all add: survives_def State_Monad.return_def fs_step_def works_def Let_def is_file_def read_db_def account_dbs_def retain_files_def)

lemma survives_bind [surviving]: "survives m \<Longrightarrow> (\<And>a. survives (f a)) \<Longrightarrow> survives (State_Monad.bind m f)"
  unfolding survives_def run_bind by simp

lemma survives_splits [surviving]:
  "(b \<Longrightarrow> survives m) \<Longrightarrow> (\<not> b \<Longrightarrow> survives m') \<Longrightarrow> survives (if b then m else m')"
  "(x = None \<Longrightarrow> survives m1) \<Longrightarrow> (\<And>y. x = Some y \<Longrightarrow> survives (f y)) \<Longrightarrow> survives (case x of None \<Rightarrow> m1 | Some y \<Rightarrow> f y)"
  "(\<And>u v. z = (u, v) \<Longrightarrow> survives (g u v)) \<Longrightarrow> survives (case z of (u, v) \<Rightarrow> g u v)"
  "survives n1 \<Longrightarrow> survives n2 \<Longrightarrow> survives n3 \<Longrightarrow> survives (case c of Plain \<Rightarrow> n1 | Ours \<Rightarrow> n2 | Foreign \<Rightarrow> n3)"
  by (auto split: option.split prod.split kind.split)

lemma survives_ops [surviving]:
  "survives (remove_file works p)" "survives (rename_file works p q)" "survives (sync_file works p)" "survives (query works p)"
  "survives (set_version works p k v)" "survives (export_copy X works p q k d)" "survives (opens works p key)"
  unfolding remove_file_def rename_file_def sync_file_def query_def set_version_def export_copy_def opens_def by (intro surviving)+

lemma survives_same_counts [surviving]: "survives (same_counts works p q k ts)"
  by (induction ts) (simp_all, (intro surviving; simp)+)

lemma survives_examine [surviving]: "survives (examine X works key p r)"
  unfolding examine_def classify_def on_plain_def on_ours_def on_foreign_def prune_backup_def bak_superseded_def migrate_def export_run_def
    verify_copy_def swap_def by (intro surviving)

lemma survives_lists [surviving]: "survives (prepare_pass X works key dbs r)" "survives (restore_all works dbs)"
proof -
  show "survives (prepare_pass X works key dbs r)"
    by (induction dbs arbitrary: r) (simp_all, (intro surviving; simp)+)
  show "survives (restore_all works dbs)"
    unfolding restore_missing_def[abs_def] by (induction dbs) (simp_all add: restore_missing_def, (intro surviving; simp)+)
qed

lemma survives_prepare: "survives (prepare X works dirs key)"
  unfolding prepare_def by (intro surviving)

lemma works_query: "(\<And>s. P s \<Longrightarrow> s p \<noteq> None) \<Longrightarrow> crash_triple P (query works p) (\<lambda>ok s. ok \<and> P s) anywhere"
  unfolding query_def by (intro triple_step) (use present_stays[of P p] in \<open>auto simp: stays_def\<close>)

lemma works_same_counts:
  "(\<And>t. t \<in> set ts \<Longrightarrow> count_rows d t \<noteq> None) \<Longrightarrow>
   crash_triple (copied db enc k d d) (same_counts works db enc k ts) (\<lambda>ok s. ok \<and> copied db enc k d d s) anywhere"
proof (induction ts)
  case (Cons t ts)
  have q: "crash_triple (copied db enc k d d) (query works p) (\<lambda>ok s. ok \<and> copied db enc k d d s) anywhere" if "p = db \<or> p = enc" for p
    using that by (intro works_query) (auto simp: copied_def)
  obtain n where n: "count_rows d t = Some n" using Cons.prems[of t] by auto
  show ?case
    unfolding same_counts.simps
    using Cons
    by (intro triple_true[OF q] triple_read[where v = "Some d"]) (auto simp: n inert_def copied_def intro!: keeping)
qed (auto intro!: triple_return)

lemma works_verify_copy:
  assumes "enc \<noteq> db" and "has_tables d"
  shows "crash_triple (copied db enc k d e) (verify_copy works db enc k (user_version d)) (\<lambda>ok s. ok \<and> copied db enc k d d s) anywhere"
proof -
  have version: "crash_triple (copied db enc k d e) (if user_version e \<noteq> user_version d then set_version works enc k (user_version d)
      else State_Monad.return True) (\<lambda>ok s. ok \<and> copied db enc k d d s) anywhere"
    unfolding set_version_def using assms(1)
    by (intro triple_if triple_step triple_return) (auto simp: copied_def intro: dbase_eqI)
  have q: "crash_triple (copied db enc k d e) (query works enc) (\<lambda>ok s. ok \<and> copied db enc k d e s) anywhere"
    by (intro works_query) (auto simp: copied_def)
  show ?thesis
    unfolding verify_copy_def
  proof (rule triple_true[OF q], rule triple_read[where v = "Some e"], goal_cases)
    case 2
    show ?case
      unfolding option.case not_True_eq_False if_False
      by (rule triple_true[OF version]) (use assms(2) in \<open>auto simp: has_tables_def inert_def intro!: works_same_counts keeping\<close>)
  qed (auto simp: copied_def inert_def intro!: keeping)
qed

lemma works_export_run:
  assumes "enc \<noteq> db" and "has_tables d" and "copies_tables X"
  shows "crash_triple (\<lambda>s. unmigrated db d s \<and> s enc = None) (export_run X works db enc k) (\<lambda>ok s. ok \<and> copied db enc k d d s) anywhere"
proof -
  let ?P = "\<lambda>s. unmigrated db d s \<and> s enc = None"
  have export: "crash_triple ?P (export_copy X works db enc k d) (\<lambda>ok s. ok \<and> copied db enc k d (X d) s) anywhere"
    unfolding export_copy_def using assms by (intro triple_step) (auto simp: unmigrated_def copied_def copies_tables_def)
  have q: "crash_triple ?P (query works db) (\<lambda>ok s. ok \<and> ?P s) anywhere"
      "crash_triple (copied db enc k d (X d)) (query works db) (\<lambda>ok s. ok \<and> copied db enc k d (X d) s) anywhere"
    by (intro works_query; auto simp: copied_def unmigrated_def)+
  show ?thesis
    unfolding export_run_def
  proof (rule triple_true[OF q(1)], rule triple_read[where v = "Some d"], goal_cases)
    case 2
    show ?case
      unfolding option.case not_True_eq_False if_False
      by (rule triple_true[OF export], simp, rule triple_true[OF q(2)])
        (auto simp: inert_def intro!: works_verify_copy assms keeping)
  qed (auto simp: unmigrated_def inert_def intro!: keeping)
qed

definition encrypted :: "string \<Rightarrow> string \<Rightarrow> dbase \<Rightarrow> store \<Rightarrow> bool" where
  "encrypted k a d s \<longleftrightarrow> s (db_of a) = Some (EncDb k d)"

lemma works_migrate:
  assumes "has_tables d" and "copies_tables X"
  shows "crash_triple (unmigrated (db_of a) d) (migrate X works (db_of a) k)
     (\<lambda>ok s. ok \<and> encrypted k a d s \<and> s (bak_of a) = Some (PlainDb d)) anywhere"
proof -
  let ?db = "db_of a" and ?enc = "enc_of a"
  let ?done = "\<lambda>s. encrypted k a d s \<and> s (bak_of a) = Some (PlainDb d)"
  have clear: "crash_triple (unmigrated ?db d) (remove_file works ?enc) (\<lambda>_ s. unmigrated ?db d s \<and> s ?enc = None) anywhere"
    unfolding remove_file_def by (intro triple_step) (auto simp: unmigrated_def)
  have sync: "crash_triple (copied ?db ?enc k d d) (sync_file works ?enc) (\<lambda>ok s. ok \<and> copied ?db ?enc k d d s) anywhere"
    unfolding sync_file_def by (intro triple_step) (auto simp: copied_def)
  have r1: "crash_triple (copied ?db ?enc k d d) (rename_file works ?db (bak_of a))
      (\<lambda>ok s. ok \<and> s (bak_of a) = Some (PlainDb d) \<and> s ?enc = Some (EncDb k d)) anywhere"
    unfolding rename_file_def by (intro triple_step) (auto simp: copied_def)
  have r2: "crash_triple (\<lambda>s. s (bak_of a) = Some (PlainDb d) \<and> s ?enc = Some (EncDb k d)) (rename_file works ?enc ?db) (\<lambda>ok s. ok \<and> ?done s) anywhere"
    unfolding rename_file_def by (intro triple_step) (auto simp: encrypted_def)
  have swap: "crash_triple (copied ?db ?enc k d d) (swap works ?db ?enc) (\<lambda>ok s. ok \<and> ?done s) anywhere"
    unfolding swap_def
    by (rule triple_true[OF r1], simp, rule triple_true[OF r2]) (auto intro!: triples inert_bind)
  have wal: "crash_triple ?done (remove_file works (sibling ?db x)) (\<lambda>_. ?done) anywhere" if "x \<noteq> ''plain.bak''" for x
    unfolding remove_file_def using that by (intro triple_step) (auto simp: encrypted_def)
  show ?thesis
    unfolding migrate_def
    apply (rule triple_bind[OF clear])
    apply (rule triple_true[OF works_export_run[OF _ assms]], simp)
     apply (simp, rule triple_true[OF sync])
      apply (simp, rule triple_true[OF swap])
       apply (simp, rule triple_bind[OF wal], simp, rule triple_bind[OF wal], simp, rule triple_return, simp)
    by (auto simp: inert_def intro!: keeping)
qed

definition good :: "prep \<Rightarrow> bool" where
  "good r \<longleftrightarrow> failed r = 0 \<and> locked r = 0"

definition ready :: "string list \<Rightarrow> string \<Rightarrow> (string \<Rightarrow> dbase) \<Rightarrow> string set \<Rightarrow> store \<Rightarrow> bool" where
  "ready dirs k latest D s \<longleftrightarrow> (\<forall>b\<in>set dirs. holds k b (latest b) s \<and> (b \<in> D \<longrightarrow> encrypted k b (latest b) s))"

lemma works_examine_one:
  assumes "has_tables d" and "copies_tables X"
  shows "crash_triple (holds k a d) (examine X works (Some k) (db_of a) r)
     (\<lambda>x s. (\<not> snd x \<and> (good r \<longrightarrow> good (fst x))) \<and> encrypted k a d s) anywhere"
proof -
  let ?Q = "\<lambda>x s. (\<not> snd x \<and> (good r \<longrightarrow> good (fst x))) \<and> encrypted k a d s"
  have plain: "crash_triple (unmigrated (db_of a) d) (examine X works (Some k) (db_of a) r) ?Q anywhere"
    unfolding examine_def
  proof (rule triple_known[OF classify_triple])
    show "crash_triple (unmigrated (db_of a) d) (case kind_of (Some k) (PlainDb d) of Plain \<Rightarrow> on_plain X works (Some k) (db_of a) r
        | Ours \<Rightarrow> on_ours works (Some k) (db_of a) r | Foreign \<Rightarrow> on_foreign works (db_of a) r) ?Q anywhere"
      unfolding on_plain_def by (simp, intro triple_bind[OF works_migrate[OF assms]] triple_return) (auto simp: good_def)
  qed (auto simp: unmigrated_def split: kind.split)
  have ours: "crash_triple (encrypted k a d) (examine X works (Some k) (db_of a) r) ?Q anywhere"
    unfolding examine_def
  proof (rule triple_known[OF classify_triple])
    have prune: "crash_triple (encrypted k a d) (prune_backup works (Some k) (db_of a)) (\<lambda>_. encrypted k a d) anywhere"
      by (intro keeps_triple[where I = "encrypted k a d"] keeping) (simp_all add: encrypted_def[abs_def])
    show "crash_triple (encrypted k a d) (case kind_of (Some k) (EncDb k d) of Plain \<Rightarrow> on_plain X works (Some k) (db_of a) r
        | Ours \<Rightarrow> on_ours works (Some k) (db_of a) r | Foreign \<Rightarrow> on_foreign works (db_of a) r) ?Q anywhere"
      unfolding on_ours_def by (simp, intro triple_bind[OF prune] triple_return) (auto simp: good_def)
  qed (auto simp: encrypted_def split: kind.split)
  show ?thesis
    using triple_disj[OF plain ours] by (simp add: unmigrated_def[abs_def] encrypted_def[abs_def] holds_def[abs_def])
qed

lemma works_examine:
  assumes "has_tables (latest a)" and "copies_tables X" and "a \<in> set dirs"
  shows "crash_triple (ready dirs k latest D) (examine X works (Some k) (db_of a) r)
     (\<lambda>x s. (\<not> snd x \<and> (good r \<longrightarrow> good (fst x))) \<and> ready dirs k latest (insert a D) s) anywhere"
proof -
  let ?I = "\<lambda>s. \<forall>b\<in>set dirs. b \<noteq> a \<longrightarrow> holds k b (latest b) s \<and> (b \<in> D \<longrightarrow> encrypted k b (latest b) s)"
  have "spares a ?I"
    by (auto simp: spares_def free_def holds_def encrypted_def db_of_def)
  then have "keeps ?I (examine X works (Some k) (db_of a) r)"
    by (intro keeping) simp
  from triple_and_keeps[OF works_examine_one[OF assms(1,2)] this] show ?thesis
    by (rule triple_conseq) (use assms(3) in \<open>auto simp: ready_def holds_def encrypted_def\<close>)
qed

lemma works_pass:
  assumes "\<forall>a\<in>set dirs. has_tables (latest a)" and "copies_tables X"
  shows "set xs \<subseteq> set dirs \<Longrightarrow> crash_triple (ready dirs k latest D) (prepare_pass X works (Some k) (map db_of xs) r)
     (\<lambda>x s. (snd x = [] \<and> (good r \<longrightarrow> good (fst x))) \<and> ready dirs k latest (D \<union> set xs) s) anywhere"
proof (induction xs arbitrary: D r)
  case (Cons a xs)
  then have a: "has_tables (latest a)" "a \<in> set dirs" and xs: "set xs \<subseteq> set dirs" using assms(1) by auto
  show ?case
    unfolding list.map prepare_pass.simps
  proof (rule triple_bind[OF works_examine[where latest = latest, OF a(1) assms(2) a(2)]], rule triple_pair, goal_cases)
    case (1 x r1 again)
    show ?case
      by (rule triple_pure, intro triple_bind[OF triple_pre[OF Cons.IH[OF xs, of "insert a D"]]] triples)
        (use 1 in \<open>auto intro!: inert_bind\<close>)
  qed
qed (auto intro!: triple_return)

lemma triple_all:
  assumes "\<And>a. a \<in> A \<Longrightarrow> crash_triple (P a) m (Q a) (C a)" and "inert m"
  shows "crash_triple (\<lambda>s. \<forall>a\<in>A. P a s) m (\<lambda>x s. \<forall>a\<in>A. Q a x s) anywhere"
proof (rule tripleI)
  fix w :: machine
  assume "\<not> dead w" "\<forall>a\<in>A. P a (disk w)"
  then show "if dead (snd (run_state m w)) then True else \<forall>a\<in>A. Q a (fst (run_state m w)) (disk (snd (run_state m w)))"
    using tripleD[OF assms(1)] by (auto split: if_splits)
qed (use assms(2) in \<open>auto simp: inert_def keeps_def crash_triple_def\<close>)

lemma works_prepare:
  assumes tabs: "\<forall>a\<in>set dirs. has_tables (latest a)" and X: "copies_tables X"
  shows "crash_triple (\<lambda>s. \<forall>a\<in>set dirs. kept k a (latest a) s) (prepare X works dirs (Some k))
     (\<lambda>x s. (snd x \<and> good (fst x)) \<and> (\<forall>a\<in>set dirs. encrypted k a (latest a) s)) anywhere"
  unfolding prepare_def
proof (rule triple_known[where v = "map db_of dirs" and R = "\<lambda>s. \<forall>a\<in>set dirs. kept k a (latest a) s"], goal_cases)
  case 1
  show ?case
    unfolding account_dbs_def
    by (rule triple_look[where g = "\<lambda>s. filter (\<lambda>p. s p \<noteq> None \<or> s (sibling p ''plain.bak'') \<noteq> None) (map db_of dirs)"])
      (auto simp: filter_id_conv kept_def holds_def parked_def)
next
  case 2
  have restore: "crash_triple (\<lambda>s. \<forall>a\<in>set dirs. kept k a (latest a) s) (restore_all works (map db_of dirs))
      (\<lambda>_ s. \<forall>a\<in>set dirs. holds k a (latest a) s) anywhere"
    by (rule triple_all[OF restore_all_triple]) auto
  have retain: "crash_triple (\<lambda>s. \<forall>a\<in>set dirs. holds k a (latest a) s) (retain_files (map db_of dirs))
      (\<lambda>x s. x = map db_of dirs \<and> ready dirs k latest {} s) anywhere"
    unfolding retain_files_def
    by (rule triple_look[where g = "\<lambda>s. filter (\<lambda>p. s p \<noteq> None) (map db_of dirs)"]) (auto simp: filter_id_conv holds_def ready_def)
  have first: "crash_triple (ready dirs k latest {}) (prepare_pass X works (Some k) (map db_of dirs) \<lparr>migrated = 0, already = 0, locked = 0, failed = 0\<rparr>)
      (\<lambda>x s. (snd x = [] \<and> good (fst x)) \<and> ready dirs k latest (set dirs) s) anywhere"
    by (rule triple_conseq[OF works_pass[OF tabs X, of dirs]]) (auto simp: good_def)
  show ?case
  proof (rule triple_bind[OF restore], rule triple_known[OF retain], rule triple_bind[OF first], rule triple_pair, goal_cases)
    case (1 u x r1 redo)
    show ?case
      by (rule triple_pure, use 1 in \<open>auto intro!: triples inert_bind triple_bind[where R = "\<lambda>x s. x = (r1, []) \<and> ready dirs k latest (set dirs) s"]\<close>)
        (auto simp: good_def ready_def)
  qed (auto intro!: inert_bind)
qed (auto intro!: inert_bind)

text \<open>C13: a start with the key and without faults leaves every account encrypted under the key with its latest data, fails
  none, locks none, and hands the key over.\<close>

theorem clean_start_encrypts:
  assumes "copies_tables X" and "\<not> dead w" and "\<forall>a\<in>set dirs. kept k a (latest a) (disk w) \<and> has_tables (latest a)"
  shows "case run_state (prepare X works dirs (Some k)) w of ((r, use_key), w') \<Rightarrow>
     use_key \<and> good r \<and> \<not> dead w' \<and> (\<forall>a\<in>set dirs. disk w' (db_of a) = Some (EncDb k (latest a)))"
proof -
  have "crash_triple (\<lambda>s. \<forall>a\<in>set dirs. kept k a (latest a) s) (prepare X works dirs (Some k))
     (\<lambda>x s. (snd x \<and> good (fst x)) \<and> (\<forall>a\<in>set dirs. encrypted k a (latest a) s)) anywhere"
    using assms(1,3) by (intro works_prepare) auto
  from tripleD[OF this assms(2)] survives_prepare[of X dirs "Some k"] assms(2,3) show ?thesis
    by (auto simp: survives_def encrypted_def split: prod.splits if_splits)
qed

theorem clean_start_encrypts_witness:
  "case run_state (prepare id works [''acc''] (Some ''k'')) (demo_machine [(''dc.db'', PlainDb demo_db)]) of ((r, use_key), w') \<Rightarrow>
     use_key \<and> good r \<and> \<not> dead w' \<and> (\<forall>a\<in>set [''acc'']. disk w' (db_of a) = Some (EncDb ''k'' demo_db))"
  by (rule clean_start_encrypts[where latest = "\<lambda>_. demo_db"])
    (auto simp: copies_tables_def kept_def holds_def demo_machine_def db_of_def has_tables_def COUNT_TABLES_def demo_db_def count_rows_def)

subsection \<open>A start without the key\<close>

definition superseded_by :: "string \<Rightarrow> string \<Rightarrow> dbase \<Rightarrow> dbase \<Rightarrow> store \<Rightarrow> bool" where
  "superseded_by k a d e s \<longleftrightarrow> s (db_of a) = Some (EncDb k e) \<and> s (bak_of a) = Some (PlainDb d)"

definition rolled_back :: "string \<Rightarrow> dbase \<Rightarrow> store \<Rightarrow> bool" where
  "rolled_back a d s \<longleftrightarrow> s (db_of a) = Some (PlainDb d) \<and> s (bak_of a) = None"

lemma superseded_byD: "superseded_by k a d e s \<Longrightarrow> s (db_of a) = Some (EncDb k e)" "superseded_by k a d e s \<Longrightarrow> s (bak_of a) = Some (PlainDb d)"
  by (simp_all add: superseded_by_def)

lemma examine_keyless:
  "crash_triple (superseded_by k a d e) (examine X works None (db_of a) r) (\<lambda>_. rolled_back a d) anywhere"
  "crash_triple (rolled_back a d) (examine X works None (db_of a) r) (\<lambda>_. rolled_back a d) anywhere"
proof -
  let ?P = "superseded_by k a d e"
  have remove: "crash_triple ?P (remove_file works (db_of a)) (\<lambda>_ s. s (bak_of a) = Some (PlainDb d)) anywhere"
    unfolding remove_file_def by (intro triple_step) (auto simp: superseded_by_def)
  have rename: "crash_triple (\<lambda>s. s (bak_of a) = Some (PlainDb d)) (rename_file works (bak_of a) (db_of a)) (\<lambda>_. rolled_back a d) anywhere"
    unfolding rename_file_def by (intro triple_step) (auto simp: rolled_back_def)
  have "crash_triple ?P (on_foreign works (db_of a) r) (\<lambda>_. rolled_back a d) anywhere"
    unfolding on_foreign_def
  proof (rule triple_known[where v = True and R = ?P, OF triple_is_file], goal_cases)
    case 2
    show ?case
      by (simp, rule triple_known[OF opens_triple[where c = "PlainDb d"]])
        (auto simp: superseded_byD intro!: inert_bind triple_bind[OF triple_pre[OF remove]] triple_bind[OF rename] triple_return)
  qed (auto simp: superseded_byD intro!: inert_bind)
  then show "crash_triple ?P (examine X works None (db_of a) r) (\<lambda>_. rolled_back a d) anywhere"
    unfolding examine_def
    by (intro triple_known[OF classify_triple[where c = "EncDb k e"]]) (auto simp: superseded_byD split: kind.split)
  show "crash_triple (rolled_back a d) (examine X works None (db_of a) r) (\<lambda>_. rolled_back a d) anywhere"
    unfolding examine_def
    by (intro triple_known[OF classify_triple[where c = "PlainDb d"]])
      (auto simp: rolled_back_def on_plain_def intro!: triple_return split: kind.split)
qed

lemma keyless_spared: "b \<noteq> a \<Longrightarrow> spares b (superseded_by k a d e)" "b \<noteq> a \<Longrightarrow> spares b (rolled_back a d)"
  by (auto simp: spares_def free_def superseded_by_def rolled_back_def db_of_def sibling_def)

lemma rolled_back_kept: "crash_triple (rolled_back a d) (examine X works None (db_of b) r) (\<lambda>_. rolled_back a d) anywhere"
  by (cases "b = a") (auto intro!: examine_keyless keeps_triple[where I = "rolled_back a d"] keeping keyless_spared)

lemma pass_rolled_back:
  "set dbs \<subseteq> range db_of \<Longrightarrow> crash_triple (rolled_back a d) (prepare_pass X works None dbs r)
     (\<lambda>x s. set (snd x) \<subseteq> range db_of \<and> rolled_back a d s) anywhere"
proof (induction dbs arbitrary: r)
  case (Cons db dbs)
  then obtain b where [simp]: "db = db_of b" by auto
  show ?case
    using Cons by (auto intro!: triple_bind[OF rolled_back_kept] triple_bind[OF Cons.IH] triples split: if_splits)
qed (auto intro!: triple_return)

lemma pass_keyless:
  "set dbs \<subseteq> range db_of \<Longrightarrow> db_of a \<in> set dbs \<Longrightarrow> crash_triple (superseded_by k a d e) (prepare_pass X works None dbs r)
     (\<lambda>x s. set (snd x) \<subseteq> range db_of \<and> rolled_back a d s) anywhere"
proof (induction dbs arbitrary: r)
  case (Cons db dbs)
  then obtain b where b: "db = db_of b" and dbs: "set dbs \<subseteq> range db_of" by auto
  let ?Q = "\<lambda>s. if b = a then rolled_back a d s else superseded_by k a d e s"
  have step: "crash_triple (superseded_by k a d e) (examine X works None db r) (\<lambda>_. ?Q) anywhere"
    unfolding b by (cases "b = a") (auto intro!: examine_keyless keeps_triple[where I = "superseded_by k a d e"] keeping keyless_spared)
  have rest: "crash_triple ?Q (prepare_pass X works None dbs r1) (\<lambda>x s. set (snd x) \<subseteq> range db_of \<and> rolled_back a d s) anywhere" for r1
    using Cons.prems pass_rolled_back[OF dbs] Cons.IH[OF dbs] by (cases "b = a") (simp_all add: b)
  show ?case
    unfolding prepare_pass.simps by (intro triple_bind[OF step] triple_bind[OF rest] triples) (auto simp: b split: if_splits)
qed simp

lemma prepare_keyless:
  assumes "a \<in> set dirs"
  shows "crash_triple (superseded_by k a d e) (prepare X works dirs None) (\<lambda>_. rolled_back a d) anywhere"
  unfolding prepare_def
proof (rule triple_bind)
  let ?P = "superseded_by k a d e"
  show "crash_triple ?P (account_dbs dirs) (\<lambda>dbs s. (set dbs \<subseteq> range db_of \<and> db_of a \<in> set dbs) \<and> ?P s) anywhere"
    unfolding account_dbs_def using assms
    by (intro triple_look[where g = "\<lambda>s. filter (\<lambda>p. s p \<noteq> None \<or> s (sibling p ''plain.bak'') \<noteq> None) (map db_of dirs)"])
      (auto simp: superseded_byD)
  fix dbs :: "path list"
  have one: "crash_triple ?P (restore_missing works (db_of b)) (\<lambda>_. ?P) anywhere" for b
  proof (cases "b = a")
    case True
    then show ?thesis
      unfolding restore_missing_def
      by (intro triple_known[where v = True and R = ?P] triple_is_file) (auto simp: superseded_byD intro!: triples inert_bind)
  qed (auto intro!: keeps_triple[where I = ?P] keeping keyless_spared)
  have restore: "set dbs \<subseteq> range db_of \<Longrightarrow> crash_triple ?P (restore_all works dbs) (\<lambda>_. ?P) anywhere"
    by (induction dbs) (auto intro!: triple_return triple_bind[OF one])
  show "crash_triple (\<lambda>s. (set dbs \<subseteq> range db_of \<and> db_of a \<in> set dbs) \<and> ?P s)
      (do { _ \<leftarrow> restore_all works dbs; files \<leftarrow> retain_files dbs;
        (r1, redo) \<leftarrow> prepare_pass X works None files \<lparr>migrated = 0, already = 0, locked = 0, failed = 0\<rparr>;
        (r2, _) \<leftarrow> prepare_pass X works None redo r1;
        State_Monad.return (r2, None \<noteq> None \<and> (already r2 + migrated r2 > 0 \<or> failed r2 = 0)) }) (\<lambda>_. rolled_back a d) anywhere"
  proof (rule triple_pure, elim conjE, rule triple_bind[OF restore], goal_cases)
    case (2 u)
    have retain: "crash_triple ?P (retain_files dbs) (\<lambda>files s. (set files \<subseteq> range db_of \<and> db_of a \<in> set files) \<and> ?P s) anywhere"
      unfolding retain_files_def using 2 by (intro triple_look[where g = "\<lambda>s. filter (\<lambda>p. s p \<noteq> None) dbs"]) (auto simp: superseded_byD)
    have first: "crash_triple (\<lambda>s. (set xs \<subseteq> range db_of \<and> db_of a \<in> set xs) \<and> ?P s) (prepare_pass X works None xs r)
        (\<lambda>x s. set (snd x) \<subseteq> range db_of \<and> rolled_back a d s) anywhere" for xs r
      by (rule triple_pure[OF pass_keyless]) auto
    have second: "crash_triple (\<lambda>s. set xs \<subseteq> range db_of \<and> rolled_back a d s) (prepare_pass X works None xs r)
        (\<lambda>_. rolled_back a d) anywhere" for xs r
      by (rule triple_pure[OF triple_conseq[OF pass_rolled_back]]) auto
    show ?case
      by (intro triple_bind[OF retain triple_bind[OF first]] triple_pair triple_bind[OF triple_pre[OF second]] triple_return) auto
  qed (auto intro!: inert_bind)
qed

text \<open>C15: a start that has no key, because the keychain did not give it, puts the plaintext backup of an earlier migration
  in the place of the encrypted database: everything written to the account since that migration is gone.\<close>

theorem keyless_start_discards_session:
  assumes "a \<in> set dirs" and "\<not> dead w" and "disk w (db_of a) = Some (EncDb k e)" and "disk w (bak_of a) = Some (PlainDb d)"
  shows "rolled_back a d (disk (snd (run_state (prepare X works dirs None) w)))"
  using tripleD[OF prepare_keyless[OF assms(1)] assms(2), of k d e X] survives_prepare[of X dirs None] assms(2-4)
  by (auto simp: survives_def superseded_by_def)

theorem keyless_start_discards_session_witness:
  "rolled_back ''acc'' demo_db (disk (snd (run_state (prepare id works [''acc''] None)
     (demo_machine [(''dc.db'', EncDb ''k'' (demo_db\<lparr>tables := [(''msgs'', [(''1'', ''hello''), (''2'', ''new'')])]\<rparr>)), (''dc.db.plain.bak'', PlainDb demo_db)]))))"
  by (rule keyless_start_discards_session) (simp_all add: demo_machine_def db_of_def sibling_def)

end
