(* ===== verification/KeyRoots.thy ===== *)
theory KeyRoots
  imports Attachment DbStart
begin

section \<open>Custody of the database key\<close>

text \<open>
  The key half of \<open>velta-app/src-tauri/src/db_key.rs\<close>: one random key per installation, kept in the system's keychain, or
  wrapped under the app-lock PIN (\<open>dbkey.wrap\<close>), or wrapped under a Windows Hello signature (\<open>dbkey.wrap.hello\<close>,
  \<open>win_hello.rs\<close>); the wraps replace the keychain item. The Android counterparts of the PIN operations are in \<open>lib.rs\<close>, with the
  Keystore's plain wrap in the place of the keychain item. AES-GCM, Argon2id, SHA-256 and the hex codec are third-party
  code and parameters; random values, the keychain's answers, the Hello signature and the outcome of each file
  write are arguments.
\<close>

subsection \<open>Keys and wraps\<close>

record crypto =
  aes :: aead
  derive_pin_kek :: "string \<Rightarrow> byte list \<Rightarrow> byte list"
  sha256 :: "byte list \<Rightarrow> byte list"
  hex_encode :: "byte list \<Rightarrow> string"
  hex_decode :: "string \<Rightarrow> byte list option"

text \<open>What is documented of them: the laws of AES-GCM, and that lower-case hex is a bijection with two digits for a byte.\<close>

definition crypto_laws :: "crypto \<Rightarrow> bool" where
  "crypto_laws M \<longleftrightarrow> aead_laws (aes M) \<and> (\<forall>b. hex_decode M (hex_encode M b) = Some b)
     \<and> (\<forall>h b. hex_decode M h = Some b \<longrightarrow> hex_encode M b = h \<and> length h = 2 * length b)"

datatype lookup = Found string | NoEntry | Unavailable

datatype key_issue = KeychainUnavailable | KeyMissing

datatype key_error = PinTooShort | BadDek | WriteFailed | CurrentPinRequired | Retry nat | CorruptWrap | NoKey
  | NoKeychain | KeychainWriteFailed | VerifyFailed | PrepareFailed | HelloFailed | Cancelled

definition is_dek :: "string \<Rightarrow> bool" where
  "is_dek h \<longleftrightarrow> length h = 64 \<and> list_all hexdigit h"

definition decide_key :: "lookup \<Rightarrow> bool \<Rightarrow> string option \<times> bool \<times> key_issue option" where
  "decide_key l enc = (case l of
     Found h \<Rightarrow> (Some h, False, None)
   | NoEntry \<Rightarrow> if enc then (None, False, Some KeyMissing) else (None, True, None)
   | Unavailable \<Rightarrow> if enc then (None, False, Some KeyMissing) else (None, False, Some KeychainUnavailable))"

text \<open>How the keychain behaves during an operation.\<close>

record chain =
  entry_ok :: bool
  read_ok :: bool
  write_ok :: bool
  delete_ok :: bool

definition keychain_lookup :: "chain \<Rightarrow> string option \<Rightarrow> lookup" where
  "keychain_lookup ch item = (if \<not> entry_ok ch then Unavailable else if \<not> read_ok ch then Unavailable
     else case item of None \<Rightarrow> NoEntry | Some h \<Rightarrow> if is_dek h then Found h else Unavailable)"

text \<open>\<open>std::fs::write\<close> truncates the file and then writes it: it may be refused, or stop part of the way.\<close>

datatype put = Put | Refused | Torn nat

fun write_file :: "put \<Rightarrow> byte list \<Rightarrow> byte list option \<Rightarrow> bool \<times> byte list option" where
  "write_file Put bs old = (True, Some bs)"
| "write_file Refused bs old = (False, old)"
| "write_file (Torn n) bs old = (False, Some (take n bs))"

definition remove_wrap :: "bool \<Rightarrow> byte list option \<Rightarrow> byte list option" where
  "remove_wrap ok f = (if ok then None else f)"

subsection \<open>The PIN wrap\<close>

definition le4 :: "32 word \<Rightarrow> byte list" where
  "le4 c = rev (be_bytes 4 (unat c))"

definition le4_val :: "byte list \<Rightarrow> 32 word" where
  "le4_val bs = of_nat (be_val (rev bs))"

abbreviation PIN_MAGIC :: "byte list" where "PIN_MAGIC \<equiv> [0x56, 0x4C, 0x54, 0x44, 0x57]"

definition pin_header :: "32 word \<Rightarrow> byte list \<Rightarrow> byte list \<Rightarrow> byte list" where
  "pin_header c salt nonce = PIN_MAGIC @ [1] @ le4 c @ salt @ nonce"

definition pin_wrap_write :: "crypto \<Rightarrow> put \<Rightarrow> byte list \<times> byte list \<Rightarrow> string \<Rightarrow> string \<Rightarrow> byte list option
    \<Rightarrow> (key_error + unit) \<times> byte list option" where
  "pin_wrap_write M o1 rnd pin dek f =
     (if length (chars pin) < 6 then (Inl PinTooShort, f)
      else if \<not> is_dek dek then (Inl BadDek, f)
      else let salt = fst rnd; nonce = snd rnd; head = pin_header 0 salt nonce; aad = take 6 head @ salt @ nonce in
        case hex_decode M dek of
          None \<Rightarrow> (Inl BadDek, f)
        | Some raw \<Rightarrow> (case write_file o1 (head @ seal_with (aes M) (derive_pin_kek M pin salt) nonce aad raw) f of
             (True, f') \<Rightarrow> (Inr (), f')
           | (False, f') \<Rightarrow> (Inl WriteFailed, f')))"

definition pin_counter_store :: "put \<Rightarrow> 32 word \<Rightarrow> byte list option \<Rightarrow> byte list option" where
  "pin_counter_store o1 c f = (case f of
     None \<Rightarrow> None
   | Some bs \<Rightarrow> if length bs \<ge> 10 then snd (write_file o1 (take 6 bs @ le4 c @ drop 10 bs) f) else f)"

definition backoff_secs :: "32 word \<Rightarrow> nat" where
  "backoff_secs n = (if n = 0 then 0 else min 30 (2 ^ min (unat (n - 1)) 5))"

datatype pin_open = Dek string | Wrong "32 word" nat | Corrupt

definition saturating_inc :: "32 word \<Rightarrow> 32 word" where
  "saturating_inc n = (if n = - 1 then n else n + 1)"

text \<open>What a wrap holds for a PIN, and the attempt, which writes the counter back.\<close>

definition well_formed_wrap :: "byte list \<Rightarrow> bool" where
  "well_formed_wrap bs \<longleftrightarrow> length bs = 86 \<and> slice 0 5 bs = PIN_MAGIC \<and> bs ! 5 = 1"

definition unwrap_pin :: "crypto \<Rightarrow> string \<Rightarrow> byte list \<Rightarrow> string option" where
  "unwrap_pin M pin bs =
     (let salt = slice 10 26 bs; nonce = slice 26 38 bs; aad = slice 0 6 bs @ salt @ nonce in
      map_option (hex_encode M) (open_with (aes M) (derive_pin_kek M pin salt) nonce aad (drop 38 bs)))"

definition pin_wrap_open :: "crypto \<Rightarrow> put \<Rightarrow> string \<Rightarrow> byte list option \<Rightarrow> pin_open \<times> byte list option" where
  "pin_wrap_open M o1 pin f = (case f of
     None \<Rightarrow> (Corrupt, f)
   | Some bs \<Rightarrow> if \<not> well_formed_wrap bs then (Corrupt, f)
       else (case unwrap_pin M pin bs of
          Some h \<Rightarrow> (Dek h, pin_counter_store o1 0 f)
        | None \<Rightarrow> let n = saturating_inc (le4_val (slice 6 10 bs)) in (Wrong n (backoff_secs n), pin_counter_store o1 n f)))"

subsection \<open>The Windows Hello wrap\<close>

abbreviation HELLO_MAGIC :: "byte list" where "HELLO_MAGIC \<equiv> [0x56, 0x4C, 0x54, 0x48, 0x57]"

definition hello_wrap_ct :: "byte list \<Rightarrow> byte list option" where
  "hello_wrap_ct bs = (if length bs \<noteq> 66 \<or> slice 0 5 bs \<noteq> HELLO_MAGIC \<or> bs ! 5 \<noteq> 1 then None else Some (drop 6 bs))"

definition hello_locked :: "byte list option \<Rightarrow> bool" where
  "hello_locked f = (case f of None \<Rightarrow> False | Some bs \<Rightarrow> hello_wrap_ct bs \<noteq> None)"

definition bytes_of :: "string \<Rightarrow> byte list" where
  "bytes_of s = map (\<lambda>c. of_nat (of_char c)) s"

definition kek :: "crypto \<Rightarrow> byte list \<Rightarrow> byte list" where
  "kek M sig = sha256 M (bytes_of ''velta-hello-kek-v1'' @ sig)"

abbreviation WRAP_AAD :: "byte list" where "WRAP_AAD \<equiv> HELLO_MAGIC @ [1]"

text \<open>The signature over the fixed challenge, or the error the prompt ended with.\<close>

type_synonym prompt = "key_error + byte list"

definition hello_seal :: "crypto \<Rightarrow> prompt \<Rightarrow> byte list \<Rightarrow> byte list \<Rightarrow> key_error + byte list" where
  "hello_seal M sign nonce dek =
     (if length dek \<noteq> 32 then Inl BadDek
      else case sign of Inl e \<Rightarrow> Inl e
        | Inr sig \<Rightarrow> let ct = seal_with (aes M) (kek M sig) nonce WRAP_AAD dek in
            if open_with (aes M) (kek M sig) nonce WRAP_AAD ct \<noteq> Some dek then Inl HelloFailed else Inr (nonce @ ct))"

definition hello_open :: "crypto \<Rightarrow> prompt \<Rightarrow> byte list \<Rightarrow> key_error + byte list" where
  "hello_open M sign w =
     (if length w \<noteq> 60 then Inl CorruptWrap
      else case sign of Inl e \<Rightarrow> Inl e
        | Inr sig \<Rightarrow> (case open_with (aes M) (kek M sig) (take 12 w) WRAP_AAD (drop 12 w) of
            None \<Rightarrow> Inl CorruptWrap
          | Some p \<Rightarrow> if length p \<noteq> 32 then Inl CorruptWrap else Inr p))"

definition hello_dek :: "crypto \<Rightarrow> prompt \<Rightarrow> byte list option \<Rightarrow> key_error + string" where
  "hello_dek M sign f = (case Option.bind f hello_wrap_ct of
     None \<Rightarrow> Inl CorruptWrap
   | Some ct \<Rightarrow> (case hello_open M sign ct of Inl e \<Rightarrow> Inl e | Inr raw \<Rightarrow> Inr (hex_encode M raw)))"

subsection \<open>Changing the key root\<close>

record roots =
  wrap :: "byte list option"
  hello :: "byte list option"
  item :: "string option"

text \<open>What an operation meets: the keychain, the outcome of its file writes and of its removal, the Hello prompt, and the
  random values it draws.\<close>

record hand =
  keychain :: chain
  writes :: "nat \<Rightarrow> put"
  removes :: bool
  sign :: prompt
  pin_rnd :: "byte list \<times> byte list"
  hello_nonce :: "byte list"

definition drop_keychain :: "chain \<Rightarrow> string option \<Rightarrow> string option" where
  "drop_keychain ch i = (if entry_ok ch \<and> delete_ok ch then None else i)"

definition pin_result :: "pin_open \<Rightarrow> key_error + string" where
  "pin_result x = (case x of Dek d \<Rightarrow> Inr d | Wrong _ s \<Rightarrow> Inl (Retry s) | Corrupt \<Rightarrow> Inl CorruptWrap)"

definition current_dek :: "crypto \<Rightarrow> hand \<Rightarrow> string option \<Rightarrow> roots \<Rightarrow> (key_error + string) \<times> roots" where
  "current_dek M h pin r =
     (if wrap r \<noteq> None then (case pin of
          None \<Rightarrow> (Inl CurrentPinRequired, r)
        | Some p \<Rightarrow> (case pin_wrap_open M (writes h 0) p (wrap r) of (x, f) \<Rightarrow> (pin_result x, r\<lparr>wrap := f\<rparr>)))
      else if hello_locked (hello r) then (hello_dek M (sign h) (hello r), r)
      else (case keychain_lookup (keychain h) (item r) of
          Found d \<Rightarrow> (Inr d, r) | NoEntry \<Rightarrow> (Inl NoKey, r) | Unavailable \<Rightarrow> (Inl NoKeychain, r)))"

definition pin_set :: "crypto \<Rightarrow> hand \<Rightarrow> string option \<Rightarrow> string \<Rightarrow> roots \<Rightarrow> (key_error + unit) \<times> roots" where
  "pin_set M h old new r = (case current_dek M h old r of
     (Inl e, r1) \<Rightarrow> (Inl e, r1)
   | (Inr dek, r1) \<Rightarrow> (case pin_wrap_write M (writes h 1) (pin_rnd h) new dek (wrap r1) of
       (Inl e, f) \<Rightarrow> (Inl e, r1\<lparr>wrap := f\<rparr>)
     | (Inr _, f) \<Rightarrow> (case pin_wrap_open M (writes h 2) new f of
         (Dek _, f2) \<Rightarrow> (Inr (), r1\<lparr>wrap := f2, item := drop_keychain (keychain h) (item r1)\<rparr>)
       | (_, f2) \<Rightarrow> (Inl VerifyFailed, r1\<lparr>wrap := remove_wrap (removes h) f2\<rparr>))))"

definition pin_clear :: "crypto \<Rightarrow> hand \<Rightarrow> string \<Rightarrow> roots \<Rightarrow> (key_error + unit) \<times> roots" where
  "pin_clear M h pin r = (case pin_wrap_open M (writes h 0) pin (wrap r) of (x, f) \<Rightarrow>
     let r1 = r\<lparr>wrap := f\<rparr> in
     (case pin_result x of
        Inl e \<Rightarrow> (Inl e, r1)
      | Inr dek \<Rightarrow> if hello_locked (hello r) then (Inr (), r1\<lparr>wrap := remove_wrap (removes h) f\<rparr>)
          else if \<not> entry_ok (keychain h) then (Inl NoKeychain, r1)
          else if \<not> write_ok (keychain h) then (Inl KeychainWriteFailed, r1)
          else (Inr (), r1\<lparr>item := Some dek, wrap := remove_wrap (removes h) f\<rparr>)))"

definition hello_set :: "crypto \<Rightarrow> hand \<Rightarrow> string option \<Rightarrow> roots \<Rightarrow> (key_error + unit) \<times> roots" where
  "hello_set M h pin r =
     (if hello_locked (hello r) then (Inr (), r)
      else case current_dek M h pin r of
        (Inl e, r1) \<Rightarrow> (Inl e, r1)
      | (Inr dek, r1) \<Rightarrow> (case hex_decode M dek of
          None \<Rightarrow> (Inl BadDek, r1)
        | Some raw \<Rightarrow> (case hello_seal M (sign h) (hello_nonce h) raw of
            Inl e \<Rightarrow> (Inl e, r1)
          | Inr ct \<Rightarrow> (case write_file (writes h 1) (HELLO_MAGIC @ [1] @ ct) (hello r1) of
              (True, f) \<Rightarrow> (Inr (), r1\<lparr>hello := f, item := drop_keychain (keychain h) (item r1)\<rparr>)
            | (False, f) \<Rightarrow> (Inl WriteFailed, r1\<lparr>hello := f\<rparr>)))))"

definition hello_clear :: "crypto \<Rightarrow> hand \<Rightarrow> roots \<Rightarrow> (key_error + unit) \<times> roots" where
  "hello_clear M h r = (case hello_dek M (sign h) (hello r) of
     Inl e \<Rightarrow> (Inl e, r)
   | Inr dek \<Rightarrow> if wrap r \<noteq> None then (Inr (), r\<lparr>hello := remove_wrap (removes h) (hello r)\<rparr>)
       else if \<not> entry_ok (keychain h) then (Inl NoKeychain, r)
       else if \<not> write_ok (keychain h) then (Inl KeychainWriteFailed, r)
       else (Inr (), r\<lparr>item := Some dek, hello := remove_wrap (removes h) (hello r)\<rparr>))"

subsection \<open>Start and unlock\<close>

definition raw_key :: "string \<Rightarrow> string" where
  "raw_key h = ''x'' @ [CHR 0x27] @ h @ [CHR 0x27]"

definition create_dek :: "crypto \<Rightarrow> hand \<Rightarrow> byte list \<Rightarrow> machine \<Rightarrow> roots \<Rightarrow> string option \<times> roots" where
  "create_dek M h rnd w r =
     (if dead w \<or> \<not> entry_ok (keychain h) \<or> \<not> write_ok (keychain h) then (None, r)
      else (Some (hex_encode M rnd), r\<lparr>item := Some (hex_encode M rnd)\<rparr>))"

definition startup :: "crypto \<Rightarrow> (dbase \<Rightarrow> dbase) \<Rightarrow> faults \<Rightarrow> hand \<Rightarrow> byte list \<Rightarrow> string list \<Rightarrow> roots \<Rightarrow> machine
    \<Rightarrow> (string option \<times> key_issue option \<times> bool) \<times> roots \<times> machine" where
  "startup M X F h rnd dirs r w =
     (if hello_locked (hello r) \<or> wrap r \<noteq> None then ((None, None, True), r, w)
      else case run_state (has_encrypted F dirs) w of (enc, w1) \<Rightarrow>
        (case decide_key (keychain_lookup (keychain h) (item r)) enc of (hex, create, issue) \<Rightarrow>
          (case (if create then create_dek M h rnd w1 r else (hex, r)) of (hex1, r1) \<Rightarrow>
            let issue1 = (if create \<and> hex1 = None then Some KeychainUnavailable else issue) in
            (case run_state (prepare X F dirs hex1) w1 of ((rep, use), w2) \<Rightarrow>
              (((if use then map_option raw_key hex1 else None), issue1, False), r1, w2)))))"

definition pin_unlock :: "crypto \<Rightarrow> (dbase \<Rightarrow> dbase) \<Rightarrow> faults \<Rightarrow> hand \<Rightarrow> string list \<Rightarrow> string \<Rightarrow> roots \<Rightarrow> machine
    \<Rightarrow> (key_error + string) \<times> roots \<times> machine" where
  "pin_unlock M X F h dirs pin r w = (case pin_wrap_open M (writes h 0) pin (wrap r) of (x, f) \<Rightarrow>
     (case pin_result x of
        Inl e \<Rightarrow> (Inl e, r\<lparr>wrap := f\<rparr>, w)
      | Inr dek \<Rightarrow> (case run_state (prepare X F dirs (Some dek)) w of ((rep, use), w1) \<Rightarrow>
          ((if use then Inr (raw_key dek) else Inl PrepareFailed), r\<lparr>wrap := f\<rparr>, w1))))"

definition hello_unlock :: "crypto \<Rightarrow> (dbase \<Rightarrow> dbase) \<Rightarrow> faults \<Rightarrow> hand \<Rightarrow> string list \<Rightarrow> roots \<Rightarrow> machine
    \<Rightarrow> (key_error + string) \<times> roots \<times> machine" where
  "hello_unlock M X F h dirs r w = (case hello_dek M (sign h) (hello r) of
     Inl e \<Rightarrow> (Inl e, r, w)
   | Inr dek \<Rightarrow> (case run_state (prepare X F dirs (Some dek)) w of ((rep, use), w1) \<Rightarrow>
       if use then (Inr (raw_key dek), r\<lparr>item := drop_keychain (keychain h) (item r)\<rparr>, w1) else (Inl PrepareFailed, r, w1)))"

subsection \<open>Android\<close>

text \<open>The PIN operations of \<open>lib.rs\<close> on Android: the Keystore's plain wrap is \<open>item\<close>, the key the running core was opened with
  is the environment variable, and the biometric lock, which is kept in Kotlin, is a flag.\<close>

definition android_current_dek :: "string option \<Rightarrow> string option" where
  "android_current_dek var = Option.bind var (\<lambda>raw.
     Option.bind (Option.bind (strip_prefix [CHR ''x'', CHR 0x27] raw) (strip_suffix [CHR 0x27])) (\<lambda>h. if is_dek h then Some h else None))"

definition android_pin_set :: "crypto \<Rightarrow> hand \<Rightarrow> string option \<Rightarrow> string option \<Rightarrow> string \<Rightarrow> roots \<Rightarrow> (key_error + unit) \<times> roots" where
  "android_pin_set M h var old new r =
     (case (if wrap r \<noteq> None then (case old of
               None \<Rightarrow> (Inl CurrentPinRequired, r)
             | Some p \<Rightarrow> (case pin_wrap_open M (writes h 0) p (wrap r) of (x, f) \<Rightarrow> (pin_result x, r\<lparr>wrap := f\<rparr>)))
            else (case android_current_dek var of None \<Rightarrow> (Inl NoKey, r) | Some d \<Rightarrow> (Inr d, r))) of
        (Inl e, r1) \<Rightarrow> (Inl e, r1)
      | (Inr dek, r1) \<Rightarrow> (case pin_wrap_write M (writes h 1) (pin_rnd h) new dek (wrap r1) of
          (Inl e, f) \<Rightarrow> (Inl e, r1\<lparr>wrap := f\<rparr>)
        | (Inr _, f) \<Rightarrow> (case pin_wrap_open M (writes h 2) new f of
            (Dek _, f2) \<Rightarrow> (Inr (), r1\<lparr>wrap := f2, item := (if delete_ok (keychain h) then None else item r1)\<rparr>)
          | (_, f2) \<Rightarrow> (Inl VerifyFailed, r1\<lparr>wrap := remove_wrap (removes h) f2\<rparr>))))"

definition android_pin_clear :: "crypto \<Rightarrow> hand \<Rightarrow> bool \<Rightarrow> string \<Rightarrow> roots \<Rightarrow> (key_error + unit) \<times> roots" where
  "android_pin_clear M h biometric pin r = (case pin_wrap_open M (writes h 0) pin (wrap r) of (x, f) \<Rightarrow>
     let r1 = r\<lparr>wrap := f\<rparr> in
     (case pin_result x of
        Inl e \<Rightarrow> (Inl e, r1)
      | Inr dek \<Rightarrow> if biometric then (Inr (), r1\<lparr>wrap := remove_wrap (removes h) f\<rparr>)
          else if \<not> write_ok (keychain h) then (Inl NoKeychain, r1)
          else (Inr (), r1\<lparr>item := Some dek, wrap := remove_wrap (removes h) f\<rparr>)))"

definition android_pin_unlock :: "crypto \<Rightarrow> hand \<Rightarrow> string \<Rightarrow> roots \<Rightarrow> (key_error + string) \<times> roots" where
  "android_pin_unlock M h pin r = (case pin_wrap_open M (writes h 0) pin (wrap r) of (x, f) \<Rightarrow>
     ((case pin_result x of Inl e \<Rightarrow> Inl e | Inr dek \<Rightarrow> Inr (raw_key dek)), r\<lparr>wrap := f\<rparr>))"

text \<open>Which key the in-process core gets on Android: the one an unlock left, none while a lock waits for the user, or the
  Keystore's.\<close>

fun trim_start_key :: "string \<Rightarrow> string" where
  "trim_start_key (a # b # s) = (if a = CHR ''x'' \<and> b = CHR 0x27 then trim_start_key s else a # b # s)"
| "trim_start_key s = s"

definition trim_raw :: "string \<Rightarrow> string" where
  "trim_raw s = rev (dropWhile (\<lambda>c. c = CHR 0x27) (rev (trim_start_key s)))"

datatype boot = AppLocked | Keyed string | Keyless

definition android_core_key :: "(dbase \<Rightarrow> dbase) \<Rightarrow> faults \<Rightarrow> string list \<Rightarrow> string option \<Rightarrow> bool \<Rightarrow> bool \<Rightarrow> string option \<Rightarrow> machine
    \<Rightarrow> boot \<times> machine" where
  "android_core_key X F dirs unlocked pin_on biometric keystore w = (case unlocked of
     Some raw \<Rightarrow> (case run_state (prepare X F dirs (Some (trim_raw raw))) w of
       ((rep, use), w1) \<Rightarrow> (if use then Keyed raw else Keyless, w1))
   | None \<Rightarrow> if pin_on \<or> biometric then (AppLocked, w)
       else let hex = Option.bind keystore (\<lambda>h. if length h = 64 then Some h else None) in
         (case run_state (prepare X F dirs hex) w of
           ((rep, use), w1) \<Rightarrow> (case (use, hex) of (True, Some h) \<Rightarrow> Keyed (raw_key h) | _ \<Rightarrow> Keyless, w1)))"

subsection \<open>A wrap opens with its PIN\<close>

lemma length_le4 [simp]: "length (le4 c) = 4"
  by (simp add: le4_def)

lemma le4_val_le4 [simp]: "le4_val (le4 c) = c"
proof -
  have "be_val (be_bytes 4 (unat c)) = unat c"
    using unsigned_less[of c, where 'a = nat] by (simp add: be_val_be_bytes)
  then show ?thesis by (simp add: le4_val_def le4_def)
qed

definition rnd_sizes :: "byte list \<times> byte list \<Rightarrow> bool" where
  "rnd_sizes x \<longleftrightarrow> length (fst x) = 16 \<and> length (snd x) = 12"

definition sealed_dek :: "crypto \<Rightarrow> string \<Rightarrow> byte list \<times> byte list \<Rightarrow> byte list \<Rightarrow> byte list" where
  "sealed_dek M pin rnd raw = seal_with (aes M) (derive_pin_kek M pin (fst rnd)) (snd rnd) (PIN_MAGIC @ [1] @ fst rnd @ snd rnd) raw"

definition pin_wrap :: "crypto \<Rightarrow> string \<Rightarrow> byte list \<times> byte list \<Rightarrow> 32 word \<Rightarrow> byte list \<Rightarrow> byte list" where
  "pin_wrap M pin rnd c raw = pin_header c (fst rnd) (snd rnd) @ sealed_dek M pin rnd raw"

text \<open>A ciphertext opens to nothing but the message it was made of.\<close>

definition committing :: "crypto \<Rightarrow> bool" where
  "committing M \<longleftrightarrow> (\<forall>k k' n a m m'. open_with (aes M) k' n a (seal_with (aes M) k n a m) = Some m' \<longrightarrow> m' = m)"

lemma aes_laws:
  assumes "crypto_laws M"
  shows "length (seal_with (aes M) k n a m) = length m + 16" "open_with (aes M) k n a (seal_with (aes M) k n a m) = Some m"
  using assms unfolding crypto_laws_def aead_laws_def TAG_LEN_def by blast+

lemma hex_laws:
  assumes "crypto_laws M" and "hex_decode M h = Some b"
  shows "hex_encode M b = h" "length h = 2 * length b"
  using assms unfolding crypto_laws_def by blast+

lemma pin_wrap_parts:
  assumes "rnd_sizes rnd"
  shows "slice 0 5 (pin_wrap M pin rnd c raw) = PIN_MAGIC" "pin_wrap M pin rnd c raw ! 5 = 1"
    "slice 0 6 (pin_wrap M pin rnd c raw) = PIN_MAGIC @ [1]" "slice 10 26 (pin_wrap M pin rnd c raw) = fst rnd"
    "slice 26 38 (pin_wrap M pin rnd c raw) = snd rnd" "drop 38 (pin_wrap M pin rnd c raw) = sealed_dek M pin rnd raw"
    "slice 6 10 (pin_wrap M pin rnd c raw) = le4 c" "length (pin_wrap M pin rnd c raw) = 38 + length (sealed_dek M pin rnd raw)"
    "take 6 (pin_wrap M pin rnd c raw) @ le4 c' @ drop 10 (pin_wrap M pin rnd c raw) = pin_wrap M pin rnd c' raw"
  using assms by (simp_all add: rnd_sizes_def pin_wrap_def pin_header_def slice_def)

lemma well_formed_pin_wrap: "crypto_laws M \<Longrightarrow> rnd_sizes rnd \<Longrightarrow> length raw = 32 \<Longrightarrow> well_formed_wrap (pin_wrap M pin rnd c raw)"
  by (simp add: well_formed_wrap_def pin_wrap_parts sealed_dek_def aes_laws)

lemma unwrap_own: "crypto_laws M \<Longrightarrow> rnd_sizes rnd \<Longrightarrow> unwrap_pin M pin (pin_wrap M pin rnd c raw) = Some (hex_encode M raw)"
  by (simp add: unwrap_pin_def pin_wrap_parts Let_def sealed_dek_def aes_laws)

lemma unwrap_committing:
  assumes "committing M" and "rnd_sizes rnd" and "unwrap_pin M p (pin_wrap M pin rnd c raw) = Some h"
  shows "h = hex_encode M raw"
proof -
  obtain m where "open_with (aes M) (derive_pin_kek M p (fst rnd)) (snd rnd) (PIN_MAGIC @ [1] @ fst rnd @ snd rnd) (sealed_dek M pin rnd raw) = Some m"
    and "h = hex_encode M m"
    using assms(2,3) by (auto simp: unwrap_pin_def pin_wrap_parts Let_def)
  moreover have "m = raw"
    using assms(1) calculation(1) unfolding committing_def sealed_dek_def by blast
  ultimately show ?thesis by simp
qed

text \<open>The file holds the key under the PIN.\<close>

definition wraps :: "crypto \<Rightarrow> string \<Rightarrow> string \<Rightarrow> byte list option \<Rightarrow> bool" where
  "wraps M pin dek f \<longleftrightarrow> (\<exists>rnd c raw. rnd_sizes rnd \<and> length raw = 32 \<and> hex_encode M raw = dek \<and> f = Some (pin_wrap M pin rnd c raw))"

lemma wrapsI: "rnd_sizes rnd \<Longrightarrow> length raw = 32 \<Longrightarrow> hex_encode M raw = dek \<Longrightarrow> wraps M pin dek (Some (pin_wrap M pin rnd c raw))"
  unfolding wraps_def by blast

lemma wraps_some: "wraps M pin dek f \<Longrightarrow> f \<noteq> None"
  by (auto simp: wraps_def)

lemma open_wraps:
  assumes "crypto_laws M" and "committing M" and "wraps M pin dek f" and "\<forall>n. o1 \<noteq> Torn n"
  shows "wraps M pin dek (snd (pin_wrap_open M o1 p f))"
    and "fst (pin_wrap_open M o1 p f) = Dek d \<Longrightarrow> d = dek"
    and "fst (pin_wrap_open M o1 pin f) = Dek dek"
proof -
  obtain rnd c raw where w: "rnd_sizes rnd" "length raw = 32" "hex_encode M raw = dek" "f = Some (pin_wrap M pin rnd c raw)"
    using assms(3) by (auto simp: wraps_def)
  note wf = well_formed_pin_wrap[OF assms(1) w(1,2)]
  have store: "wraps M pin dek (pin_counter_store o1 c' f)" for c'
    using w assms(4) by (cases o1) (auto simp: pin_counter_store_def pin_wrap_parts intro: wrapsI)
  show "wraps M pin dek (snd (pin_wrap_open M o1 p f))"
    using store[unfolded w(4)] by (simp add: pin_wrap_open_def w(4) wf Let_def split: option.split)
  show "fst (pin_wrap_open M o1 p f) = Dek d \<Longrightarrow> d = dek"
    using unwrap_committing[OF assms(2) w(1)] w(3) by (auto simp: pin_wrap_open_def w(4) wf Let_def split: option.splits)
  show "fst (pin_wrap_open M o1 pin f) = Dek dek"
    by (simp add: pin_wrap_open_def w wf unwrap_own[OF assms(1) w(1)])
qed

text \<open>A successful write.\<close>

lemma wrap_write_wraps:
  assumes "crypto_laws M" and "rnd_sizes rnd" and "pin_wrap_write M o1 rnd pin dek f = (Inr (), f')"
  shows "wraps M pin dek f'"
proof -
  obtain raw where d: "is_dek dek" "hex_decode M dek = Some raw" and f': "f' = Some (pin_wrap M pin rnd 0 raw)"
    using assms(3) by (cases o1) (auto simp: pin_wrap_write_def Let_def pin_wrap_def sealed_dek_def pin_header_def split: if_splits option.splits)
  then show ?thesis
    using hex_laws[OF assms(1) d(2)] assms(2) by (auto simp: is_dek_def intro!: wrapsI)
qed

lemma wrap_write_error:
  assumes "pin_wrap_write M o1 rnd pin dek f = (Inl e, f')" and "\<And>n. o1 \<noteq> Torn n"
  shows "f' = f"
  using assms by (cases o1) (auto simp: pin_wrap_write_def Let_def split: if_splits option.splits)

subsection \<open>The key is never lost\<close>

definition sound_roots :: "crypto \<Rightarrow> byte list \<Rightarrow> string \<Rightarrow> string \<Rightarrow> roots \<Rightarrow> bool" where
  "sound_roots M sig pin dek r \<longleftrightarrow> (wrap r \<noteq> None \<longrightarrow> wraps M pin dek (wrap r))
     \<and> (hello_locked (hello r) \<longrightarrow> hello_dek M (Inr sig) (hello r) = Inr dek)
     \<and> (wrap r = None \<and> \<not> hello_locked (hello r) \<longrightarrow> item r = Some dek)"

text \<open>What an operation may meet: a write is done or refused, the Hello credential signs as it did, random values have
  their size. The keychain and the removal of a file may fail in every way.\<close>

definition steady :: "byte list \<Rightarrow> hand \<Rightarrow> bool" where
  "steady sig h \<longleftrightarrow> (\<forall>i n. writes h i \<noteq> Torn n) \<and> (\<forall>s. sign h = Inr s \<longrightarrow> s = sig) \<and> rnd_sizes (pin_rnd h) \<and> length (hello_nonce h) = 12"

definition crypto_ok :: "crypto \<Rightarrow> bool" where
  "crypto_ok M \<longleftrightarrow> crypto_laws M \<and> committing M"

datatype key_op = SetPin "string option" string | ClearPin string | TryPin string | SetHello "string option" | ClearHello

text \<open>An operation of the settings page or of the lock screen, with the PIN that is in force after it.\<close>

definition key_step :: "crypto \<Rightarrow> hand \<times> key_op \<Rightarrow> roots \<times> string \<Rightarrow> roots \<times> string" where
  "key_step M x y = (case (x, y) of ((h, k), (r, pin)) \<Rightarrow> (case k of
     SetPin old new \<Rightarrow> (case pin_set M h old new r of (Inl _, r') \<Rightarrow> (r', pin) | (Inr _, r') \<Rightarrow> (r', new))
   | ClearPin p \<Rightarrow> (snd (pin_clear M h p r), pin)
   | TryPin p \<Rightarrow> (r\<lparr>wrap := snd (pin_wrap_open M (writes h 0) p (wrap r))\<rparr>, pin)
   | SetHello p \<Rightarrow> (snd (hello_set M h p r), pin)
   | ClearHello \<Rightarrow> (snd (hello_clear M h r), pin)))"

lemma hello_dek_sign: "hello_dek M s f = Inr d \<Longrightarrow> \<exists>sig. s = Inr sig"
  by (auto simp: hello_dek_def hello_open_def split: option.splits sum.splits if_splits)

lemma sound_open:
  assumes "crypto_ok M" and "steady sig h" and "sound_roots M sig pin dek r" and "pin_wrap_open M (writes h i) p (wrap r) = (x, f)"
  shows "sound_roots M sig pin dek (r\<lparr>wrap := f\<rparr>)" and "x = Dek d \<Longrightarrow> d = dek" and "f = None \<longleftrightarrow> wrap r = None"
proof -
  have none: "wrap r = None \<Longrightarrow> f = None \<and> x = Corrupt"
    using assms(4) by (simp add: pin_wrap_open_def)
  have some: "wraps M pin dek f \<and> (\<forall>d. x = Dek d \<longrightarrow> d = dek)" if "wrap r \<noteq> None"
    using open_wraps(1,2)[where M = M and pin = pin and dek = dek and f = "wrap r" and ?o1.0 = "writes h i" and p = p] that assms by (auto simp: sound_roots_def steady_def crypto_ok_def)
  show "f = None \<longleftrightarrow> wrap r = None" using none some by (cases "wrap r") (auto simp: wraps_def)
  then show "sound_roots M sig pin dek (r\<lparr>wrap := f\<rparr>)"
    using assms(3) some by (auto simp: sound_roots_def)
  show "x = Dek d \<Longrightarrow> d = dek" using none some by auto
qed

lemma sound_current_dek:
  assumes "crypto_ok M" and "steady sig h" and "sound_roots M sig pin dek r" and "current_dek M h p r = (res, r1)"
  shows "sound_roots M sig pin dek r1" and "\<And>d. res = Inr d \<Longrightarrow> d = dek" and "hello r1 = hello r" and "wrap r1 = None \<longleftrightarrow> wrap r = None"
proof -
  have "sound_roots M sig pin dek r1 \<and> (\<forall>d. res = Inr d \<longrightarrow> d = dek) \<and> hello r1 = hello r \<and> (wrap r1 = None \<longleftrightarrow> wrap r = None)"
  proof (cases "wrap r = None")
    case True
    then show ?thesis
      using assms(2,3,4) hello_dek_sign[of M "sign h" "hello r"]
      by (auto simp: current_dek_def sound_roots_def keychain_lookup_def steady_def split: if_splits lookup.splits option.splits)
  next
    case False
    then show ?thesis
      using assms(3,4) sound_open[OF assms(1-3), of 0]
      by (auto simp: current_dek_def pin_result_def split: option.splits prod.splits pin_open.splits)
  qed
  then show "sound_roots M sig pin dek r1" and "\<And>d. res = Inr d \<Longrightarrow> d = dek" and "hello r1 = hello r" and "wrap r1 = None \<longleftrightarrow> wrap r = None"
    by auto
qed

lemma sound_pin_set:
  assumes "crypto_ok M" and "steady sig h" and "sound_roots M sig pin dek r" and "pin_set M h old new r = (res, r')"
  shows "sound_roots M sig (if res = Inr () then new else pin) dek r'"
proof -
  obtain x r1 where cur: "current_dek M h old r = (x, r1)" by fastforce
  note s = sound_current_dek[OF assms(1-3) cur]
  show ?thesis
  proof (cases x)
    case (Inl e)
    then show ?thesis using assms(4) s(1) by (auto simp: pin_set_def cur)
  next
    case (Inr d)
    then have d: "d = dek" using s(2) by simp
    obtain y f where wr: "pin_wrap_write M (writes h 1) (pin_rnd h) new dek (wrap r1) = (y, f)" by fastforce
    show ?thesis
    proof (cases y)
      case (Inl e)
      have "f = wrap r1"
        by (rule wrap_write_error[OF wr[unfolded Inl]]) (use assms(2) in \<open>simp add: steady_def\<close>)
      then show ?thesis using assms(4) s(1) Inl Inr d by (auto simp: pin_set_def cur wr simp del: One_nat_def)
    next
      case (Inr u)
      then have w: "wraps M new dek f"
        using wrap_write_wraps[of M "pin_rnd h"] wr assms(1,2) by (auto simp: crypto_ok_def steady_def)
      obtain z f2 where op: "pin_wrap_open M (writes h 2) new f = (z, f2)" by fastforce
      have z: "z = Dek dek" "wraps M new dek f2"
        using open_wraps(1)[where M = M and pin = new and dek = dek and f = f and ?o1.0 = "writes h 2" and p = new]
          open_wraps(3)[where M = M and pin = new and dek = dek and f = f and ?o1.0 = "writes h 2"] w op assms(1,2)
        by (auto simp: crypto_ok_def steady_def)
      have "res = Inr ()" "r' = r1\<lparr>wrap := f2, item := drop_keychain (keychain h) (item r1)\<rparr>"
        using assms(4) \<open>x = Inr d\<close> d Inr z(1) by (auto simp: pin_set_def cur wr op simp del: One_nat_def)
      then show ?thesis
        using s(1) z(2) wraps_some[OF z(2)] by (auto simp: sound_roots_def)
    qed
  qed
qed

lemma sound_pin_clear:
  assumes "crypto_ok M" and "steady sig h" and "sound_roots M sig pin dek r"
  shows "sound_roots M sig pin dek (snd (pin_clear M h p r))"
proof -
  obtain x f where op: "pin_wrap_open M (writes h 0) p (wrap r) = (x, f)" by fastforce
  note s = sound_open[OF assms op]
  show ?thesis
    using s(1,2) by (auto simp: pin_clear_def op Let_def pin_result_def remove_wrap_def sound_roots_def split: pin_open.split)
qed

lemma hello_written:
  assumes "crypto_laws M" and "hello_seal M (Inr sig) nonce raw = Inr ct" and "length nonce = 12"
  shows "hello_locked (Some (HELLO_MAGIC @ [1] @ ct))" and "hello_dek M (Inr sig) (Some (HELLO_MAGIC @ [1] @ ct)) = Inr (hex_encode M raw)"
proof -
  have ct: "ct = nonce @ seal_with (aes M) (kek M sig) nonce WRAP_AAD raw" "length raw = 32"
    using assms(2) by (auto simp: hello_seal_def Let_def split: if_splits)
  have parse: "hello_wrap_ct (HELLO_MAGIC @ [1] @ ct) = Some ct"
    using assms(1,3) ct by (simp add: hello_wrap_ct_def slice_def aes_laws)
  then show "hello_locked (Some (HELLO_MAGIC @ [1] @ ct))" by (simp add: hello_locked_def)
  have "hello_open M (Inr sig) ct = Inr raw"
    using assms(1,3) ct by (simp add: hello_open_def aes_laws)
  then show "hello_dek M (Inr sig) (Some (HELLO_MAGIC @ [1] @ ct)) = Inr (hex_encode M raw)"
    unfolding hello_dek_def using parse by simp
qed

lemma sound_hello_set:
  assumes "crypto_ok M" and "steady sig h" and "sound_roots M sig pin dek r"
  shows "sound_roots M sig pin dek (snd (hello_set M h p r))"
proof (cases "hello_locked (hello r)")
  case True
  then show ?thesis using assms(3) by (simp add: hello_set_def)
next
  case False
  obtain x r1 where cur: "current_dek M h p r = (x, r1)" by fastforce
  note s = sound_current_dek[OF assms cur]
  show ?thesis
  proof (cases "\<exists>d raw ct. x = Inr d \<and> hex_decode M d = Some raw \<and> hello_seal M (sign h) (hello_nonce h) raw = Inr ct")
    case True
    then obtain d raw ct where x: "x = Inr d" "hex_decode M d = Some raw" "hello_seal M (sign h) (hello_nonce h) raw = Inr ct" by auto
    then have d: "d = dek" "hex_encode M raw = dek" using s(2) hex_laws(1)[of M d raw] assms(1) by (auto simp: crypto_ok_def)
    have "sign h = Inr sig"
      using x(3) assms(2) by (auto simp: hello_seal_def steady_def split: if_splits sum.splits)
    then have hw: "hello_locked (Some (HELLO_MAGIC @ [1] @ ct))" "hello_dek M (Inr sig) (Some (HELLO_MAGIC @ [1] @ ct)) = Inr dek"
      using hello_written[of M sig "hello_nonce h" raw ct] x(3) d assms(1,2) by (auto simp: crypto_ok_def steady_def)
    have "writes h 1 = Put \<or> writes h 1 = Refused"
      using assms(2) by (cases "writes h 1") (auto simp: steady_def)
    then show ?thesis
      using s(1,3) False x(1) x(2)[unfolded d] x(3) hw by (auto simp: hello_set_def cur d sound_roots_def simp del: One_nat_def)
  next
    case not: False
    then show ?thesis
      using s(1,3) False by (auto simp: hello_set_def cur split: sum.split option.split)
  qed
qed

lemma sound_hello_clear:
  assumes "steady sig h" and "sound_roots M sig pin dek r"
  shows "sound_roots M sig pin dek (snd (hello_clear M h r))"
proof (cases "hello_dek M (sign h) (hello r)")
  case (Inr d)
  then have "sign h = Inr sig"
    using hello_dek_sign[OF Inr] assms(1) by (auto simp: steady_def)
  moreover have "hello_locked (hello r)"
    using Inr by (auto simp: hello_dek_def hello_locked_def split: option.splits bind_splits)
  ultimately have "d = dek" using Inr assms(2) by (simp add: sound_roots_def)
  then show ?thesis
    using Inr assms(2) by (auto simp: hello_clear_def sound_roots_def remove_wrap_def hello_locked_def)
qed (use assms(2) in \<open>simp add: hello_clear_def\<close>)

lemma sound_key_step:
  assumes "crypto_ok M" and "steady sig (fst x)" and "sound_roots M sig (snd y) dek (fst y)"
  shows "sound_roots M sig (snd (key_step M x y)) dek (fst (key_step M x y))"
proof -
  obtain h k r pin where [simp]: "x = (h, k)" "y = (r, pin)" by (metis surj_pair)
  show ?thesis
  proof (cases k)
    case (SetPin old new)
    obtain res r' where ps: "pin_set M h old new r = (res, r')" by fastforce
    show ?thesis
      using sound_pin_set[OF assms(1) _ _ ps, of sig pin dek] assms(2,3) by (auto simp: key_step_def SetPin ps split: sum.splits)
  next
    case (TryPin p)
    then show ?thesis
      using sound_open(1)[OF assms(1) _ _ prod.collapse[symmetric], of sig h pin dek r 0 p] assms(2,3) by (simp add: key_step_def)
  qed (use assms sound_pin_clear sound_hello_set sound_hello_clear in \<open>auto simp: key_step_def\<close>)
qed


subsection \<open>A cipher and a codec that satisfy the laws\<close>

definition nibble :: "nat \<Rightarrow> char" where
  "nibble n = ''0123456789abcdef'' ! n"

definition nibble_val :: "char \<Rightarrow> nat" where
  "nibble_val c = length (takeWhile (\<lambda>x. x \<noteq> c) ''0123456789abcdef'')"

definition hex_byte :: "byte \<Rightarrow> string" where
  "hex_byte b = [nibble (unat b div 16), nibble (unat b mod 16)]"

definition lower_hex :: "byte list \<Rightarrow> string" where
  "lower_hex bs = concat (map hex_byte bs)"

fun from_lower_hex :: "string \<Rightarrow> byte list option" where
  "from_lower_hex (a # b # s) = (let x = of_nat (16 * nibble_val a + nibble_val b) in
     if hex_byte x = [a, b] then map_option ((#) x) (from_lower_hex s) else None)"
| "from_lower_hex s = (if s = [] then Some [] else None)"

definition key_tag :: "byte list \<Rightarrow> byte list" where
  "key_tag k = take 16 (k @ replicate 16 0)"

definition toy_crypto :: crypto where
  "toy_crypto = \<lparr>aes = \<lparr>seal_with = (\<lambda>k n a m. m @ key_tag k),
       open_with = (\<lambda>k n a c. if length c \<ge> 16 \<and> drop (length c - 16) c = key_tag k then Some (take (length c - 16) c) else None)\<rparr>,
     derive_pin_kek = (\<lambda>pin salt. bytes_of pin), sha256 = id, hex_encode = lower_hex, hex_decode = from_lower_hex\<rparr>"

lemma nibble_val_nibble: "n < 16 \<Longrightarrow> nibble_val (nibble n) = n"
proof -
  have "\<forall>n\<in>set [0..<16]. nibble_val (nibble n) = n" by code_simp
  then show "n < 16 \<Longrightarrow> nibble_val (nibble n) = n" by simp
qed

lemma word_of_nat_unat_self: "of_nat (unat b) = (b :: byte)"
  by simp

lemma from_lower_hex_lower_hex: "from_lower_hex (lower_hex bs) = Some bs"
proof (induction bs)
  case (Cons b bs)
  have "unat b div 16 < 16" "unat b mod 16 < 16"
    using unsigned_less[of b, where 'a = nat] by (simp_all add: less_mult_imp_div_less)
  then have "16 * nibble_val (nibble (unat b div 16)) + nibble_val (nibble (unat b mod 16)) = unat b"
    by (simp add: nibble_val_nibble)
  then have "of_nat (16 * nibble_val (nibble (unat b div 16)) + nibble_val (nibble (unat b mod 16))) = b"
    by (simp only: word_of_nat_unat_self)
  then show ?case
    using Cons by (simp add: lower_hex_def hex_byte_def Let_def)
qed (simp add: lower_hex_def)

lemma lower_hex_from_lower_hex: "from_lower_hex s = Some bs \<Longrightarrow> lower_hex bs = s \<and> length s = 2 * length bs"
  by (induction s arbitrary: bs rule: from_lower_hex.induct) (auto simp: lower_hex_def Let_def split: if_splits)

lemma toy_crypto_ok: "crypto_ok toy_crypto"
proof -
  have tag: "length (key_tag k) = 16" for k by (simp add: key_tag_def)
  have "committing toy_crypto"
    by (auto simp: committing_def toy_crypto_def tag split: if_splits)
  moreover have "aead_laws (aes toy_crypto)"
    by (auto simp: aead_laws_def toy_crypto_def tag TAG_LEN_def split: if_splits)
  moreover have "hex_encode toy_crypto = lower_hex" "hex_decode toy_crypto = from_lower_hex"
    by (simp_all add: toy_crypto_def)
  moreover have "crypto_laws toy_crypto"
    using calculation by (simp add: crypto_laws_def from_lower_hex_lower_hex lower_hex_from_lower_hex)
  ultimately show ?thesis by (simp add: crypto_ok_def)
qed

definition toy_dek :: string where
  "toy_dek = lower_hex (replicate 32 0xA5)"

definition toy_hand :: hand where
  "toy_hand = \<lparr>keychain = \<lparr>entry_ok = True, read_ok = True, write_ok = True, delete_ok = True\<rparr>, writes = (\<lambda>_. Put), removes = True,
     sign = Inr [7, 7], pin_rnd = (replicate 16 1, replicate 12 2), hello_nonce = replicate 12 3\<rparr>"

definition toy_wrap :: "byte list option" where
  "toy_wrap = Some (pin_wrap toy_crypto ''246810'' (replicate 16 1, replicate 12 2) 0 (replicate 32 0xA5))"

lemma toy_wraps: "wraps toy_crypto ''246810'' toy_dek toy_wrap"
  unfolding toy_wrap_def by (rule wrapsI) (simp_all add: rnd_sizes_def toy_dek_def toy_crypto_def)






subsection \<open>No second key\<close>

lemma opens_present:
  assumes "disk w p \<noteq> None"
  shows "disk (snd (run_state (opens F p k) w)) = disk w"
    and "fst (run_state (opens F p k) w) \<Longrightarrow> Option.bind (disk w p) (data_of k) \<noteq> None"
  using assms unfolding opens_def fs_step_def read_db_def
  by (auto simp: run_bind touch_def Let_def State_Monad.return_def split: outcome.splits if_splits)

lemma has_enc_found:
  assumes "disk w p = Some c" and "data_of None c = None"
  shows "p \<in> set dbs \<Longrightarrow> fst (run_state (has_enc F dbs) w)"
  using assms(1)
proof (induction dbs arbitrary: w)
  case (Cons q dbs)
  consider "disk w q = None" | "disk w q \<noteq> None" "\<not> fst (run_state (opens F q None) w)" | "disk w q \<noteq> None" "fst (run_state (opens F q None) w)"
    by auto
  then show ?case
  proof cases
    case 1
    then show ?thesis using Cons by (auto simp: run_bind is_file_def State_Monad.return_def)
  next
    case 2
    then show ?thesis by (simp add: run_bind is_file_def State_Monad.return_def case_prod_beta)
  next
    case 3
    then have "q \<noteq> p" using opens_present(2)[of w q F None] Cons.prems(2) assms(2) by auto
    then show ?thesis
      using 3 Cons opens_present(1)[of w q F None] by (simp add: run_bind is_file_def State_Monad.return_def case_prod_beta)
  qed
qed simp



end
