(* ===== verification/ProxyKeeper.thy ===== *)
theory ProxyKeeper
  imports Proxies
begin

section \<open>The proxy keeper\<close>

text \<open>
  The keeper of \<open>velta-app/src-tauri/src/proxy.rs\<close> writes the URL of the selected proxy, or of the WebSocket transport, into
  every account, and takes it out again. A pass (\<open>apply_proxy\<close>) reads the store once, visits the accounts one after the other
  and then records in the store what it wrote; passes run beside each other and beside the commands of the page. One
  visit of an account is one step here, with the outcome of each \<open>set_config\<close> as an argument. The core's accounts are
  their pairs of \<open>proxy_url\<close> and \<open>proxy_enabled\<close>.
\<close>

definition OURS :: string where "OURS = ''socks5://velta-ws:''"
definition LEGACY_TUNNEL :: string where "LEGACY_TUNNEL = ''socks5://velta-tunnel:''"

record pass =
  ps_st :: json
  ps_desired :: "string option"
  ps_ids :: "nat list"

record world =
  w_file :: "json option"
  w_ws :: "string option"
  w_detached :: "nat list"
  w_conf :: "(nat, string \<times> bool) hmap"
  w_passes :: "(nat, pass) hmap"

definition load_store :: "json option \<Rightarrow> json" where
  "load_store f = (case f of None \<Rightarrow> empty_store | Some v \<Rightarrow> if is_obj v then v else empty_store)"

text \<open>\<open>save_store\<close> writes another file and renames it, so a failure leaves the old one.\<close>

definition save_store :: "bool \<Rightarrow> json \<Rightarrow> world \<Rightarrow> world" where
  "save_store ok st w = (if ok then w\<lparr>w_file := Some st\<rparr> else w)"

definition desired :: "json \<Rightarrow> string option \<Rightarrow> string option" where
  "desired st ws = (case active_url st of Some u \<Rightarrow> Some u | None \<Rightarrow> ws)"

definition starts_with :: "string \<Rightarrow> string \<Rightarrow> bool" where
  "starts_with p s \<longleftrightarrow> take (length p) s = p"

definition ours :: "string \<Rightarrow> json \<Rightarrow> bool" where
  "ours cur st \<longleftrightarrow> starts_with OURS cur \<or> starts_with LEGACY_TUNNEL cur \<or> as_str (jget st ''last_written'') = Some cur
     \<or> active_url st = Some cur"

text \<open>The \<open>match\<close> of \<open>apply_proxy\<close>: \<open>ok1\<close> and \<open>ok2\<close> are the outcomes of setting \<open>proxy_url\<close> and \<open>proxy_enabled\<close>.\<close>

definition keep_account :: "string option \<Rightarrow> json \<Rightarrow> bool \<Rightarrow> bool \<Rightarrow> string \<times> bool \<Rightarrow> string \<times> bool" where
  "keep_account d st ok1 ok2 conf =
     (let (cur, enabled) = conf in
      case d of
        Some url \<Rightarrow>
          if trim cur \<noteq> [] \<and> \<not> ours cur st then conf
          else if cur \<noteq> url \<and> \<not> ok1 then conf
          else (url, enabled \<or> ok2)
      | None \<Rightarrow> if \<not> ours cur st \<or> \<not> ok1 then conf else ([], if ok2 then False else enabled))"

definition start_pass :: "nat \<Rightarrow> nat list \<Rightarrow> world \<Rightarrow> world" where
  "start_pass k ids w =
     (let st = load_store (w_file w)
      in w\<lparr>w_passes := hm_put k \<lparr>ps_st = st, ps_desired = desired st (w_ws w), ps_ids = ids\<rparr> (w_passes w)\<rparr>)"

text \<open>An account whose configuration cannot be read is left out.\<close>

definition visit_account :: "nat \<Rightarrow> bool \<Rightarrow> bool \<Rightarrow> bool \<Rightarrow> world \<Rightarrow> world" where
  "visit_account k readable ok1 ok2 w =
     (case map_of (w_passes w) k of
        Some p \<Rightarrow>
          (case ps_ids p of
             i # ids \<Rightarrow>
               let w1 = w\<lparr>w_passes := hm_put k (p\<lparr>ps_ids := ids\<rparr>) (w_passes w)\<rparr> in
               (case map_of (w_conf w) i of
                  Some conf \<Rightarrow>
                    if readable
                    then w1\<lparr>w_conf := hm_put i (keep_account (if i \<in> set (w_detached w) then None else ps_desired p) (ps_st p) ok1 ok2 conf) (w_conf w)\<rparr>
                    else w1
                | None \<Rightarrow> w1)
           | [] \<Rightarrow> w)
      | None \<Rightarrow> w)"

definition finish_pass :: "nat \<Rightarrow> bool \<Rightarrow> world \<Rightarrow> world" where
  "finish_pass k ok w =
     (case map_of (w_passes w) k of
        Some p \<Rightarrow>
          let w1 = w\<lparr>w_passes := hm_del k (w_passes w)\<rparr> in
          if ps_ids p \<noteq> [] then w
          else if as_str (jget (ps_st p) ''last_written'') \<noteq> ps_desired p
          then save_store ok (jset (ps_st p) ''last_written'' (opt_str (ps_desired p))) w1
          else w1
      | None \<Rightarrow> w)"

text \<open>The commands: under the lock the store is read, changed and saved. Selecting a proxy turns the WebSocket transport off.\<close>

definition install :: "v6_canon \<Rightarrow> string \<Rightarrow> nat \<Rightarrow> string \<Rightarrow> string \<Rightarrow> string \<Rightarrow> nat \<Rightarrow> bool \<Rightarrow> bool \<Rightarrow> world \<Rightarrow> world \<times> bool" where
  "install v6 host port user pass label now activate ok w =
     (case add_proxy v6 host port user pass label now (load_store (w_file w)) of
        (s, Inl e) \<Rightarrow> (w, False)
      | (s, Inr (i, existing)) \<Rightarrow>
          (case (if activate then select_proxy (Some i) s else (s, Inr ())) of
             (s', Inl e) \<Rightarrow> (w, False)
           | (s', Inr _) \<Rightarrow>
               let w1 = save_store ok s' w in
               if \<not> ok then (w1, False) else (if activate then w1\<lparr>w_ws := None\<rparr> else w1, True)))"

definition select :: "string option \<Rightarrow> bool \<Rightarrow> world \<Rightarrow> world \<times> bool" where
  "select i ok w =
     (case select_proxy i (load_store (w_file w)) of
        (s, Inl e) \<Rightarrow> (w, False)
      | (s, Inr _) \<Rightarrow>
          let w1 = save_store ok s w in
          if \<not> ok then (w1, False) else (if i \<noteq> None then w1\<lparr>w_ws := None\<rparr> else w1, True))"

definition rename :: "string \<Rightarrow> string \<Rightarrow> bool \<Rightarrow> world \<Rightarrow> world \<times> bool" where
  "rename i label ok w =
     (case rename_proxy i label (load_store (w_file w)) of (s, Inl e) \<Rightarrow> (w, False) | (s, Inr _) \<Rightarrow> (save_store ok s w, ok))"

definition delete :: "string \<Rightarrow> bool \<Rightarrow> world \<Rightarrow> world \<times> bool" where
  "delete i ok w =
     (case delete_proxy i (load_store (w_file w)) of (s, Inl e) \<Rightarrow> (w, False) | (s, Inr _) \<Rightarrow> (save_store ok s w, ok))"

definition deactivate_for_ws :: "bool \<Rightarrow> world \<Rightarrow> world" where
  "deactivate_for_ws ok w = (if active_id (load_store (w_file w)) \<noteq> None then fst (select None ok w) else w)"

definition set_ws_proxy :: "string option \<Rightarrow> world \<Rightarrow> world" where
  "set_ws_proxy addr w = w\<lparr>w_ws := map_option (\<lambda>a. OURS @ a) addr\<rparr>"

definition backup_begin :: "nat \<Rightarrow> world \<Rightarrow> world" where
  "backup_begin i w = w\<lparr>w_detached := i # w_detached w\<rparr>"

definition backup_end :: "nat \<Rightarrow> world \<Rightarrow> world" where
  "backup_end i w = w\<lparr>w_detached := removeAll i (w_detached w)\<rparr>"

subsection \<open>Everything that happens\<close>

text \<open>The steps of the passes and the commands, an account changed from outside (by the user or an import, or removed),
  and the end of the process, which loses all but the file and the accounts.\<close>

datatype event = Start nat "nat list" | Visit nat bool bool bool | Finish nat bool
  | Install string nat string string string nat bool bool | Select "string option" bool | Rename string string bool | Delete string bool
  | WsOn bool string | WsOff | Detach nat | Attach nat | Account nat "(string \<times> bool) option" | Killed

fun happens :: "v6_canon \<Rightarrow> event \<Rightarrow> world \<Rightarrow> world" where
  "happens v6 (Start k ids) w = start_pass k ids w"
| "happens v6 (Visit k readable ok1 ok2) w = visit_account k readable ok1 ok2 w"
| "happens v6 (Finish k ok) w = finish_pass k ok w"
| "happens v6 (Install host port user pass label now activate ok) w = fst (install v6 host port user pass label now activate ok w)"
| "happens v6 (Select i ok) w = fst (select i ok w)"
| "happens v6 (Rename i label ok) w = fst (rename i label ok w)"
| "happens v6 (Delete i ok) w = fst (delete i ok w)"
| "happens v6 (WsOn ok addr) w = set_ws_proxy (Some addr) (deactivate_for_ws ok w)"
| "happens v6 WsOff w = set_ws_proxy None w"
| "happens v6 (Detach i) w = backup_begin i w"
| "happens v6 (Attach i) w = backup_end i w"
| "happens v6 (Account i c) w = w\<lparr>w_conf := (case c of None \<Rightarrow> hm_del i (w_conf w) | Some x \<Rightarrow> hm_put i x (w_conf w))\<rparr>"
| "happens v6 Killed w = w\<lparr>w_ws := None, w_detached := [], w_passes := []\<rparr>"

definition history :: "v6_canon \<Rightarrow> event list \<Rightarrow> world \<Rightarrow> world" where
  "history v6 es w = fold (happens v6) es w"

subsection \<open>URLs the keeper does not know\<close>

definition foreign :: "string \<Rightarrow> bool" where
  "foreign u \<longleftrightarrow> trim u \<noteq> [] \<and> \<not> starts_with OURS u \<and> \<not> starts_with LEGACY_TUNNEL u"

definition unknown_to :: "string \<Rightarrow> json \<Rightarrow> bool" where
  "unknown_to u st \<longleftrightarrow> is_obj st \<and> Some u \<notin> url_of ` set (proxies st) \<and> as_str (jget st ''last_written'') \<noteq> Some u"

definition unknown :: "string \<Rightarrow> world \<Rightarrow> bool" where
  "unknown u w \<longleftrightarrow> unknown_to u (load_store (w_file w)) \<and> w_ws w \<noteq> Some u
     \<and> (\<forall>k p. map_of (w_passes w) k = Some p \<longrightarrow> unknown_to u (ps_st p) \<and> ps_desired p \<noteq> Some u)"

text \<open>The events that do not bring a URL to an account or to the keeper.\<close>

fun spares :: "v6_canon \<Rightarrow> string \<Rightarrow> nat \<Rightarrow> event \<Rightarrow> bool" where
  "spares v6 u i (Account j c) = (j \<noteq> i)"
| "spares v6 u i (Install host port user pass label now activate ok) =
     (case norm_host v6 host of None \<Rightarrow> True | Some h \<Rightarrow> url_of (new_entry [] [] h port user pass 0) \<noteq> Some u)"
| "spares v6 u i _ = True"

lemma load_store_obj [simp]: "is_obj (load_store f)"
  by (auto simp: load_store_def empty_store_def split: option.split)

lemma load_store_Some [simp]: "is_obj s \<Longrightarrow> load_store (Some s) = s"
  by (simp add: load_store_def)

lemma url_of_cong:
  assumes "jget p ''host'' = jget q ''host''" "jget p ''port'' = jget q ''port''" "jget p ''user'' = jget q ''user''" "jget p ''pass'' = jget q ''pass''"
  shows "url_of p = url_of q"
  unfolding url_of_def entry_auth_def assms by (rule refl)

lemma url_of_new: "url_of (new_entry i l h n u w t) = url_of (new_entry [] [] h n u w 0)"
  by (rule url_of_cong) auto

lemma active_url_mem: "active_url st = Some u \<Longrightarrow> \<exists>p \<in> set (proxies st). url_of p = Some u"
  by (auto simp: active_url_def bind_eq_Some_conv find_proxy_def find_Some_iff)

lemma unknown_desired: "unknown_to u st \<Longrightarrow> ws \<noteq> Some u \<Longrightarrow> desired st ws \<noteq> Some u"
  using active_url_mem [of st u] by (force simp: desired_def unknown_to_def split: option.splits)

lemma unknown_not_ours: "foreign u \<Longrightarrow> unknown_to u st \<Longrightarrow> \<not> ours u st"
  using active_url_mem [of st u] by (force simp: ours_def foreign_def unknown_to_def)

lemma unknown_jset: "unknown_to u st \<Longrightarrow> k \<noteq> ''proxies'' \<Longrightarrow> k \<noteq> ''last_written'' \<Longrightarrow> unknown_to u (jset st k v)"
  by (simp add: unknown_to_def)

lemma unknown_select: "unknown_to u st \<Longrightarrow> unknown_to u (fst (select_proxy i st))"
  by (auto simp: select_proxy_def unknown_jset split: option.split)

lemma unknown_add:
  assumes "unknown_to u st" "spares v6 u i (Install host port user pass label now activate ok)"
  shows "unknown_to u (fst (add_proxy v6 host port user pass label now st))"
  using assms by (auto simp: add_proxy_def Let_def unknown_to_def url_of_new [of _ label] simp del: free_num.simps split: option.splits)

lemma url_set_label: "map url_of (set_label i l ps) = map url_of ps"
proof (induction ps)
  case (Cons p ps)
  have "url_of (jset p ''label'' (JStr l)) = url_of p" if "entry_id p = Some i"
  proof -
    have "is_obj p" using that by (cases p) (auto simp: entry_id_def)
    then show ?thesis by (intro url_of_cong) simp_all
  qed
  then show ?case using Cons by simp
qed simp

lemma unknown_put: "unknown_to u st \<Longrightarrow> Some u \<notin> url_of ` set ps \<Longrightarrow> unknown_to u (put_proxies ps (proxies_mut st))"
  by (simp add: unknown_to_def)

lemma unknown_mut: "unknown_to u st \<Longrightarrow> unknown_to u (proxies_mut st)"
  by (simp add: unknown_to_def)

lemma unknown_rename: "unknown_to u st \<Longrightarrow> unknown_to u (fst (rename_proxy i l st))"
proof -
  assume u: "unknown_to u st"
  have "url_of ` set (set_label i (clean_label l) (proxies st)) = url_of ` set (proxies st)"
    using url_set_label [of i "clean_label l" "proxies st"] by (metis list.set_map)
  then show ?thesis using u unknown_put [of u st] unknown_mut [of u st]
    by (simp add: rename_proxy_def Let_def unknown_to_def)
qed

lemma unknown_delete: "unknown_to u st \<Longrightarrow> unknown_to u (fst (delete_proxy i st))"
  by (auto simp: delete_proxy_def Let_def unknown_to_def)

lemma unknown_save: "unknown u w \<Longrightarrow> unknown_to u st \<Longrightarrow> unknown u (save_store ok st w)"
  by (auto simp: unknown_def save_store_def) (simp add: unknown_to_def)

lemma unknown_ws_off: "unknown u w \<Longrightarrow> unknown u (w\<lparr>w_ws := None\<rparr>)"
  by (simp add: unknown_def)

lemma unknown_file: "unknown u w \<Longrightarrow> unknown_to u (load_store (w_file w))"
  by (simp add: unknown_def)

lemma unknown_select_cmd: "unknown u w \<Longrightarrow> unknown u (fst (select i ok w))"
  using unknown_select [OF unknown_file, of u w i] unknown_save unknown_ws_off
  by (auto simp: select_def Let_def split: prod.splits sum.splits)

lemma conf_save [simp]: "w_conf (save_store ok st w) = w_conf w"
  by (simp add: save_store_def)

lemma conf_select [simp]: "w_conf (fst (select i ok w)) = w_conf w"
  by (auto simp: select_def Let_def split: prod.splits sum.splits)

lemma conf_commands [simp]:
  "w_conf (deactivate_for_ws ok w) = w_conf w" "w_conf (fst (install v6 h n u p l t a ok w)) = w_conf w"
  "w_conf (fst (rename j l ok w)) = w_conf w" "w_conf (fst (delete j ok w)) = w_conf w"
  by (auto simp: deactivate_for_ws_def install_def rename_def delete_def Let_def split: prod.splits sum.splits)

lemma unknown_install:
  assumes "unknown u w" "spares v6 u i (Install host port user pass label now activate ok)"
  shows "unknown u (fst (install v6 host port user pass label now activate ok w))"
proof -
  let ?s = "fst (add_proxy v6 host port user pass label now (load_store (w_file w)))"
  have s: "unknown_to u ?s" using unknown_add [OF unknown_file [OF assms(1)] assms(2)] .
  then have "unknown_to u (fst (select_proxy j ?s))" for j by (rule unknown_select)
  then show ?thesis using assms(1) s unknown_save unknown_ws_off
    by (auto simp: install_def Let_def split: prod.splits sum.splits if_splits) (metis fst_conv unknown_save unknown_ws_off)+
qed

lemma unknown_pass: "unknown u w \<Longrightarrow> map_of (w_passes w) k = Some p \<Longrightarrow> unknown_to u (ps_st p) \<and> ps_desired p \<noteq> Some u"
  by (simp add: unknown_def)

lemma unknown_start: "unknown u w \<Longrightarrow> unknown u (start_pass k ids w)"
  using unknown_desired [OF unknown_file, of u w "w_ws w"] by (auto simp: unknown_def start_pass_def Let_def)

lemma unknown_visit: "unknown u w \<Longrightarrow> unknown u (visit_account k readable ok1 ok2 w)"
  using unknown_pass [of u w k]
  by (auto simp: visit_account_def Let_def split: option.split list.split) (auto simp: unknown_def)

lemma unknown_finish: "unknown u w \<Longrightarrow> unknown u (finish_pass k ok w)"
proof -
  assume w: "unknown u w"
  then have off: "unknown u (w\<lparr>w_passes := hm_del k (w_passes w)\<rparr>)" by (auto simp: unknown_def)
  have "unknown_to u (jset (ps_st p) ''last_written'' (opt_str (ps_desired p)))" if "map_of (w_passes w) k = Some p" for p
    using unknown_pass [OF w that] by (auto simp: unknown_to_def opt_str_def split: option.splits)
  then show ?thesis using w off unknown_save [OF off] by (auto simp: finish_pass_def Let_def split: option.split)
qed

text \<open>A visit leaves a foreign URL the keeper does not know.\<close>

lemma visit_keeps:
  assumes "foreign u" "unknown u w" "map_of (w_conf w) i = Some (u, b)"
  shows "map_of (w_conf (visit_account k readable ok1 ok2 w)) i = Some (u, b)"
proof -
  have "keep_account d (ps_st p) ok1 ok2 (u, b) = (u, b)" if "map_of (w_passes w) k = Some p" for d p
    using unknown_not_ours [OF assms(1)] unknown_pass [OF assms(2) that] assms(1)
    by (auto simp: keep_account_def foreign_def split: option.split)
  then show ?thesis using assms(3) by (auto simp: visit_account_def Let_def split: option.split list.split)
qed

lemma happens_keeps:
  assumes "foreign u" "unknown u w" "map_of (w_conf w) i = Some (u, b)" "spares v6 u i e"
  shows "unknown u (happens v6 e w) \<and> map_of (w_conf (happens v6 e w)) i = Some (u, b)"
proof (cases e)
  case (Account j c)
  then show ?thesis using assms by (auto simp: unknown_def split: option.split)
next
  case (Install host port user pass label now activate ok)
  then show ?thesis using assms(2,3) unknown_install [OF assms(2), of v6 i host port user pass label now activate ok] assms(4) by simp
next
  case (WsOn ok addr)
  have "Some u \<noteq> Some (OURS @ addr)" using assms(1) by (auto simp: foreign_def starts_with_def)
  then show ?thesis using WsOn assms(2,3) unknown_select_cmd [OF assms(2)]
    by (auto simp: set_ws_proxy_def deactivate_for_ws_def unknown_def)
next
  case (Rename j l ok)
  then show ?thesis using assms(2,3) unknown_rename [OF unknown_file [OF assms(2)], of j l] unknown_save [OF assms(2)]
    by (auto simp: rename_def split: prod.splits sum.splits)
next
  case (Delete j ok)
  then show ?thesis using assms(2,3) unknown_delete [OF unknown_file [OF assms(2)], of j] unknown_save [OF assms(2)]
    by (auto simp: delete_def split: prod.splits sum.splits)
next
  case (Start k ids)
  then show ?thesis using assms unknown_start [OF assms(2), of k ids] by (simp add: start_pass_def Let_def)
next
  case (Visit k readable ok1 ok2)
  then show ?thesis using unknown_visit [OF assms(2)] visit_keeps [OF assms(1-3)] by simp
next
  case (Finish k ok)
  have "w_conf (finish_pass k ok w) = w_conf w" by (auto simp: finish_pass_def Let_def split: option.split)
  then show ?thesis using Finish unknown_finish [OF assms(2)] assms(3) by simp
next
  case (Select j ok)
  then show ?thesis using unknown_select_cmd [OF assms(2)] assms(3) by simp
qed (use assms in \<open>auto simp: unknown_def set_ws_proxy_def backup_begin_def backup_end_def\<close>)

lemma history_keeps:
  assumes "foreign u" "unknown u w" "map_of (w_conf w) i = Some (u, b)" "list_all (spares v6 u i) es"
  shows "map_of (w_conf (history v6 es w)) i = Some (u, b)"
  using assms(2-4)
proof (induction es arbitrary: w)
  case (Cons e es)
  then show ?case using happens_keeps [OF assms(1), of w i b v6 e] by (simp add: history_def)
qed (simp add: history_def)

subsection \<open>A whole pass\<close>

text \<open>A pass in which every call succeeds and nothing else happens.\<close>

definition whole_pass :: "nat \<Rightarrow> nat list \<Rightarrow> event list" where
  "whole_pass k ids = Start k ids # map (\<lambda>_. Visit k True True True) ids @ [Finish k True]"

definition settled :: "world \<Rightarrow> json \<Rightarrow> string option \<Rightarrow> nat \<Rightarrow> string \<times> bool \<Rightarrow> string \<times> bool" where
  "settled w st d i = keep_account (if i \<in> set (w_detached w) then None else d) st True True"

lemma visits:
  assumes "map_of (w_passes w) k = Some p" "ps_ids p = ids" "distinct ids"
  shows "\<exists>conf ps. fold (happens v6) (map (\<lambda>_. Visit k True True True) ids) w = w\<lparr>w_conf := conf, w_passes := ps\<rparr>
    \<and> map_of ps k = Some (p\<lparr>ps_ids := []\<rparr>)
    \<and> (\<forall>i. map_of conf i = (if i \<in> set ids then map_option (settled w (ps_st p) (ps_desired p) i) (map_of (w_conf w) i) else map_of (w_conf w) i))"
  using assms
proof (induction ids arbitrary: w p)
  case Nil
  then show ?case by (intro exI [of _ "w_conf w"] exI [of _ "w_passes w"]) simp
next
  case (Cons j ids)
  let ?p = "p\<lparr>ps_ids := ids\<rparr>" and ?s = "settled w (ps_st p) (ps_desired p)"
  let ?conf = "case map_of (w_conf w) j of None \<Rightarrow> w_conf w | Some c \<Rightarrow> hm_put j (?s j c) (w_conf w)"
  let ?w = "w\<lparr>w_conf := ?conf, w_passes := hm_put k ?p (w_passes w)\<rparr>"
  have step: "happens v6 (Visit k True True True) w = ?w"
    using Cons.prems by (auto simp: visit_account_def Let_def settled_def split: option.split)
  have conf: "map_of ?conf i = (if i = j then map_option (?s i) (map_of (w_conf w) i) else map_of (w_conf w) i)" for i
    by (auto split: option.split)
  obtain c ps where IH: "fold (happens v6) (map (\<lambda>_. Visit k True True True) ids) ?w = ?w\<lparr>w_conf := c, w_passes := ps\<rparr>"
    "map_of ps k = Some (?p\<lparr>ps_ids := []\<rparr>)"
    "\<And>i. map_of c i = (if i \<in> set ids then map_option (settled ?w (ps_st ?p) (ps_desired ?p) i) (map_of ?conf i) else map_of ?conf i)"
    using Cons.IH [of ?w ?p] Cons.prems by auto
  have "map_of c i = (if i \<in> set (j # ids) then map_option (?s i) (map_of (w_conf w) i) else map_of (w_conf w) i)" for i
    using Cons.prems(3) unfolding IH(3) conf by (auto simp: settled_def)
  then show ?case using IH(1,2) step by (intro exI [of _ c] exI [of _ ps]) simp
qed

lemma whole_pass_effect:
  fixes w :: world and k :: nat and v6 :: v6_canon
  assumes "distinct ids"
  defines "st \<equiv> load_store (w_file w)"
  defines "d \<equiv> desired st (w_ws w)" and "w' \<equiv> history v6 (whole_pass k ids) w"
  shows "map_of (w_conf w') i = (if i \<in> set ids then map_option (settled w st d i) (map_of (w_conf w) i) else map_of (w_conf w) i)"
    "\<exists>st'. load_store (w_file w') = st' \<and> proxies st' = proxies st \<and> jget st' ''active'' = jget st ''active'' \<and> as_str (jget st' ''last_written'') = d"
    "w_ws w' = w_ws w" "w_detached w' = w_detached w"
proof -
  let ?p = "\<lparr>ps_st = st, ps_desired = d, ps_ids = ids\<rparr>"
  let ?w = "start_pass k ids w"
  have start: "?w = w\<lparr>w_passes := hm_put k ?p (w_passes w)\<rparr>" by (simp add: start_pass_def Let_def st_def d_def)
  have "map_of (w_passes ?w) k = Some ?p" unfolding start by simp
  then obtain conf ps where v: "fold (happens v6) (map (\<lambda>_. Visit k True True True) ids) ?w = ?w\<lparr>w_conf := conf, w_passes := ps\<rparr>"
    "map_of ps k = Some (?p\<lparr>ps_ids := []\<rparr>)"
    "\<And>i. map_of conf i = (if i \<in> set ids then map_option (settled ?w (ps_st ?p) (ps_desired ?p) i) (map_of (w_conf ?w) i) else map_of (w_conf ?w) i)"
    using visits [of ?w k ?p ids v6] assms(1) by auto
  have w': "w' = finish_pass k True (?w\<lparr>w_conf := conf, w_passes := ps\<rparr>)" by (simp add: w'_def history_def whole_pass_def v(1))
  have keep: "w_conf w' = conf" "w_ws w' = w_ws w" "w_detached w' = w_detached w"
    using v(2) by (simp_all add: w' finish_pass_def Let_def start save_store_def)
  show "map_of (w_conf w') i = (if i \<in> set ids then map_option (settled w st d i) (map_of (w_conf w) i) else map_of (w_conf w) i)"
    using v(3) [of i] by (simp add: keep settled_def start)
  show "w_ws w' = w_ws w" "w_detached w' = w_detached w" by (simp_all add: keep)
  have o: "is_obj st" by (simp add: st_def)
  show "\<exists>st'. load_store (w_file w') = st' \<and> proxies st' = proxies st \<and> jget st' ''active'' = jget st ''active'' \<and> as_str (jget st' ''last_written'') = d"
  proof (cases "as_str (jget st ''last_written'') = d")
    case True
    then have "w_file w' = w_file w" using v(2) by (simp add: w' finish_pass_def Let_def start save_store_def)
    then show ?thesis using True by (simp add: st_def)
  next
    case False
    then have "w_file w' = Some (jset st ''last_written'' (opt_str d))" using v(2) by (simp add: w' finish_pass_def Let_def start save_store_def)
    then show ?thesis using o by (simp add: opt_str_def split: option.split)
  qed
qed

lemma active_url_cong: "proxies s = proxies t \<Longrightarrow> jget s ''active'' = jget t ''active'' \<Longrightarrow> active_url s = active_url t"
proof -
  assume a: "proxies s = proxies t" "jget s ''active'' = jget t ''active''"
  then have f: "find_proxy s = find_proxy t" by (simp add: find_proxy_def fun_eq_iff)
  show ?thesis unfolding active_url_def active_id_def f a(2) by (rule refl)
qed

lemma url_of_nonempty: "url_of p \<noteq> Some []"
  by (auto simp: url_of_def split: option.split)

lemma desired_nonempty:
  assumes "\<And>u. ws = Some u \<Longrightarrow> starts_with OURS u"
  shows "desired st ws \<noteq> Some []"
  using assms [of "[]"] active_url_mem [of st "[]"] url_of_nonempty
  by (auto simp: desired_def starts_with_def OURS_def split: option.splits)

lemma settled_again:
  assumes ws: "\<And>u. ws = Some u \<Longrightarrow> starts_with OURS u" and d: "d = desired st ws"
    and same: "active_url st' = active_url st" "as_str (jget st' ''last_written'') = d" and d': "d' = None \<or> d' = d"
  shows "keep_account d' st' True True (keep_account d' st True True c) = keep_account d' st True True c"
proof -
  have known: "ours x st" if "ours x st'" for x
    using that same ws by (auto simp: ours_def d desired_def split: option.splits)
  have "\<not> ours [] st'"
    using desired_nonempty [of ws st] ws same active_url_mem [of st "[]"] url_of_nonempty
    by (auto simp: ours_def d starts_with_def OURS_def LEGACY_TUNNEL_def)
  moreover have "ours u st'" if "d = Some u" for u using that same(2) by (simp add: ours_def)
  ultimately show ?thesis using d' known by (cases c; cases d') (auto simp: keep_account_def)
qed

subsection \<open>The properties\<close>


definition blank_world :: world where
  "blank_world = \<lparr>w_file = None, w_ws = None, w_detached = [], w_conf = [(1, ([], False))], w_passes = []\<rparr>"

definition hand_url :: string where "hand_url = ''socks5://10.9.9.9:9''"


text \<open>C26: a pass in which every call succeeds settles the accounts it visits: those without a proxy or with one of the
  keeper's get the desired URL, switched on; those in a backup, or all when nothing is desired, lose the keeper's URL; a
  proxy set by hand stays. A second pass then changes nothing.\<close>

theorem pass_settles_accounts:
  fixes w :: world and k :: nat and v6 :: v6_canon
  assumes "distinct ids" "\<And>u. w_ws w = Some u \<Longrightarrow> starts_with OURS u"
  defines "st \<equiv> load_store (w_file w)"
  defines "d \<equiv> desired st (w_ws w)" and "w' \<equiv> history v6 (whole_pass k ids) w"
  shows "(\<forall>i c b. i \<in> set ids \<longrightarrow> map_of (w_conf w) i = Some (c, b) \<longrightarrow>
       map_of (w_conf w') i = Some (case (if i \<in> set (w_detached w) then None else d) of
          Some u \<Rightarrow> if trim c \<noteq> [] \<and> \<not> ours c st then (c, b) else (u, True)
        | None \<Rightarrow> if ours c st then ([], False) else (c, b)))
    \<and> (\<forall>i. i \<notin> set ids \<longrightarrow> map_of (w_conf w') i = map_of (w_conf w) i)
    \<and> (\<forall>i. map_of (w_conf (history v6 (whole_pass k ids) w')) i = map_of (w_conf w') i)"
proof -
  note e = whole_pass_effect [OF assms(1), where w = w and k = k and ?v6.0 = v6, folded st_def, folded d_def w'_def]
  note e' = whole_pass_effect [OF assms(1), where w = w' and k = k and ?v6.0 = v6]
  obtain st' where st': "load_store (w_file w') = st'" "proxies st' = proxies st" "jget st' ''active'' = jget st ''active''"
    "as_str (jget st' ''last_written'') = d" using e(2) by blast
  have au: "active_url st' = active_url st" by (rule active_url_cong [OF st'(2,3)])
  then have d': "desired st' (w_ws w') = d" by (simp add: desired_def d_def e(3))
  have again: "settled w' st' d i (settled w st d i c) = settled w st d i c" for i c
    unfolding settled_def e(4) using settled_again [OF assms(2) d_def [THEN meta_eq_to_obj_eq] au st'(4)] by simp
  have "map_of (w_conf (history v6 (whole_pass k ids) w')) i = map_of (w_conf w') i" for i
    using e'(1) [of i] by (simp add: st'(1) d' e(1) [of i] again option.map_comp comp_def)
  moreover have "map_of (w_conf w') i = Some (case (if i \<in> set (w_detached w) then None else d) of
        Some u \<Rightarrow> if trim c \<noteq> [] \<and> \<not> ours c st then (c, b) else (u, True)
      | None \<Rightarrow> if ours c st then ([], False) else (c, b))" if "i \<in> set ids" "map_of (w_conf w) i = Some (c, b)" for i c b
    using that e(1) [of i] by (simp add: settled_def keep_account_def split: option.split)
  ultimately show ?thesis using e(1) by simp
qed

theorem pass_settles_accounts_witness:
  "map_of (w_conf (history loopback6 (whole_pass 0 [1]) (fst (install loopback6 ''10.0.0.1'' 9 [] [] ''Home'' 7 True True blank_world)))) 1
     = Some (''socks5://10.0.0.1:9'', True)"
proof -
  let ?w = "fst (install loopback6 ''10.0.0.1'' 9 [] [] ''Home'' 7 True True blank_world)"
  have d: "desired (load_store (w_file ?w)) (w_ws ?w) = Some ''socks5://10.0.0.1:9''" by code_simp
  have c: "map_of (w_conf ?w) 1 = Some ([], False)" "w_detached ?w = []" "w_ws ?w = None" by code_simp+
  have t: "trim [] = []" by (simp add: trim_def trim_chars_def)
  show ?thesis using pass_settles_accounts [of "[1]" ?w loopback6 0, THEN conjunct1, rule_format, of 1 "[]" False] d c t by simp
qed

definition home_url :: string where "home_url = ''socks5://10.0.0.1:9''"

text \<open>The steps before the store is lost or an account orphaned: a proxy is installed and selected.\<close>

definition home_world :: world where
  "home_world = fst (install loopback6 ''10.0.0.1'' 9 [] [] ''Home'' 7 True True blank_world)"

text \<open>a pass saves the store it read when it started. A proxy that is installed while the pass visits the accounts is
  saved, the page is told so, and the end of the pass takes it out of the file again.\<close>

theorem keeper_save_undoes_install:
  "let w = history loopback6 [Start 0 [1], Visit 0 True True True] home_world;
       (w1, installed) = install loopback6 ''10.0.0.2'' 9 [] [] ''Work'' 8 False True w;
       w2 = history loopback6 [Finish 0 True] w1
   in installed \<and> find_proxy (load_store (w_file w1)) ''p2'' \<noteq> None \<and> find_proxy (load_store (w_file w2)) ''p2'' = None"
  by code_simp

definition orphaned :: world where
  "orphaned = history loopback6 [Delete ''p1'' True, Start 0 [1], Visit 0 True False True, Finish 0 True]
     (history loopback6 (whole_pass 0 [1]) home_world)"

text \<open>C27: when a selected proxy is deleted and taking its URL out of an account fails once, the pass forgets that the URL is
  its own: the account keeps the deleted proxy, switched on, through every later pass and every later choice of proxy.\<close>

theorem failed_removal_orphans_account:
  assumes "list_all (spares v6 home_url 1) es"
  shows "map_of (w_conf (history v6 es orphaned)) 1 = Some (home_url, True)"
proof (rule history_keeps [OF _ _ _ assms])
  show "foreign home_url" by code_simp
  show "map_of (w_conf orphaned) 1 = Some (home_url, True)" by code_simp
  have "load_store (w_file orphaned) = jobj [(''version'', JInt 1), (''active'', JNull), (''next'', JInt 2), (''last_written'', JNull), (''proxies'', JArr [])]"
    "w_ws orphaned = None" "w_passes orphaned = []" by code_simp+
  then show "unknown home_url orphaned" by (simp add: unknown_def unknown_to_def proxies_def)
qed

theorem failed_removal_orphans_account_witness:
  "map_of (w_conf (history loopback6 (Install ''10.0.0.2'' 9 [] [] ''Work'' 8 True True # whole_pass 1 [1]) orphaned)) 1 = Some (home_url, True)"
proof (rule failed_removal_orphans_account)
  show "list_all (spares loopback6 home_url 1) (Install ''10.0.0.2'' 9 [] [] ''Work'' 8 True True # whole_pass 1 [1])" by code_simp
qed

end
