(* ===== verification/SocksServer.thy ===== *)
theory SocksServer
  imports Ext Proxies
begin

section \<open>The SOCKS5 server of the WebSocket transport\<close>

text \<open>
  The local SOCKS5 server of \<open>velta-app/src-tauri/src/ws_transport.rs\<close>: the parsers of \<open>mod socks\<close>, the buffered reading of
  \<open>read_some\<close> and the dialogue of \<open>handle\<close> up to the target, then the choice of an address. What the client sends arrives as the list of
  the results of the reads of its socket, at most 512 bytes each, and the end of the list is the end of the connection;
  writes succeed. The proxy's answers (\<open>resolve\<close>, \<open>ws_connect\<close>) and \<open>str::parse::<IpAddr>\<close> are arguments.
\<close>

unbundle bit_operations_syntax

definition REP_GENERAL :: byte where "REP_GENERAL = 1"
definition REP_HOST_UNREACHABLE :: byte where "REP_HOST_UNREACHABLE = 4"
definition REP_CMD_UNSUPPORTED :: byte where "REP_CMD_UNSUPPORTED = 7"
definition REP_ATYP_UNSUPPORTED :: byte where "REP_ATYP_UNSUPPORTED = 8"

datatype target = TIp ip_addr u16 | TName string u16

definition valid_dns_name :: "string \<Rightarrow> bool" where
  "valid_dns_name h \<longleftrightarrow> length h \<le> 253 \<and> CHR ''.'' \<in> set h
     \<and> list_all (\<lambda>l. l \<noteq> [] \<and> length l \<le> 63 \<and> hd l \<noteq> CHR ''-'' \<and> last l \<noteq> CHR ''-''
          \<and> list_all (\<lambda>b. ascii_alnum b \<or> b = CHR ''-'') l) (split_on CHR ''.'' h)"

subsection \<open>The parsers\<close>

text \<open>\<open>b.get(i..j)\<close>.\<close>

definition get_range :: "nat \<Rightarrow> nat \<Rightarrow> byte list \<Rightarrow> byte list option" where
  "get_range i j b = (if j \<le> length b then Some (take (j - i) (drop i b)) else None)"

definition get_byte :: "nat \<Rightarrow> byte list \<Rightarrow> byte option" where
  "get_byte i b = (if i < length b then Some (b ! i) else None)"

definition greeting_offers_userpass :: "byte list \<Rightarrow> bool option" where
  "greeting_offers_userpass b =
     (if length b < 2 \<or> b ! 0 \<noteq> 5 then None
      else let n = unat (b ! 1) in
        if n = 0 \<or> length b \<noteq> 2 + n then None else Some (2 \<in> set (drop 2 b)))"

definition parse_userpass :: "byte list \<Rightarrow> (byte list \<times> byte list) option" where
  "parse_userpass b =
     (if length b < 3 \<or> b ! 0 \<noteq> 1 then None
      else let ul = unat (b ! 1) in
        Option.bind (get_range 2 (2 + ul) b) (\<lambda>u.
        Option.bind (get_byte (2 + ul) b) (\<lambda>pl.
        Option.bind (get_range (3 + ul) (3 + ul + unat pl) b) (\<lambda>p.
          if length b \<noteq> 3 + ul + unat pl then None else Some (u, p)))))"

definition port_at :: "byte list \<Rightarrow> nat \<Rightarrow> byte + u16" where
  "port_at b i = (if length b \<noteq> i + 2 then Inl REP_GENERAL else Inr (of_nat (be_val [b ! i, b ! (i + 1)])))"

definition or_general :: "'a option \<Rightarrow> byte + 'a" where
  "or_general x = (case x of None \<Rightarrow> Inl REP_GENERAL | Some y \<Rightarrow> Inr y)"

definition parse_request :: "(string \<Rightarrow> ip_addr option) \<Rightarrow> byte list \<Rightarrow> byte + target" where
  "parse_request ip b =
     (if length b < 4 \<or> b ! 0 \<noteq> 5 \<or> b ! 2 \<noteq> 0 then Inl REP_GENERAL
      else if b ! 1 \<noteq> 1 then Inl REP_CMD_UNSUPPORTED
      else if b ! 3 = 1 then
        r_bind (or_general (get_range 4 8 b)) (\<lambda>a. r_bind (port_at b 8) (\<lambda>port. Inr (TIp (IpV4 (of_nat (be_val a))) port)))
      else if b ! 3 = 4 then
        r_bind (or_general (get_range 4 20 b)) (\<lambda>a. r_bind (port_at b 20) (\<lambda>port. Inr (TIp (IpV6 (of_nat (be_val a))) port)))
      else if b ! 3 = 3 then
        r_bind (or_general (get_byte 4 b)) (\<lambda>n.
        r_bind (or_general (get_range 5 (5 + unat n) b)) (\<lambda>raw.
          let text = map (\<lambda>x. char_of (unat x)) raw; name = map ascii_lower (trim_dots text) in
          if \<not> utf8_ok text then Inl REP_GENERAL
          else r_bind (port_at b (5 + unat n)) (\<lambda>port.
            case ip name of
              Some a \<Rightarrow> Inr (TIp a port)
            | None \<Rightarrow> if \<not> valid_dns_name name then Inl REP_HOST_UNREACHABLE else Inr (TName name port))))
      else Inl REP_ATYP_UNSUPPORTED)"

definition request_len :: "byte list \<Rightarrow> nat option" where
  "request_len b =
     Option.bind (get_byte 3 b) (\<lambda>t.
       let whole = (\<lambda>base. if length b \<ge> base + 2 then Some (base + 2) else None) in
       if t = 1 then whole (4 + 4) else if t = 4 then whole (4 + 16)
       else if t = 3 then Option.bind (get_byte 4 b) (\<lambda>n. whole (5 + unat n))
       else Some (length b))"

definition reply :: "byte \<Rightarrow> byte list" where
  "reply code = [5, code, 0, 1, 0, 0, 0, 0, 0, 0]"

definition ct_eq :: "byte list \<Rightarrow> byte list \<Rightarrow> bool" where
  "ct_eq a b \<longleftrightarrow> length a = length b \<and> foldl (\<lambda>acc (x, y). acc OR (x XOR y)) 0 (zip a b) = 0"

subsection \<open>The dialogue\<close>

text \<open>\<open>read_some\<close>: reads until \<open>enough\<close> knows how many bytes to take; the buffer keeps the others.\<close>

fun read_some :: "(byte list \<Rightarrow> nat option) \<Rightarrow> byte list \<Rightarrow> byte list list \<Rightarrow> (byte list \<times> byte list \<times> byte list list) option" where
  "read_some enough buf [] = (case enough buf of Some n \<Rightarrow> Some (take n buf, drop n buf, []) | None \<Rightarrow> None)"
| "read_some enough buf (r # rs) =
     (case enough buf of
        Some n \<Rightarrow> Some (take n buf, drop n buf, r # rs)
      | None \<Rightarrow> if length buf > 600 \<or> r = [] then None else read_some enough (buf @ r) rs)"

definition greeting_len :: "byte list \<Rightarrow> nat option" where
  "greeting_len b = (if length b \<ge> 2 \<and> length b \<ge> 2 + unat (b ! 1) then Some (2 + unat (b ! 1)) else None)"

definition auth_len :: "byte list \<Rightarrow> nat option" where
  "auth_len b = Option.bind (get_byte 1 b) (\<lambda>ul. Option.bind (get_byte (2 + unat ul) b) (\<lambda>pl.
     if length b \<ge> 3 + unat ul + unat pl then Some (3 + unat ul + unat pl) else None))"

text \<open>What \<open>handle\<close> writes before it dials, and the target with the buffered bytes and the reads still to come.\<close>

definition handle :: "(string \<Rightarrow> ip_addr option) \<Rightarrow> byte list \<Rightarrow> byte list \<Rightarrow> byte list list \<Rightarrow>
    byte list list \<times> (target \<times> byte list \<times> byte list list) option" where
  "handle ip user pass reads =
     (case read_some greeting_len [] reads of
        None \<Rightarrow> ([], None)
      | Some (g, buf, rs) \<Rightarrow>
          (case greeting_offers_userpass g of
             None \<Rightarrow> ([], None)
           | Some False \<Rightarrow> ([[5, 0xff]], None)
           | Some True \<Rightarrow>
               (case read_some auth_len buf rs of
                  None \<Rightarrow> ([[5, 2]], None)
                | Some (a, buf, rs) \<Rightarrow>
                    (case parse_userpass a of
                       None \<Rightarrow> ([[5, 2]], None)
                     | Some (u, p) \<Rightarrow>
                         if \<not> (ct_eq u user \<and> ct_eq p pass) then ([[5, 2], [1, 1]], None)
                         else
                           (case read_some request_len buf rs of
                              None \<Rightarrow> ([[5, 2], [1, 0]], None)
                            | Some (req, buf, rs) \<Rightarrow>
                                (case parse_request ip req of
                                   Inl code \<Rightarrow> ([[5, 2], [1, 0], reply code], None)
                                 | Inr t \<Rightarrow> ([[5, 2], [1, 0]], Some (t, buf, rs))))))))"

text \<open>The addresses of the target, at most four tried in turn: the reply, the address that was reached, and what is added to the
  cache of names, which here holds only the answers that are still fresh.\<close>

definition lookup_name :: "(string, ip_addr list) hmap \<Rightarrow> (string \<Rightarrow> ip_addr list option) \<Rightarrow> string \<Rightarrow> ip_addr list \<times> (string, ip_addr list) hmap" where
  "lookup_name cache resolve name =
     (case map_of cache name of
        Some v \<Rightarrow> (v, cache)
      | None \<Rightarrow> (case resolve name of
          Some v \<Rightarrow> if v = [] then ([], cache) else (v, hm_put name v cache)
        | None \<Rightarrow> ([], cache)))"

definition connect_target :: "(string, ip_addr list) hmap \<Rightarrow> (string \<Rightarrow> ip_addr list option) \<Rightarrow> (ip_addr \<Rightarrow> u16 \<Rightarrow> bool) \<Rightarrow>
    target \<Rightarrow> byte list \<times> ip_addr option \<times> (string, ip_addr list) hmap" where
  "connect_target cache resolve dial t =
     (let (ips, port, cache') = (case t of
            TIp a port \<Rightarrow> ([a], port, cache)
          | TName name port \<Rightarrow> (case lookup_name cache resolve name of (ips, c) \<Rightarrow> (ips, port, c)))
      in case find (\<lambda>a. dial a port) (take 4 ips) of
           Some a \<Rightarrow> (reply 0, Some a, cache')
         | None \<Rightarrow> (reply REP_HOST_UNREACHABLE, None, cache'))"

subsection \<open>Comparing secrets\<close>

lemma xor_zero: "x XOR y = 0 \<longleftrightarrow> x = (y :: byte)"
  by (auto simp: bit_eq_iff bit_simps)

lemma ct_fold: "foldl (\<lambda>acc (x, y). acc OR (x XOR y)) z zs = 0 \<longleftrightarrow> z = (0 :: byte) \<and> (\<forall>(x, y) \<in> set zs. x = y)"
  by (induction zs arbitrary: z) (auto simp: or_eq_0_iff xor_zero)

lemma ct_eq_iff [simp]: "ct_eq a b \<longleftrightarrow> a = b"
proof -
  have "a = b" if "length a = length b" "\<forall>(x, y) \<in> set (zip a b). x = y"
    using that by (induction a b rule: list_induct2) auto
  then show ?thesis by (auto simp: ct_eq_def ct_fold zip_same_conv_map)
qed

subsection \<open>Messages in a stream\<close>

text \<open>When the length of a message is known from its first bytes, the pieces in which it arrives do not matter.\<close>

definition whole :: "(byte list \<Rightarrow> nat option) \<Rightarrow> byte list \<Rightarrow> (byte list \<times> byte list) option" where
  "whole enough s = map_option (\<lambda>n. (take n s, drop n s)) (enough s)"

locale delimiter =
  fixes enough :: "byte list \<Rightarrow> nat option" and ok :: "byte list \<Rightarrow> bool"
  assumes law_stable: "ok (b @ c) \<Longrightarrow> enough b = Some n \<Longrightarrow> n \<le> length b \<and> n \<le> 600 \<and> enough (b @ c) = Some n"
    and law_early: "ok (b @ c) \<Longrightarrow> enough (b @ c) = Some n \<Longrightarrow> n \<le> length b \<Longrightarrow> enough b = Some n"
begin

lemma read_some_stream:
  assumes "ok (buf @ concat rs)" "[] \<notin> set rs"
  shows "map_option (\<lambda>(m, buf', rs'). (m, buf' @ concat rs')) (read_some enough buf rs) = whole enough (buf @ concat rs)
    \<and> (\<forall>m buf' rs'. read_some enough buf rs = Some (m, buf', rs') \<longrightarrow> [] \<notin> set rs')"
  using assms
proof (induction rs arbitrary: buf)
  case Nil
  then show ?case by (auto simp: whole_def split: option.split)
next
  case (Cons r rs)
  show ?case
  proof (cases "enough buf")
    case (Some n)
    then have "n \<le> length buf" "enough (buf @ concat (r # rs)) = Some n" using law_stable Cons.prems(1) by blast+
    then show ?thesis using Some Cons.prems(2) by (auto simp: whole_def)
  next
    case None
    show ?thesis
    proof (cases "length buf > 600")
      case True
      have "enough (buf @ concat (r # rs)) \<noteq> Some n" for n
      proof
        assume n: "enough (buf @ concat (r # rs)) = Some n"
        have "n \<le> 600" using law_stable [of "buf @ concat (r # rs)" "[]" n] Cons.prems(1) n by simp
        then show False using law_early [OF Cons.prems(1) n] True None by simp
      qed
      then show ?thesis using True None by (auto simp: whole_def)
    next
      case False
      then show ?thesis using None Cons.IH [of "buf @ r"] Cons.prems by auto
    qed
  qed
qed

end

interpretation greeting: delimiter greeting_len "\<lambda>_. True"
proof
  fix b c n
  have u: "unat (x :: byte) < 256" for x using unsigned_less [of x, where 'a = nat] by simp
  show "n \<le> length b \<and> n \<le> 600 \<and> greeting_len (b @ c) = Some n" if "greeting_len b = Some n"
    using that u [of "b ! 1"] by (auto simp: greeting_len_def nth_append split: if_splits)
  show "greeting_len b = Some n" if "greeting_len (b @ c) = Some n" "n \<le> length b"
    using that by (auto simp: greeting_len_def nth_append split: if_splits)
qed

lemma get_byte_append: "i < length b \<Longrightarrow> get_byte i (b @ c) = get_byte i b"
  by (simp add: get_byte_def nth_append)

lemma get_byte_Some: "get_byte i b = Some x \<Longrightarrow> i < length b \<and> get_byte i (b @ c) = Some x"
  by (auto simp: get_byte_def nth_append split: if_splits)

interpretation auth: delimiter auth_len "\<lambda>_. True"
proof
  fix b c n
  have u: "unat (x :: byte) < 256" for x using unsigned_less [of x, where 'a = nat] by simp
  show "n \<le> length b \<and> n \<le> 600 \<and> auth_len (b @ c) = Some n" if a: "auth_len b = Some n"
  proof -
    obtain ul pl where g: "get_byte 1 b = Some ul" "get_byte (2 + unat ul) b = Some pl" "n = 3 + unat ul + unat pl" "n \<le> length b"
      using a by (auto simp: auth_len_def bind_eq_Some_conv split: if_splits)
    then show ?thesis using u [of ul] u [of pl] get_byte_Some [OF g(1), of c] get_byte_Some [OF g(2), of c] by (simp add: auth_len_def)
  qed
  show "auth_len b = Some n" if a: "auth_len (b @ c) = Some n" "n \<le> length b"
  proof -
    obtain ul pl where g: "get_byte 1 (b @ c) = Some ul" "get_byte (2 + unat ul) (b @ c) = Some pl" "n = 3 + unat ul + unat pl"
      using a by (auto simp: auth_len_def bind_eq_Some_conv split: if_splits)
    then have "get_byte 1 b = Some ul" "get_byte (2 + unat ul) b = Some pl"
      using a(2) get_byte_append [of 1 b c] get_byte_append [of "2 + unat ul" b c] by simp_all
    then show ?thesis using a(2) g(3) by (simp add: auth_len_def)
  qed
qed

text \<open>A request whose address type is known.\<close>

definition known_type :: "byte list \<Rightarrow> bool" where
  "known_type s \<longleftrightarrow> length s \<ge> 4 \<longrightarrow> s ! 3 \<in> {1, 3, 4}"

lemma get_byte_eq_Some: "get_byte i b = Some x \<longleftrightarrow> i < length b \<and> b ! i = x"
  by (auto simp: get_byte_def)

interpretation request: delimiter request_len known_type
proof
  fix b c n
  assume k: "known_type (b @ c)"
  have u: "unat (x :: byte) < 256" for x using unsigned_less [of x, where 'a = nat] by simp
  show "n \<le> length b \<and> n \<le> 600 \<and> request_len (b @ c) = Some n" if r: "request_len b = Some n"
  proof -
    obtain t where t: "get_byte 3 b = Some t" using r by (auto simp: request_len_def bind_eq_Some_conv)
    then have t': "get_byte 3 (b @ c) = Some t" "t \<in> {1, 3, 4}"
      using get_byte_Some [OF t, of c] k by (auto simp: known_type_def get_byte_eq_Some nth_append)
    show ?thesis
    proof (cases "t = 3")
      case True
      then obtain m where m: "get_byte 4 b = Some m" "n = 7 + unat m" "n \<le> length b"
        using r t by (auto simp: request_len_def Let_def bind_eq_Some_conv split: if_splits)
      then show ?thesis using True t' get_byte_Some [OF m(1), of c] u [of m] by (simp add: request_len_def Let_def)
    next
      case False
      then show ?thesis using r t t' by (auto simp: request_len_def Let_def split: if_splits)
    qed
  qed
  show "request_len b = Some n" if r: "request_len (b @ c) = Some n" "n \<le> length b"
  proof -
    obtain t where t: "get_byte 3 (b @ c) = Some t" using r(1) by (auto simp: request_len_def bind_eq_Some_conv)
    then have t': "t \<in> {1, 3, 4}" using k by (auto simp: known_type_def get_byte_eq_Some)
    show ?thesis
    proof (cases "t = 3")
      case True
      then obtain m where m: "get_byte 4 (b @ c) = Some m" "n = 7 + unat m"
        using r(1) t by (auto simp: request_len_def Let_def bind_eq_Some_conv split: if_splits)
      then show ?thesis using True t r(2) get_byte_append [of 3 b c] get_byte_append [of 4 b c] by (simp add: request_len_def Let_def)
    next
      case False
      then have "n \<ge> 10" using r(1) t t' by (auto simp: request_len_def Let_def split: if_splits)
      then have "get_byte 3 b = Some t" using t r(2) get_byte_append [of 3 b c] by simp
      then show ?thesis using False r t t' by (auto simp: request_len_def Let_def split: if_splits)
    qed
  qed
qed

text \<open>With another address type the request is refused from its first four bytes.\<close>

lemma read_some_other:
  assumes "\<not> known_type (buf @ concat rs)" "[] \<notin> set rs"
  shows "\<exists>m buf' rs'. read_some request_len buf rs = Some (m, buf', rs') \<and> take 4 m = take 4 (buf @ concat rs) \<and> length m \<ge> 4"
  using assms
proof (induction rs arbitrary: buf)
  case Nil
  then show ?case by (auto simp: known_type_def request_len_def get_byte_def)
next
  case (Cons r rs)
  show ?case
  proof (cases "length buf \<ge> 4")
    case True
    then have "request_len buf = Some (length buf)"
      using Cons.prems(1) by (auto simp: known_type_def request_len_def get_byte_def nth_append)
    then show ?thesis using True by simp
  next
    case False
    then have "request_len buf = None" by (simp add: request_len_def get_byte_def)
    then show ?thesis using Cons.IH [of "buf @ r"] Cons.prems False by auto
  qed
qed

lemma parse_request_other:
  assumes "take 4 m = take 4 s" "length m \<ge> 4" "length s \<ge> 4" "s ! 3 \<notin> {1, 3, 4}"
  shows "parse_request ip m = parse_request ip s \<and> isl (parse_request ip s)"
proof -
  have "m ! i = s ! i" if "i < 4" for i using assms(1) that by (metis nth_take)
  then have "m ! 0 = s ! 0" "m ! 1 = s ! 1" "m ! 2 = s ! 2" "m ! 3 = s ! 3" by simp_all
  then show ?thesis using assms by (simp add: parse_request_def)
qed

subsection \<open>The dialogue on a stream\<close>

text \<open>The dialogue as a function of the bytes that the client sends, however they arrive.\<close>

definition dialogue :: "(string \<Rightarrow> ip_addr option) \<Rightarrow> byte list \<Rightarrow> byte list \<Rightarrow> byte list \<Rightarrow> byte list list \<times> (target \<times> byte list) option" where
  "dialogue ip user pass s =
     (case whole greeting_len s of
        None \<Rightarrow> ([], None)
      | Some (g, s1) \<Rightarrow>
          (case greeting_offers_userpass g of
             None \<Rightarrow> ([], None)
           | Some False \<Rightarrow> ([[5, 0xff]], None)
           | Some True \<Rightarrow>
               (case whole auth_len s1 of
                  None \<Rightarrow> ([[5, 2]], None)
                | Some (a, s2) \<Rightarrow>
                    (case parse_userpass a of
                       None \<Rightarrow> ([[5, 2]], None)
                     | Some (u, p) \<Rightarrow>
                         if (u, p) \<noteq> (user, pass) then ([[5, 2], [1, 1]], None)
                         else
                           (case whole request_len s2 of
                              None \<Rightarrow> ([[5, 2], [1, 0]], None)
                            | Some (req, s3) \<Rightarrow>
                                (case parse_request ip req of
                                   Inl code \<Rightarrow> ([[5, 2], [1, 0], reply code], None)
                                 | Inr t \<Rightarrow> ([[5, 2], [1, 0]], Some (t, s3))))))))"

definition joined :: "byte list list \<times> (target \<times> byte list \<times> byte list list) option \<Rightarrow> byte list list \<times> (target \<times> byte list) option" where
  "joined r = (fst r, map_option (\<lambda>(t, buf, rs). (t, buf @ concat rs)) (snd r))"

text \<open>The last part of the dialogue.\<close>

definition asked :: "(string \<Rightarrow> ip_addr option) \<Rightarrow> (byte list \<times> byte list \<times> byte list list) option \<Rightarrow>
    byte list list \<times> (target \<times> byte list \<times> byte list list) option" where
  "asked ip r = (case r of None \<Rightarrow> ([[5, 2], [1, 0]], None)
     | Some (req, buf, rs) \<Rightarrow> (case parse_request ip req of
         Inl code \<Rightarrow> ([[5, 2], [1, 0], reply code], None) | Inr t \<Rightarrow> ([[5, 2], [1, 0]], Some (t, buf, rs))))"

definition asked_stream :: "(string \<Rightarrow> ip_addr option) \<Rightarrow> (byte list \<times> byte list) option \<Rightarrow> byte list list \<times> (target \<times> byte list) option" where
  "asked_stream ip r = (case r of None \<Rightarrow> ([[5, 2], [1, 0]], None)
     | Some (req, s3) \<Rightarrow> (case parse_request ip req of
         Inl code \<Rightarrow> ([[5, 2], [1, 0], reply code], None) | Inr t \<Rightarrow> ([[5, 2], [1, 0]], Some (t, s3))))"

lemma asked_joined:
  assumes "[] \<notin> set rs"
  shows "joined (asked ip (read_some request_len buf rs)) = asked_stream ip (whole request_len (buf @ concat rs))"
proof (cases "known_type (buf @ concat rs)")
  case True
  have w: "whole request_len (buf @ concat rs) = map_option (\<lambda>(m, b, r). (m, b @ concat r)) (read_some request_len buf rs)"
    using request.read_some_stream [OF True assms] by simp
  show ?thesis unfolding w by (auto simp: asked_def asked_stream_def joined_def split: option.split sum.split)
next
  case False
  let ?s = "buf @ concat rs"
  have s: "length ?s \<ge> 4" "?s ! 3 \<notin> {1, 3, 4}" using False by (auto simp: known_type_def)
  obtain m buf' rs' where m: "read_some request_len buf rs = Some (m, buf', rs')" "take 4 m = take 4 ?s" "length m \<ge> 4"
    using read_some_other [OF False assms] by blast
  have w: "whole request_len ?s = Some (?s, [])" using s by (simp add: whole_def request_len_def get_byte_def del: append_assoc)
  show ?thesis using parse_request_other [OF m(2,3) s, of ip] unfolding asked_def asked_stream_def m(1) w
    by (auto simp: joined_def split: sum.splits)
qed

lemma read_greeting: "[] \<notin> set rs \<Longrightarrow> whole greeting_len (buf @ concat rs) = map_option (\<lambda>(m, b, r). (m, b @ concat r)) (read_some greeting_len buf rs)
    \<and> (\<forall>m b r. read_some greeting_len buf rs = Some (m, b, r) \<longrightarrow> [] \<notin> set r)"
  using greeting.read_some_stream [where buf = buf and rs = rs] by simp

lemma read_auth: "[] \<notin> set rs \<Longrightarrow> whole auth_len (buf @ concat rs) = map_option (\<lambda>(m, b, r). (m, b @ concat r)) (read_some auth_len buf rs)
    \<and> (\<forall>m b r. read_some auth_len buf rs = Some (m, b, r) \<longrightarrow> [] \<notin> set r)"
  using auth.read_some_stream [where buf = buf and rs = rs] by simp

lemma whole_append: "whole enough s = Some (m, r) \<Longrightarrow> s = m @ r"
  by (auto simp: whole_def)

lemma handle_dialogue:
  assumes "[] \<notin> set reads"
  shows "joined (handle ip user pass reads) = dialogue ip user pass (concat reads)"
proof (cases "read_some greeting_len [] reads")
  case None
  then show ?thesis using read_greeting [OF assms, of "[]"] by (simp add: handle_def dialogue_def joined_def)
next
  case (Some x)
  obtain g buf rs where x: "x = (g, buf, rs)" by (cases x) auto
  have w: "whole greeting_len (concat reads) = Some (g, buf @ concat rs)" and rs: "[] \<notin> set rs"
    using read_greeting [OF assms, of "[]"] Some x by auto
  show ?thesis
  proof (cases "greeting_offers_userpass g = Some True")
    case False
    then show ?thesis using Some x w by (auto simp: handle_def dialogue_def joined_def split: option.splits bool.splits)
  next
    case True
    show ?thesis
    proof (cases "read_some auth_len buf rs")
      case None
      then show ?thesis using read_auth [OF rs, of buf] Some x w True by (simp add: handle_def dialogue_def joined_def)
    next
      case (Some y)
      obtain a buf2 rs2 where y: "y = (a, buf2, rs2)" by (cases y) auto
      have w2: "whole auth_len (buf @ concat rs) = Some (a, buf2 @ concat rs2)" and rs2: "[] \<notin> set rs2"
        using read_auth [OF rs, of buf] Some y by auto
      have h: "handle ip user pass reads = (case parse_userpass a of None \<Rightarrow> ([[5, 2]], None)
          | Some (u, p) \<Rightarrow> if \<not> (u = user \<and> p = pass) then ([[5, 2], [1, 1]], None) else asked ip (read_some request_len buf2 rs2))"
        using \<open>read_some greeting_len [] reads = Some x\<close> x True Some y by (auto simp: handle_def asked_def split: option.split)
      have d: "dialogue ip user pass (concat reads) = (case parse_userpass a of None \<Rightarrow> ([[5, 2]], None)
          | Some (u, p) \<Rightarrow> if \<not> (u = user \<and> p = pass) then ([[5, 2], [1, 1]], None) else asked_stream ip (whole request_len (buf2 @ concat rs2)))"
        using w w2 True by (auto simp: dialogue_def asked_stream_def split: option.split)
      show ?thesis unfolding h d using asked_joined [OF rs2, of ip buf2] by (auto simp: joined_def split: option.split)
    qed
  qed
qed

lemma parse_userpass_shape:
  assumes "parse_userpass a = Some (u, p)"
  shows "a = [1, of_nat (length u)] @ u @ [of_nat (length p)] @ p \<and> length u < 256 \<and> length p < 256"
proof -
  have lt: "unat (x :: byte) < 256" for x using unsigned_less [of x, where 'a = nat] by simp
  obtain ul pl where l: "length a \<ge> 3" "a ! 0 = 1" "ul = a ! 1" "pl = a ! (2 + unat ul)" "length a = 3 + unat ul + unat pl"
    "u = take (unat ul) (drop 2 a)" "p = take (unat pl) (drop (3 + unat ul) a)"
    using assms by (auto simp: parse_userpass_def get_range_def get_byte_def Let_def bind_eq_Some_conv split: if_splits)
  have "a = take 2 a @ take (unat ul) (drop 2 a) @ drop (2 + unat ul) a" by (metis add.commute append_take_drop_id drop_drop)
  moreover have "take 2 a = [1, ul]" using l by (cases a; cases "tl a") auto
  moreover have "drop (2 + unat ul) a = pl # drop (3 + unat ul) a" using l(4,5) Cons_nth_drop_Suc [of "2 + unat ul" a] by (simp add: eval_nat_numeral)
  moreover have "p = drop (3 + unat ul) a" using l(5,7) by simp
  moreover have "length u = unat ul" "length p = unat pl" using l(5,6,7) by simp_all
  ultimately show ?thesis using l(6) lt by simp
qed

subsection \<open>The properties\<close>

text \<open>C29: what the server answers, whom it lets through and to which target depends only on the bytes the client sends, not on
  the pieces in which they arrive.\<close>

theorem socks_dialogue_unsegmented:
  assumes "[] \<notin> set reads"
  shows "joined (handle ip user pass reads) = dialogue ip user pass (concat reads)"
  using assms by (rule handle_dialogue)

text \<open>C28: the server dials for a client only after the client has offered password authentication and sent exactly the user name
  and password of the server.\<close>

theorem socks_requires_password:
  assumes "[] \<notin> set reads" "snd (handle ip user pass reads) = Some x"
  shows "\<exists>g rest. concat reads = g @ [1, of_nat (length user)] @ user @ [of_nat (length pass)] @ pass @ rest
    \<and> greeting_offers_userpass g = Some True"
proof -
  have "snd (dialogue ip user pass (concat reads)) \<noteq> None" using handle_dialogue [OF assms(1), of ip user pass] assms(2)
    by (metis joined_def map_option_is_None option.distinct(1) snd_conv)
  then obtain g s1 a s2 where g: "whole greeting_len (concat reads) = Some (g, s1)" "greeting_offers_userpass g = Some True"
    "whole auth_len s1 = Some (a, s2)" "parse_userpass a = Some (user, pass)"
    by (auto simp: dialogue_def split: option.splits bool.splits if_splits)
  have "concat reads = g @ s1" "s1 = a @ s2" using g(1,3) whole_append by blast+
  then show ?thesis using g(2) parse_userpass_shape [OF g(4)] by auto
qed

text \<open>A client that authenticates and asks for \<open>0.0.0.1:25\<close>, one read per message.\<close>

definition demo_reads :: "byte list list" where
  "demo_reads = [[5, 1, 2], [1, 1, 117, 1, 112], [5, 1, 0, 1], [0, 0, 0, 1, 0, 25]]"

lemma demo_handle: "snd (handle (\<lambda>_. None) [117] [112] demo_reads) = Some (TIp (IpV4 1) 25, [], [])"
  by code_simp

theorem socks_dialogue_unsegmented_witness:
  "dialogue (\<lambda>_. None) [117] [112] (concat demo_reads) = ([[5, 2], [1, 0]], Some (TIp (IpV4 1) 25, []))"
proof -
  have "[] \<notin> set demo_reads" "joined (handle (\<lambda>_. None) [117] [112] demo_reads) = ([[5, 2], [1, 0]], Some (TIp (IpV4 1) 25, []))"
    by code_simp+
  then show ?thesis using socks_dialogue_unsegmented [of demo_reads "\<lambda>_. None" "[117]" "[112]"] by simp
qed

theorem socks_requires_password_witness:
  "\<exists>g rest. concat demo_reads = g @ [1, of_nat (length [117 :: byte])] @ [117] @ [of_nat (length [112 :: byte])] @ [112] @ rest
    \<and> greeting_offers_userpass g = Some True"
proof -
  have "[] \<notin> set demo_reads" by code_simp
  then show ?thesis using socks_requires_password [OF _ demo_handle] by blast
qed

end
