(* ===== verification/WsUpgrade.thy ===== *)
theory WsUpgrade
  imports SocksServer Json
begin

section \<open>WebSocket proxies: addresses, handshake and saved list\<close>

text \<open>
  The rest of \<open>velta-app/src-tauri/src/ws_transport.rs\<close>: the shape of invite tokens and device ids, the strict parser of proxy
  addresses and their canonical form, the text of the HTTP upgrade and the reading of its answer, and the saved list with
  the device ids. The standard library's reading and printing of IP addresses, the base64 key and the expected
  accept value are parameters.
\<close>

subsection \<open>Tokens and devices\<close>

definition URL_MAX :: nat where "URL_MAX = 512"
definition TOKEN_MAX :: nat where "TOKEN_MAX = 1024"
definition SUBPROTOCOL :: string where "SUBPROTOCOL = ''velta.v1''"
definition WS_MAX_PROXIES :: nat where "WS_MAX_PROXIES = 20"

definition split_once :: "char \<Rightarrow> string \<Rightarrow> (string \<times> string) option" where
  "split_once c s = (if c \<in> set s then Some (takeWhile (\<lambda>x. x \<noteq> c) s, tl (dropWhile (\<lambda>x. x \<noteq> c) s)) else None)"

definition rsplit_once :: "char \<Rightarrow> string \<Rightarrow> (string \<times> string) option" where
  "rsplit_once c s = map_option (\<lambda>(a, b). (rev b, rev a)) (split_once c (rev s))"

definition b64_char :: "char \<Rightarrow> bool" where
  "b64_char c \<longleftrightarrow> ascii_alnum c \<or> c = CHR ''-'' \<or> c = CHR ''_''"

definition valid_token :: "string \<Rightarrow> bool" where
  "valid_token t \<longleftrightarrow> length t \<le> TOKEN_MAX \<and> (case split_once CHR ''.'' t of
     None \<Rightarrow> False | Some (p, sig) \<Rightarrow> length p \<ge> 4 \<and> list_all b64_char p \<and> length sig = 43 \<and> list_all b64_char sig)"

definition valid_device :: "string \<Rightarrow> bool" where
  "valid_device d \<longleftrightarrow> 16 \<le> length d \<and> length d \<le> 64 \<and> list_all b64_char d"

abbreviation crlf :: string where "crlf \<equiv> [CHR 0x0D, CHR 0x0A]"

definition keep_if :: "('a \<Rightarrow> bool) \<Rightarrow> 'a option \<Rightarrow> 'a option" where
  "keep_if P x = (case x of Some y \<Rightarrow> if P y then Some y else None | None \<Rightarrow> None)"

definition auth_header :: "string option \<Rightarrow> string option \<Rightarrow> string" where
  "auth_header token device = (case keep_if valid_token token of
     None \<Rightarrow> []
   | Some t \<Rightarrow> (case keep_if valid_device device of
       Some d \<Rightarrow> ''Sec-WebSocket-Protocol: '' @ SUBPROTOCOL @ '', tok.'' @ t @ '', dev.'' @ d @ crlf
     | None \<Rightarrow> ''Sec-WebSocket-Protocol: '' @ SUBPROTOCOL @ '', tok.'' @ t @ crlf))"

subsection \<open>Addresses\<close>

record proxy_url =
  tls :: bool
  pu_host :: string
  pu_port :: nat
  pu_base :: string

datatype url_error = EnterAddress | HasSpaces | OnlyWss | HasCredentials | BadPath | BadAddress | BadPortNo | BadHostName

primrec contains_str :: "string \<Rightarrow> string \<Rightarrow> bool" where
  "contains_str p [] = (p = [])"
| "contains_str p (c # cs) = (take (length p) (c # cs) = p \<or> contains_str p cs)"

definition ends_with :: "string \<Rightarrow> string \<Rightarrow> bool" where
  "ends_with p s = (strip_prefix (rev p) (rev s) \<noteq> None)"

definition trim_slashes :: "string \<Rightarrow> string" where
  "trim_slashes s = rev (dropWhile (\<lambda>c. c = CHR ''/'') (rev s))"

text \<open>\<open>str::parse::<u16>\<close> takes a leading plus sign.\<close>

definition parse_u16 :: "string \<Rightarrow> nat option" where
  "parse_u16 s = (let d = (case s of [] \<Rightarrow> [] | c # t \<Rightarrow> if c = CHR ''+'' then t else s) in
     if d \<noteq> [] \<and> list_all is_digit d \<and> dec_val d < 2 ^ 16 then Some (dec_val d) else None)"

definition default_port :: "bool \<Rightarrow> nat" where
  "default_port t = (if t then 443 else 80)"

definition is_loopback :: "ip_addr \<Rightarrow> bool" where
  "is_loopback ip = (case ip of IpV4 a \<Rightarrow> a div 2 ^ 24 = 127 | IpV6 a \<Rightarrow> a = 1)"

definition is_loopback_name :: "(string \<Rightarrow> ip_addr option) \<Rightarrow> string \<Rightarrow> bool" where
  "is_loopback_name ips h \<longleftrightarrow> h = ''localhost'' \<or> (case ips h of Some ip \<Rightarrow> is_loopback ip | None \<Rightarrow> False)"

definition path_char :: "char \<Rightarrow> bool" where
  "path_char b \<longleftrightarrow> ascii_alnum b \<or> b \<in> set ''/-._~''"

definition path_ok :: "string \<Rightarrow> bool" where
  "path_ok path \<longleftrightarrow> (path = [] \<or> list_all path_char path) \<and> \<not> contains_str ''//'' path \<and> \<not> contains_str ''/../'' path \<and> \<not> ends_with ''/..'' path"

definition scheme_of :: "string \<Rightarrow> url_error + bool \<times> string" where
  "scheme_of lower = (case strip_prefix ''wss://'' lower of
     Some r \<Rightarrow> Inr (True, r)
   | None \<Rightarrow> (case strip_prefix ''ws://'' lower of
       Some r \<Rightarrow> Inr (False, r)
     | None \<Rightarrow> if contains_str ''://'' lower then Inl OnlyWss else Inr (True, lower)))"

definition host_port :: "string \<Rightarrow> url_error + string \<times> string" where
  "host_port authority = (case strip_prefix ''['' authority of
     Some r \<Rightarrow> (case split_once CHR '']'' r of None \<Rightarrow> Inl BadAddress | Some hp \<Rightarrow> Inr hp)
   | None \<Rightarrow> (case rsplit_once CHR '':'' authority of Some (h, p) \<Rightarrow> Inr (h, CHR '':'' # p) | None \<Rightarrow> Inr (authority, [])))"

definition port_of :: "bool \<Rightarrow> string \<Rightarrow> nat option" where
  "port_of t p = (if p = [] then Some (default_port t)
     else keep_if (\<lambda>n. 0 < n) (Option.bind (strip_prefix '':'' p) parse_u16))"

definition host_ok :: "(string \<Rightarrow> ip_addr option) \<Rightarrow> string \<Rightarrow> bool" where
  "host_ok ips h \<longleftrightarrow> ips h \<noteq> None \<or> valid_dns_name h \<or> h = ''localhost''"

definition parse_rest :: "(string \<Rightarrow> ip_addr option) \<Rightarrow> bool \<Rightarrow> string \<Rightarrow> url_error + proxy_url" where
  "parse_rest ips t rest =
     (if \<exists>c\<in>set rest. c \<in> set ''?#@'' \<or> c = CHR 0x5C then Inl HasCredentials
      else let authority = takeWhile (\<lambda>c. c \<noteq> CHR ''/'') rest; path = trim_slashes (dropWhile (\<lambda>c. c \<noteq> CHR ''/'') rest) in
        if \<not> path_ok path then Inl BadPath
        else case host_port authority of
          Inl e \<Rightarrow> Inl e
        | Inr (h, p) \<Rightarrow> (case port_of t p of
            None \<Rightarrow> Inl BadPortNo
          | Some port \<Rightarrow> let host = trim_dots h in
              if \<not> host_ok ips host then Inl BadHostName
              else if \<not> t \<and> \<not> is_loopback_name ips host then Inl OnlyWss
              else Inr \<lparr>tls = t, pu_host = host, pu_port = port, pu_base = path\<rparr>))"

definition parse_proxy_url :: "(string \<Rightarrow> ip_addr option) \<Rightarrow> string \<Rightarrow> url_error + proxy_url" where
  "parse_proxy_url ips raw =
     (let s = trim raw in
      if s = [] \<or> length s > URL_MAX then Inl EnterAddress
      else if list_ex (\<lambda>c. is_ws c \<or> is_control c) (chars s) then Inl HasSpaces
      else case scheme_of (map ascii_lower s) of Inl e \<Rightarrow> Inl e | Inr (t, rest) \<Rightarrow> parse_rest ips t rest)"

definition bracketed :: "string \<Rightarrow> string" where
  "bracketed h = (if CHR '':'' \<in> set h then ''['' @ h @ '']'' else h)"

definition to_url :: "proxy_url \<Rightarrow> string" where
  "to_url p = (if tls p then ''wss'' else ''ws'') @ ''://'' @ bracketed (pu_host p)
     @ (if pu_port p = default_port (tls p) then [] else '':'' @ show_nat (pu_port p)) @ pu_base p"

definition host_header :: "proxy_url \<Rightarrow> string" where
  "host_header p = (if pu_port p = default_port (tls p) then bracketed (pu_host p) else bracketed (pu_host p) @ '':'' @ show_nat (pu_port p))"

definition dns_path :: "proxy_url \<Rightarrow> string \<Rightarrow> string" where
  "dns_path p host = pu_base p @ ''/dns/'' @ map ascii_lower (trim_dots host)"

definition tcp_path :: "(ip_addr \<Rightarrow> string) \<Rightarrow> proxy_url \<Rightarrow> ip_addr \<Rightarrow> nat \<Rightarrow> string" where
  "tcp_path show_ip p ip port = pu_base p @ ''/tcp/'' @ show_ip ip @ ''/'' @ show_nat port"

subsection \<open>The upgrade\<close>

definition upgrade_request :: "string \<Rightarrow> proxy_url \<Rightarrow> string \<Rightarrow> string option \<Rightarrow> string option \<Rightarrow> string" where
  "upgrade_request key p path token device =
     ''GET '' @ path @ '' HTTP/1.1'' @ crlf @ ''Host: '' @ host_header p @ crlf @ ''Upgrade: websocket'' @ crlf @ ''Connection: Upgrade'' @ crlf
     @ ''Sec-WebSocket-Key: '' @ key @ crlf @ ''Sec-WebSocket-Version: 13'' @ crlf @ auth_header token device @ ''User-Agent: Velta'' @ crlf @ crlf"

text \<open>The bytes of the answer up to the empty line, at most 8193 of them.\<close>

fun read_head :: "string \<Rightarrow> string \<Rightarrow> (string \<times> string) option" where
  "read_head head inp = (if ends_with (crlf @ crlf) head then Some (head, inp)
     else if length head > 8192 then None
     else (case inp of [] \<Rightarrow> None | c # cs \<Rightarrow> read_head (head @ [c]) cs))"

declare read_head.simps [simp del]

definition text_lines :: "string \<Rightarrow> string list" where
  "text_lines s = (let ls = split_on CHR 0x0A s in
     map (\<lambda>l. if l \<noteq> [] \<and> last l = CHR 0x0D then butlast l else l) (butlast ls) @ (if last ls = [] then [] else [last ls]))"

definition first_line :: "string \<Rightarrow> string" where
  "first_line head = (case text_lines head of [] \<Rightarrow> [] | l # _ \<Rightarrow> l)"

primrec split_ws :: "string list \<Rightarrow> string list" where
  "split_ws [] = [[]]"
| "split_ws (c # cs) = (if is_ws c then [] # split_ws cs else (case split_ws cs of [] \<Rightarrow> [c] | w # ws \<Rightarrow> (c @ w) # ws))"

definition status_code :: "string \<Rightarrow> string option" where
  "status_code line = (case filter (\<lambda>w. w \<noteq> []) (split_ws (chars line)) of _ # c # _ \<Rightarrow> Some c | _ \<Rightarrow> None)"

definition has_header :: "string \<Rightarrow> string \<Rightarrow> string \<Rightarrow> bool" where
  "has_header name v head = list_ex (\<lambda>l. case split_once CHR '':'' l of
     None \<Rightarrow> False | Some (k, x) \<Rightarrow> map ascii_lower (trim k) = name \<and> trim x = v) (text_lines head)"

datatype refusal = InviteRefused | DeviceLimit | ProxyRefused string

definition refusal_text :: "string \<Rightarrow> refusal" where
  "refusal_text head = (let line = first_line head; code = status_code line in
     if code = Some ''401'' then InviteRefused
     else if code = Some ''403'' \<and> has_header ''x-velta-refusal'' ''device-limit'' head then DeviceLimit
     else ProxyRefused (concat (take 60 (chars line))))"

datatype upgrade_error = Closed | Refusal refusal | BadAccept

definition upgrade_answer :: "string \<Rightarrow> string \<Rightarrow> upgrade_error + string" where
  "upgrade_answer want inp = (case read_head [] inp of
     None \<Rightarrow> Inl Closed
   | Some (head, rest) \<Rightarrow>
       if status_code (first_line head) \<noteq> Some ''101'' then Inl (Refusal (refusal_text head))
       else if \<not> has_header ''sec-websocket-accept'' want head then Inl BadAccept
       else Inr rest)"

subsection \<open>The saved list\<close>

datatype store_error = BadUrl url_error | DamagedInvite | TooManySaved | NoSuch

definition ws_empty :: json where
  "ws_empty = jobj [(''active'', JNull), (''proxies'', JArr [])]"

definition ws_clean_label :: "string \<Rightarrow> string" where
  "ws_clean_label l = concat (take LABEL_MAX (chars (trim (concat (filter (\<lambda>c. \<not> is_control c) (chars l))))))"

fun set_token :: "string \<Rightarrow> string option \<Rightarrow> json list \<Rightarrow> (string \<times> json list) option" where
  "set_token canon t [] = None"
| "set_token canon t (p # ps) = (if as_str (jget p ''url'') = Some canon
     then Some (str_or (jget p ''id'') [], (case t of None \<Rightarrow> p | Some x \<Rightarrow> jset p ''token'' (JStr x)) # ps)
     else map_option (\<lambda>(i, qs). (i, p # qs)) (set_token canon t ps))"

definition ws_add :: "(string \<Rightarrow> ip_addr option) \<Rightarrow> string \<Rightarrow> string \<Rightarrow> string option \<Rightarrow> string \<Rightarrow> nat \<Rightarrow> json \<Rightarrow> json \<times> (store_error + string \<times> bool)" where
  "ws_add ips url label token i now s = (case parse_proxy_url ips url of
     Inl e \<Rightarrow> (s, Inl (BadUrl e))
   | Inr p \<Rightarrow> let canon = to_url p; t = keep_if (\<lambda>x. x \<noteq> []) (map_option trim token) in
       if (case t of None \<Rightarrow> False | Some x \<Rightarrow> \<not> valid_token x) then (s, Inl DamagedInvite)
       else (case Option.bind (as_array (jget s ''proxies'')) (set_token canon t) of
         Some (j, ps) \<Rightarrow> (put_proxies ps s, Inr (j, True))
       | None \<Rightarrow> if length (proxies s) \<ge> WS_MAX_PROXIES then (s, Inl TooManySaved)
           else let e = jobj [(''id'', JStr i), (''label'', JStr (ws_clean_label label)), (''url'', JStr canon), (''added'', JInt (int now))];
                    e' = (case t of None \<Rightarrow> e | Some x \<Rightarrow> jset e ''token'' (JStr x))
                in (put_proxies (proxies s @ [e']) (proxies_mut s), Inr (i, False))))"

definition ws_select :: "string option \<Rightarrow> json \<Rightarrow> json \<times> (store_error + unit)" where
  "ws_select i s = (case i of
     Some k \<Rightarrow> if find_proxy s k = None then (s, Inl NoSuch) else (jset s ''active'' (JStr k), Inr ())
   | None \<Rightarrow> (jset s ''active'' JNull, Inr ()))"

definition ws_delete :: "string \<Rightarrow> json \<Rightarrow> json \<times> (store_error + bool)" where
  "ws_delete i s = (case as_array (jget s ''proxies'') of
     None \<Rightarrow> (jset s ''proxies'' (jget s ''proxies''), Inl NoSuch)
   | Some xs \<Rightarrow> let ys = filter (\<lambda>p. entry_id p \<noteq> Some i) xs; s1 = put_proxies ys s in
       if length ys = length xs then (s1, Inl NoSuch)
       else let was = (as_str (jget s1 ''active'') = Some i) in (if was then jset s1 ''active'' JNull else s1, Inr was))"

definition ws_device :: "(string \<Rightarrow> ip_addr option) \<Rightarrow> string \<Rightarrow> string \<Rightarrow> json \<Rightarrow> json \<times> (store_error + string)" where
  "ws_device ips url fresh s = (case parse_proxy_url ips url of
     Inl e \<Rightarrow> (s, Inl (BadUrl e))
   | Inr p \<Rightarrow> let canon = to_url p; s1 = (if is_obj (jget s ''devices'') then s else jset s ''devices'' (jobj [])) in
       (case keep_if valid_device (as_str (jget (jget s1 ''devices'') canon)) of
          Some d \<Rightarrow> (s1, Inr d)
        | None \<Rightarrow> (jset s1 ''devices'' (jset (jget s1 ''devices'') canon (JStr fresh)), Inr fresh)))"

definition ws_token :: "json \<Rightarrow> string \<Rightarrow> string option" where
  "ws_token s i = Option.bind (find_proxy s i) (\<lambda>p. keep_if valid_token (as_str (jget p ''token'')))"

definition ws_public_list :: "json \<Rightarrow> json" where
  "ws_public_list s = jobj [(''active'', opt_str (active_id s)), (''proxies'', JArr (proxies s))]"

subsection \<open>Characters of an address\<close>

definition host_char :: "char \<Rightarrow> bool" where
  "host_char c \<longleftrightarrow> CHR ''0'' \<le> c \<and> c \<le> CHR ''9'' \<or> CHR ''a'' \<le> c \<and> c \<le> CHR ''z'' \<or> c \<in> {CHR ''-'', CHR ''.'', CHR '':''}"

definition url_char :: "char \<Rightarrow> bool" where
  "url_char c \<longleftrightarrow> host_char c \<or> c \<in> {CHR ''/'', CHR ''_'', CHR ''~'', CHR ''['', CHR '']''}"

definition hex_or_sep :: "char \<Rightarrow> bool" where
  "hex_or_sep c \<longleftrightarrow> CHR ''0'' \<le> c \<and> c \<le> CHR ''9'' \<or> CHR ''a'' \<le> c \<and> c \<le> CHR ''f'' \<or> CHR ''A'' \<le> c \<and> c \<le> CHR ''F'' \<or> c = CHR '':'' \<or> c = CHR ''.''"

text \<open>What is documented of \<open>IpAddr::from_str\<close>: an address is made of hex digits, colons and dots, and ends in no dot.\<close>

definition ip_laws :: "(string \<Rightarrow> ip_addr option) \<Rightarrow> bool" where
  "ip_laws ips \<longleftrightarrow> (\<forall>h. ips h \<noteq> None \<longrightarrow> h \<noteq> [] \<and> last h \<noteq> CHR ''.'' \<and> (\<forall>c\<in>set h. hex_or_sep c))"

lemma url_char_plain:
  assumes "url_char c"
  shows "\<not> is_cont c" "\<not> is_ws [c]" "\<not> is_control [c]" "ascii_lower c = c" "c \<notin> set ''?#@''" "c \<noteq> CHR 0x5C" "c \<noteq> CHR 0x0A" "c \<noteq> CHR 0x0D" "c \<noteq> CHR 0x20"
  using assms by (auto simp: url_char_def host_char_def is_cont_def is_ws_def whitespace_def is_control_def ascii_lower_def less_eq_char_def)

lemma host_char_plain:
  assumes "host_char c"
  shows "url_char c" "c \<noteq> CHR ''/''" "c \<noteq> CHR ''[''" "c \<noteq> CHR '']''"
  using assms by (auto simp: url_char_def host_char_def less_eq_char_def)

lemma lower_hosts:
  assumes "c = ascii_lower x"
  shows "ascii_alnum c \<Longrightarrow> host_char c" "hex_or_sep c \<Longrightarrow> host_char c" "path_char c \<Longrightarrow> url_char c"
proof -
  have nu: "\<not> (CHR ''A'' \<le> c \<and> c \<le> CHR ''Z'')"
    using ascii_lower_idem[of x] assms by (auto simp: ascii_lower_def less_eq_char_def of_char_of split: if_splits)
  then show "ascii_alnum c \<Longrightarrow> host_char c" "hex_or_sep c \<Longrightarrow> host_char c" "path_char c \<Longrightarrow> url_char c"
    by (auto simp: ascii_alnum_def host_char_def hex_or_sep_def path_char_def url_char_def less_eq_char_def)
qed

lemma url_trim:
  assumes "\<forall>c\<in>set s. url_char c" and "s \<noteq> []"
  shows "trim s = s" "chars s = map (\<lambda>c. [c]) s" "map ascii_lower s = s" "\<not> list_ex (\<lambda>c. is_ws c \<or> is_control c) (chars s)"
proof -
  show ch: "chars s = map (\<lambda>c. [c]) s"
    using assms url_char_plain(1) by (intro chars_ascii) blast
  have "trim_chars (map (\<lambda>c. [c]) s) = map (\<lambda>c. [c]) s"
    using assms url_char_plain(2) by (intro trim_chars_id) (auto simp: hd_map last_map)
  then show "trim s = s" by (simp add: trim_def ch)
  show "map ascii_lower s = s" using assms(1) url_char_plain(4) by (simp add: map_idI)
  show "\<not> list_ex (\<lambda>c. is_ws c \<or> is_control c) (chars s)"
    using assms(1) url_char_plain(2,3) by (auto simp: ch list_ex_iff)
qed

definition addr_ok :: "(string \<Rightarrow> ip_addr option) \<Rightarrow> proxy_url \<Rightarrow> bool" where
  "addr_ok ips p \<longleftrightarrow> host_ok ips (pu_host p) \<and> pu_host p \<noteq> [] \<and> last (pu_host p) \<noteq> CHR ''.'' \<and> (\<forall>c\<in>set (pu_host p). host_char c)
     \<and> 0 < pu_port p \<and> pu_port p < 2 ^ 16 \<and> (tls p \<or> is_loopback_name ips (pu_host p))
     \<and> path_ok (pu_base p) \<and> (\<forall>c\<in>set (pu_base p). url_char c) \<and> trim_slashes (pu_base p) = pu_base p
     \<and> (pu_base p = [] \<or> hd (pu_base p) = CHR ''/'')
     \<and> (CHR '':'' \<in> set (pu_host p) \<longrightarrow> ips (pu_host p) \<noteq> None)"

lemma dns_name_clean: "valid_dns_name h \<Longrightarrow> h \<noteq> [] \<and> last h \<noteq> CHR ''.'' \<and> (\<forall>c\<in>set h. ascii_alnum c \<or> c = CHR ''-'' \<or> c = CHR ''.'')"
proof -
  assume v: "valid_dns_name h"
  let ?P = "\<lambda>l. l \<noteq> [] \<and> length l \<le> 63 \<and> hd l \<noteq> CHR ''-'' \<and> last l \<noteq> CHR ''-'' \<and> list_all (\<lambda>b. ascii_alnum b \<or> b = CHR ''-'') l"
  have ls: "list_all ?P (split_on CHR ''.'' h)" using v by (simp add: valid_dns_name_def)
  have "h \<noteq> [] \<and> list_all safe_char h \<and> last h \<noteq> CHR ''.''"
    by (rule labels_clean[OF ls]) (auto simp: list_all_iff safe_char_def)
  moreover have "ascii_alnum c \<or> c = CHR ''-'' \<or> c = CHR ''.''" if "c \<in> set h" for c
    using split_on_chars[OF that, of "CHR ''.''"] ls by (auto simp: list_all_iff)
  ultimately show ?thesis by blast
qed

lemma trim_end_props:
  "set (trim_dots s) \<subseteq> set s" "set (trim_slashes s) \<subseteq> set s" "trim_slashes (trim_slashes s) = trim_slashes s"
  "trim_slashes (x # s) = [] \<or> hd (trim_slashes (x # s)) = x"
proof -
  show "set (trim_dots s) \<subseteq> set s" "set (trim_slashes s) \<subseteq> set s"
    unfolding trim_dots_def trim_slashes_def by (auto dest: set_dropWhileD)
  show "trim_slashes (trim_slashes s) = trim_slashes s"
    by (simp add: trim_slashes_def dropWhile_idem)
  show "trim_slashes (x # s) = [] \<or> hd (trim_slashes (x # s)) = x"
    by (auto simp: trim_slashes_def dropWhile_append)
qed

lemma strip_prefix_set: "strip_prefix a s = Some r \<Longrightarrow> set r \<subseteq> set s"
  by (auto simp: strip_prefix_def dest: in_set_dropD split: if_splits)

lemma split_once_set: "split_once c s = Some (a, b) \<Longrightarrow> set a \<subseteq> set s \<and> set b \<subseteq> set s"
proof -
  assume "split_once c s = Some (a, b)"
  then have ab: "a = takeWhile (\<lambda>x. x \<noteq> c) s" "b = tl (dropWhile (\<lambda>x. x \<noteq> c) s)" by (auto simp: split_once_def split: if_splits)
  have "set (tl (dropWhile (\<lambda>x. x \<noteq> c) s)) \<subseteq> set s"
    by (metis list.set_sel(2) set_dropWhileD subsetI tl_Nil)
  then show ?thesis using ab by (auto dest: set_takeWhileD)
qed

lemma rsplit_once_set: "rsplit_once c s = Some (a, b) \<Longrightarrow> set a \<subseteq> set s \<and> set b \<subseteq> set s"
  by (auto simp: rsplit_once_def dest!: split_once_set)

lemma host_port_set:
  assumes "host_port a = Inr (h, p)"
  shows "set h \<subseteq> set a"
proof (cases "strip_prefix ''['' a")
  case None
  then show ?thesis using assms by (auto simp: host_port_def dest!: rsplit_once_set split: option.splits)
next
  case (Some r)
  then show ?thesis using assms strip_prefix_set[OF Some] by (auto simp: host_port_def dest!: split_once_set split: option.splits)
qed

lemma parse_u16_bound: "parse_u16 s = Some n \<Longrightarrow> n < 2 ^ 16"
  by (auto simp: parse_u16_def Let_def split: if_splits)

lemma port_of_bound: "port_of t p = Some n \<Longrightarrow> 0 < n \<and> n < 2 ^ 16"
  by (auto simp: port_of_def keep_if_def default_port_def dest!: parse_u16_bound split: if_splits option.splits bind_splits)

lemma host_ok_clean:
  assumes "ip_laws ips" and "host_ok ips h" and "set h \<subseteq> range ascii_lower"
  shows "h \<noteq> [] \<and> last h \<noteq> CHR ''.'' \<and> (\<forall>c\<in>set h. host_char c) \<and> (CHR '':'' \<in> set h \<longrightarrow> ips h \<noteq> None)"
proof -
  consider "ips h \<noteq> None" | "valid_dns_name h" | "h = ''localhost''"
    using assms(2) by (auto simp: host_ok_def)
  then show ?thesis
  proof cases
    case 1
    then have "h \<noteq> [] \<and> last h \<noteq> CHR ''.'' \<and> (\<forall>c\<in>set h. hex_or_sep c)"
      using assms(1) unfolding ip_laws_def by blast
    then show ?thesis using 1 assms(3) lower_hosts(2) by blast
  next
    case 2
    from dns_name_clean[OF 2] have c: "h \<noteq> []" "last h \<noteq> CHR ''.''" "\<forall>c\<in>set h. ascii_alnum c \<or> c = CHR ''-'' \<or> c = CHR ''.''" by blast+
    have "host_char x" if "x \<in> set h" for x
    proof -
      have "x \<in> range ascii_lower" using assms(3) that by blast
      then show ?thesis using c(3) that lower_hosts(1) by (auto simp: host_char_def)
    qed
    moreover have "CHR '':'' \<notin> set h"
      using c(3) by (auto simp: ascii_alnum_def less_eq_char_def)
    ultimately show ?thesis using c by blast
  next
    case 3
    then show ?thesis by (auto simp: host_char_def less_eq_char_def)
  qed
qed

lemma parse_rest_ok:
  assumes "ip_laws ips" and "parse_rest ips t rest = Inr p" and "set rest \<subseteq> range ascii_lower"
  shows "addr_ok ips p"
proof -
  let ?auth = "takeWhile (\<lambda>c. c \<noteq> CHR ''/'') rest" and ?tail = "dropWhile (\<lambda>c. c \<noteq> CHR ''/'') rest"
  obtain h ps where hp: "host_port ?auth = Inr (h, ps)" and po: "port_of t ps = Some (pu_port p)" and pok: "path_ok (trim_slashes ?tail)"
    and h: "host_ok ips (trim_dots h)" and lb: "t \<or> is_loopback_name ips (trim_dots h)"
    and p: "tls p = t" "pu_host p = trim_dots h" "pu_base p = trim_slashes ?tail"
    using assms(2) by (auto simp: parse_rest_def Let_def split: if_splits sum.splits option.splits)
  have "set (trim_dots h) \<subseteq> range ascii_lower"
    using trim_end_props(1)[of h] host_port_set[OF hp] set_takeWhileD[of _ "\<lambda>c. c \<noteq> CHR ''/''" rest] assms(3) by blast
  note host = host_ok_clean[OF assms(1) h this]
  have base: "url_char c" if "c \<in> set (trim_slashes ?tail)" for c
  proof -
    have "path_char c" using pok that by (auto simp: path_ok_def list_all_iff)
    moreover have "c \<in> range ascii_lower"
      using that trim_end_props(2)[of ?tail] set_dropWhileD[of c "\<lambda>c. c \<noteq> CHR ''/''" rest] assms(3) by blast
    ultimately show ?thesis using lower_hosts(3) by blast
  qed
  have "trim_slashes ?tail = [] \<or> hd (trim_slashes ?tail) = CHR ''/''"
  proof (cases ?tail)
    case Nil
    show ?thesis unfolding Nil by (simp add: trim_slashes_def)
  next
    case (Cons x xs)
    then have "x = CHR ''/''" using hd_dropWhile[of "\<lambda>c. c \<noteq> CHR ''/''" rest] by auto
    then show ?thesis using trim_end_props(4)[of x xs] Cons by simp
  qed
  then show ?thesis
    using host base pok h lb port_of_bound[OF po] trim_end_props(3)[of ?tail] by (auto simp: addr_ok_def p)
qed

lemma scheme_of_set: "scheme_of s = Inr (t, r) \<Longrightarrow> set r \<subseteq> set s"
  by (auto simp: scheme_of_def dest: strip_prefix_set split: option.splits if_splits)

lemma parse_ok:
  assumes "ip_laws ips" and "parse_proxy_url ips raw = Inr p"
  shows "addr_ok ips p"
proof -
  obtain t rest where sc: "scheme_of (map ascii_lower (trim raw)) = Inr (t, rest)" and pr: "parse_rest ips t rest = Inr p"
    using assms(2) by (auto simp: parse_proxy_url_def Let_def split: if_splits sum.splits)
  from scheme_of_set[OF sc] show ?thesis by (intro parse_rest_ok[OF assms(1) pr]) auto
qed

subsection \<open>The canonical address\<close>

definition port_text :: "proxy_url \<Rightarrow> string" where
  "port_text p = (if pu_port p = default_port (tls p) then [] else '':'' @ show_nat (pu_port p))"

lemma show_nat_ne [simp]: "show_nat n \<noteq> []"
  by (subst show_nat.simps) simp

lemma digit_host_char: "CHR ''0'' \<le> c \<and> c \<le> CHR ''9'' \<Longrightarrow> host_char c \<and> c \<noteq> CHR '':'' \<and> c \<noteq> CHR ''+''"
  by (auto simp: host_char_def less_eq_char_def)

lemma show_nat_host_char: "c \<in> set (show_nat n) \<Longrightarrow> host_char c"
  using show_nat_digits[of c n] digit_host_char[of c] by blast

lemma colon_host_char: "host_char CHR '':''"
  by (simp add: host_char_def)

lemma parse_u16_show: "n < 2 ^ 16 \<Longrightarrow> parse_u16 (show_nat n) = Some n"
proof -
  assume n: "n < 2 ^ 16"
  obtain c s where cs: "show_nat n = c # s" using show_nat_ne[of n] by (cases "show_nat n") auto
  have "c \<noteq> CHR ''+''" using show_nat_digits[of c n] cs by (auto dest: digit_host_char)
  moreover have "list_all is_digit (show_nat n)"
    using show_nat_digits by (auto simp: list_all_iff is_digit_def)
  ultimately show ?thesis
    using n show_nat_val[of n] by (simp add: parse_u16_def cs Let_def)
qed

lemma port_of_text: "addr_ok ips p \<Longrightarrow> port_of (tls p) (port_text p) = Some (pu_port p)"
  by (auto simp: port_of_def port_text_def strip_prefix_def parse_u16_show keep_if_def addr_ok_def)

lemma split_once_append: "c \<notin> set a \<Longrightarrow> split_once c (a @ c # b) = Some (a, b)"
proof -
  assume "c \<notin> set a"
  then have "takeWhile (\<lambda>x. x \<noteq> c) (a @ c # b) = a" "dropWhile (\<lambda>x. x \<noteq> c) (a @ c # b) = c # b"
    by (induction a) auto
  then show ?thesis by (simp add: split_once_def)
qed

lemma rsplit_once_append: "c \<notin> set b \<Longrightarrow> rsplit_once c (a @ c # b) = Some (a, b)"
  by (simp add: rsplit_once_def split_once_append)

lemma host_port_text:
  assumes "addr_ok ips p"
  shows "host_port (bracketed (pu_host p) @ port_text p) = Inr (pu_host p, port_text p)"
proof -
  have hc: "\<forall>c\<in>set (pu_host p). host_char c" "pu_host p \<noteq> []" using assms by (auto simp: addr_ok_def)
  show ?thesis
  proof (cases "CHR '':'' \<in> set (pu_host p)")
    case True
    have "CHR '']'' \<notin> set (pu_host p)" using hc host_char_plain(4) by blast
    then show ?thesis using True by (simp add: host_port_def bracketed_def strip_prefix_def split_once_append)
  next
    case False
    obtain c s where cs: "pu_host p = c # s" using hc(2) by (cases "pu_host p") auto
    have "c \<noteq> CHR ''[''" using hc cs host_char_plain(3) by auto
    then have sp: "strip_prefix ''['' (pu_host p @ x) = None" for x by (simp add: strip_prefix_def cs)
    have "CHR '':'' \<notin> set (show_nat n)" for n using show_nat_digits[of "CHR '':''" n] by (auto simp: less_eq_char_def)
    moreover have "rsplit_once CHR '':'' (pu_host p) = None" using False by (simp add: rsplit_once_def split_once_def)
    ultimately show ?thesis
      using False rsplit_once_append[of "CHR '':''" "show_nat (pu_port p)" "pu_host p"] sp[of "port_text p"]
      by (auto simp: host_port_def bracketed_def port_text_def)
  qed
qed

lemma authority_chars:
  assumes "addr_ok ips p"
  shows "\<forall>c\<in>set (bracketed (pu_host p) @ port_text p). url_char c \<and> c \<noteq> CHR ''/''"
proof -
  have "\<forall>c\<in>set (pu_host p). host_char c" using assms by (simp add: addr_ok_def)
  moreover have "\<forall>c\<in>set (port_text p). host_char c"
    using show_nat_host_char colon_host_char by (auto simp: port_text_def)
  moreover have "set (bracketed (pu_host p)) \<subseteq> set (pu_host p) \<union> {CHR ''['', CHR '']''}" by (auto simp: bracketed_def)
  moreover have "url_char CHR ''['' \<and> url_char CHR '']''" by (simp add: url_char_def)
  moreover have "\<not> host_char CHR ''/''" by (simp add: host_char_def less_eq_char_def)
  ultimately show ?thesis using host_char_plain(1) by auto
qed

lemma cut_before:
  assumes "\<forall>x\<in>set a. x \<noteq> c" and "b = [] \<or> hd b = c"
  shows "takeWhile (\<lambda>x. x \<noteq> c) (a @ b) = a" "dropWhile (\<lambda>x. x \<noteq> c) (a @ b) = b"
  using assms by (cases b; simp add: takeWhile_append dropWhile_append)+

lemma parse_rest_url:
  assumes "addr_ok ips p"
  shows "parse_rest ips (tls p) (bracketed (pu_host p) @ port_text p @ pu_base p) = Inr p"
proof -
  let ?auth = "bracketed (pu_host p) @ port_text p"
  note ac = authority_chars[OF assms]
  have rest: "\<forall>c\<in>set (?auth @ pu_base p). url_char c" using ac assms by (auto simp: addr_ok_def)
  then have creds: "\<not> (\<exists>c\<in>set (?auth @ pu_base p). c \<in> set ''?#@'' \<or> c = CHR 0x5C)" using url_char_plain(5,6) by blast
  have tw: "takeWhile (\<lambda>c. c \<noteq> CHR ''/'') (?auth @ pu_base p) = ?auth" "dropWhile (\<lambda>c. c \<noteq> CHR ''/'') (?auth @ pu_base p) = pu_base p"
    using cut_before[of ?auth "CHR ''/''" "pu_base p"] ac assms by (simp_all add: addr_ok_def del: set_append)
  have dots: "trim_dots (pu_host p) = pu_host p"
    using assms by (cases "rev (pu_host p)") (auto simp: trim_dots_def addr_ok_def)
  show ?thesis
    using creds tw assms host_port_text[OF assms] port_of_text[OF assms] dots
    unfolding parse_rest_def append_assoc[symmetric] Let_def by (auto simp: addr_ok_def)
qed

text \<open>C32: the canonical form in which a proxy is saved and shown is read back as the same proxy, for every address the parser
  accepts and whose canonical form keeps within the length limit.\<close>

theorem canonical_url_parses_back:
  assumes "ip_laws ips" and "parse_proxy_url ips raw = Inr p" and "length (to_url p) \<le> URL_MAX"
  shows "parse_proxy_url ips (to_url p) = Inr p"
proof -
  note ok = parse_ok[OF assms(1,2)]
  define pre where "pre = (if tls p then ''wss://'' else ''ws://'')"
  have url: "to_url p = pre @ bracketed (pu_host p) @ port_text p @ pu_base p"
    by (simp add: to_url_def port_text_def pre_def)
  have "\<forall>c\<in>set pre. url_char c" by (simp add: pre_def url_char_def host_char_def less_eq_char_def)
  moreover have "\<forall>c\<in>set (pu_base p). url_char c" using ok by (simp add: addr_ok_def)
  ultimately have chars: "\<forall>c\<in>set (to_url p). url_char c"
    using authority_chars[OF ok] unfolding url by auto
  have ne: "to_url p \<noteq> []" by (simp add: to_url_def)
  have "scheme_of (to_url p) = Inr (tls p, bracketed (pu_host p) @ port_text p @ pu_base p)"
    unfolding url pre_def by (cases "tls p") (simp_all add: scheme_of_def strip_prefix_def)
  then show ?thesis
    using url_trim[OF chars ne] assms(3) ne parse_rest_url[OF ok] by (simp add: parse_proxy_url_def)
qed

definition demo_address :: proxy_url where
  "demo_address = \<lparr>tls = True, pu_host = ''ex.org'', pu_port = 8080, pu_base = ''/ws''\<rparr>"

definition no_ip :: "string \<Rightarrow> ip_addr option" where
  "no_ip = (\<lambda>_. None)"

lemma no_ip_laws: "ip_laws no_ip"
  by (simp add: ip_laws_def no_ip_def)

lemma demo_parses: "parse_proxy_url no_ip '' Ex.org.:8080/WS// '' = Inr demo_address"
proof -
  have "valid_dns_name ''ex.org''" by (simp add: valid_dns_name_def ascii_alnum_def less_eq_char_def)
  moreover have "trim '' Ex.org.:8080/WS// '' = ''Ex.org.:8080/WS//''" by code_simp
  moreover have "list_ex (\<lambda>c. is_ws c \<or> is_control c) (chars ''Ex.org.:8080/WS//'') = False" by code_simp
  moreover have "map ascii_lower ''Ex.org.:8080/WS//'' = ''ex.org.:8080/ws//''" by code_simp
  ultimately show ?thesis
    unfolding parse_proxy_url_def Let_def
    by (simp only:) (simp add: demo_address_def no_ip_def URL_MAX_def
        scheme_of_def strip_prefix_def less_eq_char_def parse_rest_def Let_def trim_slashes_def path_ok_def path_char_def ends_with_def
        host_port_def rsplit_once_def split_once_def port_of_def parse_u16_def is_digit_def dec_val_def keep_if_def trim_dots_def host_ok_def ascii_alnum_def)
qed

theorem canonical_url_parses_back_witness: "parse_proxy_url no_ip (to_url demo_address) = Inr demo_address"
  by (rule canonical_url_parses_back[OF no_ip_laws demo_parses])
    (simp add: to_url_def demo_address_def bracketed_def default_port_def URL_MAX_def show_nat.simps)

subsection \<open>The lines of the handshake\<close>

abbreviation lf :: char where "lf \<equiv> CHR 0x0A"

definition auth_lines :: "string option \<Rightarrow> string option \<Rightarrow> string list" where
  "auth_lines token device = (case keep_if valid_token token of
     None \<Rightarrow> []
   | Some t \<Rightarrow> [''Sec-WebSocket-Protocol: '' @ SUBPROTOCOL @ '', tok.'' @ t
       @ (case keep_if valid_device device of None \<Rightarrow> [] | Some d \<Rightarrow> '', dev.'' @ d)])"

lemma split_on_line: "c \<notin> set l \<Longrightarrow> split_on c (l @ c # r) = l # split_on c r"
  by (induction l) auto

lemma text_lines_line: "lf \<notin> set l \<Longrightarrow> text_lines (l @ crlf @ r) = l # text_lines r"
proof -
  assume "lf \<notin> set l"
  then have "split_on lf (l @ crlf @ r) = (l @ [CHR 0x0D]) # split_on lf r"
    using split_on_line[of lf "l @ [CHR 0x0D]" r] by simp
  then show ?thesis by (simp add: text_lines_def Let_def)
qed

lemma text_lines_Nil: "text_lines [] = []"
  by (simp add: text_lines_def)

lemma b64_no_lf: "list_all b64_char s \<Longrightarrow> lf \<notin> set s"
  by (auto simp: list_all_iff b64_char_def ascii_alnum_def less_eq_char_def)

lemma valid_token_no_lf: "valid_token t \<Longrightarrow> lf \<notin> set t"
proof -
  assume v: "valid_token t"
  then obtain p sig where s: "split_once CHR ''.'' t = Some (p, sig)" "list_all b64_char p" "list_all b64_char sig"
    by (auto simp: valid_token_def split: option.splits)
  then have "CHR ''.'' \<in> set t" by (auto simp: split_once_def split: if_splits)
  then obtain a b where ab: "t = a @ CHR ''.'' # b" "CHR ''.'' \<notin> set a" by (meson split_list_first)
  then have "p = a" "sig = b" using s(1) split_once_append[OF ab(2), of b] by auto
  then show ?thesis using ab(1) b64_no_lf[OF s(2)] b64_no_lf[OF s(3)] by auto
qed

lemma auth_header_lines: "auth_header token device = concat (map (\<lambda>l. l @ crlf) (auth_lines token device))"
  by (auto simp: auth_header_def auth_lines_def split: option.split)

lemma auth_lines_no_lf: "l \<in> set (auth_lines token device) \<Longrightarrow> lf \<notin> set l"
  by (auto simp: auth_lines_def keep_if_def SUBPROTOCOL_def valid_device_def dest: valid_token_no_lf b64_no_lf split: option.splits if_splits)

lemma text_lines_auth: "text_lines (auth_header token device @ r) = auth_lines token device @ text_lines r"
proof -
  have "(\<And>l. l \<in> set ls \<Longrightarrow> lf \<notin> set l) \<Longrightarrow> text_lines (concat (map (\<lambda>l. l @ crlf) ls) @ r) = ls @ text_lines r" for ls
  proof (induction ls)
    case (Cons l ls)
    then show ?case using text_lines_line[of l "concat (map (\<lambda>l. l @ crlf) ls) @ r"] by simp
  qed simp
  then show ?thesis unfolding auth_header_lines using auth_lines_no_lf by blast
qed

text \<open>What the printed form of an IP address is made of.\<close>

definition show_laws :: "(ip_addr \<Rightarrow> string) \<Rightarrow> bool" where
  "show_laws show_ip \<longleftrightarrow> (\<forall>ip. \<forall>c\<in>set (show_ip ip). hex_or_sep c)"

definition tunnel_path :: "(ip_addr \<Rightarrow> string) \<Rightarrow> proxy_url \<Rightarrow> string \<Rightarrow> bool" where
  "tunnel_path show_ip p path \<longleftrightarrow> (\<exists>name. valid_dns_name name \<and> path = dns_path p name) \<or> (\<exists>ip port. path = tcp_path show_ip p ip port)"

lemma tunnel_path_no_lf:
  assumes "addr_ok ips p" and "show_laws show_ip" and "tunnel_path show_ip p path"
  shows "lf \<notin> set path"
proof -
  have base: "lf \<notin> set (pu_base p)" using assms(1) url_char_plain(7) by (auto simp: addr_ok_def)
  have name: "lf \<notin> set (map ascii_lower (trim_dots name))" if "valid_dns_name name" for name
  proof
    assume "lf \<in> set (map ascii_lower (trim_dots name))"
    then obtain x where x: "x \<in> set name" "ascii_lower x = lf" using trim_end_props(1)[of name] by auto
    then have "ascii_alnum x \<or> x = CHR ''-'' \<or> x = CHR ''.''" using dns_name_clean[OF that] by blast
    moreover have "(of_char (ascii_lower x) :: nat) = 10" using x(2) by simp
    ultimately show False by (auto simp: ascii_alnum_def ascii_lower_def less_eq_char_def of_char_of split: if_splits)
  qed
  have "\<not> hex_or_sep lf" by (simp add: hex_or_sep_def less_eq_char_def)
  then have "lf \<notin> set (show_ip ip)" for ip
    using assms(2) unfolding show_laws_def by blast
  moreover have "lf \<notin> set (show_nat n)" for n
    using show_nat_digits[of lf n] by (auto simp: less_eq_char_def)
  ultimately show ?thesis
    using assms(3) base name by (auto simp: tunnel_path_def dns_path_def tcp_path_def simp del: set_map)
qed

text \<open>C31: the request that opens a tunnel has exactly the lines the code means to send, whatever address, name, invite token and
  device id it was given: nothing the user or a peer supplies adds a header or ends the request early.\<close>

theorem handshake_request_lines:
  assumes "ip_laws ips" and "parse_proxy_url ips raw = Inr p" and "show_laws show_ip" and "tunnel_path show_ip p path"
    and "lf \<notin> set key"
  shows "text_lines (upgrade_request key p path token device)
     = [''GET '' @ path @ '' HTTP/1.1'', ''Host: '' @ host_header p, ''Upgrade: websocket'', ''Connection: Upgrade'',
        ''Sec-WebSocket-Key: '' @ key, ''Sec-WebSocket-Version: 13''] @ auth_lines token device @ [''User-Agent: Velta'', []]"
proof -
  note ok = parse_ok[OF assms(1,2)]
  have host: "lf \<notin> set (host_header p)"
    using authority_chars[OF ok] url_char_plain(7) by (auto simp: host_header_def port_text_def split: if_splits)
  have tail: "text_lines (''User-Agent: Velta'' @ crlf @ crlf) = [''User-Agent: Velta'', []]"
    using text_lines_line[of "''User-Agent: Velta''" crlf] text_lines_line[of "[]" "[]"] by (simp add: text_lines_Nil)
  have l1: "lf \<notin> set (''GET '' @ path @ '' HTTP/1.1'')" using tunnel_path_no_lf[OF ok assms(3,4)] by simp
  have l2: "lf \<notin> set (''Host: '' @ host_header p)" using host by simp
  have l3: "lf \<notin> set ''Upgrade: websocket''" and l4: "lf \<notin> set ''Connection: Upgrade''" and l6: "lf \<notin> set ''Sec-WebSocket-Version: 13''" by simp_all
  have l5: "lf \<notin> set (''Sec-WebSocket-Key: '' @ key)" using assms(5) by simp
  have req: "upgrade_request key p path token device = (''GET '' @ path @ '' HTTP/1.1'') @ crlf @ (''Host: '' @ host_header p) @ crlf
      @ ''Upgrade: websocket'' @ crlf @ ''Connection: Upgrade'' @ crlf @ (''Sec-WebSocket-Key: '' @ key) @ crlf
      @ ''Sec-WebSocket-Version: 13'' @ crlf @ auth_header token device @ ''User-Agent: Velta'' @ crlf @ crlf"
    by (simp add: upgrade_request_def)
  show ?thesis
    unfolding req text_lines_line[OF l1] text_lines_line[OF l2] text_lines_line[OF l3] text_lines_line[OF l4] text_lines_line[OF l5]
      text_lines_line[OF l6] text_lines_auth tail by simp
qed

theorem handshake_request_lines_witness:
  "text_lines (upgrade_request ''a2V5'' demo_address (dns_path demo_address ''mx.ex.org'') (Some ([CHR 0x0D, lf] @ ''X-Evil: 1'')) None)
     = [''GET '' @ dns_path demo_address ''mx.ex.org'' @ '' HTTP/1.1'', ''Host: '' @ host_header demo_address, ''Upgrade: websocket'', ''Connection: Upgrade'',
        ''Sec-WebSocket-Key: '' @ ''a2V5'', ''Sec-WebSocket-Version: 13''] @ auth_lines (Some ([CHR 0x0D, lf] @ ''X-Evil: 1'')) None @ [''User-Agent: Velta'', []]"
proof (rule handshake_request_lines[OF no_ip_laws demo_parses])
  show "show_laws (\<lambda>_. ''1.2.3.4'')" by (simp add: show_laws_def hex_or_sep_def less_eq_char_def)
  have "valid_dns_name ''mx.ex.org''" by (simp add: valid_dns_name_def ascii_alnum_def less_eq_char_def)
  then show "tunnel_path (\<lambda>_. ''1.2.3.4'') demo_address (dns_path demo_address ''mx.ex.org'')" unfolding tunnel_path_def by blast
qed simp

subsection \<open>Device ids\<close>

datatype ws_op = WAdd string string "string option" string nat | WSelect "string option" | WDelete string | WDevice string string

fun ws_step :: "(string \<Rightarrow> ip_addr option) \<Rightarrow> ws_op \<Rightarrow> json \<Rightarrow> json" where
  "ws_step ips (WAdd url label token i now) s = fst (ws_add ips url label token i now s)"
| "ws_step ips (WSelect i) s = fst (ws_select i s)"
| "ws_step ips (WDelete i) s = fst (ws_delete i s)"
| "ws_step ips (WDevice url fresh) s = fst (ws_device ips url fresh s)"

definition remembers :: "string \<Rightarrow> string \<Rightarrow> json \<Rightarrow> bool" where
  "remembers canon d s \<longleftrightarrow> is_obj s \<and> is_obj (jget s ''devices'') \<and> as_str (jget (jget s ''devices'') canon) = Some d \<and> valid_device d"

lemma remembers_other: "remembers canon d s \<Longrightarrow> k \<noteq> ''devices'' \<Longrightarrow> remembers canon d (jset s k v)"
  by (simp add: remembers_def)

lemma remembers_put: "remembers canon d s \<Longrightarrow> remembers canon d (put_proxies xs s)" "remembers canon d s \<Longrightarrow> remembers canon d (proxies_mut s)"
  by (simp_all add: put_proxies_def proxies_mut_def remembers_other)

lemma remembers_step: "remembers canon d s \<Longrightarrow> remembers canon d (ws_step ips k s)"
proof (cases k)
  case (WAdd url label token i now)
  assume "remembers canon d s"
  then show ?thesis
    by (auto simp: WAdd ws_add_def Let_def remembers_put split: sum.split option.split prod.split)
next
  case (WDevice url fresh)
  assume "remembers canon d s"
  then show ?thesis
    by (auto simp: WDevice ws_device_def remembers_def Let_def keep_if_def split: sum.split option.split)
qed (auto simp: ws_select_def ws_delete_def Let_def remembers_other remembers_put split: option.split)

lemma device_remembered:
  assumes "is_obj s" and "parse_proxy_url ips url = Inr p" and "ws_device ips url fresh s = (s1, Inr d)" and "valid_device fresh"
  shows "remembers (to_url p) d s1"
  using assms by (auto simp: ws_device_def Let_def keep_if_def remembers_def split: option.splits if_splits)

text \<open>C33: once a device id was given out for a proxy, every later question for the same proxy gets the same id, whatever is added,
  selected and deleted in between, the proxy itself included, and however its address is written.\<close>

theorem device_id_stable:
  assumes "is_obj s" and "parse_proxy_url ips url = Inr p" and "valid_device fresh" and "ws_device ips url fresh s = (s1, Inr d)"
    and "parse_proxy_url ips url2 = Inr p2" and "to_url p2 = to_url p"
  shows "snd (ws_device ips url2 fresh2 (fold (ws_step ips) ops s1)) = Inr d"
proof -
  have "remembers (to_url p) d (fold (ws_step ips) ops s1)"
    using device_remembered[OF assms(1,2,4,3)] by (rule fold_invariant[where Q = "\<lambda>_. True", rotated]) (auto intro: remembers_step)
  then show ?thesis
    using assms(5,6) by (simp add: ws_device_def remembers_def Let_def keep_if_def)
qed

definition demo_device :: string where
  "demo_device = ''0123456789abcdef''"

theorem device_id_stable_witness:
  "snd (ws_device no_ip '' Ex.org.:8080/WS// '' ''another-device-id'' (fold (ws_step no_ip) [WAdd '' Ex.org.:8080/WS// '' ''home'' None ''w1'' 5, WDelete ''w1'']
     (fst (ws_device no_ip '' Ex.org.:8080/WS// '' demo_device ws_empty)))) = Inr demo_device"
proof (rule device_id_stable[OF _ demo_parses _ _ demo_parses refl, where s = ws_empty and fresh = demo_device])
  show "is_obj ws_empty" by (simp add: ws_empty_def)
  show "valid_device demo_device" by (simp add: valid_device_def demo_device_def b64_char_def ascii_alnum_def less_eq_char_def)
  have "snd (ws_device no_ip '' Ex.org.:8080/WS// '' demo_device ws_empty) = Inr demo_device"
    by (simp add: ws_device_def demo_parses ws_empty_def Let_def keep_if_def)
  then show "ws_device no_ip '' Ex.org.:8080/WS// '' demo_device ws_empty = (fst (ws_device no_ip '' Ex.org.:8080/WS// '' demo_device ws_empty), Inr demo_device)"
    by (metis prod.collapse)
qed

end
