(* ===== verification/WsFrames.thy ===== *)
theory WsFrames
  imports Prelude
begin

section \<open>WebSocket frames\<close>

text \<open>
  The WebSocket client of \<open>velta-app/src-tauri/src/lufi.rs\<close> (frames, text messages) and the byte tunnel of
  \<open>ws_transport.rs\<close> (\<open>read_frame\<close>, \<open>resolve\<close>, \<open>pipe\<close>), which share \<open>encode_frame\<close>. A connection is the list of the bytes still to be
  read from it and ends where the list does; writes succeed, and the random masks are arguments.
\<close>

unbundle bit_operations_syntax

datatype ws_error = WsEof | TooLarge | Closed | NotUtf8 | Unexpected

definition MAX_REPLY :: nat where "MAX_REPLY = 4 * 1024 * 1024"
definition WS_MAX_FRAME :: nat where "WS_MAX_FRAME = 2 ^ 20"

definition xor_mask :: "byte list \<Rightarrow> byte list \<Rightarrow> byte list" where
  "xor_mask mk p = map (\<lambda>(i, b). b XOR mk ! (i mod 4)) (enumerate 0 p)"

definition len_bytes :: "byte \<Rightarrow> nat \<Rightarrow> byte list" where
  "len_bytes hi n = (if n < 126 then [hi OR of_nat n]
     else if n \<le> 0xffff then (hi OR 126) # be_bytes 2 n
     else (hi OR 127) # be_bytes 8 n)"

definition encode_frame :: "byte \<Rightarrow> byte list \<Rightarrow> byte list \<Rightarrow> byte list" where
  "encode_frame opcode payload mk = [0x80 OR opcode] @ len_bytes 0x80 (length payload) @ mk @ xor_mask mk payload"

text \<open>\<open>read_exact\<close> on the rest of a connection.\<close>

definition take_exact :: "nat \<Rightarrow> byte list \<Rightarrow> ws_error + byte list \<times> byte list" where
  "take_exact n s = (if length s < n then Inl WsEof else Inr (take n s, drop n s))"

definition read_len :: "nat \<Rightarrow> byte list \<Rightarrow> ws_error + nat \<times> byte list" where
  "read_len l s =
     (if l = 126 then r_bind (take_exact 2 s) (\<lambda>(b, s'). Inr (be_val b, s'))
      else if l = 127 then r_bind (take_exact 8 s) (\<lambda>(b, s'). Inr (be_val b, s'))
      else Inr (l, s))"

definition read_payload :: "bool \<Rightarrow> nat \<Rightarrow> byte list \<Rightarrow> ws_error + byte list \<times> byte list" where
  "read_payload masked n s =
     r_bind (if masked then take_exact 4 s else Inr ([0, 0, 0, 0], s)) (\<lambda>(mk, s1).
       r_bind (take_exact n s1) (\<lambda>(p, s2). Inr (if masked then xor_mask mk p else p, s2)))"

text \<open>The two \<open>read_frame\<close>s differ in the largest frame they take.\<close>

definition read_frame :: "nat \<Rightarrow> byte list \<Rightarrow> ws_error + (bool \<times> byte \<times> byte list) \<times> byte list" where
  "read_frame limit s =
     r_bind (take_exact 2 s) (\<lambda>(h, s1).
       r_bind (read_len (unat (h ! 1 AND 0x7f)) s1) (\<lambda>(len, s2).
         if len > limit then Inl TooLarge
         else r_bind (read_payload (h ! 1 AND 0x80 \<noteq> 0) len s2) (\<lambda>(p, s3).
           Inr ((h ! 0 AND 0x80 \<noteq> 0, h ! 0 AND 0x0f, p), s3))))"

definition lufi_read_frame :: "byte list \<Rightarrow> ws_error + (bool \<times> byte \<times> byte list) \<times> byte list" where
  "lufi_read_frame = read_frame MAX_REPLY"

definition ws_read_frame :: "byte list \<Rightarrow> ws_error + (bool \<times> byte \<times> byte list) \<times> byte list" where
  "ws_read_frame = read_frame WS_MAX_FRAME"

lemma take_exact_rest: "take_exact n s = Inr (b, s') \<Longrightarrow> length s' \<le> length s"
  by (auto simp: take_exact_def split: if_splits)

lemma read_frame_shorter: "read_frame limit s = Inr (f, s') \<Longrightarrow> length s' < length s"
proof -
  assume r: "read_frame limit s = Inr (f, s')"
  obtain h s1 len s2 p where "take_exact 2 s = Inr (h, s1)" and l: "read_len (unat (h ! 1 AND 0x7f)) s1 = Inr (len, s2)"
    and p: "read_payload (h ! 1 AND 0x80 \<noteq> 0) len s2 = Inr (p, s')"
    using r by (auto simp: read_frame_def r_bind_Inr split: if_splits prod.splits)
  then have "length s1 < length s" by (auto simp: take_exact_def split: if_splits)
  moreover have "length s2 \<le> length s1" using l by (auto simp: read_len_def r_bind_Inr dest: take_exact_rest split: if_splits prod.splits)
  moreover have "length s' \<le> length s2"
    using p by (fastforce simp: read_payload_def r_bind_Inr dest: take_exact_rest split: if_splits prod.splits)
  ultimately show ?thesis by simp
qed

subsection \<open>Text messages\<close>

text \<open>\<open>recv_text\<close>: the result, the payloads of the pings answered on the way, and the rest of the connection.\<close>

function recv_text :: "byte list \<Rightarrow> byte list \<Rightarrow> (ws_error + byte list) \<times> byte list list \<times> byte list" where
  "recv_text msg s =
     (case lufi_read_frame s of
        Inl e \<Rightarrow> (Inl e, [], s)
      | Inr ((fin, op, p), s') \<Rightarrow>
          if op = 0x9 then (case recv_text msg s' of (r, pongs, rest) \<Rightarrow> (r, p # pongs, rest))
          else if op = 0xA then recv_text msg s'
          else if op = 0x8 then (Inl Closed, [], s')
          else if op \<le> 0x2 then
            (if length (msg @ p) > MAX_REPLY then (Inl TooLarge, [], s')
             else if fin then (if utf8_ok (map (\<lambda>b. char_of (unat b)) (msg @ p)) then Inr (msg @ p) else Inl NotUtf8, [], s')
             else recv_text (msg @ p) s')
          else (Inl Unexpected, [], s'))"
  by pat_completeness auto
termination
  by (relation "measure (\<lambda>(msg, s). length s)") (auto simp: lufi_read_frame_def dest: read_frame_shorter)

declare recv_text.simps [simp del]

subsection \<open>The tunnel\<close>

definition close_frame :: "byte list \<Rightarrow> byte list" where
  "close_frame mk = encode_frame 0x8 (be_bytes 2 1000) mk"

text \<open>\<open>pipe\<close> runs an upward and a downward half until the first of them ends. The upward half: what the client's reads give, until one is empty, is sent as binary frames.\<close>

fun pipe_up :: "byte list list \<Rightarrow> byte list list \<Rightarrow> byte list" where
  "pipe_up [] masks = close_frame (hd masks)"
| "pipe_up (piece # pieces) masks =
     (if piece = [] then close_frame (hd masks) else encode_frame 0x2 piece (hd masks) @ pipe_up pieces (tl masks))"

text \<open>The downward half: what is written to the client, and the payloads of the pings that were answered.\<close>

function pipe_down :: "byte list \<Rightarrow> byte list \<times> byte list list" where
  "pipe_down s =
     (case ws_read_frame s of
        Inl e \<Rightarrow> ([], [])
      | Inr ((fin, op, p), s') \<Rightarrow>
          if op \<le> 0x2 then (case pipe_down s' of (out, pongs) \<Rightarrow> (p @ out, pongs))
          else if op = 0x9 then (case pipe_down s' of (out, pongs) \<Rightarrow> (out, p # pongs))
          else if op = 0x8 then ([], [])
          else pipe_down s')"
  by pat_completeness auto
termination
  by (relation "measure length") (auto simp: ws_read_frame_def dest: read_frame_shorter)

declare pipe_down.simps [simp del]

text \<open>The answer of \<open>/dns/\<close> in \<open>resolve\<close>: the frames of one message.\<close>

function dns_message :: "byte list \<Rightarrow> byte list \<Rightarrow> ws_error + byte list" where
  "dns_message msg s =
     (case ws_read_frame s of
        Inl e \<Rightarrow> Inl e
      | Inr ((fin, op, p), s') \<Rightarrow>
          if op \<le> 0x2 then (if fin then Inr (msg @ p) else dns_message (msg @ p) s')
          else if op = 0x8 then Inl Closed
          else dns_message msg s')"
  by pat_completeness auto
termination
  by (relation "measure (\<lambda>(msg, s). length s)") (auto simp: ws_read_frame_def dest: read_frame_shorter)

declare dns_message.simps [simp del]

subsection \<open>Frames read back\<close>

text \<open>A frame as RFC 6455 lays it out; the client masks, the server does not.\<close>

definition wire :: "bool \<Rightarrow> byte \<Rightarrow> byte list option \<Rightarrow> byte list \<Rightarrow> byte list" where
  "wire fin op mk p = [(if fin then 0x80 else 0) OR op] @ len_bytes (if mk = None then 0 else 0x80) (length p)
     @ (case mk of None \<Rightarrow> p | Some k \<Rightarrow> k @ xor_mask k p)"

lemma encode_frame_wire: "encode_frame op p k = wire True op (Some k) p"
  by (simp add: encode_frame_def wire_def)

lemma length_xor_mask [simp]: "length (xor_mask k p) = length p"
  by (simp add: xor_mask_def)

lemma nth_xor_mask: "i < length p \<Longrightarrow> xor_mask k p ! i = p ! i XOR k ! (i mod 4)"
  by (simp add: xor_mask_def nth_enumerate_eq)

lemma xor_mask_twice [simp]: "xor_mask k (xor_mask k p) = p"
  by (rule nth_equalityI) (simp_all add: nth_xor_mask xor.assoc)

lemma op_bits:
  fixes op :: byte
  assumes "op AND 0x0f = op"
  shows "((if fin then 0x80 else 0) OR op) AND 0x0f = op" "((if fin then 0x80 else 0) OR op) AND 0x80 \<noteq> 0 \<longleftrightarrow> fin"
proof -
  have z: "op AND 0x80 = 0" by (subst assms [symmetric]) (simp add: and.assoc)
  show "((if fin then 0x80 else 0) OR op) AND 0x0f = op" using assms by (simp add: bit.conj_disj_distrib2)
  show "((if fin then 0x80 else 0) OR op) AND 0x80 \<noteq> 0 \<longleftrightarrow> fin" using z by (simp add: bit.conj_disj_distrib2)
qed

lemma len_bits:
  assumes "n < 128" "hi = 0 \<or> hi = (0x80 :: byte)"
  shows "unat ((hi OR of_nat n) AND 0x7f) = n" "(hi OR of_nat n) AND 0x80 \<noteq> 0 \<longleftrightarrow> hi = 0x80"
proof -
  have "(0x7f :: byte) = mask 7" by (simp add: mask_eq_exp_minus_1)
  moreover have "take_bit 7 (of_nat n :: byte) = of_nat n" using assms(1) by (simp add: take_bit_of_nat take_bit_nat_eq_self)
  ultimately have m: "of_nat n AND (0x7f :: byte) = of_nat n" by (simp add: take_bit_eq_mask)
  have z: "of_nat n AND (0x80 :: byte) = 0" by (subst m [symmetric]) (simp add: and.assoc)
  have "(hi OR of_nat n) AND 0x7f = of_nat n" using assms(2) m by (auto simp: bit.conj_disj_distrib2)
  then show "unat ((hi OR of_nat n) AND 0x7f) = n" using assms(1) by (simp add: unat_of_nat)
  show "(hi OR of_nat n) AND 0x80 \<noteq> 0 \<longleftrightarrow> hi = 0x80" using assms(2) z by (auto simp: bit.conj_disj_distrib2)
qed

lemma take_exact_append [simp]: "length xs = n \<Longrightarrow> take_exact n (xs @ s) = Inr (xs, s)"
  by (simp add: take_exact_def)

lemma len_bytes_read:
  assumes "n < 2 ^ 64" "hi = 0 \<or> hi = (0x80 :: byte)"
  obtains b t where "len_bytes hi n = b # t" "read_len (unat (b AND 0x7f)) (t @ s) = Inr (n, s)" "b AND 0x80 \<noteq> 0 \<longleftrightarrow> hi = 0x80"
proof -
  consider (small) "n < 126" | (mid) "126 \<le> n" "n \<le> 0xffff" | (big) "0xffff < n" by linarith
  then show ?thesis
  proof cases
    case small
    then show ?thesis using that [of "hi OR of_nat n" "[]"] len_bits [OF _ assms(2), of n] by (simp add: len_bytes_def read_len_def)
  next
    case mid
    then show ?thesis using that [of "hi OR 126" "be_bytes 2 n"] len_bits [OF _ assms(2), of 126]
      by (simp add: len_bytes_def read_len_def be_val_be_bytes)
  next
    case big
    then show ?thesis using that [of "hi OR 127" "be_bytes 8 n"] len_bits [OF _ assms(2), of 127] assms(1)
      by (simp add: len_bytes_def read_len_def be_val_be_bytes)
  qed
qed

lemma read_wire:
  assumes "op AND 0x0f = op" "length p \<le> limit" "limit < 2 ^ 64" "\<And>k. mk = Some k \<Longrightarrow> length k = 4"
  shows "read_frame limit (wire fin op mk p @ rest) = Inr ((fin, op, p), rest)"
proof -
  let ?hi = "if mk = None then 0 else 0x80 :: byte" and ?body = "case mk of None \<Rightarrow> p | Some k \<Rightarrow> k @ xor_mask k p"
  have len: "length p < 2 ^ 64" using assms(2,3) by (rule le_less_trans)
  have hi: "?hi = 0 \<or> ?hi = 0x80" by simp
  obtain b t where b: "len_bytes ?hi (length p) = b # t" "read_len (unat (b AND 0x7f)) (t @ ?body @ rest) = Inr (length p, ?body @ rest)"
    "b AND 0x80 \<noteq> 0 \<longleftrightarrow> ?hi = 0x80"
    by (rule len_bytes_read [OF len hi])
  define x where "x = (if fin then 0x80 else 0) OR op"
  define body where "body = ?body @ rest"
  have x: "x AND 0x0f = op" "x AND 0x80 \<noteq> 0 \<longleftrightarrow> fin" unfolding x_def using op_bits [OF assms(1), of fin] by auto
  have m: "b AND 0x80 \<noteq> 0 \<longleftrightarrow> mk \<noteq> None" using b(3) by auto
  have "read_payload (mk \<noteq> None) (length p) body = Inr (p, rest)"
    using assms(4) by (cases mk) (auto simp: read_payload_def body_def)
  moreover have "take_exact 2 (wire fin op mk p @ rest) = Inr ([x, b], t @ body)"
    using take_exact_append [of "[x, b]" 2 "t @ body"] b(1) by (simp add: wire_def x_def body_def)
  ultimately show ?thesis unfolding read_frame_def using b(2) [folded body_def] x m assms(2) by simp
qed

lemma ws_read_encoded:
  assumes "op AND 0x0f = op" "length p \<le> WS_MAX_FRAME" "length k = 4"
  shows "ws_read_frame (encode_frame op p k @ rest) = Inr ((True, op, p), rest)"
  unfolding ws_read_frame_def encode_frame_wire using assms by (intro read_wire) (auto simp: WS_MAX_FRAME_def)

lemma lufi_read_wire:
  assumes "op AND 0x0f = op" "length p \<le> MAX_REPLY"
  shows "lufi_read_frame (wire fin op None p @ rest) = Inr ((fin, op, p), rest)"
  unfolding lufi_read_frame_def using assms by (intro read_wire) (auto simp: MAX_REPLY_def)

lemma pipe_down_close: "length k = 4 \<Longrightarrow> pipe_down (close_frame k @ rest) = ([], [])"
  using ws_read_encoded [of 8 "be_bytes 2 1000" k rest]
  by (subst pipe_down.simps) (simp add: close_frame_def WS_MAX_FRAME_def)

subsection \<open>The properties\<close>

text \<open>C30: the tunnel is transparent: the bytes that one end reads from its socket, in whatever pieces and under whatever masks,
  are exactly the bytes that the other end writes, in order, and the close ends the transfer.\<close>

theorem tunnel_transparent:
  assumes "list_all (\<lambda>p. p \<noteq> [] \<and> length p \<le> 16 * 1024) pieces" "length masks > length pieces" "list_all (\<lambda>k. length k = 4) masks"
  shows "pipe_down (pipe_up pieces masks @ rest) = (concat pieces, [])"
  using assms
proof (induction pieces arbitrary: masks)
  case Nil
  then have "length (hd masks) = 4" by (cases masks) auto
  then show ?case by (simp add: pipe_down_close)
next
  case (Cons p pieces)
  then obtain k ks where ks: "masks = k # ks" "length k = 4" by (cases masks) auto
  have "ws_read_frame (encode_frame 2 p k @ pipe_up pieces ks @ rest) = Inr ((True, 2, p), pipe_up pieces ks @ rest)"
    using Cons.prems ks by (intro ws_read_encoded) (auto simp: WS_MAX_FRAME_def)
  then show ?case using Cons ks by (subst pipe_down.simps) simp
qed

theorem tunnel_transparent_witness:
  "pipe_down (pipe_up [[1, 2], [3]] [[9, 8, 7, 6], [5, 4, 3, 2], [1, 2, 3, 4]]) = ([1, 2, 3], [])"
  using tunnel_transparent [of "[[1, 2], [3]]" "[[9, 8, 7, 6], [5, 4, 3, 2], [1, 2, 3, 4]]" "[]"] by simp

text \<open>What the frames of a message say: the parts joined, and the pings on the way.\<close>

definition is_part :: "bool \<times> byte \<times> byte list \<Rightarrow> bool" where
  "is_part f = (case f of (fin, op, p) \<Rightarrow> \<not> fin \<and> op \<le> 2)"

definition is_ping :: "bool \<times> byte \<times> byte list \<Rightarrow> bool" where
  "is_ping f = (case f of (fin, op, p) \<Rightarrow> op = 9)"

definition is_pong :: "bool \<times> byte \<times> byte list \<Rightarrow> bool" where
  "is_pong f = (case f of (fin, op, p) \<Rightarrow> op = 0xA)"

definition payloads :: "(bool \<times> byte \<times> byte list \<Rightarrow> bool) \<Rightarrow> (bool \<times> byte \<times> byte list) list \<Rightarrow> byte list list" where
  "payloads P fs = map (\<lambda>(fin, op, p). p) (filter P fs)"

definition server_bytes :: "(bool \<times> byte \<times> byte list) list \<Rightarrow> byte list" where
  "server_bytes fs = concat (map (\<lambda>(fin, op, p). wire fin op None p) fs)"

lemma low_op: "op \<le> 2 \<Longrightarrow> op AND 0x0f = (op :: byte)"
proof -
  assume op: "op \<le> 2"
  obtain n where n: "op = of_nat n" "n < 2 ^ 8" by (cases op rule: word_nat_cases) simp
  then have "n \<le> 2" using op by (simp add: word_le_nat_alt unat_of_nat)
  then have "n = 0 \<or> n = 1 \<or> n = 2" by linarith
  then show ?thesis using n(1) by auto
qed

definition text_of :: "byte list \<Rightarrow> string" where
  "text_of bs = map (\<lambda>b. char_of (unat b)) bs"

lemma recv_joins:
  assumes "list_all (\<lambda>f. is_part f \<or> is_ping f \<or> is_pong f) fs" "list_all (\<lambda>(fin, op, p). length p \<le> MAX_REPLY) fs" "op \<le> 2"
    and "length (msg @ concat (payloads is_part fs) @ p) \<le> MAX_REPLY" "utf8_ok (text_of (msg @ concat (payloads is_part fs) @ p))"
  shows "recv_text msg (server_bytes (fs @ [(True, op, p)]) @ rest) = (Inr (msg @ concat (payloads is_part fs) @ p), payloads is_ping fs, rest)"
  using assms(1,2,4,5)
proof (induction fs arbitrary: msg)
  case Nil
  then have "lufi_read_frame (server_bytes [(True, op, p)] @ rest) = Inr ((True, op, p), rest)"
    using lufi_read_wire [OF low_op [OF assms(3)], of p True rest] by (simp add: server_bytes_def)
  moreover have "op \<noteq> 9 \<and> op \<noteq> 0xA \<and> op \<noteq> 8" using assms(3) by auto
  ultimately show ?case using Nil assms(3) by (subst recv_text.simps) (simp add: payloads_def text_of_def)
next
  case (Cons f fs)
  obtain fin fop q where f: "f = (fin, fop, q)" by (cases f) auto
  let ?s = "server_bytes (fs @ [(True, op, p)]) @ rest"
  have o: "fop AND 0x0f = fop" using Cons.prems(1) low_op [of fop] by (auto simp: f is_part_def is_ping_def is_pong_def)
  have rd: "lufi_read_frame (server_bytes ((f # fs) @ [(True, op, p)]) @ rest) = Inr ((fin, fop, q), ?s)"
    using lufi_read_wire [OF o, of q fin ?s] Cons.prems(2) by (simp add: f server_bytes_def)
  consider (part) "is_part f" | (ping) "is_ping f" "\<not> is_part f" | (pong) "is_pong f" "\<not> is_part f" "\<not> is_ping f" using Cons.prems(1) by auto
  then show ?case
  proof cases
    case part
    then have "fop \<noteq> 9 \<and> fop \<noteq> 0xA \<and> fop \<noteq> 8" "fop \<le> 2" "\<not> fin" by (auto simp: f is_part_def)
    moreover have "\<not> is_ping f" using calculation(1) by (simp add: f is_ping_def)
    moreover have "recv_text (msg @ q) ?s = (Inr ((msg @ q) @ concat (payloads is_part fs) @ p), payloads is_ping fs, rest)"
      using Cons.prems part by (intro Cons.IH) (auto simp: f payloads_def)
    ultimately show ?thesis using rd part Cons.prems(3) by (subst recv_text.simps) (simp add: f payloads_def)
  next
    case ping
    moreover have "recv_text msg ?s = (Inr (msg @ concat (payloads is_part fs) @ p), payloads is_ping fs, rest)"
      using Cons.prems ping by (intro Cons.IH) (auto simp: f payloads_def)
    ultimately show ?thesis using rd by (subst recv_text.simps) (simp add: f payloads_def is_ping_def)
  next
    case pong
    moreover have "recv_text msg ?s = (Inr (msg @ concat (payloads is_part fs) @ p), payloads is_ping fs, rest)"
      using Cons.prems pong by (intro Cons.IH) (auto simp: f payloads_def)
    ultimately show ?thesis using rd by (subst recv_text.simps) (simp add: f payloads_def is_pong_def)
  qed
qed

text \<open>a text reply that the server sends in any number of fragments, with pings and pongs between them, is received as the
  fragments joined, every ping before its end is answered with its own payload, in order, and nothing after its last
  fragment is taken from the connection.\<close>

theorem reply_fragments_joined:
  assumes "list_all (\<lambda>f. is_part f \<or> is_ping f \<or> is_pong f) fs" "list_all (\<lambda>(fin, op, p). length p \<le> MAX_REPLY) fs" "op \<le> 2"
    and "length (concat (payloads is_part fs) @ p) \<le> MAX_REPLY" "utf8_ok (text_of (concat (payloads is_part fs) @ p))"
  shows "recv_text [] (server_bytes (fs @ [(True, op, p)]) @ rest) = (Inr (concat (payloads is_part fs) @ p), payloads is_ping fs, rest)"
  using recv_joins [OF assms(1-3), of "[]" p rest] assms(4,5) by simp

theorem reply_fragments_joined_witness:
  "recv_text [] (server_bytes [(False, 1, [72]), (True, 9, [1, 2]), (True, 0, [105])]) = (Inr [72, 105], [[1, 2]], [])"
proof -
  let ?fs = "[(False, 1, [72]), (True, 9, [1, 2])] :: (bool \<times> byte \<times> byte list) list"
  have p: "payloads is_part ?fs = [[72]]" "payloads is_ping ?fs = [[1, 2]]" by (simp_all add: payloads_def is_part_def is_ping_def)
  have "utf8_ok (text_of [72, 105])" by code_simp
  then show ?thesis using reply_fragments_joined [of ?fs 0 "[105]" "[]"]
    by (simp add: p MAX_REPLY_def is_part_def is_ping_def)
qed

end
