(* ===== verification/AppLog.thy ===== *)
theory AppLog
  imports Prelude
begin

section \<open>The application log\<close>

text \<open>
  \<open>velta-app/src-tauri/src/log.rs\<close>: what is cut out of a message before it is written, the limit on messages per second, and
  the bounded queue to the thread that writes the file. Any number of threads log at the same time; every access to
  one of the shared atomics, to the channel or to the file is one step of one thread, so that the steps interleave as the
  memory order allows. Clock readings, spurious failures of the weak exchange and the bytes that reach the disk come from outside.
\<close>

unbundle bit_operations_syntax

subsection \<open>Redaction\<close>

abbreviation ellipsis :: string where "ellipsis \<equiv> [CHR 0xE2, CHR 0x80, CHR 0xA6]"
abbreviation quot :: char where "quot \<equiv> CHR 0x22"

definition CHANNEL_CAP :: nat where "CHANNEL_CAP = 8192"
definition RATE_PER_SEC :: u64 where "RATE_PER_SEC = 50"
definition QUOTE_MAX :: nat where "QUOTE_MAX = 80"
definition TAIL_MAX :: nat where "TAIL_MAX = 512 * 1024"

definition link_delim :: "char \<Rightarrow> bool" where
  "link_delim c \<longleftrightarrow> c = CHR ''?'' \<or> c = CHR ''&''"

definition value_end :: "char \<Rightarrow> bool" where
  "value_end c \<longleftrightarrow> c = CHR ''&'' \<or> c = CHR ''#''"

lemma strip_prefix_length: "strip_prefix p s = Some v \<Longrightarrow> length v \<le> length s"
  by (auto simp: strip_prefix_def split: if_splits)

lemma dropWhile_Cons_length: "dropWhile P s = d # r \<Longrightarrow> length r < length s"
  by (metis length_dropWhile_le length_Cons Suc_le_eq)

function redact_chat_link :: "string \<Rightarrow> string" where
  "redact_chat_link rest = takeWhile (\<lambda>c. \<not> link_delim c) rest @
     (case dropWhile (\<lambda>c. \<not> link_delim c) rest of
        [] \<Rightarrow> []
      | d # tail \<Rightarrow> d # (case strip_prefix ''t='' tail of
          Some v \<Rightarrow> ''t='' @ ellipsis @ redact_chat_link (dropWhile (\<lambda>c. \<not> value_end c) v)
        | None \<Rightarrow> redact_chat_link tail))"
  by pat_completeness auto
termination
  by (relation "measure length")
    (auto dest!: dropWhile_Cons_length strip_prefix_length intro: le_less_trans[OF length_dropWhile_le])

definition is_local :: "char \<Rightarrow> bool" where
  "is_local b \<longleftrightarrow> ascii_alnum b \<or> b \<in> set ''._%+-''"

definition is_domain :: "char \<Rightarrow> bool" where
  "is_domain b \<longleftrightarrow> ascii_alnum b \<or> b \<in> set ''.-''"

definition core_of :: "string \<Rightarrow> string" where
  "core_of dm = rev (dropWhile (\<lambda>c. c = CHR ''.'') (rev dm))"

lemma length_core: "length (core_of dm) \<le> length dm"
  by (metis core_of_def length_dropWhile_le length_rev)

text \<open>One turn of the loop: what is written and what is left.\<close>

definition mail_turn :: "string \<Rightarrow> string \<times> string" where
  "mail_turn s = (let run = takeWhile is_local s; rest = dropWhile is_local s in
     if run \<noteq> [] then
       (case rest of
          [] \<Rightarrow> (run, rest)
        | a # r \<Rightarrow> if a \<noteq> CHR ''@'' then (run, rest)
            else let dm = takeWhile is_domain r; core = core_of dm in
              if core \<noteq> [] then (run @ ''@***'', drop (length core) r) else (run @ a # dm, drop (length dm) r))
     else (case s of [] \<Rightarrow> ([], []) | c # cs \<Rightarrow> (c # takeWhile is_cont cs, dropWhile is_cont cs)))"

lemma mail_turn_shorter: "s \<noteq> [] \<Longrightarrow> length (snd (mail_turn s)) < length s"
proof -
  assume "s \<noteq> []"
  have l: "length (takeWhile is_local s) + length (dropWhile is_local s) = length s"
    by (metis length_append takeWhile_dropWhile_id)
  show ?thesis
  proof (cases "takeWhile is_local s = []")
    case True
    with \<open>s \<noteq> []\<close> show ?thesis
      by (auto simp: mail_turn_def Let_def less_Suc_eq_le length_dropWhile_le split: list.splits)
  next
    case False
    then have "0 < length (takeWhile is_local s)" by (simp only: length_greater_0_conv not_False_eq_True)
    with l have "length (dropWhile is_local s) < length s" by linarith
    with False show ?thesis
      by (auto simp: mail_turn_def Let_def split: list.splits)
  qed
qed

function redact_emails :: "string \<Rightarrow> string" where
  "redact_emails s = (if s = [] then [] else fst (mail_turn s) @ redact_emails (snd (mail_turn s)))"
  by pat_completeness auto
termination
  by (relation "measure length") (auto simp: mail_turn_shorter)

definition is_char_boundary :: "string \<Rightarrow> nat \<Rightarrow> bool" where
  "is_char_boundary s i \<longleftrightarrow> i = 0 \<or> i = length s \<or> i < length s \<and> \<not> is_cont (s ! i)"

primrec cut_back :: "string \<Rightarrow> nat \<Rightarrow> nat" where
  "cut_back s 0 = 0"
| "cut_back s (Suc n) = (if is_char_boundary s (Suc n) then Suc n else cut_back s n)"

definition cut_body :: "string \<Rightarrow> string" where
  "cut_body body = (if length body > QUOTE_MAX then take (cut_back body QUOTE_MAX) body @ ellipsis else body)"

function truncate_quoted :: "string \<Rightarrow> string" where
  "truncate_quoted rest = takeWhile (\<lambda>c. c \<noteq> quot) rest @
     (case dropWhile (\<lambda>c. c \<noteq> quot) rest of
        [] \<Rightarrow> []
      | q # r \<Rightarrow> q # (case dropWhile (\<lambda>c. c \<noteq> quot) r of
          [] \<Rightarrow> r
        | q2 # r2 \<Rightarrow> cut_body (takeWhile (\<lambda>c. c \<noteq> quot) r) @ q2 # truncate_quoted r2))"
  by pat_completeness auto
termination
  by (relation "measure length") (auto dest!: dropWhile_Cons_length)

declare redact_chat_link.simps [simp del] redact_emails.simps [simp del] truncate_quoted.simps [simp del]

definition redact :: "string \<Rightarrow> string" where
  "redact msg = truncate_quoted (redact_emails (redact_chat_link msg))"

subsection \<open>The limit on messages per second\<close>

definition begins_with :: "string \<Rightarrow> string \<Rightarrow> bool" where
  "begins_with p s \<longleftrightarrow> take (length p) s = p"

definition trim_start :: "string \<Rightarrow> string" where
  "trim_start s = concat (dropWhile is_ws (chars s))"

definition trim_end :: "string \<Rightarrow> string" where
  "trim_end s = concat (rev (dropWhile is_ws (rev (chars s))))"

text \<open>Slicing a \<open>str\<close> inside a character panics; \<^const>\<open>None\<close> is the panic.\<close>

definition rate_exempt :: "string \<Rightarrow> bool option" where
  "rate_exempt msg = (let start = trim_start msg in
     if begins_with ''boot:'' start then Some True
     else if length start < 5 then Some False
     else if \<not> is_char_boundary start 5 then None
     else Some (map ascii_lower (take 5 start) = ''error''))"

text \<open>The word that replaces \<open>RATE\<close>, or nothing when the second is used up.\<close>

definition next_rate :: "u64 \<Rightarrow> u64 \<Rightarrow> u64 option" where
  "next_rate now packed = (let window = drop_bit 32 packed; count = packed AND 0xffffffff in
     if window \<noteq> now then Some (push_bit 32 now OR 1)
     else if count \<ge> RATE_PER_SEC then None
     else Some (push_bit 32 window OR (count + 1)))"

subsection \<open>The logger's state and its steps\<close>

datatype channel = NoSender | Connected | Disconnected

text \<open>Where a thread stands inside \<open>log\<close>, \<open>allow_rate\<close> and \<open>enqueue\<close>.\<close>

datatype pc = Idle | Clock string | Rated string u64 | Swap string u64 u64 u64 | RateLost | Format string
  | Enqueue string | Load2 string u64 | Send string u64 u64 | Reset1 u64 u64 | Reset2 u64 | Lost | Panicked

record logger =
  log_enabled :: bool
  drop_count :: u64
  rate_drop_count :: u64
  rate :: u64
  tx :: channel
  queue :: "string list"
  log_file :: string
  mirror :: "string option"
  threads :: "pc list"

datatype obs = Sent string u64 u64 | Overflow | Refused | Admitted u64

datatype log_event = Call nat string | Run nat u64 nat bool | Enable bool | SetDir bool | SetMirror string | Drain nat nat

definition pad3 :: "nat \<Rightarrow> string" where
  "pad3 n = replicate (3 - length (show_nat n)) CHR ''0'' @ show_nat n"

definition stamp :: "u64 \<Rightarrow> nat \<Rightarrow> string" where
  "stamp secs ms = ''['' @ show_nat (unat secs) @ ''.'' @ pad3 ms @ '']''"

definition log_text :: "string \<Rightarrow> string" where
  "log_text msg = (if begins_with ''boot:'' msg then msg else redact msg)"

definition log_line :: "u64 \<Rightarrow> nat \<Rightarrow> string \<Rightarrow> string" where
  "log_line secs ms msg = stamp secs ms @ '' '' @ log_text msg @ [lf]"

definition with_counts :: "string \<Rightarrow> u64 \<Rightarrow> u64 \<Rightarrow> string" where
  "with_counts line d r = (if d > 0 \<or> r > 0
     then trim_end line @ '' dropped='' @ show_nat (unat d) @ '' rate_dropped='' @ show_nat (unat r) @ [lf] else line)"

definition goto :: "nat \<Rightarrow> pc \<Rightarrow> logger \<Rightarrow> logger" where
  "goto i p L = L\<lparr>threads := (threads L)[i := p]\<rparr>"

definition log_call :: "nat \<Rightarrow> string \<Rightarrow> logger \<Rightarrow> logger" where
  "log_call i msg L =
     (if \<not> begins_with ''boot:'' msg \<and> \<not> log_enabled L then L
      else case rate_exempt msg of
        None \<Rightarrow> goto i Panicked L
      | Some True \<Rightarrow> goto i (Format msg) L
      | Some False \<Rightarrow> goto i (Clock msg) L)"

fun resume :: "nat \<Rightarrow> u64 \<Rightarrow> nat \<Rightarrow> bool \<Rightarrow> pc \<Rightarrow> logger \<Rightarrow> logger \<times> obs list" where
  "resume i secs ms spurious (Clock msg) L = (goto i (Rated msg secs) L, [])"
| "resume i secs ms spurious (Rated msg now) L = (case next_rate now (rate L) of
     None \<Rightarrow> (goto i RateLost L, [Refused])
   | Some new \<Rightarrow> (goto i (Swap msg now (rate L) new) L, []))"
| "resume i secs ms spurious (Swap msg now packed new) L =
     (if rate L = packed \<and> \<not> spurious then (goto i (Format msg) (L\<lparr>rate := new\<rparr>), [Admitted now])
      else (goto i (Rated msg now) L, []))"
| "resume i secs ms spurious RateLost L = (goto i Idle (L\<lparr>rate_drop_count := rate_drop_count L + 1\<rparr>), [])"
| "resume i secs ms spurious (Format msg) L = (goto i (Enqueue (log_line secs ms msg)) L, [])"
| "resume i secs ms spurious (Enqueue line) L =
     (if tx L = NoSender then (goto i Idle L, []) else (goto i (Load2 line (drop_count L)) L, []))"
| "resume i secs ms spurious (Load2 line d) L =
     (goto i (Send (with_counts line d (rate_drop_count L)) d (rate_drop_count L)) L, [])"
| "resume i secs ms spurious (Send line d r) L =
     (if tx L = Disconnected then (goto i Idle L, [])
      else if length (queue L) < CHANNEL_CAP then (goto i (Reset1 d r) (L\<lparr>queue := queue L @ [line]\<rparr>), [Sent line d r])
      else (goto i Lost L, [Overflow]))"
| "resume i secs ms spurious (Reset1 d r) L =
     (goto i (Reset2 r) (if d > 0 \<and> drop_count L = d then L\<lparr>drop_count := 0\<rparr> else L), [])"
| "resume i secs ms spurious (Reset2 r) L =
     (goto i Idle (if r > 0 \<and> rate_drop_count L = r then L\<lparr>rate_drop_count := 0\<rparr> else L), [])"
| "resume i secs ms spurious Lost L = (goto i Idle (L\<lparr>drop_count := drop_count L + 1\<rparr>), [])"
| "resume i secs ms spurious Idle L = (L, [])"
| "resume i secs ms spurious Panicked L = (L, [])"

definition set_log_dir :: "bool \<Rightarrow> logger \<Rightarrow> logger" where
  "set_log_dir spawned L = (if tx L \<noteq> NoSender then L else L\<lparr>tx := (if spawned then Connected else Disconnected)\<rparr>)"

text \<open>One turn of the writer thread; \<open>n\<close> and \<open>m\<close> are the bytes that reach the two files.\<close>

definition writer_turn :: "nat \<Rightarrow> nat \<Rightarrow> logger \<Rightarrow> logger" where
  "writer_turn n m L = (if tx L \<noteq> Connected then L else case queue L of
     [] \<Rightarrow> L
   | msg # rest \<Rightarrow> L\<lparr>queue := rest, log_file := log_file L @ take n msg, mirror := map_option (\<lambda>f. f @ take m msg) (mirror L)\<rparr>)"

definition log_step :: "log_event \<Rightarrow> logger \<Rightarrow> logger \<times> obs list" where
  "log_step ev L = (case ev of
     Call i msg \<Rightarrow> (if i < length (threads L) \<and> threads L ! i = Idle then log_call i msg L else L, [])
   | Run i secs ms spurious \<Rightarrow> if i < length (threads L) then resume i secs ms spurious (threads L ! i) L else (L, [])
   | Enable b \<Rightarrow> (L\<lparr>log_enabled := b\<rparr>, [])
   | SetDir spawned \<Rightarrow> (set_log_dir spawned L, [])
   | SetMirror f \<Rightarrow> (L\<lparr>mirror := Some f\<rparr>, [])
   | Drain n m \<Rightarrow> (writer_turn n m L, []))"

primrec log_run :: "log_event list \<Rightarrow> logger \<Rightarrow> logger \<times> obs list" where
  "log_run [] L = (L, [])"
| "log_run (ev # evs) L = (case log_step ev L of (L1, os) \<Rightarrow> case log_run evs L1 of (L2, os2) \<Rightarrow> (L2, os @ os2))"

definition log_start :: "nat \<Rightarrow> logger" where
  "log_start n = \<lparr>log_enabled = False, drop_count = 0, rate_drop_count = 0, rate = 0, tx = NoSender, queue = [],
     log_file = [], mirror = None, threads = replicate n Idle\<rparr>"

subsection \<open>The end of the file\<close>

definition tail_of :: "string \<Rightarrow> string" where
  "tail_of file = (let start = length file - TAIL_MAX; buf = drop start file in
     if start = 0 then buf
     else let b = dropWhile is_cont buf in (case dropWhile (\<lambda>c. c \<noteq> lf) b of [] \<Rightarrow> b | _ # r \<Rightarrow> r))"

definition read_tail :: "(string \<Rightarrow> string) \<Rightarrow> string option \<Rightarrow> string" where
  "read_tail from_utf8_lossy file = (case file of None \<Rightarrow> [] | Some f \<Rightarrow> from_utf8_lossy (tail_of f))"

subsection \<open>What a redacted text cannot contain\<close>

text \<open>A property of a text and all that follows each of its positions.\<close>

primrec all_tails :: "(string \<Rightarrow> bool) \<Rightarrow> string \<Rightarrow> bool" where
  "all_tails P [] = True"
| "all_tails P (c # cs) = (P (c # cs) \<and> all_tails P cs)"

text \<open>No query value after \<open>?t=\<close> or \<open>&t=\<close>, and no domain after an address' local part.\<close>

definition token_at :: "string \<Rightarrow> bool" where
  "token_at s = (case s of [] \<Rightarrow> True
     | d # cs \<Rightarrow> link_delim d \<and> begins_with ''t='' cs \<longrightarrow> begins_with ellipsis (drop 2 cs))"

definition mail_at :: "string \<Rightarrow> bool" where
  "mail_at s = (case s of c # a # cs \<Rightarrow> is_local c \<and> c \<noteq> CHR ''.'' \<and> a = CHR ''@''
       \<longrightarrow> list_all (\<lambda>x. x = CHR ''.'') (takeWhile is_domain cs)
     | _ \<Rightarrow> True)"

lemma token_at_Cons [simp]: "token_at (d # cs) \<longleftrightarrow> (link_delim d \<and> begins_with ''t='' cs \<longrightarrow> begins_with ellipsis (drop 2 cs))"
  by (simp add: token_at_def)

lemma mail_at_simps [simp]:
  "mail_at [c]"
  "mail_at (c # a # cs) \<longleftrightarrow> (is_local c \<and> c \<noteq> CHR ''.'' \<and> a = CHR ''@'' \<longrightarrow> list_all (\<lambda>x. x = CHR ''.'') (takeWhile is_domain cs))"
  by (simp_all add: mail_at_def)

abbreviation token_free :: "string \<Rightarrow> bool" where "token_free \<equiv> all_tails token_at"
abbreviation mail_free :: "string \<Rightarrow> bool" where "mail_free \<equiv> all_tails mail_at"

lemma all_tails_append: "all_tails P (a @ b) \<longleftrightarrow> all_tails (\<lambda>t. P (t @ b)) a \<and> all_tails P b"
  by (induction a) auto

lemma all_tails_mono: "all_tails P s \<Longrightarrow> (\<And>t u. t \<noteq> [] \<Longrightarrow> s = u @ t \<Longrightarrow> P t \<Longrightarrow> Q t) \<Longrightarrow> all_tails Q s"
proof (induction s)
  case (Cons c cs)
  have "all_tails Q cs"
    using Cons.IH Cons.prems(1) Cons.prems(2)[of _ "c # _"] by simp
  with Cons.prems(1) Cons.prems(2)[of "c # cs" "[]"] show ?case by simp
qed simp

lemma all_tails_true: "(\<And>t u. t \<noteq> [] \<Longrightarrow> s = u @ t \<Longrightarrow> Q t) \<Longrightarrow> all_tails Q s"
  using all_tails_mono[of "\<lambda>_. True" s Q] by (induction s) auto

lemma begins_with_Cons [simp]: "begins_with (p # ps) (c # cs) \<longleftrightarrow> c = p \<and> begins_with ps cs"
  by (auto simp: begins_with_def)

lemma begins_with_Nil [simp]: "begins_with [] s" "begins_with (p # ps) [] = False"
  by (auto simp: begins_with_def)

lemma strip_prefix_starts: "strip_prefix p s = (if begins_with p s then Some (drop (length p) s) else None)"
  by (simp add: strip_prefix_def begins_with_def)

lemma byte_classes:
  "is_local c \<Longrightarrow> \<not> is_cont c" "is_domain c \<Longrightarrow> \<not> is_cont c" "is_local c \<Longrightarrow> \<not> link_delim c" "is_domain c \<Longrightarrow> is_local c"
  "is_cont c \<Longrightarrow> \<not> link_delim c"
  by (auto simp: is_local_def is_domain_def is_cont_def link_delim_def ascii_alnum_def less_eq_char_def)

lemma byte_facts [simp]:
  "\<not> is_local CHR ''@''" "\<not> is_local CHR ''*''" "\<not> is_domain CHR ''*''" "\<not> is_domain CHR ''@''" "is_local CHR ''t''" "\<not> is_local CHR ''=''"
  "\<not> is_local quot" "\<not> is_domain quot" "\<not> is_local (CHR 0xE2)" "\<not> is_domain (CHR 0xE2)" "is_local CHR ''.''"
  "\<not> is_local (CHR 0x80)" "\<not> is_local (CHR 0xA6)" "is_cont (CHR 0x80)" "is_cont (CHR 0xA6)" "\<not> is_cont (CHR 0xE2)"
  "\<not> is_domain CHR '' ''" "\<not> is_local CHR '' ''" "\<not> is_domain lf" "\<not> is_local lf"
  "\<not> link_delim CHR ''t''" "\<not> link_delim CHR ''=''" "\<not> link_delim quot" "\<not> link_delim (CHR 0xE2)" "\<not> link_delim (CHR 0x80)" "\<not> link_delim (CHR 0xA6)"
  by (code_simp)+

lemma chat_link_simps:
  "redact_chat_link [] = []"
  "\<not> link_delim c \<Longrightarrow> redact_chat_link (c # cs) = c # redact_chat_link cs"
  "link_delim c \<Longrightarrow> begins_with ''t='' cs \<Longrightarrow>
     redact_chat_link (c # cs) = c # ''t='' @ ellipsis @ redact_chat_link (dropWhile (\<lambda>c. \<not> value_end c) (drop 2 cs))"
  "link_delim c \<Longrightarrow> \<not> begins_with ''t='' cs \<Longrightarrow> redact_chat_link (c # cs) = c # redact_chat_link cs"
  by (subst redact_chat_link.simps; simp add: strip_prefix_starts)
    (subst redact_chat_link.simps, subst (2) redact_chat_link.simps, simp add: strip_prefix_starts,
     (subst redact_chat_link.simps, simp add: strip_prefix_starts numeral_2_eq_2)+)

lemma chat_link_starts: "begins_with ''t='' (redact_chat_link cs) \<Longrightarrow> begins_with ''t='' cs"
  by (cases cs; cases "link_delim (hd cs)"; cases "tl cs"; cases "link_delim (hd (tl cs))"; cases "begins_with ''t='' (tl cs)"; cases "begins_with ''t='' (tl (tl cs))")
    (auto simp: chat_link_simps)

lemma chat_link_token_free: "token_free (redact_chat_link s)"
proof (induction s rule: length_induct)
  case (1 s)
  show ?case
  proof (cases s)
    case (Cons c cs)
    have IH: "length t \<le> length cs \<Longrightarrow> token_free (redact_chat_link t)" for t using 1 Cons by simp
    have "token_free (redact_chat_link (dropWhile (\<lambda>c. \<not> value_end c) (drop 2 cs)))"
      by (rule IH) (metis length_dropWhile_le length_drop diff_le_self le_trans)
    then show ?thesis using Cons IH[of cs] chat_link_starts[of cs]
      by (cases "link_delim c"; cases "begins_with ''t='' cs") (auto simp: chat_link_simps)
  qed (simp add: chat_link_simps)
qed

lemma head_dropWhile: "dropWhile P s = [] \<or> \<not> P (hd (dropWhile P s))"
  by (metis hd_dropWhile)

lemma core_prefix: "\<exists>ds. dm = core_of dm @ ds \<and> list_all (\<lambda>x. x = CHR ''.'') ds"
proof -
  have "rev dm = takeWhile (\<lambda>c. c = CHR ''.'') (rev dm) @ dropWhile (\<lambda>c. c = CHR ''.'') (rev dm)" by simp
  then have "dm = core_of dm @ rev (takeWhile (\<lambda>c. c = CHR ''.'') (rev dm))"
    by (metis core_of_def rev_append rev_rev_ident)
  then show ?thesis by (metis (no_types, lifting) list_all_iff set_rev set_takeWhileD)
qed

text \<open>The four things a turn can find: no address, an address, dots in the place of a domain, another character.\<close>

lemma mail_turn_cases:
  assumes "s \<noteq> []"
  obtains (plain) run rest where "s = run @ rest" "run \<noteq> []" "list_all is_local run" "rest = [] \<or> hd rest \<noteq> CHR ''@'' \<and> \<not> is_local (hd rest)"
      "mail_turn s = (run, rest)"
    | (address) run core rest where "s = run @ CHR ''@'' # core @ rest" "run \<noteq> []" "list_all is_local run" "mail_turn s = (run @ ''@***'', rest)"
    | (dots) run dm rest where "s = run @ CHR ''@'' # dm @ rest" "run \<noteq> []" "list_all is_local run" "list_all (\<lambda>x. x = CHR ''.'') dm"
      "rest = [] \<or> \<not> is_domain (hd rest)" "mail_turn s = (run @ CHR ''@'' # dm, rest)"
    | (other) c cs rest where "s = c # cs @ rest" "\<not> is_local c" "list_all is_cont cs" "mail_turn s = (c # cs, rest)"
proof -
  define run where "run = takeWhile is_local s"
  define rest where "rest = dropWhile is_local s"
  have s: "s = run @ rest" by (simp add: run_def rest_def)
  have run: "list_all is_local run" by (auto simp: run_def list_all_iff dest: set_takeWhileD)
  have rest: "rest = [] \<or> \<not> is_local (hd rest)" unfolding rest_def by (rule head_dropWhile)
  note turn = mail_turn_def[of s, folded run_def rest_def]
  show thesis
  proof (cases "run = []")
    case True
    with s assms rest obtain c cs where "s = c # cs" "\<not> is_local c" by (cases s) auto
    moreover from this True have "mail_turn s = (c # takeWhile is_cont cs, dropWhile is_cont cs)" by (simp add: mail_turn_def)
    ultimately show thesis by (intro other) (auto simp: list_all_iff dest: set_takeWhileD)
  next
    case r: False
    show thesis
    proof (cases "rest \<noteq> [] \<and> hd rest = CHR ''@''")
      case False
      then have "mail_turn s = (run, rest)" using r by (cases rest) (simp_all add: turn)
      with False rest show thesis by (intro plain[OF s r run]) auto
    next
      case True
      then obtain u where u: "rest = CHR ''@'' # u" by (cases rest) auto
      define dm where "dm = takeWhile is_domain u"
      have d: "u = dm @ dropWhile is_domain u" by (simp add: dm_def)
      obtain ds where ds: "dm = core_of dm @ ds" "list_all (\<lambda>x. x = CHR ''.'') ds" using core_prefix by blast
      show thesis
      proof (cases "core_of dm = []")
        case True
        have "drop (length dm) u = dropWhile is_domain u" by (subst d) simp
        with True r have "mail_turn s = (run @ CHR ''@'' # dm, dropWhile is_domain u)"
          by (simp add: turn u Let_def flip: dm_def)
        moreover have "list_all (\<lambda>x. x = CHR ''.'') dm" using True ds by simp
        ultimately show thesis using s u d by (intro dots[OF _ r run _ head_dropWhile]) auto
      next
        case False
        have e: "u = core_of dm @ ds @ dropWhile is_domain u" using d ds(1) by (metis append.assoc)
        then have "drop (length (core_of dm)) u = ds @ dropWhile is_domain u" by (metis append_eq_conv_conj)
        with False r have "mail_turn s = (run @ ''@***'', ds @ dropWhile is_domain u)"
          by (simp add: turn u Let_def flip: dm_def)
        with s u e show thesis by (intro address[OF _ r run]) auto
      qed
    qed
  qed
qed

lemma emails_Nil [simp]: "redact_emails [] = []"
  by (simp add: redact_emails.simps)

lemma emails_turn: "s \<noteq> [] \<Longrightarrow> redact_emails s = fst (mail_turn s) @ redact_emails (snd (mail_turn s))"
  by (subst redact_emails.simps) simp

lemma emails_induct: "(P [] \<Longrightarrow> (\<And>s. s \<noteq> [] \<Longrightarrow> P (snd (mail_turn s)) \<Longrightarrow> P s) \<Longrightarrow> P s)"
  by (induction s rule: redact_emails.induct) (metis (full_types))

text \<open>The first character of a text is never changed.\<close>

lemma emails_head: "s \<noteq> [] \<Longrightarrow> redact_emails s \<noteq> [] \<and> hd (redact_emails s) = hd s"
  by (erule mail_turn_cases; simp add: emails_turn; cases s; auto)

lemma mail_run:
  assumes "list_all is_local run" "run \<noteq> []" "mail_at (last run # t)"
  shows "all_tails (\<lambda>u. mail_at (u @ t)) run"
  using assms
proof (induction run)
  case (Cons c cs)
  then show ?case by (cases cs) auto
qed simp

lemma mail_not_local: "list_all (\<lambda>c. \<not> is_local c \<or> c = CHR ''.'') s \<Longrightarrow> all_tails (\<lambda>u. mail_at (u @ t)) s"
proof (induction s)
  case (Cons c cs)
  then show ?case by (cases "cs @ t") auto
qed simp

lemma emails_mail_free: "mail_free (redact_emails s)"
proof (induction s rule: emails_induct)
  case (2 s)
  from \<open>s \<noteq> []\<close> show ?case
  proof (cases rule: mail_turn_cases)
    case (plain run rest)
    have "mail_at (last run # redact_emails rest)"
      using plain(4) emails_head[of rest] by (cases "rest = []"; cases "redact_emails rest") auto
    then show ?thesis using 2 plain by (simp add: emails_turn all_tails_append mail_run)
  next
    case (address run core rest)
    have "mail_at (last run # ''@***'' @ redact_emails rest)" by simp
    then show ?thesis
      using 2(2) address(4) mail_run[OF address(3,2)] mail_not_local[of "''@***''" "redact_emails rest"]
      by (simp add: emails_turn[OF 2(1)] all_tails_append)
  next
    case (dots run dm rest)
    have "takeWhile is_domain (dm @ redact_emails rest) = dm"
    proof -
      have "takeWhile is_domain (redact_emails rest) = []"
        using dots(5) emails_head[of rest] by (cases "rest = []"; cases "redact_emails rest") simp_all
      moreover have "\<forall>x\<in>set dm. is_domain x" using dots(4) by (simp add: list_all_iff is_domain_def)
      ultimately show ?thesis by (simp add: takeWhile_append2)
    qed
    then have "mail_at (last run # CHR ''@'' # dm @ redact_emails rest)" using dots(4) by simp
    moreover have "list_all (\<lambda>c. \<not> is_local c \<or> c = CHR ''.'') (CHR ''@'' # dm)" using dots(4) by (auto simp: list_all_iff)
    then have "mail_free ((CHR ''@'' # dm) @ redact_emails rest)"
      using 2(2) dots(6) by (subst all_tails_append) (simp add: mail_not_local del: all_tails.simps)
    ultimately show ?thesis
      using 2(2) dots(6) mail_run[OF dots(3,2)] by (simp add: emails_turn[OF 2(1)] all_tails_append del: all_tails.simps mail_at_simps)
  next
    case (other c cs rest)
    then have "list_all (\<lambda>c. \<not> is_local c \<or> c = CHR ''.'') (c # cs)" using byte_classes(1) by (auto simp: list_all_iff)
    from mail_not_local[OF this, of "redact_emails rest"] show ?thesis using 2 other by (simp add: emails_turn all_tails_append)
  qed
qed simp

lemma token_no_delim: "list_all (\<lambda>c. \<not> link_delim c) s \<Longrightarrow> all_tails (\<lambda>u. token_at (u @ t)) s"
  by (induction s) auto

lemma emails_starts:
  assumes "begins_with ''t='' (redact_emails s)"
  shows "begins_with ''t='' s"
proof -
  have s: "s \<noteq> []" using assms by auto
  note turn = assms[unfolded emails_turn[OF s]]
  from s show ?thesis
  proof (cases rule: mail_turn_cases)
    case (plain run rest)
    with turn have a: "begins_with ''t='' (run @ redact_emails rest)" by simp
    then obtain run' where "run = CHR ''t'' # run'" using plain(2) by (cases run) auto
    with a plain(3) have "run = ''t''" by (cases run') auto
    with a plain(1) show ?thesis using emails_head[of rest] by (cases rest; cases "redact_emails rest") auto
  next
    case (address run core rest)
    with turn have "begins_with ''t='' (run @ ''@***'' @ redact_emails rest)" by simp
    with address(2,3) show ?thesis by (cases run; cases "tl run") auto
  next
    case (dots run dm rest)
    with turn have "begins_with ''t='' (run @ CHR ''@'' # dm @ redact_emails rest)" by simp
    with dots(2,3) show ?thesis by (cases run; cases "tl run") auto
  next
    case (other c cs rest)
    with turn show ?thesis by auto
  qed
qed

lemma emails_keep_mark: "begins_with (''t='' @ ellipsis) s \<Longrightarrow> begins_with (''t='' @ ellipsis) (redact_emails s)"
proof -
  assume "begins_with (''t='' @ ellipsis) s"
  then obtain w where s: "s = ''t='' @ ellipsis @ w" by (metis begins_with_def append_take_drop_id append.assoc)
  have "redact_emails s = ''t='' @ ellipsis @ takeWhile is_cont w @ redact_emails (dropWhile is_cont w)"
    unfolding s by (simp add: emails_turn[of "_ # _"] mail_turn_def)
  then show ?thesis by simp
qed

lemma mark_split: "begins_with (''t='' @ ellipsis) s \<longleftrightarrow> begins_with ''t='' s \<and> begins_with ellipsis (drop 2 s)"
  by (cases s; cases "tl s") auto

lemma emails_token_free: "token_free s \<Longrightarrow> token_free (redact_emails s)"
proof (induction s rule: emails_induct)
  case (2 s)
  from \<open>s \<noteq> []\<close> show ?case
  proof (cases rule: mail_turn_cases)
    case (plain run rest)
    then have "list_all (\<lambda>c. \<not> link_delim c) run" using byte_classes(3) by (auto simp: list_all_iff)
    moreover have "token_free rest" using 2(3) plain(1) by (simp add: all_tails_append)
    ultimately show ?thesis using 2(2) plain(5) by (simp add: emails_turn[OF 2(1)] all_tails_append token_no_delim)
  next
    case (address run core rest)
    then have "list_all (\<lambda>c. \<not> link_delim c) (run @ ''@***'')" using byte_classes(3) by (auto simp: list_all_iff link_delim_def)
    moreover have "token_free rest" using 2(3) address(1) by (simp add: all_tails_append)
    ultimately show ?thesis using 2(2) address(4) token_no_delim[of "run @ ''@***''" "redact_emails rest"]
      by (simp add: emails_turn[OF 2(1)] all_tails_append del: token_at_Cons)
  next
    case (dots run dm rest)
    have "list_all (\<lambda>c. \<not> link_delim c) run" using dots(3) byte_classes(3) by (auto simp: list_all_iff)
    moreover have "list_all (\<lambda>c. \<not> link_delim c) dm" using dots(4) by (rule list.pred_mono_strong) (simp add: link_delim_def)
    ultimately have "list_all (\<lambda>c. \<not> link_delim c) (run @ CHR ''@'' # dm)" by (simp add: link_delim_def)
    moreover have "token_free rest" using 2(3) dots(1) by (simp add: all_tails_append)
    ultimately show ?thesis using 2(2) dots(6) token_no_delim[of "run @ CHR ''@'' # dm" "redact_emails rest"]
      by (simp add: emails_turn[OF 2(1)] all_tails_append del: token_at_Cons)
  next
    case (other c cs rest)
    have cs: "list_all (\<lambda>c. \<not> link_delim c) cs" using other(3) byte_classes(5) by (auto simp: list_all_iff)
    have rest: "token_free rest" using 2(3) other(1) by (simp add: all_tails_append)
    have "token_at (c # cs @ redact_emails rest)"
    proof (cases cs)
      case Nil
      then have "token_at (c # rest)" using 2(3) other(1) by simp
      then have "token_at (c # redact_emails rest)"
        using emails_starts[of rest] emails_keep_mark[of rest] unfolding mark_split token_at_Cons by iprover
      with Nil show ?thesis by (simp only: append_Nil)
    next
      case (Cons x xs)
      then show ?thesis using other(3) by (auto simp: is_cont_def)
    qed
    with rest cs show ?thesis using 2(2) other(4) token_no_delim[OF cs, of "redact_emails rest"]
      by (simp add: emails_turn[OF 2(1)] all_tails_append del: token_at_Cons)
  qed
qed simp

text \<open>A property that looks no further than the next quote, and that a cut between characters does not break, survives the
  truncation of quoted text.\<close>

locale cut_proof =
  fixes P :: "string \<Rightarrow> bool"
  assumes at_quote: "P (quot # u)"
    and at_mark: "x \<in> set ellipsis \<Longrightarrow> P (x # u)"
    and to_quote: "t \<noteq> [] \<Longrightarrow> quot \<notin> set t \<Longrightarrow> P (t @ quot # u) \<Longrightarrow> P (t @ quot # v)"
    and to_cut: "t \<noteq> [] \<Longrightarrow> quot \<notin> set t \<Longrightarrow> \<not> is_cont c \<Longrightarrow> P (t @ c # u) \<Longrightarrow> P (t @ ellipsis @ quot # v)"
begin

lemma segment: "all_tails P (t @ quot # u) \<Longrightarrow> quot \<notin> set t \<Longrightarrow> all_tails P (quot # v) \<Longrightarrow> all_tails P (t @ quot # v)"
  by (induction t) (auto intro: to_quote[of "_ # _", simplified])

lemma cut_segment:
  assumes "all_tails P (t @ c # u)" "quot \<notin> set t" "\<not> is_cont c" "all_tails P v"
  shows "all_tails P (t @ ellipsis @ quot # v)"
  using assms
proof (induction t)
  case Nil
  then show ?case by (auto simp: at_quote intro: at_mark)
next
  case (Cons x t)
  then have "P (x # t @ ellipsis @ quot # v)" using to_cut[of "x # t" c u v] by simp
  with Cons show ?case by simp
qed

end

lemma at_first:
  assumes "dropWhile (\<lambda>c. c \<noteq> x) s = d # r"
  shows "d = x" and "s = takeWhile (\<lambda>c. c \<noteq> x) s @ x # r"
proof -
  show d: "d = x" using head_dropWhile[of "\<lambda>c. c \<noteq> x" s] assms by simp
  show "s = takeWhile (\<lambda>c. c \<noteq> x) s @ x # r"
    using takeWhile_dropWhile_id[of "\<lambda>c. c \<noteq> x" s] assms d by simp
qed

lemma cut_back_le: "cut_back s n \<le> n"
  by (induction n) (auto intro: le_SucI)

lemma cut_back_boundary: "is_char_boundary s (cut_back s n)"
  by (induction n) (auto simp: is_char_boundary_def)

lemma cut_body_cases:
  obtains "cut_body b = b" | t c u where "b = t @ c # u" "cut_body b = t @ ellipsis" "\<not> is_cont c" "length t \<le> QUOTE_MAX" | "cut_body b = ellipsis"
proof (cases "length b > QUOTE_MAX")
  case True
  let ?n = "cut_back b QUOTE_MAX"
  have n: "?n \<le> QUOTE_MAX" "?n < length b" using cut_back_le[of b QUOTE_MAX] True by simp_all
  show thesis
  proof (cases "?n = 0")
    case True
    with \<open>length b > QUOTE_MAX\<close> show thesis using that(3) by (simp add: cut_body_def)
  next
    case False
    then have "\<not> is_cont (b ! ?n)" using cut_back_boundary[of b QUOTE_MAX] n by (auto simp: is_char_boundary_def)
    then show thesis using that(2)[of "take ?n b" "b ! ?n" "drop (Suc ?n) b"] n True id_take_nth_drop[of ?n b] by (simp add: cut_body_def)
  qed
qed (use that(1) in \<open>simp add: cut_body_def\<close>)

context cut_proof
begin

lemma all_tails_suffix: "all_tails P (a @ b) \<Longrightarrow> all_tails P b"
  by (simp add: all_tails_append)

lemma cut_body_keeps:
  assumes "all_tails P (b @ quot # u)" "quot \<notin> set b" "all_tails P v"
  shows "all_tails P (cut_body b @ quot # v)"
proof (cases rule: cut_body_cases[of b])
  case 1
  with assms segment[of b u v] show ?thesis by (simp add: at_quote)
next
  case (2 t c w)
  with assms cut_segment[of t c "w @ quot # u" v] show ?thesis by simp
next
  case 3
  with assms(3) show ?thesis by (auto simp: at_quote intro: at_mark)
qed

lemma truncate_keeps: "all_tails P s \<Longrightarrow> all_tails P (truncate_quoted s)"
proof (induction s rule: truncate_quoted.induct)
  case (1 s)
  let ?h = "takeWhile (\<lambda>c. c \<noteq> quot) s"
  have h: "quot \<notin> set ?h" by (auto dest: set_takeWhileD)
  show ?case
  proof (cases "dropWhile (\<lambda>c. c \<noteq> quot) s")
    case Nil
    then have "?h = s" by (metis append_Nil2 takeWhile_dropWhile_id)
    then have "truncate_quoted s = s" by (subst truncate_quoted.simps) (simp only: Nil list.case append_Nil2)
    with "1.prems" show ?thesis by simp
  next
    case (Cons q r)
    note q = at_first(1)[OF Cons] and s = at_first(2)[OF Cons]
    have r: "all_tails P r" using "1.prems" s by (metis all_tails_suffix all_tails.simps(2))
    show ?thesis
    proof (cases "dropWhile (\<lambda>c. c \<noteq> quot) r")
      case Nil
      then have "truncate_quoted s = ?h @ quot # r"  by (subst truncate_quoted.simps) (simp only: Cons Nil list.case q)
      then have "truncate_quoted s = s" using s by metis
      with "1.prems" show ?thesis by simp
    next
      case c2: (Cons q2 r2)
      let ?b = "takeWhile (\<lambda>c. c \<noteq> quot) r"
      note q2 = at_first(1)[OF c2] and r2 = at_first(2)[OF c2]
      have b: "quot \<notin> set ?b" by (auto dest: set_takeWhileD)
      have "all_tails P r2" using r r2 by (metis all_tails_suffix all_tails.simps(2))
      then have "all_tails P (truncate_quoted r2)" by (rule "1.IH"[OF Cons c2])
      then have "all_tails P (cut_body ?b @ quot # truncate_quoted r2)" using cut_body_keeps[of ?b r2] r r2 b by metis
      then have "all_tails P (?h @ quot # cut_body ?b @ quot # truncate_quoted r2)"
        using segment[of ?h r] "1.prems" s h at_quote by (metis all_tails.simps(2))
      moreover have "truncate_quoted s = ?h @ quot # cut_body ?b @ quot # truncate_quoted r2"
        using Cons c2 q q2 by (subst truncate_quoted.simps) simp
      ultimately show ?thesis by simp
    qed
  qed
qed

end

lemma begins_with_segment:
  "quot \<notin> set p \<Longrightarrow> quot \<notin> set t \<Longrightarrow> begins_with p (t @ quot # u) \<longleftrightarrow> begins_with p t"
proof (induction p arbitrary: t)
  case (Cons a p)
  then show ?case by (cases t) auto
qed simp

lemma begins_with_length: "begins_with p t \<Longrightarrow> length p \<le> length t"
  by (metis begins_with_def length_take min.cobounded1)

interpretation tokens: cut_proof token_at
proof
  fix t u v :: string
  assume t: "t \<noteq> []" "quot \<notin> set t"
  {
    assume "token_at (t @ quot # u)"
    moreover have "begins_with ellipsis (drop 2 w @ quot # x) \<longleftrightarrow> begins_with ellipsis (drop 2 w)" if "quot \<notin> set w" for w x
      using that by (intro begins_with_segment) (auto dest: in_set_dropD)
    ultimately show "token_at (t @ quot # v)" using t
      by (cases t) (auto simp: begins_with_segment dest: begins_with_length)
  next
    fix c assume "\<not> is_cont c" "token_at (t @ c # u)"
    with t show "token_at (t @ ellipsis @ quot # v)"
      by (cases t; cases "tl t"; cases "tl (tl t)"; cases "tl (tl (tl t))"; cases "tl (tl (tl (tl t)))"; cases "tl (tl (tl (tl (tl t))))") auto
  }
qed auto

interpretation mails: cut_proof mail_at
proof
  fix t u v :: string
  assume t: "t \<noteq> []" "quot \<notin> set t"
  have tw: "takeWhile is_domain (w @ c # x) = takeWhile is_domain w" if "\<not> is_domain c" for w c x
    using that by (induction w) auto
  {
    assume "mail_at (t @ quot # u)"
    with t show "mail_at (t @ quot # v)" by (cases t; cases "tl t") (auto simp: tw)
  next
    fix c assume "mail_at (t @ c # u)"
    with t show "mail_at (t @ ellipsis @ quot # v)"
      by (cases t; cases "tl t") (auto simp: tw list_all_iff takeWhile_append dest: set_takeWhileD split: if_splits)
  }
qed (auto simp: mail_at_def split: list.splits)

lemma redact_clean: "token_free (redact msg)" "mail_free (redact msg)"
  unfolding redact_def
  by (intro tokens.truncate_keeps emails_token_free chat_link_token_free) (intro mails.truncate_keeps emails_mail_free)

subsection \<open>Lines\<close>

text \<open>A text that is clean stays clean when a space or a line feed follows, and when white space at its end is removed.\<close>

lemma token_closed:
  assumes "token_free x" "token_free (c # y)" "c = CHR '' '' \<or> c = lf"
  shows "token_free (x @ c # y)"
proof -
  have "token_at (t @ c # y)" if "t \<noteq> []" "token_at t" for t
  proof -
    have st: "begins_with p (w @ c # y) \<Longrightarrow> c \<notin> set p \<Longrightarrow> begins_with p w" for p w
    proof (induction p arbitrary: w)
      case (Cons a p)
      then show ?case by (cases w) auto
    qed simp
    have ap: "begins_with p w \<Longrightarrow> begins_with p (w @ z)" for p w z :: string
    proof (induction p arbitrary: w)
      case (Cons a p)
      then show ?case by (cases w) auto
    qed simp
    obtain d cs where t: "t = d # cs" using \<open>t \<noteq> []\<close> by (cases t) auto
    have "begins_with ''t='' cs" if "begins_with ''t='' (cs @ c # y)" using st[OF that] assms(3) by auto
    then show ?thesis using \<open>token_at t\<close> ap[of ellipsis "drop 2 cs"] by (auto simp: t dest: begins_with_length)
  qed
  with assms(1,2) show ?thesis by (simp add: all_tails_append) (blast intro: all_tails_mono)
qed

lemma domain_stop: "\<not> is_domain c \<Longrightarrow> takeWhile is_domain (w @ c # x) = takeWhile is_domain w"
  by (induction w) auto

lemma mail_closed:
  assumes "mail_free x" "mail_free (c # y)" "c = CHR '' '' \<or> c = lf"
  shows "mail_free (x @ c # y)"
proof -
  have "mail_at (t @ c # y)" if "t \<noteq> []" "mail_at t" for t
    using that assms(3) by (cases t; cases "tl t") (auto simp: domain_stop)
  with assms(1,2) show ?thesis by (simp add: all_tails_append) (blast intro: all_tails_mono)
qed

lemma trim_end_split: "\<exists>w. s = trim_end s @ concat w \<and> list_all is_ws w"
proof -
  let ?r = "rev (chars s)"
  have "chars s = rev (dropWhile is_ws ?r) @ rev (takeWhile is_ws ?r)"
    by (metis rev_append rev_rev_ident takeWhile_dropWhile_id)
  then have "s = trim_end s @ concat (rev (takeWhile is_ws ?r))"
    by (metis concat_append concat_chars trim_end_def)
  moreover have "list_all is_ws (rev (takeWhile is_ws ?r))" by (auto simp: list_all_iff dest: set_takeWhileD)
  ultimately show ?thesis by blast
qed

lemma ws_head: "list_all is_ws w \<Longrightarrow> concat w = c # u \<Longrightarrow> \<not> is_cont c \<and> \<not> begins_with ellipsis (c # u)"
proof (cases w)
  case (Cons x xs)
  assume "list_all is_ws w" "concat w = c # u"
  with Cons have "x \<in> set whitespace" "x @ concat xs = c # u" by (auto simp: is_ws_def)
  then show ?thesis by (auto simp: whitespace_def is_cont_def)
qed simp

lemma token_trimmed:
  assumes "token_free (p @ concat w)" "list_all is_ws w"
  shows "token_free p"
proof (cases "concat w")
  case (Cons c u)
  have c: "\<not> is_cont c" "\<not> begins_with ellipsis (c # u)" using ws_head[OF assms(2) Cons] by auto
  have "token_at t" if "t \<noteq> []" "token_at (t @ concat w)" for t
    using that c unfolding Cons
    by (cases t; cases "tl t"; cases "tl (tl t)"; cases "tl (tl (tl t))"; cases "tl (tl (tl (tl t)))"; cases "tl (tl (tl (tl (tl t))))") auto
  with assms(1) show ?thesis by (simp only: all_tails_append) (blast intro: all_tails_mono)
next
  case Nil
  show ?thesis using assms(1) unfolding Nil by (simp only: append_Nil2)
qed

lemma mail_trimmed:
  assumes "mail_free (p @ w)"
  shows "mail_free p"
proof -
  have "mail_at t" if "t \<noteq> []" "mail_at (t @ w)" for t
    using that by (cases t; cases "tl t") (auto simp: list_all_iff takeWhile_append dest: set_takeWhileD split: if_splits)
  with assms show ?thesis by (simp only: all_tails_append) (blast intro: all_tails_mono)
qed

text \<open>Text without delimiters, and text without at signs.\<close>

lemma token_plain: "list_all (\<lambda>c. \<not> link_delim c) a \<Longrightarrow> token_free b \<Longrightarrow> token_free (a @ b)"
  by (simp add: all_tails_append token_no_delim)

lemma mail_plain: "CHR ''@'' \<notin> set a \<Longrightarrow> mail_free b \<Longrightarrow> mail_free (a @ CHR '' '' # b)"
proof (induction a)
  case Nil
  then show ?case by (cases b) auto
next
  case (Cons c cs)
  then show ?case by (cases cs) auto
qed

lemma mail_no_at: "CHR ''@'' \<notin> set a \<Longrightarrow> mail_free a"
proof (induction a)
  case (Cons c cs)
  then show ?case by (cases cs) auto
qed simp

lemma digits_plain: "c \<in> set (show_nat n) \<Longrightarrow> \<not> link_delim c \<and> c \<noteq> CHR ''@''"
  using show_nat_digits[of c n] by (auto simp: link_delim_def less_eq_char_def)

lemma stamp_plain: "c \<in> set (stamp secs ms) \<Longrightarrow> \<not> link_delim c \<and> c \<noteq> CHR ''@''"
  using digits_plain by (auto simp: stamp_def pad3_def link_delim_def)

lemma log_line_clean:
  assumes "\<not> begins_with ''boot:'' msg"
  shows "token_free (log_line secs ms msg)" "mail_free (log_line secs ms msg)"
proof -
  have "token_free (redact msg @ [lf])" "mail_free (redact msg @ [lf])"
    by (rule token_closed mail_closed; simp add: redact_clean)+
  then show "token_free (log_line secs ms msg)" "mail_free (log_line secs ms msg)"
    using assms token_plain[of "stamp secs ms @ '' ''"] mail_plain[of "stamp secs ms"] stamp_plain[of _ secs ms]
    by (auto simp: log_line_def log_text_def list_all_iff link_delim_def)
qed

lemma with_counts_clean:
  assumes "token_free line" "mail_free line"
  shows "token_free (with_counts line d r)" "mail_free (with_counts line d r)"
proof -
  obtain w where w: "line = trim_end line @ concat w" "list_all is_ws w" using trim_end_split by blast
  define s where "s = ''dropped='' @ show_nat (unat d) @ '' rate_dropped='' @ show_nat (unat r) @ [lf]"
  have s: "c \<in> set s \<Longrightarrow> \<not> link_delim c \<and> c \<noteq> CHR ''@''" for c using digits_plain by (auto simp: s_def link_delim_def)
  have "token_free (CHR '' '' # s)" "mail_free (CHR '' '' # s)"
    using s token_plain[of "CHR '' '' # s" "[]"] mail_no_at[of "CHR '' '' # s"] by (auto simp: list_all_iff link_delim_def)
  moreover have "token_free (trim_end line)" using token_trimmed assms(1) w by metis
  moreover have "mail_free (trim_end line)" using mail_trimmed assms(2) w(1) by metis
  ultimately have "token_free (trim_end line @ CHR '' '' # s)" "mail_free (trim_end line @ CHR '' '' # s)"
    by (auto intro: token_closed mail_closed)
  then show "token_free (with_counts line d r)" "mail_free (with_counts line d r)"
    using assms by (auto simp: with_counts_def s_def)
qed

subsection \<open>Where the lines come from\<close>

definition line_from :: "string set \<Rightarrow> string \<Rightarrow> bool" where
  "line_from M l \<longleftrightarrow> (\<exists>secs ms msg. msg \<in> M \<and> l = log_line secs ms msg)"

fun pc_from :: "string set \<Rightarrow> pc \<Rightarrow> bool" where
  "pc_from M (Clock msg) = (msg \<in> M)"
| "pc_from M (Rated msg _) = (msg \<in> M)"
| "pc_from M (Swap msg _ _ _) = (msg \<in> M)"
| "pc_from M (Format msg) = (msg \<in> M)"
| "pc_from M (Enqueue l) = line_from M l"
| "pc_from M (Load2 l _) = line_from M l"
| "pc_from M (Send l d r) = (\<exists>l0. line_from M l0 \<and> l = with_counts l0 d r)"
| "pc_from M _ = True"

fun obs_from :: "string set \<Rightarrow> obs \<Rightarrow> bool" where
  "obs_from M (Sent l d r) = (\<exists>l0. line_from M l0 \<and> l = with_counts l0 d r)"
| "obs_from M _ = True"

lemma threads_goto [simp]: "threads (goto i p L) = (threads L)[i := p]"
  by (simp add: goto_def)

lemma all_threads_goto: "list_all P (threads L) \<Longrightarrow> P p \<Longrightarrow> list_all P ((threads L)[i := p])"
  by (auto simp: list_all_iff dest: set_update_subset_insert[THEN subsetD])

lemma line_fromI [intro]: "msg \<in> M \<Longrightarrow> line_from M (log_line secs ms msg)"
  by (auto simp: line_from_def)

lemma resume_from:
  assumes "list_all (pc_from M) (threads L)" "pc_from M p"
  shows "list_all (pc_from M) (threads (fst (resume i secs ms b p L))) \<and> list_all (obs_from M) (snd (resume i secs ms b p L))"
  using assms by (cases p) (auto intro!: all_threads_goto split: option.splits)

lemma step_from:
  assumes "list_all (pc_from M) (threads L)" "\<And>i msg. ev = Call i msg \<Longrightarrow> msg \<in> M"
  shows "list_all (pc_from M) (threads (fst (log_step ev L))) \<and> list_all (obs_from M) (snd (log_step ev L))"
proof (cases ev)
  case (Run i secs ms b)
  with assms(1) show ?thesis using resume_from[of M L "threads L ! i"] by (auto simp: log_step_def list_all_length)
qed (use assms in \<open>auto simp: log_step_def log_call_def set_log_dir_def writer_turn_def all_threads_goto split: option.splits bool.splits list.splits\<close>)

lemma run_from:
  assumes "list_all (pc_from M) (threads L)" "\<And>i msg. Call i msg \<in> set evs \<Longrightarrow> msg \<in> M"
  shows "list_all (obs_from M) (snd (log_run evs L))"
  using assms
proof (induction evs arbitrary: L)
  case (Cons ev evs)
  obtain L1 o1 where s: "log_step ev L = (L1, o1)" by fastforce
  have "list_all (pc_from M) (threads L1) \<and> list_all (obs_from M) o1" using step_from[of M L ev] Cons.prems s by (metis fst_conv snd_conv list.set_intros(1))
  moreover from this have "list_all (obs_from M) (snd (log_run evs L1))" using Cons.IH Cons.prems(2) by (meson list.set_intros(2))
  ultimately show ?case by (simp add: s case_prod_beta)
qed simp

subsection \<open>Losses are reported\<close>

definition tot_pc :: "(pc \<Rightarrow> nat) \<Rightarrow> logger \<Rightarrow> nat" where
  "tot_pc f L = sum_list (map f (threads L))"

lemma total_goto: "i < length (threads L) \<Longrightarrow> tot_pc f (goto i p L) + f (threads L ! i) = tot_pc f L + f p"
  using elem_le_sum_list[of i "map f (threads L)"] by (simp add: tot_pc_def map_update sum_list_update)

lemma total_fields [simp]: "tot_pc f (L\<lparr>rate := x\<rparr>) = tot_pc f L" "tot_pc f (L\<lparr>drop_count := x\<rparr>) = tot_pc f L"
  "tot_pc f (L\<lparr>rate_drop_count := x\<rparr>) = tot_pc f L" "tot_pc f (L\<lparr>queue := q\<rparr>) = tot_pc f L"
  "tot_pc f (L\<lparr>log_enabled := b\<rparr>) = tot_pc f L" "tot_pc f (L\<lparr>tx := c\<rparr>) = tot_pc f L" "tot_pc f (L\<lparr>mirror := m\<rparr>) = tot_pc f L"
  "tot_pc f (L\<lparr>log_file := w\<rparr>) = tot_pc f L"
  by (simp_all add: tot_pc_def)

text \<open>
  A counter of losses: a thread that found a loss owes the counter one, a thread that has written a report is entitled to
  take what it reported off the counter. The laws are what one step may do to the counter, the debts and the entitlements.
\<close>

locale loss_account =
  fixes count :: "logger \<Rightarrow> u64" and lost told :: "obs \<Rightarrow> nat" and owed claimed :: "pc \<Rightarrow> nat"
  assumes grows: "unat (count L) + tot_pc owed L + 1 < 2 ^ 64 \<Longrightarrow> log_step ev L = (L', os)
      \<Longrightarrow> unat (count L') + tot_pc owed L' \<le> unat (count L) + tot_pc owed L + 1"
    and balance: "unat (count L) + tot_pc owed L + 1 < 2 ^ 64 \<Longrightarrow> log_step ev L = (L', os)
      \<Longrightarrow> sum_list (map lost os) + tot_pc claimed L' + unat (count L) + tot_pc owed L
          \<le> tot_pc claimed L + sum_list (map told os) + unat (count L') + tot_pc owed L'"
begin

lemma run_balance:
  assumes "log_run evs L = (L', os)" "unat (count L) + tot_pc owed L + length evs < 2 ^ 64"
  shows "sum_list (map lost os) + tot_pc claimed L' + unat (count L) + tot_pc owed L
    \<le> tot_pc claimed L + sum_list (map told os) + unat (count L') + tot_pc owed L'"
  using assms
proof (induction evs arbitrary: L os)
  case (Cons ev evs)
  obtain L1 o1 where s: "log_step ev L = (L1, o1)" by fastforce
  obtain o2 where r: "log_run evs L1 = (L', o2)" and os: "os = o1 @ o2" using Cons.prems(1) s by (auto split: prod.splits)
  have b: "unat (count L) + tot_pc owed L + 1 < 2 ^ 64" using Cons.prems(2) by simp
  have "unat (count L1) + tot_pc owed L1 + length evs < 2 ^ 64" using grows[OF b s] Cons.prems(2) by simp
  from Cons.IH[OF r this] balance[OF b s] show ?case by (simp add: os)
qed simp

end

fun overflow_lost refused_lost drops_told rate_told :: "obs \<Rightarrow> nat" where
  "overflow_lost x = of_bool (x = Overflow)"
| "refused_lost x = of_bool (x = Refused)"
| "drops_told x = (case x of Sent _ d _ \<Rightarrow> unat d | _ \<Rightarrow> 0)"
| "rate_told x = (case x of Sent _ _ r \<Rightarrow> unat r | _ \<Rightarrow> 0)"

fun drop_owed drop_claimed rate_owed rate_claimed :: "pc \<Rightarrow> nat" where
  "drop_owed p = of_bool (p = Lost)"
| "drop_claimed p = (case p of Reset1 d _ \<Rightarrow> unat d | _ \<Rightarrow> 0)"
| "rate_owed p = of_bool (p = RateLost)"
| "rate_claimed p = (case p of Reset1 _ r \<Rightarrow> unat r | Reset2 r \<Rightarrow> unat r | _ \<Rightarrow> 0)"

lemma count_fields [simp]: "drop_count (goto i p L) = drop_count L" "rate_drop_count (goto i p L) = rate_drop_count L"
  "queue (goto i p L) = queue L" "rate (goto i p L) = rate L"
  by (simp_all add: goto_def)

lemma unat_inc: "unat (a :: u64) + 1 < 2 ^ 64 \<Longrightarrow> unat (a + 1) = unat a + 1"
  by (simp add: unat_word_ariths)

lemma total_ge: "i < length (threads L) \<Longrightarrow> f (threads L ! i) \<le> tot_pc f L"
  using elem_le_sum_list[of i "map f (threads L)"] by (simp add: tot_pc_def)

lemma total_goto_eq [simp]: "i < length (threads L) \<Longrightarrow> tot_pc f (goto i p L) = tot_pc f L + f p - f (threads L ! i)"
  using total_goto[of i L f p] by linarith

lemma drops_step:
  assumes "unat (drop_count L) + tot_pc drop_owed L + 1 < 2 ^ 64" "log_step ev L = (L', os)"
  shows "unat (drop_count L') + tot_pc drop_owed L' \<le> unat (drop_count L) + tot_pc drop_owed L + 1
    \<and> sum_list (map overflow_lost os) + tot_pc drop_claimed L' + unat (drop_count L) + tot_pc drop_owed L
      \<le> tot_pc drop_claimed L + sum_list (map drops_told os) + unat (drop_count L') + tot_pc drop_owed L'"
proof (cases ev)
  case (Run i secs ms b)
  show ?thesis
  proof (cases "i < length (threads L)")
    case True
    have "resume i secs ms b (threads L ! i) L = (L', os)" using assms(2) Run True by (simp add: log_step_def)
    then show ?thesis
      using assms(1) True total_ge[OF True, of drop_owed] total_ge[OF True, of drop_claimed]
      by (cases "threads L ! i") (auto simp: unat_inc split: option.splits if_splits)
  qed (use assms Run in \<open>simp add: log_step_def\<close>)
qed (use assms in \<open>auto simp: log_step_def log_call_def set_log_dir_def writer_turn_def split: option.splits bool.splits list.splits if_splits\<close>)

lemma rates_step:
  assumes "unat (rate_drop_count L) + tot_pc rate_owed L + 1 < 2 ^ 64" "log_step ev L = (L', os)"
  shows "unat (rate_drop_count L') + tot_pc rate_owed L' \<le> unat (rate_drop_count L) + tot_pc rate_owed L + 1
    \<and> sum_list (map refused_lost os) + tot_pc rate_claimed L' + unat (rate_drop_count L) + tot_pc rate_owed L
      \<le> tot_pc rate_claimed L + sum_list (map rate_told os) + unat (rate_drop_count L') + tot_pc rate_owed L'"
proof (cases ev)
  case (Run i secs ms b)
  show ?thesis
  proof (cases "i < length (threads L)")
    case True
    have "resume i secs ms b (threads L ! i) L = (L', os)" using assms(2) Run True by (simp add: log_step_def)
    then show ?thesis
      using assms(1) True total_ge[OF True, of rate_owed] total_ge[OF True, of rate_claimed]
      by (cases "threads L ! i") (auto simp: unat_inc split: option.splits if_splits)
  qed (use assms Run in \<open>simp add: log_step_def\<close>)
qed (use assms in \<open>auto simp: log_step_def log_call_def set_log_dir_def writer_turn_def split: option.splits bool.splits list.splits if_splits\<close>)

interpretation drops: loss_account drop_count overflow_lost drops_told drop_owed drop_claimed
  by unfold_locales (use drops_step in blast)+

interpretation rates: loss_account rate_drop_count refused_lost rate_told rate_owed rate_claimed
  by unfold_locales (use rates_step in blast)+

subsection \<open>At most fifty messages a second\<close>

fun admitted :: "obs list \<Rightarrow> u64 list" where
  "admitted [] = []"
| "admitted (Admitted t # os) = t # admitted os"
| "admitted (_ # os) = admitted os"

lemma admitted_append [simp]: "admitted (a @ b) = admitted a @ admitted b"
  by (induction a rule: admitted.induct) auto

definition pack :: "u64 \<Rightarrow> nat \<Rightarrow> u64" where
  "pack t k = push_bit 32 t OR of_nat k"

lemma small_bit: "(w :: u64) < 2 ^ 32 \<Longrightarrow> bit w n \<Longrightarrow> n < 32"
  using less_mask_eq[of w 32] by (metis bit_and_iff bit_mask_iff)

lemma small_fields:
  fixes t w :: u64
  assumes "t < 2 ^ 32" "w < 2 ^ 32"
  shows "drop_bit 32 (push_bit 32 t OR w) = t" "(push_bit 32 t OR w) AND mask 32 = w"
proof -
  have t: "bit t n \<Longrightarrow> n < 32" and w: "bit w n \<Longrightarrow> n < 32" for n using small_bit assms by blast+
  show "drop_bit 32 (push_bit 32 t OR w) = t"
    by (rule bit_word_eqI) (use t w in \<open>fastforce simp: bit_simps\<close>)
  show "(push_bit 32 t OR w) AND mask 32 = w"
    by (rule bit_word_eqI) (use w in \<open>auto simp: bit_simps\<close>)
qed

lemma next_rate_pack:
  assumes "t < 2 ^ 32" "k \<le> 50"
  shows "next_rate now (pack t k) = (if t \<noteq> now then Some (pack now 1) else if k \<ge> 50 then None else Some (pack t (Suc k)))"
proof -
  have k: "(of_nat k :: u64) < 2 ^ 32" using assms(2) by (simp add: word_less_nat_alt unat_of_nat)
  have m: "(0xffffffff :: u64) = mask 32" by (simp add: mask_eq_exp_minus_1)
  have "RATE_PER_SEC \<le> of_nat k \<longleftrightarrow> 50 \<le> k"
    using assms(2) by (simp add: RATE_PER_SEC_def word_le_nat_alt unat_of_nat)
  with small_fields[OF assms(1) k] show ?thesis
    by (simp add: next_rate_def pack_def m Let_def add.commute)
qed

text \<open>The word \<open>RATE\<close> and the exchanges under way, after the messages of the given seconds were let through.\<close>

fun swap_ok :: "pc \<Rightarrow> bool" where
  "swap_ok (Swap _ now packed new) = (next_rate now packed = Some new)"
| "swap_ok _ = True"

definition rate_ok :: "u64 list \<Rightarrow> logger \<Rightarrow> bool" where
  "rate_ok tr L \<longleftrightarrow> (\<exists>t k. rate L = pack t k \<and> t < 2 ^ 32 \<and> k = count_list tr t \<and> (tr \<noteq> [] \<longrightarrow> t = last tr))
     \<and> (\<forall>t. count_list tr t \<le> 50) \<and> list_all swap_ok (threads L)"

lemma count_new: "sorted (tr @ [now]) \<Longrightarrow> tr \<noteq> [] \<Longrightarrow> last tr \<noteq> now \<Longrightarrow> now \<notin> set tr"
  by (cases tr rule: rev_cases) (auto simp: sorted_append)

lemma rate_ok_admit:
  assumes "rate_ok tr L" "next_rate now (rate L) = Some new" "sorted (tr @ [now])" "now < 2 ^ 32" "swap_ok p"
  shows "rate_ok (tr @ [now]) (goto i p (L\<lparr>rate := new\<rparr>))"
proof -
  obtain t k where r: "rate L = pack t k" "t < 2 ^ 32" "k = count_list tr t" "tr \<noteq> [] \<longrightarrow> t = last tr"
    and le: "\<And>t. count_list tr t \<le> 50" and sw: "list_all swap_ok (threads L)"
    using assms(1) by (auto simp: rate_ok_def)
  have n: "(if t \<noteq> now then Some (pack now 1) else if k \<ge> 50 then None else Some (pack t (Suc k))) = Some new"
    using assms(2) next_rate_pack[OF r(2), of k now] le[of t] r(1,3) by simp
  have "new = pack now (count_list (tr @ [now]) now) \<and> count_list (tr @ [now]) now \<le> 50"
  proof (cases "t = now")
    case True
    with n r(3) show ?thesis by (auto split: if_splits)
  next
    case False
    then have "now \<notin> set tr" using count_new[OF assms(3)] r(4) by (cases "tr = []") auto
    with False n show ?thesis by (simp add: count_notin)
  qed
  moreover have "list_all swap_ok ((threads L)[i := p])" using sw assms(5) by (rule all_threads_goto)
  ultimately show ?thesis using le assms(4) by (auto simp: rate_ok_def)
qed

lemma rate_ok_goto: "rate_ok tr L \<Longrightarrow> swap_ok p \<Longrightarrow> rate L' = rate L \<Longrightarrow> threads L' = threads L \<Longrightarrow> rate_ok tr (goto i p L')"
  using all_threads_goto[of swap_ok L p i] by (simp add: rate_ok_def)

lemma rate_ok_cong: "rate_ok tr L \<Longrightarrow> rate L' = rate L \<Longrightarrow> threads L' = threads L \<Longrightarrow> rate_ok tr L'"
  by (simp add: rate_ok_def)

lemma rate_ok_resume:
  assumes "rate_ok tr L" "swap_ok p" "resume i secs ms b p L = (L', os)" "sorted (tr @ admitted os)" "\<forall>t\<in>set (admitted os). t < 2 ^ 32"
  shows "rate_ok (tr @ admitted os) L'"
proof (cases p)
  case (Swap msg now packed new)
  with assms show ?thesis by (auto simp: rate_ok_goto rate_ok_admit split: if_splits)
qed (use assms in \<open>auto intro!: rate_ok_goto split: option.splits if_splits\<close>)

lemma rate_ok_step:
  assumes "rate_ok tr L" "log_step ev L = (L', os)" "sorted (tr @ admitted os)" "\<forall>t\<in>set (admitted os). t < 2 ^ 32"
  shows "rate_ok (tr @ admitted os) L'"
proof (cases ev)
  case (Run i secs ms b)
  show ?thesis
  proof (cases "i < length (threads L)")
    case True
    then have "swap_ok (threads L ! i)" using assms(1) by (auto simp: rate_ok_def list_all_length)
    with assms True Run show ?thesis using rate_ok_resume by (simp add: log_step_def)
  qed (use assms Run in \<open>simp add: log_step_def\<close>)
next
  case (Call i msg)
  with assms show ?thesis by (auto simp: log_step_def log_call_def rate_ok_goto split: option.splits bool.splits if_splits)
qed (use assms in \<open>auto simp: log_step_def set_log_dir_def writer_turn_def elim!: rate_ok_cong split: list.splits if_splits\<close>)

lemma rate_ok_run:
  assumes "rate_ok tr L" "log_run evs L = (L', os)" "sorted (tr @ admitted os)" "\<forall>t\<in>set (admitted os). t < 2 ^ 32"
  shows "rate_ok (tr @ admitted os) L'"
  using assms
proof (induction evs arbitrary: tr L os)
  case (Cons ev evs)
  obtain L1 o1 where s: "log_step ev L = (L1, o1)" by fastforce
  obtain o2 where r: "log_run evs L1 = (L', o2)" and os: "os = o1 @ o2" using Cons.prems(2) s by (auto split: prod.splits)
  have "rate_ok (tr @ admitted o1) L1"
    using rate_ok_step[OF Cons.prems(1) s] Cons.prems(3,4) by (simp add: os sorted_append)
  from Cons.IH[OF this r] Cons.prems(3,4) show ?case by (simp add: os)
qed simp

lemma start_fields [simp]: "drop_count (log_start n) = 0" "rate_drop_count (log_start n) = 0" "threads (log_start n) = replicate n Idle"
  by (simp_all add: log_start_def)

lemma tot_pc_start: "f Idle = 0 \<Longrightarrow> tot_pc f (log_start n) = 0"
  by (induction n) (simp_all add: tot_pc_def)

lemma tot_pc_rest: "f Idle = 0 \<Longrightarrow> f Panicked = 0 \<Longrightarrow> \<forall>p\<in>set (threads L). p = Idle \<or> p = Panicked \<Longrightarrow> tot_pc f L = 0"
  by (auto simp: tot_pc_def)

text \<open>What the clipboard gets is the end of the file, at most \<^const>\<open>TAIL_MAX\<close> bytes of it.\<close>

lemma tail_of_suffix: "\<exists>k. tail_of file = drop k file \<and> length (tail_of file) \<le> TAIL_MAX"
proof -
  define n where "n = length file - TAIL_MAX"
  have t: "tl (drop k xs) = drop (Suc k) xs" for k and xs :: string by (simp add: drop_Suc drop_tl)
  have "(case dropWhile (\<lambda>c. c \<noteq> lf) b of [] \<Rightarrow> b | _ # r \<Rightarrow> r) \<in> {b, tl (dropWhile (\<lambda>c. c \<noteq> lf) b)}" for b
    by (simp split: list.split)
  then have "\<exists>k. tail_of file = drop k (drop n file)"
    unfolding tail_of_def Let_def n_def[symmetric] by (metis (no_types, lifting) dropWhile_eq_drop drop_0 drop_drop t insertE singletonD)
  then obtain k where "tail_of file = drop (k + n) file" by auto
  then show ?thesis by (intro exI[of _ "k + n"]) (simp add: n_def)
qed

subsection \<open>Properties\<close>


text \<open>C38: as long as no thread commits an older second after a newer one, at most fifty messages that are not exempt
  are let through in any second.\<close>

theorem rate_limit_per_second:
  assumes "log_run evs (log_start n) = (L, os)" "sorted (admitted os)" "\<forall>s\<in>set (admitted os). s < 2 ^ 32"
  shows "count_list (admitted os) t \<le> 50"
proof -
  have "rate_ok [] (log_start n)"
    by (auto simp: rate_ok_def log_start_def pack_def list_all_iff intro!: exI[of _ "0 :: u64"])
  from rate_ok_run[OF this assms(1)] assms(2,3) show ?thesis by (simp add: rate_ok_def)
qed

text \<open>C39: when all threads have come to rest, every message lost to a full queue and every message refused by the limit is
  accounted for: by a line that was queued and says so, or by a counter that the next line reports.\<close>

theorem losses_reported:
  assumes "log_run evs (log_start n) = (L, os)" "length evs < 2 ^ 64" "\<forall>p\<in>set (threads L). p = Idle \<or> p = Panicked"
  shows "sum_list (map overflow_lost os) \<le> sum_list (map drops_told os) + unat (drop_count L)
    \<and> sum_list (map refused_lost os) \<le> sum_list (map rate_told os) + unat (rate_drop_count L)"
  using drops.run_balance[OF assms(1)] rates.run_balance[OF assms(1)] assms(2)
    tot_pc_rest[OF _ _ assms(3)] tot_pc_start[of drop_owed n] tot_pc_start[of drop_claimed n] tot_pc_start[of rate_owed n] tot_pc_start[of rate_claimed n]
  by simp

lemma boot_trim: "begins_with ''boot:'' msg \<Longrightarrow> trim_start msg = msg"
proof -
  assume "begins_with ''boot:'' msg"
  then obtain w where "msg = CHR ''b'' # CHR ''o'' # w" by (cases msg; cases "tl msg") auto
  then have "dropWhile is_ws (chars msg) = chars msg" by (simp add: is_ws_def whitespace_def is_cont_def)
  then show ?thesis by (simp add: trim_start_def)
qed

text \<open>C40: with logging on, a message whose fifth byte is inside a character ends the calling thread with a panic.\<close>

theorem log_panics_inside_character:
  assumes "i < length (threads L)" "threads L ! i = Idle"
  shows "threads (fst (log_step (Call i msg) L)) ! i = Panicked \<longleftrightarrow> log_enabled L
    \<and> \<not> begins_with ''boot:'' (trim_start msg) \<and> 5 < length (trim_start msg) \<and> is_cont (trim_start msg ! 5)"
  using assms boot_trim[of msg]
  by (auto simp: log_step_def log_call_def rate_exempt_def is_char_boundary_def Let_def split: option.splits bool.splits)

subsection \<open>The properties at work\<close>

definition demo_log :: "log_event list" where
  "demo_log = [SetDir True, Enable True, Call 0 ''ann@b.org velta://chat?t=5'', Run 0 7 1 False, Run 0 7 1 False, Run 0 7 1 False, Run 0 7 1 False,
     Run 0 7 1 False, Run 0 7 1 False, Run 0 7 1 False, Run 0 7 1 False, Run 0 7 1 False]"

definition demo_line :: string where
  "demo_line = ''[7.001] ann@*** velta://chat?t='' @ ellipsis @ [lf]"

lemma demo_trace: "snd (log_run demo_log (log_start 1)) = [Admitted 7, Sent demo_line 0 0]"
  by code_simp

lemma demo_rest: "threads (fst (log_run demo_log (log_start 1))) = [Idle]"
  by code_simp


lemma demo_log_run: "log_run demo_log (log_start 1) = (fst (log_run demo_log (log_start 1)), [Admitted 7, Sent demo_line 0 0])"
  by (metis demo_trace prod.collapse)

lemma demo_short: "length demo_log < 2 ^ 64"
  by (simp add: demo_log_def)

theorem rate_limit_per_second_witness: "count_list (admitted [Admitted 7, Sent demo_line 0 0]) 7 \<le> 50"
  using rate_limit_per_second[OF demo_log_run, of 7] by simp

theorem losses_reported_witness:
  "sum_list (map overflow_lost [Admitted 7, Sent demo_line 0 0])
      \<le> sum_list (map drops_told [Admitted 7, Sent demo_line 0 0]) + unat (drop_count (fst (log_run demo_log (log_start 1))))
    \<and> sum_list (map refused_lost [Admitted 7, Sent demo_line 0 0])
      \<le> sum_list (map rate_told [Admitted 7, Sent demo_line 0 0]) + unat (rate_drop_count (fst (log_run demo_log (log_start 1))))"
  by (rule losses_reported[OF demo_log_run demo_short]) (simp add: demo_rest del: One_nat_def)

text \<open>The Cyrillic letters of a greeting, two bytes each.\<close>

theorem log_panics_inside_character_witness:
  "threads (fst (log_step (Call 0 [CHR 0xD0, CHR 0x9F, CHR 0xD1, CHR 0x80, CHR 0xD0, CHR 0xB8]) ((log_start 1)\<lparr>log_enabled := True\<rparr>))) ! 0 = Panicked"
proof -
  have t: "trim_start [CHR 0xD0, CHR 0x9F, CHR 0xD1, CHR 0x80, CHR 0xD0, CHR 0xB8] = [CHR 0xD0, CHR 0x9F, CHR 0xD1, CHR 0x80, CHR 0xD0, CHR 0xB8]"
    by code_simp
  have c: "is_cont (CHR 0xB8)" by code_simp
  show ?thesis
    by (subst log_panics_inside_character) (simp_all only: t, simp_all add: c)
qed

end
